(* ===== verification/Prelude.thy ===== *)
theory Prelude
  imports Main "HOL-Library.Word"
begin

text \<open>
  The vocabulary every component of the development shares.

  \<^item> Machine integers: Rust's \<^verbatim>\<open>u8\<close>, \<^verbatim>\<open>u16\<close>, \<^verbatim>\<open>u32\<close>, \<^verbatim>\<open>u64\<close> are words of that width, a
    \<^verbatim>\<open>usize\<close> that counts elements of a slice is a \<open>nat\<close> (a slice is never longer than
    \<^verbatim>\<open>isize::MAX\<close>, so the sums of lengths the code forms do not wrap).
  \<^item> \<^verbatim>\<open>Result<T, E>\<close> is a sum with the error on the left; the \<^verbatim>\<open>?\<close> operator is \<open>res_bind\<close>.
  \<^item> A method \<^verbatim>\<open>fn(&mut self) -> Result<T, E>\<close> is an \<open>action\<close>: it returns its result and the new
    state, and the state it reached when it fails is kept, as it is in Rust.
  \<^item> Little- and big-endian byte strings, slices cut with \<^verbatim>\<open>chunks\<close>, searches over ranges.
\<close>

section \<open>Integers and byte strings\<close>

unbundle bit_operations_syntax

type_synonym u8 = "8 word"
type_synonym u16 = "16 word"
type_synonym u32 = "32 word"
type_synonym u64 = "64 word"
type_synonym bytes = "u8 list"

named_theorems le_simps \<open>conversions between integers and their byte strings\<close>
named_theorems preserves_intros \<open>rules that compose invariant-preserving actions\<close>

text \<open>\<^verbatim>\<open>uN::to_le_bytes\<close> restricted to the first \<open>n\<close> bytes and \<^verbatim>\<open>uN::from_le_bytes\<close>.\<close>

definition to_le_bytes :: "nat \<Rightarrow> 'a::len word \<Rightarrow> bytes" where
  "to_le_bytes n w = map (\<lambda>i. ucast (drop_bit (8 * i) w)) [0..<n]"

fun from_le_bytes :: "bytes \<Rightarrow> 'a::len word" where
  "from_le_bytes [] = 0"
| "from_le_bytes (b # bs) = ucast b OR push_bit 8 (from_le_bytes bs)"

definition to_be_bytes :: "nat \<Rightarrow> 'a::len word \<Rightarrow> bytes" where
  "to_be_bytes n w = rev (to_le_bytes n w)"

definition from_be_bytes :: "bytes \<Rightarrow> 'a::len word" where
  "from_be_bytes bs = from_le_bytes (rev bs)"

lemma length_to_le_bytes [simp]: "length (to_le_bytes n w) = n"
  by (simp add: to_le_bytes_def)

lemma length_to_be_bytes [simp]: "length (to_be_bytes n w) = n"
  by (simp add: to_be_bytes_def)

lemma to_le_bytes_0 [simp]: "to_le_bytes 0 w = []"
  by (simp add: to_le_bytes_def)

lemma to_le_bytes_Suc:
  "to_le_bytes (Suc n) w = ucast w # to_le_bytes n (drop_bit 8 w)"
proof -
  have "to_le_bytes (Suc n) w = ucast w # map (\<lambda>i. ucast (drop_bit (8 * Suc i) w)) [0..<n]"
    by (simp add: to_le_bytes_def map_upt_Suc del: upt_Suc)
  then show ?thesis
    by (simp add: to_le_bytes_def algebra_simps)
qed

lemma from_le_to_le_take:
  "from_le_bytes (to_le_bytes n w) = take_bit (8 * n) w"
proof (induction n arbitrary: w)
  case 0
  then show ?case by simp
next
  case (Suc n)
  show ?case
    unfolding to_le_bytes_Suc from_le_bytes.simps Suc.IH
    by (rule bit_word_eqI) (auto simp: bit_simps not_less)
qed

lemma from_le_to_le [simp]:
  "LENGTH('a) \<le> 8 * n \<Longrightarrow> from_le_bytes (to_le_bytes n (w :: 'a::len word)) = w"
  by (simp add: from_le_to_le_take take_bit_word_eq_self)

lemma to_le_from_le [simp]:
  "8 * length bs \<le> LENGTH('a) \<Longrightarrow> n = length bs \<Longrightarrow>
   to_le_bytes n (from_le_bytes bs :: 'a::len word) = bs"
proof (induction bs arbitrary: n)
  case Nil
  then show ?case by simp
next
  case (Cons b bs)
  have low: "ucast (from_le_bytes (b # bs) :: 'a word) = b"
    using Cons.prems by (intro bit_word_eqI) (auto simp: bit_simps)
  have high: "drop_bit 8 (from_le_bytes (b # bs) :: 'a word)
      = take_bit (LENGTH('a) - 8) (from_le_bytes bs)"
    by (rule bit_word_eqI) (use Cons.prems in \<open>auto simp: bit_simps dest: bit_imp_le_length\<close>)
  have eq: "to_le_bytes (length bs) (take_bit (LENGTH('a) - 8) (from_le_bytes bs :: 'a word))
      = to_le_bytes (length bs) (from_le_bytes bs :: 'a word)"
    unfolding to_le_bytes_def
    by (rule map_cong [OF refl], rule bit_word_eqI) (use Cons.prems in \<open>auto simp: bit_simps\<close>)
  show ?case
    using Cons low high eq by (simp add: to_le_bytes_Suc)
qed

lemma from_be_to_be [simp]:
  "LENGTH('a) \<le> 8 * n \<Longrightarrow> from_be_bytes (to_be_bytes n (w :: 'a::len word)) = w"
  by (simp add: from_be_bytes_def to_be_bytes_def)

lemma to_be_from_be [simp]:
  "8 * length bs \<le> LENGTH('a) \<Longrightarrow> n = length bs \<Longrightarrow>
   to_be_bytes n (from_be_bytes bs :: 'a::len word) = bs"
  by (simp add: from_be_bytes_def to_be_bytes_def)

text \<open>The 16-bit forms, written with their two bytes as the code indexes them.\<close>

definition le16_bytes :: "u16 \<Rightarrow> bytes" where
  "le16_bytes w = [ucast w, ucast (drop_bit 8 w)]"

definition le16_of :: "u8 \<Rightarrow> u8 \<Rightarrow> u16" where
  "le16_of a b = ucast a OR push_bit 8 (ucast b)"

lemma le16_bytes_conv: "le16_bytes w = to_le_bytes 2 w"
  by (simp add: le16_bytes_def to_le_bytes_Suc numeral_2_eq_2)

lemma le16_of_conv: "le16_of a b = from_le_bytes [a, b]"
  by (simp add: le16_of_def)

lemma length_le16_bytes [simp]: "length (le16_bytes w) = 2"
  by (simp add: le16_bytes_def)

lemma le16_of_bytes [simp, le_simps]: "le16_of (ucast w) (ucast (drop_bit 8 w)) = w"
proof -
  have "from_le_bytes (to_le_bytes 2 w) = w" by simp
  then show ?thesis by (simp add: le16_of_def to_le_bytes_Suc numeral_2_eq_2)
qed

lemma le16_bytes_of [simp, le_simps]: "le16_bytes (le16_of a b) = [a, b]"
  using to_le_from_le [of "[a, b]" 2, where 'a = 16]
  by (simp add: le16_bytes_conv le16_of_def)

lemma le16_of_nth [simp, le_simps]:
  "le16_of (le16_bytes w ! 0) (le16_bytes w ! Suc 0) = w"
  by (simp add: le16_bytes_def)

lemma le16_bytes_nth [simp]:
  "le16_bytes w ! 0 = ucast w" "le16_bytes w ! Suc 0 = ucast (drop_bit 8 w)"
  by (simp_all add: le16_bytes_def)

lemma le16_bytes_inject [simp]: "le16_bytes v = le16_bytes w \<longleftrightarrow> v = w"
  by (metis le16_of_bytes le16_bytes_nth)

lemma unat_of_nat_u8 [simp]: "n < 256 \<Longrightarrow> unat (of_nat n :: u8) = n"
  by (simp add: unat_of_nat take_bit_eq_mod)

lemma unat_of_nat_u16 [simp]: "n < 65536 \<Longrightarrow> unat (of_nat n :: u16) = n"
  by (simp add: unat_of_nat take_bit_eq_mod)

lemma unat_u8_less: "unat (w :: u8) < 256"
  using unsigned_less [of w] by simp

lemma unat_u16_less: "unat (w :: u16) < 65536"
  using unsigned_less [of w] by simp

lemma small_word_bits:
  fixes w :: "'a::len word"
  assumes "unat w < 2 ^ k" and "bit w n"
  shows "n < k"
proof (rule ccontr)
  assume "\<not> n < k"
  then have "(2 :: nat) ^ k \<le> 2 ^ n" by simp
  with assms(1) have "unat w < 2 ^ n" by linarith
  then have "unat w div 2 ^ n = 0" by simp
  moreover from assms(2) have "bit (unat w) n"
    by (simp add: bit_unsigned_iff)
  ultimately show False by (simp add: bit_iff_odd)
qed

section \<open>Results and stateful actions\<close>

type_synonym ('a, 'e) result = "'e + 'a"

definition res_bind :: "('a, 'e) result \<Rightarrow> ('a \<Rightarrow> ('b, 'e) result) \<Rightarrow> ('b, 'e) result" where
  "res_bind r f = (case r of Inl e \<Rightarrow> Inl e | Inr x \<Rightarrow> f x)"

definition map_err :: "('e \<Rightarrow> 'f) \<Rightarrow> ('a, 'e) result \<Rightarrow> ('a, 'f) result" where
  "map_err g r = (case r of Inl e \<Rightarrow> Inl (g e) | Inr x \<Rightarrow> Inr x)"

definition ok_or :: "'e \<Rightarrow> 'a option \<Rightarrow> ('a, 'e) result" where
  "ok_or e x = (case x of None \<Rightarrow> Inl e | Some v \<Rightarrow> Inr v)"

lemma res_bind_simps [simp]:
  "res_bind (Inl e) f = Inl e" "res_bind (Inr x) f = f x"
  by (simp_all add: res_bind_def)

lemma res_bind_eq_Inr: "res_bind r f = Inr y \<longleftrightarrow> (\<exists>x. r = Inr x \<and> f x = Inr y)"
  by (cases r) auto

lemma map_err_simps [simp]:
  "map_err g (Inl e) = Inl (g e)" "map_err g (Inr x) = Inr x"
  by (simp_all add: map_err_def)

lemma map_err_eq_Inr [simp]: "map_err g r = Inr x \<longleftrightarrow> r = Inr x"
  by (cases r) auto

lemma ok_or_simps [simp]: "ok_or e None = Inl e" "ok_or e (Some v) = Inr v"
  by (simp_all add: ok_or_def)

lemma ok_or_eq_Inr [simp]: "ok_or e x = Inr v \<longleftrightarrow> x = Some v"
  by (cases x) auto

type_synonym ('s, 'a, 'e) action = "'s \<Rightarrow> ('a, 'e) result \<times> 's"

definition act_ok :: "'a \<Rightarrow> ('s, 'a, 'e) action" where
  "act_ok x s = (Inr x, s)"

definition act_err :: "'e \<Rightarrow> ('s, 'a, 'e) action" where
  "act_err e s = (Inl e, s)"

definition act_bind ::
  "('s, 'a, 'e) action \<Rightarrow> ('a \<Rightarrow> ('s, 'b, 'e) action) \<Rightarrow> ('s, 'b, 'e) action" where
  "act_bind m f s = (case m s of (Inl e, s') \<Rightarrow> (Inl e, s') | (Inr x, s') \<Rightarrow> f x s')"

definition act_then ::
  "('s, 'a, 'e) action \<Rightarrow> ('s, 'b, 'e) action \<Rightarrow> ('s, 'b, 'e) action" where
  "act_then m k = act_bind m (\<lambda>_. k)"

definition act_modify :: "('s \<Rightarrow> 's) \<Rightarrow> ('s, unit, 'e) action" where
  "act_modify f s = (Inr (), f s)"

definition act_lift :: "('a, 'e) result \<Rightarrow> ('s, 'a, 'e) action" where
  "act_lift r s = (r, s)"

text \<open>\<^verbatim>\<open>for x in xs { body(x)?; }\<close>.\<close>

fun act_each :: "('x \<Rightarrow> ('s, unit, 'e) action) \<Rightarrow> 'x list \<Rightarrow> ('s, unit, 'e) action" where
  "act_each f [] = act_ok ()"
| "act_each f (x # xs) = act_then (f x) (act_each f xs)"

lemma act_simps [simp]:
  "act_ok x s = (Inr x, s)" "act_err e s = (Inl e, s)"
  "act_modify g s = (Inr (), g s)" "act_lift r s = (r, s)"
  by (simp_all add: act_ok_def act_err_def act_modify_def act_lift_def)

lemma act_bind_cases:
  obtains (Err) e t where "m s = (Inl e, t)" "act_bind m f s = (Inl e, t)"
    | (Ok) x t where "m s = (Inr x, t)" "act_bind m f s = f x t"
  by (cases "m s"; cases "fst (m s)") (auto simp: act_bind_def)

lemma act_bind_Inr: "m s = (Inr x, t) \<Longrightarrow> act_bind m f s = f x t"
  by (simp add: act_bind_def)

lemma act_bind_Inl: "m s = (Inl e, t) \<Longrightarrow> act_bind m f s = (Inl e, t)"
  by (simp add: act_bind_def)

lemma act_then_Inr: "m s = (Inr x, t) \<Longrightarrow> act_then m k s = k t"
  by (simp add: act_then_def act_bind_def)

lemma act_then_Inl: "m s = (Inl e, t) \<Longrightarrow> act_then m k s = (Inl e, t)"
  by (simp add: act_then_def act_bind_def)

lemma act_bind_lift [simp]:
  "act_bind (act_lift (Inr x)) f s = f x s" "act_bind (act_lift (Inl e)) f s = (Inl e, s)"
  by (simp_all add: act_bind_def)

lemma act_bind_prim [simp]:
  "act_bind (act_ok x) f s = f x s" "act_bind (act_err e) f s = (Inl e, s)"
  "act_bind (act_modify g) h s = h () (g s)"
  by (simp_all add: act_bind_def)

lemma act_then_lift [simp]:
  "act_then (act_lift (Inr x)) k s = k s" "act_then (act_lift (Inl e)) k s = (Inl e, s)"
  by (simp_all add: act_then_def)

lemma act_then_prim [simp]:
  "act_then (act_ok x) k s = k s" "act_then (act_err e) k s = (Inl e, s)"
  "act_then (act_modify g) k s = k (g s)"
  by (simp_all add: act_then_def)

lemma act_then_unit [simp]: "act_then m (act_ok ()) = m"
  by (rule ext) (simp add: act_then_def act_bind_def split: prod.split sum.split)

lemma act_bind_Ok_iff: "act_bind m f s = (Inr x, t) \<longleftrightarrow> (\<exists>y s'. m s = (Inr y, s') \<and> f y s' = (Inr x, t))"
  by (auto simp: act_bind_def split: prod.splits sum.splits)

lemma act_then_Ok_iff: "act_then m k s = (Inr x, t) \<longleftrightarrow> (\<exists>y s'. m s = (Inr y, s') \<and> k s' = (Inr x, t))"
  by (simp add: act_then_def act_bind_Ok_iff)

text \<open>\<^verbatim>\<open>map_err\<close> on the result of a call.\<close>

definition act_map_err :: "('e \<Rightarrow> 'f) \<Rightarrow> ('s, 'a, 'e) action \<Rightarrow> ('s, 'a, 'f) action" where
  "act_map_err f m s = (let (r, s') = m s in (map_err f r, s'))"

lemma act_map_err_Ok_iff [simp]: "act_map_err f m s = (Inr x, t) \<longleftrightarrow> m s = (Inr x, t)"
  by (auto simp: act_map_err_def Let_def split: prod.split)

text \<open>An action keeps a state predicate whether it succeeds or fails.\<close>

definition preserves :: "('s \<Rightarrow> bool) \<Rightarrow> ('s, 'a, 'e) action \<Rightarrow> bool" where
  "preserves I m \<longleftrightarrow> (\<forall>s. I s \<longrightarrow> I (snd (m s)))"

lemma preservesI [intro?]: "(\<And>s. I s \<Longrightarrow> I (snd (m s))) \<Longrightarrow> preserves I m"
  by (simp add: preserves_def)

lemma preservesD: "preserves I m \<Longrightarrow> I s \<Longrightarrow> I (snd (m s))"
  by (simp add: preserves_def)

lemma preserves_ok [simp, preserves_intros]: "preserves I (act_ok x)"
  by (simp add: preserves_def)

lemma preserves_err [simp, preserves_intros]: "preserves I (act_err e)"
  by (simp add: preserves_def)

lemma preserves_lift [simp, preserves_intros]: "preserves I (act_lift r)"
  by (simp add: preserves_def)

lemma preserves_bind [preserves_intros]:
  assumes "preserves I m" and "\<And>x. preserves I (f x)"
  shows "preserves I (act_bind m f)"
proof
  fix s assume s: "I s"
  show "I (snd (act_bind m f s))"
  proof (cases rule: act_bind_cases [of m s f])
    case (Err e t)
    then show ?thesis using preservesD [OF assms(1) s] by simp
  next
    case (Ok x t)
    then show ?thesis using preservesD [OF assms(1) s] preservesD [OF assms(2)] by simp
  qed
qed

lemma preserves_then [preserves_intros]:
  "preserves I m \<Longrightarrow> preserves I k \<Longrightarrow> preserves I (act_then m k)"
  by (simp add: act_then_def preserves_bind)

lemma preserves_modify [preserves_intros]:
  "(\<And>s. I s \<Longrightarrow> I (g s)) \<Longrightarrow> preserves I (act_modify g)"
  by (simp add: preserves_def)

lemma preserves_each [preserves_intros]:
  "(\<And>x. x \<in> set xs \<Longrightarrow> preserves I (f x)) \<Longrightarrow> preserves I (act_each f xs)"
  by (induction xs) (auto intro: preserves_then)

lemma preserves_if [preserves_intros]:
  "preserves I a \<Longrightarrow> preserves I b \<Longrightarrow> preserves I (if c then a else b)"
  by simp

text \<open>\<^verbatim>\<open>iter.collect::<Result<Vec<_>, _>>()\<close>: the first error wins.\<close>

fun collect_results :: "('a, 'e) result list \<Rightarrow> ('a list, 'e) result" where
  "collect_results [] = Inr []"
| "collect_results (r # rs) = res_bind r (\<lambda>x. res_bind (collect_results rs) (\<lambda>xs. Inr (x # xs)))"

lemma collect_results_map_Inr [simp]: "collect_results (map (\<lambda>x. Inr (f x)) xs) = Inr (map f xs)"
  by (induction xs) auto

section \<open>Slices\<close>

text \<open>\<^verbatim>\<open>slice.chunks(n)\<close>; the code never calls it with 0, where Rust panics.\<close>

function chunks :: "nat \<Rightarrow> 'a list \<Rightarrow> 'a list list" where
  "chunks n xs = (if n = 0 \<or> xs = [] then [] else take n xs # chunks n (drop n xs))"
  by pat_completeness auto
termination
  by (relation "measure (\<lambda>(n, xs). length xs)") auto

declare chunks.simps [simp del]

lemma chunks_Nil [simp]: "chunks n [] = []"
  by (simp add: chunks.simps)

lemma chunks_step: "0 < n \<Longrightarrow> xs \<noteq> [] \<Longrightarrow> chunks n xs = take n xs # chunks n (drop n xs)"
  by (subst chunks.simps) simp

lemma chunks_short: "0 < n \<Longrightarrow> xs \<noteq> [] \<Longrightarrow> length xs \<le> n \<Longrightarrow> chunks n xs = [xs]"
  by (simp add: chunks_step)

lemma chunks_eq_Nil [simp]: "chunks n xs = [] \<longleftrightarrow> n = 0 \<or> xs = []"
  by (subst chunks.simps) simp

lemma concat_chunks [simp]: "0 < n \<Longrightarrow> concat (chunks n xs) = xs"
proof (induction n xs rule: chunks.induct)
  case (1 n xs)
  then show ?case
    by (cases "xs = []") (simp_all add: chunks_step)
qed

lemma chunks_elem: "c \<in> set (chunks n xs) \<Longrightarrow> c \<noteq> [] \<and> length c \<le> n"
proof (induction n xs rule: chunks.induct)
  case (1 n xs)
  then show ?case
    by (subst (asm) (2) chunks.simps) (auto split: if_splits)
qed

text \<open>The body that follows a header of four bytes.\<close>

lemma drop_take_header [simp]: "drop 4 (take (4 + n) (a # b # c # d # xs)) = take n xs"
  by (simp add: numeral_eq_Suc)

text \<open>\<^verbatim>\<open>slice.chunks_exact(2)\<close>, the only exact width the code uses on pairs.\<close>

fun pairs_exact :: "'a list \<Rightarrow> ('a \<times> 'a) list" where
  "pairs_exact (a # b # xs) = (a, b) # pairs_exact xs"
| "pairs_exact _ = []"

text \<open>\<^verbatim>\<open>(lo..=hi).step_by(step).find(p)\<close>.\<close>

function range_find :: "(nat \<Rightarrow> bool) \<Rightarrow> nat \<Rightarrow> nat \<Rightarrow> nat \<Rightarrow> nat option" where
  "range_find p lo hi step =
     (if hi < lo \<or> step = 0 then None
      else if p lo then Some lo else range_find p (lo + step) hi step)"
  by pat_completeness auto
termination
  by (relation "measure (\<lambda>(p, lo, hi, step). Suc hi - lo)") auto

declare range_find.simps [simp del]

lemma range_find_hit: "lo \<le> hi \<Longrightarrow> 0 < step \<Longrightarrow> p lo \<Longrightarrow> range_find p lo hi step = Some lo"
  by (subst range_find.simps) simp

lemma range_find_miss:
  "lo \<le> hi \<Longrightarrow> 0 < step \<Longrightarrow> \<not> p lo \<Longrightarrow>
   range_find p lo hi step = range_find p (lo + step) hi step"
  by (subst range_find.simps) simp

lemma range_find_Some:
  "range_find p lo hi step = Some i \<Longrightarrow> p i \<and> lo \<le> i \<and> i \<le> hi \<and> step dvd i - lo"
proof (induction p lo hi step rule: range_find.induct)
  case (1 p lo hi step)
  show ?case
  proof (cases "hi < lo \<or> step = 0 \<or> p lo")
    case True
    then show ?thesis using "1.prems" by (subst (asm) range_find.simps) (auto split: if_splits)
  next
    case False
    then have "range_find p (lo + step) hi step = Some i"
      using "1.prems" by (subst (asm) range_find.simps) simp
    with False have *: "p i \<and> lo + step \<le> i \<and> i \<le> hi \<and> step dvd i - (lo + step)"
      using "1.IH" by blast
    then have "i - lo = (i - (lo + step)) + step" by simp
    with * show ?thesis by (metis add_leD1 dvd_add dvd_refl)
  qed
qed

lemma range_find_None:
  "range_find p lo hi 1 = None \<Longrightarrow> lo \<le> i \<Longrightarrow> i \<le> hi \<Longrightarrow> \<not> p i"
proof (induction p lo hi "1::nat" rule: range_find.induct)
  case (1 p lo hi)
  show ?case
  proof (cases "i = lo")
    case True
    then show ?thesis using "1.prems" by (subst (asm) range_find.simps) (auto split: if_splits)
  next
    case False
    from "1.prems" have "\<not> p lo \<and> range_find p (lo + 1) hi 1 = None"
      by (subst (asm) range_find.simps) (auto split: if_splits)
    with False "1.prems" "1.hyps" show ?thesis by auto
  qed
qed

end
