(* ===== verification/Interfaces.thy ===== *)
theory Interfaces
  imports Prelude
begin

text \<open>
  The contracts between components, as locales.

  \<^item> \<open>wire_codec\<close>: an encoder and a decoder of one message type, the decoder inverting the encoder
    on well-formed messages; \<open>strict_codec\<close> adds that a decoder accepts canonical encodings only.
  \<^item> \<open>stream_codec\<close>: a decoder that reads one message off the front of a buffer.
  \<^item> \<open>ordered_map\<close>: what the code relies on of \<^verbatim>\<open>std::collections::BTreeMap\<close>, provided by the
    association lists sorted by key defined here.
  \<^item> \<open>guarded_machine\<close>: a state machine whose operations keep an invariant, over whole runs;
    \<open>panic_free_machine\<close> adds that no call from a state of the invariant ends in a panic.
\<close>

section \<open>Codecs\<close>

locale wire_codec =
  fixes enc :: "'a \<Rightarrow> bytes"
    and dec :: "bytes \<Rightarrow> ('a, 'e) result"
    and wf :: "'a \<Rightarrow> bool"
  assumes dec_enc: "wf x \<Longrightarrow> dec (enc x) = Inr x"
begin

lemma enc_eq_iff: "wf x \<Longrightarrow> wf y \<Longrightarrow> enc x = enc y \<longleftrightarrow> x = y"
  by (metis dec_enc sum.inject(2))

lemma enc_inj_on: "inj_on enc {x. wf x}"
  by (auto simp: inj_on_def enc_eq_iff)

end

locale strict_codec = wire_codec +
  assumes enc_dec: "dec b = Inr x \<Longrightarrow> wf x \<and> enc x = b"
begin

lemma dec_iff: "dec b = Inr x \<longleftrightarrow> wf x \<and> enc x = b"
  using dec_enc enc_dec by blast

lemma dec_canonical: "dec b = Inr x \<Longrightarrow> dec c = Inr x \<Longrightarrow> b = c"
  using enc_dec by blast

lemma dec_rejects_iff: "(\<exists>e. dec b = Inl e) \<longleftrightarrow> b \<notin> enc ` {x. wf x}"
proof (cases "dec b")
  case (Inl e)
  then have "\<forall>x. dec b \<noteq> Inr x" by simp
  then show ?thesis using Inl by (auto simp: dec_enc)
next
  case (Inr x)
  then show ?thesis using enc_dec by force
qed

end

locale stream_codec =
  fixes enc :: "'a \<Rightarrow> bytes"
    and dec :: "bytes \<Rightarrow> ('a \<times> bytes, 'e) result"
    and wf :: "'a \<Rightarrow> bool"
  assumes dec_prefix: "wf x \<Longrightarrow> dec (enc x @ r) = Inr (x, r)"
begin

lemma prefix_free: "wf x \<Longrightarrow> wf y \<Longrightarrow> enc x @ r = enc y @ t \<Longrightarrow> x = y \<and> r = t"
  by (metis dec_prefix prod.inject sum.inject(2))

end

section \<open>Ordered maps\<close>

text \<open>
  \<^verbatim>\<open>BTreeMap<K, V>\<close>: an association list strictly sorted by key, so that iteration is in key order
  and every operation computes.
\<close>

type_synonym ('k, 'v) btree = "('k \<times> 'v) list"

definition bt_get :: "('k, 'v) btree \<Rightarrow> 'k \<Rightarrow> 'v option" where
  "bt_get m k = map_of m k"

fun bt_insert :: "'k::linorder \<Rightarrow> 'v \<Rightarrow> ('k, 'v) btree \<Rightarrow> ('k, 'v) btree" where
  "bt_insert k v [] = [(k, v)]"
| "bt_insert k v ((k', v') # m) =
     (if k < k' then (k, v) # (k', v') # m
      else if k = k' then (k, v) # m
      else (k', v') # bt_insert k v m)"

definition bt_remove :: "'k \<Rightarrow> ('k, 'v) btree \<Rightarrow> ('k, 'v) btree" where
  "bt_remove k m = filter (\<lambda>e. fst e \<noteq> k) m"

definition bt_contains :: "('k, 'v) btree \<Rightarrow> 'k \<Rightarrow> bool" where
  "bt_contains m k \<longleftrightarrow> bt_get m k \<noteq> None"

definition bt_keys :: "('k, 'v) btree \<Rightarrow> 'k list" where
  "bt_keys m = map fst m"

definition bt_ok :: "('k::linorder, 'v) btree \<Rightarrow> bool" where
  "bt_ok m \<longleftrightarrow> sorted_wrt (<) (map fst m)"

locale ordered_map =
  fixes empty :: "'m"
    and get :: "'m \<Rightarrow> 'k::linorder \<Rightarrow> 'v option"
    and insert_at :: "'k \<Rightarrow> 'v \<Rightarrow> 'm \<Rightarrow> 'm"
    and remove_at :: "'k \<Rightarrow> 'm \<Rightarrow> 'm"
    and entries :: "'m \<Rightarrow> ('k \<times> 'v) list"
    and inv :: "'m \<Rightarrow> bool"
  assumes inv_empty: "inv empty"
    and inv_insert: "inv m \<Longrightarrow> inv (insert_at k v m)"
    and inv_remove: "inv m \<Longrightarrow> inv (remove_at k m)"
    and get_empty: "get empty k = None"
    and get_insert: "inv m \<Longrightarrow> get (insert_at k v m) k' = (if k' = k then Some v else get m k')"
    and get_remove: "inv m \<Longrightarrow> get (remove_at k m) k' = (if k' = k then None else get m k')"
    and entries_get: "inv m \<Longrightarrow> (k, v) \<in> set (entries m) \<longleftrightarrow> get m k = Some v"
    and entries_sorted: "inv m \<Longrightarrow> sorted_wrt (<) (map fst (entries m))"
begin

lemma insert_overwrites: "inv m \<Longrightarrow> get (insert_at k v (insert_at k w m)) k' = get (insert_at k v m) k'"
  by (simp add: get_insert inv_insert)

lemma remove_insert: "inv m \<Longrightarrow> get m k = None \<Longrightarrow> get (remove_at k (insert_at k v m)) k' = get m k'"
  by (simp add: get_insert get_remove inv_insert)

lemma keys_distinct: "inv m \<Longrightarrow> distinct (map fst (entries m))"
  using entries_sorted strict_sorted_iff by blast

lemma keys_iff: "inv m \<Longrightarrow> k \<in> fst ` set (entries m) \<longleftrightarrow> get m k \<noteq> None"
  by (auto simp: image_iff entries_get Bex_def)

end

lemma bt_keys_insert: "fst ` set (bt_insert k v m) = insert k (fst ` set m)"
  by (induction k v m rule: bt_insert.induct) auto

lemma bt_ok_Nil [simp]: "bt_ok []"
  by (simp add: bt_ok_def)

lemma bt_ok_Cons [simp]: "bt_ok (e # m) \<longleftrightarrow> (\<forall>k \<in> fst ` set m. fst e < k) \<and> bt_ok m"
  by (auto simp: bt_ok_def)

lemma bt_ok_insert [simp]: "bt_ok m \<Longrightarrow> bt_ok (bt_insert k v m)"
  by (induction k v m rule: bt_insert.induct) (auto simp: bt_keys_insert dest: order.strict_trans)

lemma bt_ok_remove [simp]: "bt_ok m \<Longrightarrow> bt_ok (bt_remove k m)"
  by (induction m) (auto simp: bt_remove_def)

lemma bt_get_Nil [simp]: "bt_get [] k = None"
  by (simp add: bt_get_def)

lemma bt_get_notin: "k \<notin> fst ` set m \<Longrightarrow> bt_get m k = None"
  by (simp add: bt_get_def map_of_eq_None_iff)

lemma bt_get_insert [simp]:
  "bt_ok m \<Longrightarrow> bt_get (bt_insert k v m) k' = (if k' = k then Some v else bt_get m k')"
proof (induction m)
  case (Cons e m)
  then have "bt_get m k = None" if "k < fst e"
    using that by (intro bt_get_notin) force
  with Cons show ?case
    by (cases e) (auto simp: bt_get_def)
qed (simp add: bt_get_def)

lemma bt_get_remove [simp]:
  "bt_get (bt_remove k m) k' = (if k' = k then None else bt_get m k')"
  by (induction m) (auto simp: bt_get_def bt_remove_def)

lemma bt_get_in_set: "bt_get m k = Some v \<Longrightarrow> (k, v) \<in> set m"
  by (simp add: bt_get_def map_of_SomeD)

lemma bt_in_set_get: "bt_ok m \<Longrightarrow> (k, v) \<in> set m \<Longrightarrow> bt_get m k = Some v"
  by (simp add: bt_get_def bt_ok_def map_of_is_SomeI strict_sorted_iff)

lemma bt_entries_get: "bt_ok m \<Longrightarrow> (k, v) \<in> set m \<longleftrightarrow> bt_get m k = Some v"
  using bt_get_in_set bt_in_set_get by fast

lemma bt_set_insert:
  "bt_ok m \<Longrightarrow> set (bt_insert k v m) = insert (k, v) {e \<in> set m. fst e \<noteq> k}"
  by (induction k v m rule: bt_insert.induct) (force split: if_splits)+

interpretation bt: ordered_map "[]" bt_get bt_insert bt_remove "\<lambda>m. m" bt_ok
  by unfold_locales (simp_all add: bt_entries_get, simp add: bt_ok_def)

lemma bt_insert_same_keys: "bt_ok m \<Longrightarrow> bt_get m k \<noteq> None \<Longrightarrow> map fst (bt_insert k v m) = map fst m"
proof (induction m)
  case (Cons e m)
  then have "bt_get m k = None" if "k < fst e"
    using that by (intro bt_get_notin) force
  with Cons show ?case
    by (cases e) (auto simp: bt_get_def split: if_splits)
qed simp

section \<open>State machines with an invariant\<close>

locale guarded_machine =
  fixes start :: "'s \<Rightarrow> bool"
    and step :: "'s \<Rightarrow> 'i \<Rightarrow> 's"
    and inv :: "'s \<Rightarrow> bool"
  assumes inv_start: "start s \<Longrightarrow> inv s"
    and inv_step: "inv s \<Longrightarrow> inv (step s i)"
begin

lemma inv_run: "inv s \<Longrightarrow> inv (foldl step s is)"
  by (induction "is" arbitrary: s) (auto simp: inv_step)

lemma inv_reachable: "start s \<Longrightarrow> inv (foldl step s is)"
  by (simp add: inv_run inv_start)

end

locale panic_free_machine = guarded_machine +
  fixes call :: "'a \<Rightarrow> 'b \<Rightarrow> 'r \<times> 'a"
    and panicked :: "'r \<Rightarrow> bool"
  assumes step_call: "step s i = snd (call s i)"
    and call_returns: "inv s \<Longrightarrow> \<not> panicked (fst (call s i))"
begin

lemma never_panics: "start s \<Longrightarrow> \<not> panicked (fst (call (foldl step s is) i))"
  by (simp add: call_returns inv_reachable)

lemma run_call: "foldl step s (is @ [i]) = snd (call (foldl step s is) i)"
  by (simp add: step_call)

end

section \<open>Progress under fairness\<close>

text \<open>
  A transition system in which the steps of one agent, \<open>work\<close>, lower a rank that no step raises, as long as a stable
  condition holds. The client's law: on a run that does not neglect the agent for ever the rank reaches zero.
\<close>

locale ranked_progress =
  fixes move :: "'s \<Rightarrow> 's \<Rightarrow> bool"
    and work :: "'s \<Rightarrow> 's \<Rightarrow> bool"
    and stable :: "'s \<Rightarrow> bool"
    and rank :: "'s \<Rightarrow> nat"
  assumes stable_move: "stable s \<Longrightarrow> move s s' \<Longrightarrow> stable s' \<and> rank s' \<le> rank s"
    and rank_work: "stable s \<Longrightarrow> work s s' \<Longrightarrow> rank s' < rank s"
begin

lemma run_stable: "stable (\<sigma> 0) \<Longrightarrow> (\<And>n. move (\<sigma> n) (\<sigma> (Suc n))) \<Longrightarrow> stable (\<sigma> n)"
  by (induction n) (auto dest: stable_move)

lemma run_reaches:
  assumes "stable (\<sigma> 0)" "\<And>n. move (\<sigma> n) (\<sigma> (Suc n))"
    and "\<And>n. \<exists>m \<ge> n. rank (\<sigma> m) = 0 \<or> work (\<sigma> m) (\<sigma> (Suc m))"
  shows "\<exists>m. rank (\<sigma> m) = 0"
proof -
  have stable: "stable (\<sigma> n)" for n using assms(1,2) by (rule run_stable)
  have later: "rank (\<sigma> m) \<le> rank (\<sigma> n)" if "n \<le> m" for n m
    using that by (induction rule: dec_induct) (use stable_move [OF stable assms(2)] le_trans in blast)+
  have "\<exists>m. rank (\<sigma> m) = 0" if "rank (\<sigma> n) = r" for n r
    using that
  proof (induction r arbitrary: n rule: less_induct)
    case (less r)
    obtain m where m: "n \<le> m" "rank (\<sigma> m) = 0 \<or> work (\<sigma> m) (\<sigma> (Suc m))" using assms(3) by blast
    show ?case
    proof (cases "rank (\<sigma> m) = 0")
      case False
      with m(2) have "rank (\<sigma> (Suc m)) < rank (\<sigma> m)" using rank_work [OF stable] by blast
      with later [OF m(1)] less.prems have "rank (\<sigma> (Suc m)) < r" by simp
      then show ?thesis using less.IH by blast
    qed blast
  qed
  then show ?thesis by blast
qed

end

end
