(* ===== verification/Hci.thy ===== *)
theory Hci
  imports Interfaces
begin

text \<open>
  The HCI packet layer of \<^verbatim>\<open>src/src/hci.rs\<close>: command, event and ACL packets with their strict framing,
  the fragmentation of an L2CAP PDU into ACL packets and the reassembly of the fragments per
  connection handle.
\<close>

section \<open>Packets and their codec\<close>

datatype codec_error =
    EmptyPacket
  | UnsupportedPacketType u8
  | Truncated string
  | TrailingBytes nat nat
  | ParameterTooLong nat nat
  | InvalidConnectionHandle u16
  | InvalidPacketBoundary u8
  | InvalidBroadcastFlag u8
  | InvalidL2capPdu
  | UnexpectedContinuation u16
  | ContinuationOverflow nat nat

abbreviation (input) COMMAND_PACKET_TYPE :: u8 where "COMMAND_PACKET_TYPE \<equiv> 0x01"
abbreviation (input) ACL_PACKET_TYPE :: u8 where "ACL_PACKET_TYPE \<equiv> 0x02"
abbreviation (input) EVENT_PACKET_TYPE :: u8 where "EVENT_PACKET_TYPE \<equiv> 0x04"
abbreviation (input) ACL_HANDLE_MASK :: u16 where "ACL_HANDLE_MASK \<equiv> 0x0FFF"
abbreviation (input) ACL_BOUNDARY_MASK :: u16 where "ACL_BOUNDARY_MASK \<equiv> 0x0003"
abbreviation (input) ACL_BROADCAST_MASK :: u16 where "ACL_BROADCAST_MASK \<equiv> 0x0003"
abbreviation (input) ACL_FIRST_NON_FLUSHABLE :: u8 where "ACL_FIRST_NON_FLUSHABLE \<equiv> 0"
abbreviation (input) ACL_CONTINUATION :: u8 where "ACL_CONTINUATION \<equiv> 1"
abbreviation (input) ACL_FIRST_FLUSHABLE :: u8 where "ACL_FIRST_FLUSHABLE \<equiv> 2"

record command_packet =
  cmd_opcode :: u16
  cmd_parameters :: bytes

record event_packet =
  ev_event_code :: u8
  ev_parameters :: bytes

record acl_packet =
  acl_connection_handle :: u16
  acl_packet_boundary :: u8
  acl_broadcast_flag :: u8
  acl_data :: bytes

datatype packet = Command command_packet | Event event_packet | Acl acl_packet

definition require_packet_type :: "bytes \<Rightarrow> u8 \<Rightarrow> (unit, codec_error) result" where
  "require_packet_type packet expected = (case packet of
       [] \<Rightarrow> Inl EmptyPacket
     | actual # _ \<Rightarrow> if actual = expected then Inr () else Inl (UnsupportedPacketType actual))"

definition validate_u8_length :: "nat \<Rightarrow> (unit, codec_error) result" where
  "validate_u8_length actual =
     (if actual \<le> 255 then Inr () else Inl (ParameterTooLong actual 255))"

definition validate_exact_length :: "nat \<Rightarrow> nat \<Rightarrow> (unit, codec_error) result" where
  "validate_exact_length actual expected =
     (if actual < expected then Inl (Truncated ''payload'')
      else if actual > expected then Inl (TrailingBytes expected actual)
      else Inr ())"

definition command_new :: "u16 \<Rightarrow> bytes \<Rightarrow> (command_packet, codec_error) result" where
  "command_new opcode parameters =
     res_bind (validate_u8_length (length parameters))
       (\<lambda>_. Inr \<lparr>cmd_opcode = opcode, cmd_parameters = parameters\<rparr>)"

definition command_from_bytes :: "bytes \<Rightarrow> (command_packet, codec_error) result" where
  "command_from_bytes packet =
     res_bind (require_packet_type packet COMMAND_PACKET_TYPE) (\<lambda>_.
     if length packet < 4 then Inl (Truncated ''command'')
     else res_bind (validate_exact_length (length packet) (4 + unat (packet ! 3))) (\<lambda>_.
       command_new (le16_of (packet ! 1) (packet ! 2)) (drop 4 packet)))"

definition command_to_bytes :: "command_packet \<Rightarrow> bytes" where
  "command_to_bytes c =
     [COMMAND_PACKET_TYPE] @ le16_bytes (cmd_opcode c) @ [of_nat (length (cmd_parameters c))]
       @ cmd_parameters c"

definition event_new :: "u8 \<Rightarrow> bytes \<Rightarrow> (event_packet, codec_error) result" where
  "event_new event_code parameters =
     res_bind (validate_u8_length (length parameters))
       (\<lambda>_. Inr \<lparr>ev_event_code = event_code, ev_parameters = parameters\<rparr>)"

definition event_from_bytes :: "bytes \<Rightarrow> (event_packet, codec_error) result" where
  "event_from_bytes packet =
     res_bind (require_packet_type packet EVENT_PACKET_TYPE) (\<lambda>_.
     if length packet < 3 then Inl (Truncated ''event'')
     else res_bind (validate_exact_length (length packet) (3 + unat (packet ! 2))) (\<lambda>_.
       event_new (packet ! 1) (drop 3 packet)))"

definition event_to_bytes :: "event_packet \<Rightarrow> bytes" where
  "event_to_bytes e =
     [EVENT_PACKET_TYPE, ev_event_code e, of_nat (length (ev_parameters e))] @ ev_parameters e"

definition acl_new :: "u16 \<Rightarrow> u8 \<Rightarrow> u8 \<Rightarrow> bytes \<Rightarrow> (acl_packet, codec_error) result" where
  "acl_new connection_handle packet_boundary broadcast_flag data =
     (if connection_handle > ACL_HANDLE_MASK then Inl (InvalidConnectionHandle connection_handle)
      else if ucast packet_boundary > ACL_BOUNDARY_MASK
        then Inl (InvalidPacketBoundary packet_boundary)
      else if ucast broadcast_flag > ACL_BROADCAST_MASK
        then Inl (InvalidBroadcastFlag broadcast_flag)
      else if length data > 65535 then Inl (ParameterTooLong (length data) 65535)
      else Inr \<lparr>acl_connection_handle = connection_handle, acl_packet_boundary = packet_boundary,
        acl_broadcast_flag = broadcast_flag, acl_data = data\<rparr>)"

definition acl_from_bytes :: "bytes \<Rightarrow> (acl_packet, codec_error) result" where
  "acl_from_bytes packet =
     res_bind (require_packet_type packet ACL_PACKET_TYPE) (\<lambda>_.
     if length packet < 5 then Inl (Truncated ''ACL packet'')
     else let header = le16_of (packet ! 1) (packet ! 2);
              data_length = unat (le16_of (packet ! 3) (packet ! 4)) in
       res_bind (validate_exact_length (length packet) (5 + data_length)) (\<lambda>_.
       acl_new (header AND ACL_HANDLE_MASK)
         (ucast (drop_bit 12 header AND ACL_BOUNDARY_MASK))
         (ucast (drop_bit 14 header AND ACL_BROADCAST_MASK))
         (drop 5 packet)))"

definition acl_to_bytes :: "acl_packet \<Rightarrow> bytes" where
  "acl_to_bytes a =
     (let header = acl_connection_handle a
        OR push_bit 12 (ucast (acl_packet_boundary a))
        OR push_bit 14 (ucast (acl_broadcast_flag a)) in
      [ACL_PACKET_TYPE] @ le16_bytes header @ le16_bytes (of_nat (length (acl_data a)))
        @ acl_data a)"

definition packet_from_bytes :: "bytes \<Rightarrow> (packet, codec_error) result" where
  "packet_from_bytes packet = (case packet of
       [] \<Rightarrow> Inl EmptyPacket
     | packet_type # _ \<Rightarrow>
         if packet_type = COMMAND_PACKET_TYPE
           then res_bind (command_from_bytes packet) (\<lambda>c. Inr (Command c))
         else if packet_type = EVENT_PACKET_TYPE
           then res_bind (event_from_bytes packet) (\<lambda>e. Inr (Event e))
         else if packet_type = ACL_PACKET_TYPE
           then res_bind (acl_from_bytes packet) (\<lambda>a. Inr (Acl a))
         else Inl (UnsupportedPacketType packet_type))"

fun packet_to_bytes :: "packet \<Rightarrow> bytes" where
  "packet_to_bytes (Command c) = command_to_bytes c"
| "packet_to_bytes (Event e) = event_to_bytes e"
| "packet_to_bytes (Acl a) = acl_to_bytes a"

section \<open>Fragmentation and reassembly of L2CAP PDUs\<close>

definition fragment_l2cap_pdu ::
  "u16 \<Rightarrow> u8 \<Rightarrow> nat \<Rightarrow> bytes \<Rightarrow> bool \<Rightarrow> (acl_packet list, codec_error) result" where
  "fragment_l2cap_pdu connection_handle broadcast_flag acl_payload_size pdu flushable =
     (if acl_payload_size = 0 \<or> length pdu < 4 then Inl InvalidL2capPdu
      else let payload_length = unat (le16_of (pdu ! 0) (pdu ! 1)) in
        if payload_length + 4 \<noteq> length pdu then Inl InvalidL2capPdu
        else collect_results (map (\<lambda>(index, data).
          acl_new connection_handle
            (if index = 0 then (if flushable then ACL_FIRST_FLUSHABLE else ACL_FIRST_NON_FLUSHABLE)
             else ACL_CONTINUATION)
            broadcast_flag data)
          (enumerate 0 (chunks acl_payload_size pdu))))"

record pending_acl =
  pa_expected :: nat
  pa_data :: bytes

record acl_assembler =
  asm_pending :: "(u16, pending_acl) btree"

definition assembler_default :: acl_assembler where
  "assembler_default = \<lparr>asm_pending = []\<rparr>"

definition feed :: "acl_packet \<Rightarrow> (acl_assembler, bytes option, codec_error) action" where
  "feed packet asm =
     (let handle = acl_connection_handle packet; dat = acl_data packet in
      if acl_packet_boundary packet = ACL_CONTINUATION then
        (case bt_get (asm_pending asm) handle of
           None \<Rightarrow> (Inl (UnexpectedContinuation handle), asm)
         | Some pend \<Rightarrow>
             let pend' = pend\<lparr>pa_data := pa_data pend @ dat\<rparr>;
                 kept = asm\<lparr>asm_pending := bt_insert handle pend' (asm_pending asm)\<rparr>;
                 removed = asm\<lparr>asm_pending := bt_remove handle (asm_pending asm)\<rparr> in
             if length (pa_data pend') > pa_expected pend'
               then (Inl (ContinuationOverflow (pa_expected pend') (length (pa_data pend'))), removed)
             else if length (pa_data pend') = pa_expected pend'
               then (Inr (Some (pa_data pend')), removed)
             else (Inr None, kept))
      else if length dat < 4 then (Inl InvalidL2capPdu, asm)
      else let expected = unat (le16_of (dat ! 0) (dat ! 1)) + 4 in
        if length dat > expected then (Inl (ContinuationOverflow expected (length dat)), asm)
        else if length dat = expected
          then (Inr (Some dat), asm\<lparr>asm_pending := bt_remove handle (asm_pending asm)\<rparr>)
        else (Inr None, asm\<lparr>asm_pending :=
                bt_insert handle \<lparr>pa_expected = expected, pa_data = dat\<rparr> (asm_pending asm)\<rparr>))"

definition clear_handle :: "u16 \<Rightarrow> acl_assembler \<Rightarrow> acl_assembler" where
  "clear_handle connection_handle asm =
     asm\<lparr>asm_pending := bt_remove connection_handle (asm_pending asm)\<rparr>"

section \<open>Well-formed packets\<close>

definition command_wf :: "command_packet \<Rightarrow> bool" where
  "command_wf c \<longleftrightarrow> length (cmd_parameters c) \<le> 255"

definition event_wf :: "event_packet \<Rightarrow> bool" where
  "event_wf e \<longleftrightarrow> length (ev_parameters e) \<le> 255"

definition acl_wf :: "acl_packet \<Rightarrow> bool" where
  "acl_wf a \<longleftrightarrow> acl_connection_handle a \<le> ACL_HANDLE_MASK \<and> acl_packet_boundary a \<le> 3
     \<and> acl_broadcast_flag a \<le> 3 \<and> length (acl_data a) \<le> 65535"

fun packet_wf :: "packet \<Rightarrow> bool" where
  "packet_wf (Command c) = command_wf c"
| "packet_wf (Event e) = event_wf e"
| "packet_wf (Acl a) = acl_wf a"

lemmas hci_defs = command_from_bytes_def command_to_bytes_def command_new_def
  event_from_bytes_def event_to_bytes_def event_new_def
  require_packet_type_def validate_u8_length_def validate_exact_length_def

lemma command_dec_enc: "command_wf c \<Longrightarrow> command_from_bytes (command_to_bytes c) = Inr c"
  by (simp add: hci_defs command_wf_def le16_bytes_def)

lemma event_dec_enc: "event_wf e \<Longrightarrow> event_from_bytes (event_to_bytes e) = Inr e"
  by (simp add: hci_defs event_wf_def)

lemma four_bytes: "4 \<le> length xs \<Longrightarrow> \<exists>a b c d r. xs = a # b # c # d # r"
  by (auto simp: numeral_eq_Suc Suc_le_length_iff)

lemma command_enc_dec:
  assumes "command_from_bytes b = Inr c"
  shows "command_wf c \<and> command_to_bytes c = b"
proof -
  have "4 \<le> length b"
    using assms by (auto simp: hci_defs split: if_splits list.splits)
  then obtain t lo hi n r where b: "b = t # lo # hi # n # r"
    using four_bytes by blast
  with assms have "t = 1" "length r = unat n"
    "c = \<lparr>cmd_opcode = le16_of lo hi, cmd_parameters = r\<rparr>"
    by (auto simp: hci_defs res_bind_eq_Inr split: if_splits)
  with b show ?thesis
    using unat_u8_less [of n] by (simp add: command_wf_def command_to_bytes_def)
qed

lemma event_enc_dec:
  assumes "event_from_bytes b = Inr e"
  shows "event_wf e \<and> event_to_bytes e = b"
proof -
  have "3 \<le> length b"
    using assms by (auto simp: hci_defs split: if_splits list.splits)
  then obtain t c n r where b: "b = t # c # n # r"
    by (auto simp: numeral_eq_Suc Suc_le_length_iff)
  with assms have "t = 4" "length r = unat n"
    "e = \<lparr>ev_event_code = c, ev_parameters = r\<rparr>"
    by (auto simp: hci_defs res_bind_eq_Inr split: if_splits)
  with b show ?thesis
    using unat_u8_less [of n] by (simp add: event_wf_def event_to_bytes_def)
qed

text \<open>The ACL header packs a 12-bit handle and two 2-bit flags into one little-endian word.\<close>

definition acl_header :: "u16 \<Rightarrow> u8 \<Rightarrow> u8 \<Rightarrow> u16" where
  "acl_header h pb bf = h OR push_bit 12 (ucast pb) OR push_bit 14 (ucast bf)"

lemma acl_masks: "(0x0FFF :: u16) = mask 12" "(0x0003 :: u16) = mask 2"
  by (simp_all add: mask_eq_exp_minus_1)

lemma acl_header_fields:
  assumes "h \<le> ACL_HANDLE_MASK" "pb \<le> 3" "bf \<le> 3"
  shows "acl_header h pb bf AND ACL_HANDLE_MASK = h"
    and "ucast (drop_bit 12 (acl_header h pb bf) AND ACL_BOUNDARY_MASK) = pb"
    and "ucast (drop_bit 14 (acl_header h pb bf) AND ACL_BROADCAST_MASK) = bf"
proof -
  from assms have h: "bit h n \<Longrightarrow> n < 12" and pb: "bit pb n \<Longrightarrow> n < 2" and bf: "bit bf n \<Longrightarrow> n < 2" for n
    by (auto simp: word_le_nat_alt intro: small_word_bits [of h 12] small_word_bits [of pb 2]
        small_word_bits [of bf 2])
  show "acl_header h pb bf AND ACL_HANDLE_MASK = h"
    "ucast (drop_bit 12 (acl_header h pb bf) AND ACL_BOUNDARY_MASK) = pb"
    "ucast (drop_bit 14 (acl_header h pb bf) AND ACL_BROADCAST_MASK) = bf"
    unfolding acl_masks acl_header_def
    by (rule bit_word_eqI, force simp: bit_simps dest: h pb bf)+
qed

lemma acl_header_split:
  "acl_header (w AND ACL_HANDLE_MASK) (ucast (drop_bit 12 w AND ACL_BOUNDARY_MASK))
     (ucast (drop_bit 14 w AND ACL_BROADCAST_MASK)) = w"
proof (rule bit_word_eqI)
  fix n assume "n < LENGTH(16)"
  then consider "n < 12" | "n = 12" | "n = 13" | "n = 14" | "n = 15" by force
  then show "bit (acl_header (w AND ACL_HANDLE_MASK) (ucast (drop_bit 12 w AND ACL_BOUNDARY_MASK))
     (ucast (drop_bit 14 w AND ACL_BROADCAST_MASK))) n = bit w n"
    unfolding acl_masks acl_header_def by cases (simp_all add: bit_simps)
qed

lemma acl_header_bounds:
  "w AND ACL_HANDLE_MASK \<le> ACL_HANDLE_MASK"
  "(ucast (w AND ACL_BOUNDARY_MASK) :: u8) \<le> 3"
proof -
  show "w AND ACL_HANDLE_MASK \<le> ACL_HANDLE_MASK" by (rule word_and_le1)
  have "unat (w AND 3) \<le> 3"
    using word_and_le1 [of w 3] by (simp add: word_le_nat_alt)
  then show "(ucast (w AND ACL_BOUNDARY_MASK) :: u8) \<le> 3"
    by (simp add: word_le_nat_alt unsigned_ucast_eq take_bit_eq_mod)
qed


lemma acl_to_bytes_eq:
  "acl_to_bytes a =
     [ACL_PACKET_TYPE] @ le16_bytes (acl_header (acl_connection_handle a) (acl_packet_boundary a)
       (acl_broadcast_flag a)) @ le16_bytes (of_nat (length (acl_data a))) @ acl_data a"
  by (simp add: acl_to_bytes_def acl_header_def Let_def)

lemma ucast_u8_le_3: "(ucast (x :: u8) :: u16) > 3 \<longleftrightarrow> \<not> x \<le> 3"
  by (simp add: word_le_nat_alt word_less_nat_alt unsigned_ucast_eq take_bit_eq_mod
      unat_u8_less [THEN order.strict_trans2] not_le)

lemma acl_new_eq:
  "acl_new h pb bf d = Inr a \<longleftrightarrow>
     a = \<lparr>acl_connection_handle = h, acl_packet_boundary = pb, acl_broadcast_flag = bf, acl_data = d\<rparr>
     \<and> acl_wf a"
  by (auto simp: acl_new_def acl_wf_def ucast_u8_le_3 not_less)

lemma acl_dec_enc:
  assumes "acl_wf a"
  shows "acl_from_bytes (acl_to_bytes a) = Inr a"
proof -
  from assms have "acl_connection_handle a \<le> ACL_HANDLE_MASK" "acl_packet_boundary a \<le> 3"
    "acl_broadcast_flag a \<le> 3" "length (acl_data a) < 65536"
    by (simp_all add: acl_wf_def)
  with assms show ?thesis
    by (simp add: acl_from_bytes_def acl_to_bytes_eq require_packet_type_def le16_bytes_def
        validate_exact_length_def acl_header_fields acl_new_eq)
qed

lemma acl_enc_dec:
  assumes "acl_from_bytes b = Inr a"
  shows "acl_wf a \<and> acl_to_bytes a = b"
proof -
  have "5 \<le> length b"
    using assms by (auto simp: acl_from_bytes_def require_packet_type_def split: if_splits list.splits)
  then obtain t h0 h1 n0 n1 r where b: "b = t # h0 # h1 # n0 # n1 # r"
    by (auto simp: numeral_eq_Suc Suc_le_length_iff)
  let ?w = "le16_of h0 h1"
  from assms b have "t = 2" "length r = unat (le16_of n0 n1)" and wf: "acl_wf a"
    and a: "a = \<lparr>acl_connection_handle = ?w AND ACL_HANDLE_MASK,
      acl_packet_boundary = ucast (drop_bit 12 ?w AND ACL_BOUNDARY_MASK),
      acl_broadcast_flag = ucast (drop_bit 14 ?w AND ACL_BROADCAST_MASK), acl_data = r\<rparr>"
    by (auto simp: acl_from_bytes_def require_packet_type_def validate_exact_length_def acl_new_eq
        Let_def res_bind_eq_Inr split: if_splits)
  then show ?thesis
    by (simp add: b acl_to_bytes_eq acl_header_split)
qed

lemma packet_dec_enc: "packet_wf p \<Longrightarrow> packet_from_bytes (packet_to_bytes p) = Inr p"
  using command_dec_enc event_dec_enc acl_dec_enc
  by (cases p) (simp_all add: packet_from_bytes_def command_to_bytes_def event_to_bytes_def
      acl_to_bytes_eq)

lemma packet_enc_dec: "packet_from_bytes b = Inr p \<Longrightarrow> packet_wf p \<and> packet_to_bytes p = b"
  using command_enc_dec event_enc_dec acl_enc_dec
  by (auto simp: packet_from_bytes_def res_bind_eq_Inr split: list.splits if_splits)

interpretation hci_packets: strict_codec packet_to_bytes packet_from_bytes packet_wf
  by unfold_locales (auto dest: packet_enc_dec simp: packet_dec_enc)


section \<open>Reassembly, one connection handle at a time\<close>

text \<open>
  The abstract reassembler of one connection: its state is the pending PDU of that handle. The
  assembler of the code keeps one such state per handle in its map and refines it.
\<close>

definition feed_one ::
  "acl_packet \<Rightarrow> pending_acl option \<Rightarrow> (bytes option, codec_error) result \<times> pending_acl option" where
  "feed_one packet pend =
     (let dat = acl_data packet in
      if acl_packet_boundary packet = ACL_CONTINUATION then
        (case pend of
           None \<Rightarrow> (Inl (UnexpectedContinuation (acl_connection_handle packet)), None)
         | Some p \<Rightarrow>
             let whole = pa_data p @ dat in
             if length whole > pa_expected p
               then (Inl (ContinuationOverflow (pa_expected p) (length whole)), None)
             else if length whole = pa_expected p then (Inr (Some whole), None)
             else (Inr None, Some (p\<lparr>pa_data := whole\<rparr>)))
      else if length dat < 4 then (Inl InvalidL2capPdu, pend)
      else let expected = unat (le16_of (dat ! 0) (dat ! 1)) + 4 in
        if length dat > expected then (Inl (ContinuationOverflow expected (length dat)), pend)
        else if length dat = expected then (Inr (Some dat), None)
        else (Inr None, Some \<lparr>pa_expected = expected, pa_data = dat\<rparr>))"

definition pending_of :: "acl_assembler \<Rightarrow> u16 \<Rightarrow> pending_acl option" where
  "pending_of asm h = bt_get (asm_pending asm) h"

lemma feed_refines:
  assumes "bt_ok (asm_pending asm)"
  shows "fst (feed p asm) = fst (feed_one p (pending_of asm (acl_connection_handle p)))"
    and "pending_of (snd (feed p asm)) h =
      (if h = acl_connection_handle p then snd (feed_one p (pending_of asm h)) else pending_of asm h)"
    and "bt_ok (asm_pending (snd (feed p asm)))"
  using assms
  by (auto simp: feed_def feed_one_def pending_of_def Let_def split: option.split)

fun feed_all ::
  "acl_packet list \<Rightarrow> acl_assembler \<Rightarrow> (u16 \<times> (bytes option, codec_error) result) list \<times> acl_assembler"
where
  "feed_all [] asm = ([], asm)"
| "feed_all (p # ps) asm =
     (let (r, asm') = feed p asm; (rs, asm'') = feed_all ps asm' in
      ((acl_connection_handle p, r) # rs, asm''))"

fun feed_all_one ::
  "acl_packet list \<Rightarrow> pending_acl option \<Rightarrow> (bytes option, codec_error) result list \<times> pending_acl option"
where
  "feed_all_one [] pend = ([], pend)"
| "feed_all_one (p # ps) pend =
     (let (r, pend') = feed_one p pend; (rs, pend'') = feed_all_one ps pend' in (r # rs, pend''))"

text \<open>The PDUs a run delivered for one handle, in order.\<close>

definition emitted :: "(bytes option, codec_error) result \<Rightarrow> bytes list" where
  "emitted r = (case r of Inr (Some d) \<Rightarrow> [d] | _ \<Rightarrow> [])"

definition delivered :: "u16 \<Rightarrow> (u16 \<times> (bytes option, codec_error) result) list \<Rightarrow> bytes list" where
  "delivered h rs = concat (map (\<lambda>(h', r). if h' = h then emitted r else []) rs)"

definition pdus_of :: "(bytes option, codec_error) result list \<Rightarrow> bytes list" where
  "pdus_of rs = concat (map emitted rs)"

lemma emitted_simps [simp]:
  "emitted (Inr (Some d)) = [d]" "emitted (Inr None) = []" "emitted (Inl e) = []"
  by (simp_all add: emitted_def)

lemma delivered_simps [simp]:
  "delivered h [] = []"
  "delivered h ((h', r) # rs) = (if h' = h then emitted r else []) @ delivered h rs"
  by (simp_all add: delivered_def)

lemma pdus_of_simps [simp]:
  "pdus_of [] = []" "pdus_of (r # rs) = emitted r @ pdus_of rs"
  "pdus_of (rs @ ss) = pdus_of rs @ pdus_of ss" "pdus_of (replicate n (Inr None)) = []"
  by (simp_all add: pdus_of_def)

lemma feed_all_one_append:
  "feed_all_one (ps @ qs) pend =
     (let (rs, pend') = feed_all_one ps pend; (ss, pend'') = feed_all_one qs pend' in
      (rs @ ss, pend''))"
  by (induction ps arbitrary: pend) (auto simp: Let_def split: prod.split)

lemma feed_all_projects:
  assumes "bt_ok (asm_pending asm)"
  shows "delivered h (fst (feed_all ps asm))
       = pdus_of (fst (feed_all_one (filter (\<lambda>p. acl_connection_handle p = h) ps) (pending_of asm h)))"
    and "pending_of (snd (feed_all ps asm)) h
       = snd (feed_all_one (filter (\<lambda>p. acl_connection_handle p = h) ps) (pending_of asm h))"
  using assms
proof (induction ps arbitrary: asm)
  case Nil
  case 1 then show ?case by simp
  case 2 then show ?case by simp
next
  case (Cons p ps)
  {
    case 1
    then show ?case
      using Cons.IH(1) [OF feed_refines(3) [OF 1]]
      by (simp add: Let_def split_beta feed_refines(1,2) [OF 1])
  next
    case 2
    then show ?case
      using Cons.IH(2) [OF feed_refines(3) [OF 2]]
      by (simp add: Let_def split_beta feed_refines(1,2) [OF 2])
  }
qed

section \<open>Fragments of one PDU\<close>

definition complete_pdu :: "bytes \<Rightarrow> bool" where
  "complete_pdu d \<longleftrightarrow> 4 \<le> length d \<and> length d = unat (le16_of (d ! 0) (d ! 1)) + 4"

lemma complete_pdu_length: "complete_pdu d \<Longrightarrow> length d < 65540"
  using unat_u16_less [of "le16_of (d ! 0) (d ! 1)"] by (simp add: complete_pdu_def)

lemma collect_results_Inr_iff:
  "collect_results (map f xs) = Inr ys \<longleftrightarrow> list_all2 (\<lambda>x y. f x = Inr y) xs ys"
  by (induction xs arbitrary: ys)
    (auto simp: res_bind_eq_Inr list_all2_Cons1)

definition continuations :: "u16 \<Rightarrow> u8 \<Rightarrow> bytes list \<Rightarrow> acl_packet list" where
  "continuations h bf = map (\<lambda>d. \<lparr>acl_connection_handle = h,
     acl_packet_boundary = ACL_CONTINUATION, acl_broadcast_flag = bf, acl_data = d\<rparr>)"

definition first_fragment :: "u16 \<Rightarrow> u8 \<Rightarrow> bool \<Rightarrow> bytes \<Rightarrow> acl_packet" where
  "first_fragment h bf flushable d = \<lparr>acl_connection_handle = h,
     acl_packet_boundary = (if flushable then ACL_FIRST_FLUSHABLE else ACL_FIRST_NON_FLUSHABLE),
     acl_broadcast_flag = bf, acl_data = d\<rparr>"

lemma enumerate_tail_index: "(i, x) \<in> set (enumerate (Suc n) xs) \<Longrightarrow> i \<noteq> 0"
  by (auto simp: in_set_enumerate_eq)

lemma fragment_shape:
  assumes "h \<le> ACL_HANDLE_MASK" "bf \<le> 3" "0 < sz" "sz \<le> 65535" "complete_pdu pdu"
  shows "fragment_l2cap_pdu h bf sz pdu flushable =
    Inr (first_fragment h bf flushable (take sz pdu) # continuations h bf (chunks sz (drop sz pdu)))"
proof -
  define f where "f = (\<lambda>(index, data). acl_new h
            (if index = (0::nat) then (if flushable then ACL_FIRST_FLUSHABLE else ACL_FIRST_NON_FLUSHABLE)
             else ACL_CONTINUATION) bf data)"
  have head: "f (0, d) = Inr (first_fragment h bf flushable d)" if "length d \<le> sz" for d
    using assms that by (auto simp: f_def acl_new_eq first_fragment_def acl_wf_def)
  have tail: "collect_results (map f (enumerate (Suc n) cs)) = Inr (continuations h bf cs)"
    if "\<forall>c \<in> set cs. length c \<le> sz" for n cs
    using that
  proof (induction cs arbitrary: n)
    case (Cons c cs)
    have "f (Suc n, c) = Inr \<lparr>acl_connection_handle = h,
        acl_packet_boundary = ACL_CONTINUATION, acl_broadcast_flag = bf, acl_data = c\<rparr>"
      using assms Cons.prems by (auto simp: f_def acl_new_eq acl_wf_def)
    with Cons show ?case by (simp add: continuations_def)
  qed (simp add: continuations_def)
  have ne: "pdu \<noteq> []" using assms by (auto simp: complete_pdu_def)
  then have "fragment_l2cap_pdu h bf sz pdu flushable
      = collect_results (map f (enumerate 0 (chunks sz pdu)))"
    using assms by (simp add: fragment_l2cap_pdu_def complete_pdu_def f_def)
  also have "\<dots> = Inr (first_fragment h bf flushable (take sz pdu) # continuations h bf (chunks sz (drop sz pdu)))"
    using ne assms head [of "take sz pdu"] tail [of "chunks sz (drop sz pdu)" 0]
    by (simp add: chunks_step chunks_elem)
  finally show ?thesis .
qed

lemma feed_continuations:
  assumes "cs \<noteq> []" "\<forall>c \<in> set cs. c \<noteq> []" "e = length d + length (concat cs)"
  shows "feed_all_one (continuations h bf cs) (Some \<lparr>pa_expected = e, pa_data = d\<rparr>)
     = (replicate (length cs - 1) (Inr None) @ [Inr (Some (d @ concat cs))], None)"
  using assms
proof (induction cs arbitrary: d)
  case (Cons c cs)
  let ?p = "\<lparr>acl_connection_handle = h, acl_packet_boundary = ACL_CONTINUATION,
    acl_broadcast_flag = bf, acl_data = c\<rparr>"
  show ?case
  proof (cases "cs = []")
    case True
    with Cons.prems show ?thesis by (simp add: continuations_def feed_one_def)
  next
    case False
    with Cons.prems have "concat cs \<noteq> []" by (cases cs) auto
    then have "feed_one ?p (Some \<lparr>pa_expected = e, pa_data = d\<rparr>)
        = (Inr None, Some \<lparr>pa_expected = e, pa_data = d @ c\<rparr>)"
      using Cons.prems by (simp add: feed_one_def Let_def)
    moreover have "feed_all_one (continuations h bf cs) (Some \<lparr>pa_expected = e, pa_data = d @ c\<rparr>)
        = (replicate (length cs - 1) (Inr None) @ [Inr (Some ((d @ c) @ concat cs))], None)"
      using Cons.prems False by (intro Cons.IH) auto
    ultimately show ?thesis
      using False by (cases cs) (simp_all add: continuations_def)
  qed
qed simp

lemma feed_fragments:
  assumes "h \<le> ACL_HANDLE_MASK" "bf \<le> 3" "4 \<le> sz" "sz \<le> 65535" "complete_pdu pdu"
    and "fragment_l2cap_pdu h bf sz pdu flushable = Inr frags"
  shows "feed_all_one frags pend = (replicate (length frags - 1) (Inr None) @ [Inr (Some pdu)], None)"
proof -
  from assms have frags: "frags = first_fragment h bf flushable (take sz pdu)
      # continuations h bf (chunks sz (drop sz pdu))"
    using fragment_shape [of h bf sz pdu flushable] by simp
  have len: "4 \<le> length pdu" "length pdu = unat (le16_of (pdu ! 0) (pdu ! 1)) + 4"
    using assms by (simp_all add: complete_pdu_def)
  show ?thesis
  proof (cases "length pdu \<le> sz")
    case True
    then show ?thesis
      using assms len by (simp add: frags first_fragment_def continuations_def feed_one_def Let_def)
  next
    case False
    have first: "feed_one (first_fragment h bf flushable (take sz pdu)) pend
        = (Inr None, Some \<lparr>pa_expected = length pdu, pa_data = take sz pdu\<rparr>)"
      using assms len False by (simp add: first_fragment_def feed_one_def Let_def)
    have "feed_all_one (continuations h bf (chunks sz (drop sz pdu)))
          (Some \<lparr>pa_expected = length pdu, pa_data = take sz pdu\<rparr>)
        = (replicate (length (chunks sz (drop sz pdu)) - 1) (Inr None) @ [Inr (Some pdu)], None)"
      using assms False by (subst feed_continuations) (auto dest: chunks_elem)
    then show ?thesis
      using False assms
      by (cases "chunks sz (drop sz pdu)") (auto simp: frags first continuations_def)
  qed
qed


lemma feed_fragment_sequence:
  assumes "h \<le> ACL_HANDLE_MASK" "bf \<le> 3" "4 \<le> sz" "sz \<le> 65535"
    and "list_all2 (\<lambda>pdu frags. complete_pdu pdu
           \<and> fragment_l2cap_pdu h bf sz pdu flushable = Inr frags) pdus fragss"
  shows "pdus_of (fst (feed_all_one (concat fragss) pend)) = pdus"
  using assms(5)
proof (induction arbitrary: pend rule: list_all2_induct)
  case Nil
  then show ?case by simp
next
  case (Cons pdu pdus frags fragss)
  then have "feed_all_one frags pend = (replicate (length frags - 1) (Inr None) @ [Inr (Some pdu)], None)"
    using feed_fragments [OF assms(1-4)] by blast
  with Cons show ?case
    by (simp add: feed_all_one_append split_beta Let_def)
qed

section \<open>The assembler invariant\<close>

definition pending_ok :: "pending_acl \<Rightarrow> bool" where
  "pending_ok p \<longleftrightarrow> 4 \<le> length (pa_data p) \<and> length (pa_data p) < pa_expected p
     \<and> pa_expected p = unat (le16_of (pa_data p ! 0) (pa_data p ! 1)) + 4"

definition assembler_inv :: "acl_assembler \<Rightarrow> bool" where
  "assembler_inv asm \<longleftrightarrow> bt_ok (asm_pending asm) \<and> (\<forall>(h, p) \<in> set (asm_pending asm). pending_ok p)"

datatype assembler_op = Feed acl_packet | Clear u16

fun assembler_step :: "acl_assembler \<Rightarrow> assembler_op \<Rightarrow> acl_assembler" where
  "assembler_step asm (Feed p) = snd (feed p asm)"
| "assembler_step asm (Clear h) = clear_handle h asm"

lemma assembler_inv_iff:
  "assembler_inv asm \<longleftrightarrow>
     bt_ok (asm_pending asm) \<and> (\<forall>h p. pending_of asm h = Some p \<longrightarrow> pending_ok p)"
  by (auto simp: assembler_inv_def pending_of_def bt_entries_get)

lemma feed_one_ok:
  assumes "\<And>p. pend = Some p \<Longrightarrow> pending_ok p"
  shows "snd (feed_one pkt pend) = Some q \<Longrightarrow> pending_ok q"
    and "fst (feed_one pkt pend) = Inr (Some d) \<Longrightarrow> complete_pdu d"
  using assms
  by (auto simp: feed_one_def Let_def pending_ok_def complete_pdu_def nth_append
      split: if_splits option.splits)

lemma assembler_inv_feed: "assembler_inv asm \<Longrightarrow> assembler_inv (snd (feed p asm))"
  using feed_refines [of asm p] feed_one_ok(1) [of "pending_of asm (acl_connection_handle p)" p]
  by (auto simp: assembler_inv_iff split: if_splits)

lemma assembler_inv_clear: "assembler_inv asm \<Longrightarrow> assembler_inv (clear_handle h asm)"
  by (auto simp: assembler_inv_iff clear_handle_def pending_of_def split: if_splits)

interpretation assembler: guarded_machine "\<lambda>asm. asm = assembler_default" assembler_step assembler_inv
proof unfold_locales
  show "asm = assembler_default \<Longrightarrow> assembler_inv asm" for asm
    by (simp add: assembler_inv_def assembler_default_def)
  show "assembler_inv asm \<Longrightarrow> assembler_inv (assembler_step asm i)" for asm i
    by (cases i) (simp_all add: assembler_inv_feed assembler_inv_clear)
qed

lemma feed_emits_complete:
  assumes "assembler_inv asm" and "fst (feed p asm) = Inr (Some d)"
  shows "complete_pdu d"
  using assms feed_refines(1) [of asm p] feed_one_ok(2) [of "pending_of asm (acl_connection_handle p)" p]
  by (auto simp: assembler_inv_iff)

section \<open>Properties\<close>

text \<open>
  C35: the HCI codec is strict. A byte string is accepted as a packet exactly when it is the
  encoding of a well-formed packet, so decoding inverts encoding, every accepted string
  re-encodes to itself and no trailing or missing byte is tolerated.
\<close>

theorem hci_packet_strict:
  "packet_from_bytes b = Inr p \<longleftrightarrow> packet_wf p \<and> packet_to_bytes p = b"
  by (rule hci_packets.dec_iff)

text \<open>
  C19: reassembly inverts fragmentation under interleaving. If, among any stream of ACL packets,
  those of handle \<open>h\<close> are the fragments of a sequence of L2CAP PDUs (cut with a controller payload
  size of at least the 4 bytes of the L2CAP header), then whatever the other handles send and
  whatever was pending, the assembler delivers exactly those PDUs on \<open>h\<close>, in order.
\<close>

theorem acl_reassembly_roundtrip:
  assumes "bt_ok (asm_pending asm)"
    and "h \<le> ACL_HANDLE_MASK" "bf \<le> 3" "4 \<le> sz" "sz \<le> 65535"
    and "list_all2 (\<lambda>pdu frags. complete_pdu pdu
           \<and> fragment_l2cap_pdu h bf sz pdu flushable = Inr frags) pdus fragss"
    and "filter (\<lambda>p. acl_connection_handle p = h) stream = concat fragss"
  shows "delivered h (fst (feed_all stream asm)) = pdus"
  using assms feed_fragment_sequence [OF assms(2-6)] by (simp add: feed_all_projects(1))

theorem acl_reassembly_roundtrip_witness:
  "delivered 0x0042 (fst (feed_all
     [\<lparr>acl_connection_handle = 0x42, acl_packet_boundary = 0, acl_broadcast_flag = 0,
        acl_data = [2, 0, 1, 0]\<rparr>,
      \<lparr>acl_connection_handle = 0x43, acl_packet_boundary = 1, acl_broadcast_flag = 0, acl_data = [9]\<rparr>,
      \<lparr>acl_connection_handle = 0x42, acl_packet_boundary = 1, acl_broadcast_flag = 0,
        acl_data = [5, 6]\<rparr>] assembler_default)) = [[2, 0, 1, 0, 5, 6]]"
  by (rule acl_reassembly_roundtrip [where bf = 0 and sz = 4 and flushable = False
        and fragss = "[[\<lparr>acl_connection_handle = 0x42, acl_packet_boundary = 0,
            acl_broadcast_flag = 0, acl_data = [2, 0, 1, 0]\<rparr>,
          \<lparr>acl_connection_handle = 0x42, acl_packet_boundary = 1, acl_broadcast_flag = 0,
            acl_data = [5, 6]\<rparr>]]"])
    (simp_all add: assembler_default_def complete_pdu_def fragment_l2cap_pdu_def le16_of_def
      chunks_step acl_new_def)

text \<open>
  the assembler never delivers a malformed PDU. After any sequence of received packets and
  cleared handles, a PDU that \<^verbatim>\<open>feed\<close> returns has at least its 4 header bytes and exactly the
  length its header declares, and every pending entry holds strictly fewer bytes than the at most
  65539 it waits for.
\<close>

theorem assembler_reachable:
  "let asm = foldl assembler_step assembler_default ops in
     list_all (\<lambda>(h, p). 4 \<le> length (pa_data p) \<and> length (pa_data p) < pa_expected p
       \<and> pa_expected p \<le> 65539) (asm_pending asm)
     \<and> (case fst (feed pkt asm) of Inr (Some d) \<Rightarrow> complete_pdu d | _ \<Rightarrow> True)"
proof -
  let ?asm = "foldl assembler_step assembler_default ops"
  have inv: "assembler_inv ?asm" by (simp add: assembler.inv_reachable)
  have "4 \<le> length (pa_data p) \<and> length (pa_data p) < pa_expected p \<and> pa_expected p \<le> 65539"
    if "(h, p) \<in> set (asm_pending ?asm)" for h p
    using inv that unat_u16_less [of "le16_of (pa_data p ! 0) (pa_data p ! 1)"]
    by (auto simp: assembler_inv_def pending_ok_def)
  with feed_emits_complete [OF inv] show ?thesis
    by (auto simp: Let_def list_all_iff split: sum.split option.split)
qed

end
