(* ===== verification/L2cap_Codec.thy ===== *)
theory L2cap_Codec
  imports Interfaces
begin

text \<open>
  The L2CAP wire formats of \<^verbatim>\<open>src/src/l2cap/mod.rs\<close>: the frame check sequence, the variable-length
  PSM, data PDUs, signaling frames, configuration options and the local information capabilities.

  An error message that the code formats is kept as its template and the numbers it prints, so
  that two errors are equal exactly when the code's strings are.
\<close>

section \<open>Constants and errors\<close>

abbreviation (input) COMMAND_REJECT :: u8 where "COMMAND_REJECT \<equiv> 0x01"
abbreviation (input) CONNECTION_REQUEST :: u8 where "CONNECTION_REQUEST \<equiv> 0x02"
abbreviation (input) CONNECTION_RESPONSE :: u8 where "CONNECTION_RESPONSE \<equiv> 0x03"
abbreviation (input) CONFIGURE_REQUEST :: u8 where "CONFIGURE_REQUEST \<equiv> 0x04"
abbreviation (input) CONFIGURE_RESPONSE :: u8 where "CONFIGURE_RESPONSE \<equiv> 0x05"
abbreviation (input) DISCONNECTION_REQUEST :: u8 where "DISCONNECTION_REQUEST \<equiv> 0x06"
abbreviation (input) DISCONNECTION_RESPONSE :: u8 where "DISCONNECTION_RESPONSE \<equiv> 0x07"
abbreviation (input) ECHO_REQUEST :: u8 where "ECHO_REQUEST \<equiv> 0x08"
abbreviation (input) ECHO_RESPONSE :: u8 where "ECHO_RESPONSE \<equiv> 0x09"
abbreviation (input) INFORMATION_REQUEST :: u8 where "INFORMATION_REQUEST \<equiv> 0x0A"
abbreviation (input) INFORMATION_RESPONSE :: u8 where "INFORMATION_RESPONSE \<equiv> 0x0B"
abbreviation (input) CONNECTION_PARAMETER_UPDATE_REQUEST :: u8 where "CONNECTION_PARAMETER_UPDATE_REQUEST \<equiv> 0x12"
abbreviation (input) CONNECTION_PARAMETER_UPDATE_RESPONSE :: u8 where "CONNECTION_PARAMETER_UPDATE_RESPONSE \<equiv> 0x13"
abbreviation (input) LE_CREDIT_BASED_CONNECTION_REQUEST :: u8 where "LE_CREDIT_BASED_CONNECTION_REQUEST \<equiv> 0x14"
abbreviation (input) LE_CREDIT_BASED_CONNECTION_RESPONSE :: u8 where "LE_CREDIT_BASED_CONNECTION_RESPONSE \<equiv> 0x15"
abbreviation (input) LE_FLOW_CONTROL_CREDIT :: u8 where "LE_FLOW_CONTROL_CREDIT \<equiv> 0x16"
abbreviation (input) CREDIT_BASED_CONNECTION_REQUEST :: u8 where "CREDIT_BASED_CONNECTION_REQUEST \<equiv> 0x17"
abbreviation (input) CREDIT_BASED_CONNECTION_RESPONSE :: u8 where "CREDIT_BASED_CONNECTION_RESPONSE \<equiv> 0x18"
abbreviation (input) CREDIT_BASED_RECONFIGURE_REQUEST :: u8 where "CREDIT_BASED_RECONFIGURE_REQUEST \<equiv> 0x19"
abbreviation (input) CREDIT_BASED_RECONFIGURE_RESPONSE :: u8 where "CREDIT_BASED_RECONFIGURE_RESPONSE \<equiv> 0x1A"
abbreviation (input) L2CAP_SIGNALING_CID :: u16 where "L2CAP_SIGNALING_CID \<equiv> 0x0001"
abbreviation (input) L2CAP_LE_SIGNALING_CID :: u16 where "L2CAP_LE_SIGNALING_CID \<equiv> 0x0005"
abbreviation (input) L2CAP_DEFAULT_CONNECTIONLESS_MTU :: u16 where "L2CAP_DEFAULT_CONNECTIONLESS_MTU \<equiv> 1024"
abbreviation (input) INFORMATION_TYPE_CONNECTIONLESS_MTU :: u16 where "INFORMATION_TYPE_CONNECTIONLESS_MTU \<equiv> 1"
abbreviation (input) INFORMATION_TYPE_EXTENDED_FEATURES_SUPPORTED :: u16 where "INFORMATION_TYPE_EXTENDED_FEATURES_SUPPORTED \<equiv> 2"
abbreviation (input) INFORMATION_TYPE_FIXED_CHANNELS_SUPPORTED :: u16 where "INFORMATION_TYPE_FIXED_CHANNELS_SUPPORTED \<equiv> 3"
abbreviation (input) INFORMATION_RESULT_SUCCESS :: u16 where "INFORMATION_RESULT_SUCCESS \<equiv> 0"
abbreviation (input) INFORMATION_RESULT_NOT_SUPPORTED :: u16 where "INFORMATION_RESULT_NOT_SUPPORTED \<equiv> 1"
abbreviation (input) CONNECTION_SUCCESSFUL :: u16 where "CONNECTION_SUCCESSFUL \<equiv> 0"
abbreviation (input) CONNECTION_PENDING :: u16 where "CONNECTION_PENDING \<equiv> 1"
abbreviation (input) CONNECTION_REFUSED_PSM_NOT_SUPPORTED :: u16 where "CONNECTION_REFUSED_PSM_NOT_SUPPORTED \<equiv> 2"
abbreviation (input) CONNECTION_REFUSED_NO_RESOURCES_AVAILABLE :: u16 where "CONNECTION_REFUSED_NO_RESOURCES_AVAILABLE \<equiv> 4"
abbreviation (input) CONFIGURATION_SUCCESS :: u16 where "CONFIGURATION_SUCCESS \<equiv> 0"
abbreviation (input) CONFIGURATION_UNACCEPTABLE_PARAMETERS :: u16 where "CONFIGURATION_UNACCEPTABLE_PARAMETERS \<equiv> 1"
abbreviation (input) CONFIGURATION_REJECTED :: u16 where "CONFIGURATION_REJECTED \<equiv> 2"
abbreviation (input) CONFIGURATION_UNKNOWN_OPTIONS :: u16 where "CONFIGURATION_UNKNOWN_OPTIONS \<equiv> 3"
abbreviation (input) CONFIGURATION_OPTION_MTU :: u8 where "CONFIGURATION_OPTION_MTU \<equiv> 1"
abbreviation (input) CONFIGURATION_OPTION_RETRANSMISSION_AND_FLOW_CONTROL :: u8 where "CONFIGURATION_OPTION_RETRANSMISSION_AND_FLOW_CONTROL \<equiv> 4"
abbreviation (input) CONFIGURATION_OPTION_FCS :: u8 where "CONFIGURATION_OPTION_FCS \<equiv> 5"

datatype l2cap_error = InvalidPacket string "nat list"

section \<open>Frame check sequence\<close>

definition crc_bit :: "u16 \<Rightarrow> u16" where
  "crc_bit crc = (if crc AND 0x0001 \<noteq> 0 then drop_bit 1 crc XOR 0xA001 else drop_bit 1 crc)"

definition crc_byte :: "u16 \<Rightarrow> u8 \<Rightarrow> u16" where
  "crc_byte crc byte = (crc_bit ^^ 8) (crc XOR ucast byte)"

definition crc_16 :: "bytes \<Rightarrow> u16" where
  "crc_16 data = foldl crc_byte 0x0000 data"

section \<open>Protocol and service multiplexers\<close>

text \<open>The bytes above the low sixteen bits, least significant first, down to the last non-zero one.\<close>

function psm_high_bytes :: "u32 \<Rightarrow> bytes" where
  "psm_high_bytes rest =
     (if rest = 0 then [] else ucast (rest AND 0xFF) # psm_high_bytes (drop_bit 8 rest))"
  by pat_completeness auto
termination
  by (relation "measure unat") (auto simp: drop_bit_eq_div unat_div word_gt_0
      div_less_dividend unat_gt_0)

declare psm_high_bytes.simps [simp del]

definition serialize_psm :: "u32 \<Rightarrow> bytes" where
  "serialize_psm psm = le16_bytes (ucast (psm AND 0xFFFF)) @ psm_high_bytes (drop_bit 16 psm)"

text \<open>A shift amount of 32 or more is reduced modulo 32, as \<^verbatim>\<open>u32 <<\<close> does without overflow checks.\<close>

function parse_psm_loop :: "bytes \<Rightarrow> nat \<Rightarrow> nat \<Rightarrow> u32 \<Rightarrow> (nat \<times> u32, l2cap_error) result" where
  "parse_psm_loop data offset psm_length psm =
     (if data ! (offset + psm_length - 1) mod 2 = 1 then
        if offset + psm_length \<ge> length data then Inl (InvalidPacket ''truncated PSM'' [])
        else parse_psm_loop data offset (psm_length + 1)
          (psm OR push_bit (8 * psm_length mod 32) (ucast (data ! (offset + psm_length))))
      else Inr (offset + psm_length, psm))"
  by pat_completeness auto
termination
  by (relation "measure (\<lambda>(data, offset, psm_length, psm). length data - (offset + psm_length))") auto

declare parse_psm_loop.simps [simp del]

definition parse_psm :: "bytes \<Rightarrow> nat \<Rightarrow> (nat \<times> u32, l2cap_error) result" where
  "parse_psm data offset =
     (if offset + 2 > length data then Inl (InvalidPacket ''not enough data for PSM'' [])
      else parse_psm_loop data offset 2
        (ucast (data ! offset) OR push_bit 8 (ucast (data ! (offset + 1)))))"

section \<open>Data PDUs\<close>

record l2cap_pdu =
  pdu_cid :: u16
  pdu_payload :: bytes

definition pdu_new :: "u16 \<Rightarrow> bytes \<Rightarrow> l2cap_pdu" where
  "pdu_new cid payload = \<lparr>pdu_cid = cid, pdu_payload = payload\<rparr>"

definition pdu_from_bytes :: "bytes \<Rightarrow> (l2cap_pdu, l2cap_error) result" where
  "pdu_from_bytes data =
     (if length data < 4 then Inl (InvalidPacket ''not enough data for L2CAP header'' [])
      else let len = unat (le16_of (data ! 0) (data ! 1));
               cid = le16_of (data ! 2) (data ! 3);
               fin = min (4 + len) (length data) in
        Inr \<lparr>pdu_cid = cid, pdu_payload = drop 4 (take fin data)\<rparr>)"

definition pdu_to_bytes :: "l2cap_pdu \<Rightarrow> bool \<Rightarrow> bytes" where
  "pdu_to_bytes p with_fcs =
     (let len = length (pdu_payload p) + (if with_fcs then 2 else 0);
          body = le16_bytes (of_nat len) @ le16_bytes (pdu_cid p) @ pdu_payload p in
      if with_fcs then body @ le16_bytes (crc_16 body) else body)"

section \<open>Signaling frames\<close>

text \<open>The fields of every constructor are those of the code's variant, in its order.\<close>

datatype control_frame =
    CommandReject u8 u16 bytes
  | ConnectionRequest u8 u32 u16
  | ConnectionResponse u8 u16 u16 u16 u16
  | ConfigureRequest u8 u16 u16 bytes
  | ConfigureResponse u8 u16 u16 u16 bytes
  | DisconnectionRequest u8 u16 u16
  | DisconnectionResponse u8 u16 u16
  | EchoRequest u8 bytes
  | EchoResponse u8 bytes
  | InformationRequest u8 u16
  | InformationResponse u8 u16 u16 bytes
  | ConnectionParameterUpdateRequest u8 u16 u16 u16 u16
  | ConnectionParameterUpdateResponse u8 u16
  | LeCreditBasedConnectionRequest u8 u16 u16 u16 u16 u16
  | LeCreditBasedConnectionResponse u8 u16 u16 u16 u16 u16
  | LeFlowControlCredit u8 u16 u16
  | CreditBasedConnectionRequest u8 u16 u16 u16 u16 "u16 list"
  | CreditBasedConnectionResponse u8 u16 u16 u16 u16 "u16 list"
  | CreditBasedReconfigureRequest u8 u16 u16 "u16 list"
  | CreditBasedReconfigureResponse u8 u16
  | Generic u8 u8 bytes

definition read_cid_list :: "bytes \<Rightarrow> (u16 list, l2cap_error) result" where
  "read_cid_list data =
     (if \<not> 2 dvd length data then Inl (InvalidPacket ''CID list has an odd byte length'' [])
      else Inr (map (\<lambda>(a, b). le16_of a b) (pairs_exact data)))"

fun frame_code :: "control_frame \<Rightarrow> u8" where
  "frame_code (CommandReject _ _ _) = COMMAND_REJECT"
| "frame_code (ConnectionRequest _ _ _) = CONNECTION_REQUEST"
| "frame_code (ConnectionResponse _ _ _ _ _) = CONNECTION_RESPONSE"
| "frame_code (ConfigureRequest _ _ _ _) = CONFIGURE_REQUEST"
| "frame_code (ConfigureResponse _ _ _ _ _) = CONFIGURE_RESPONSE"
| "frame_code (DisconnectionRequest _ _ _) = DISCONNECTION_REQUEST"
| "frame_code (DisconnectionResponse _ _ _) = DISCONNECTION_RESPONSE"
| "frame_code (EchoRequest _ _) = ECHO_REQUEST"
| "frame_code (EchoResponse _ _) = ECHO_RESPONSE"
| "frame_code (InformationRequest _ _) = INFORMATION_REQUEST"
| "frame_code (InformationResponse _ _ _ _) = INFORMATION_RESPONSE"
| "frame_code (ConnectionParameterUpdateRequest _ _ _ _ _) = CONNECTION_PARAMETER_UPDATE_REQUEST"
| "frame_code (ConnectionParameterUpdateResponse _ _) = CONNECTION_PARAMETER_UPDATE_RESPONSE"
| "frame_code (LeCreditBasedConnectionRequest _ _ _ _ _ _) = LE_CREDIT_BASED_CONNECTION_REQUEST"
| "frame_code (LeCreditBasedConnectionResponse _ _ _ _ _ _) = LE_CREDIT_BASED_CONNECTION_RESPONSE"
| "frame_code (LeFlowControlCredit _ _ _) = LE_FLOW_CONTROL_CREDIT"
| "frame_code (CreditBasedConnectionRequest _ _ _ _ _ _) = CREDIT_BASED_CONNECTION_REQUEST"
| "frame_code (CreditBasedConnectionResponse _ _ _ _ _ _) = CREDIT_BASED_CONNECTION_RESPONSE"
| "frame_code (CreditBasedReconfigureRequest _ _ _ _) = CREDIT_BASED_RECONFIGURE_REQUEST"
| "frame_code (CreditBasedReconfigureResponse _ _) = CREDIT_BASED_RECONFIGURE_RESPONSE"
| "frame_code (Generic code _ _) = code"

fun frame_identifier :: "control_frame \<Rightarrow> u8" where
  "frame_identifier (CommandReject identifier _ _) = identifier"
| "frame_identifier (ConnectionRequest identifier _ _) = identifier"
| "frame_identifier (ConnectionResponse identifier _ _ _ _) = identifier"
| "frame_identifier (ConfigureRequest identifier _ _ _) = identifier"
| "frame_identifier (ConfigureResponse identifier _ _ _ _) = identifier"
| "frame_identifier (DisconnectionRequest identifier _ _) = identifier"
| "frame_identifier (DisconnectionResponse identifier _ _) = identifier"
| "frame_identifier (EchoRequest identifier _) = identifier"
| "frame_identifier (EchoResponse identifier _) = identifier"
| "frame_identifier (InformationRequest identifier _) = identifier"
| "frame_identifier (InformationResponse identifier _ _ _) = identifier"
| "frame_identifier (ConnectionParameterUpdateRequest identifier _ _ _ _) = identifier"
| "frame_identifier (ConnectionParameterUpdateResponse identifier _) = identifier"
| "frame_identifier (LeCreditBasedConnectionRequest identifier _ _ _ _ _) = identifier"
| "frame_identifier (LeCreditBasedConnectionResponse identifier _ _ _ _ _) = identifier"
| "frame_identifier (LeFlowControlCredit identifier _ _) = identifier"
| "frame_identifier (CreditBasedConnectionRequest identifier _ _ _ _ _) = identifier"
| "frame_identifier (CreditBasedConnectionResponse identifier _ _ _ _ _) = identifier"
| "frame_identifier (CreditBasedReconfigureRequest identifier _ _ _) = identifier"
| "frame_identifier (CreditBasedReconfigureResponse identifier _) = identifier"
| "frame_identifier (Generic _ identifier _) = identifier"

fun frame_payload :: "control_frame \<Rightarrow> bytes" where
  "frame_payload (CommandReject _ reason dat) =
     le16_bytes reason @ dat"
| "frame_payload (ConnectionRequest _ psm source_cid) =
     serialize_psm psm @ le16_bytes source_cid"
| "frame_payload (ConnectionResponse _ destination_cid source_cid res status) =
     le16_bytes destination_cid @ le16_bytes source_cid @ le16_bytes res @ le16_bytes status"
| "frame_payload (ConfigureRequest _ destination_cid flags options) =
     le16_bytes destination_cid @ le16_bytes flags @ options"
| "frame_payload (ConfigureResponse _ source_cid flags res options) =
     le16_bytes source_cid @ le16_bytes flags @ le16_bytes res @ options"
| "frame_payload (DisconnectionRequest _ destination_cid source_cid) =
     le16_bytes destination_cid @ le16_bytes source_cid"
| "frame_payload (DisconnectionResponse _ destination_cid source_cid) =
     le16_bytes destination_cid @ le16_bytes source_cid"
| "frame_payload (EchoRequest _ dat) =
     dat"
| "frame_payload (EchoResponse _ dat) =
     dat"
| "frame_payload (InformationRequest _ info_type) =
     le16_bytes info_type"
| "frame_payload (InformationResponse _ info_type res dat) =
     le16_bytes info_type @ le16_bytes res @ dat"
| "frame_payload (ConnectionParameterUpdateRequest _ interval_min interval_max latency timeout) =
     le16_bytes interval_min @ le16_bytes interval_max @ le16_bytes latency @ le16_bytes timeout"
| "frame_payload (ConnectionParameterUpdateResponse _ res) =
     le16_bytes res"
| "frame_payload (LeCreditBasedConnectionRequest _ le_psm source_cid mtu mps initial_credits) =
     le16_bytes le_psm @ le16_bytes source_cid @ le16_bytes mtu @ le16_bytes mps
       @ le16_bytes initial_credits"
| "frame_payload (LeCreditBasedConnectionResponse _ destination_cid mtu mps initial_credits res) =
     le16_bytes destination_cid @ le16_bytes mtu @ le16_bytes mps @ le16_bytes initial_credits
       @ le16_bytes res"
| "frame_payload (LeFlowControlCredit _ cid credits) =
     le16_bytes cid @ le16_bytes credits"
| "frame_payload (CreditBasedConnectionRequest _ spsm mtu mps initial_credits source_cid) =
     le16_bytes spsm @ le16_bytes mtu @ le16_bytes mps @ le16_bytes initial_credits
       @ concat (map le16_bytes source_cid)"
| "frame_payload (CreditBasedConnectionResponse _ mtu mps initial_credits res destination_cid) =
     le16_bytes mtu @ le16_bytes mps @ le16_bytes initial_credits @ le16_bytes res
       @ concat (map le16_bytes destination_cid)"
| "frame_payload (CreditBasedReconfigureRequest _ mtu mps destination_cid) =
     le16_bytes mtu @ le16_bytes mps @ concat (map le16_bytes destination_cid)"
| "frame_payload (CreditBasedReconfigureResponse _ res) =
     le16_bytes res"
| "frame_payload (Generic _ _ payload) =
     payload"

definition frame_to_bytes :: "control_frame \<Rightarrow> bytes" where
  "frame_to_bytes f =
     (let payload = frame_payload f in
      [frame_code f, frame_identifier f] @ le16_bytes (of_nat (length payload)) @ payload)"

definition need :: "bytes \<Rightarrow> nat \<Rightarrow> (unit, l2cap_error) result" where
  "need payload n =
     (if length payload < n
      then Inl (InvalidPacket ''control frame payload too short: need {n}, have {}'' [n, length payload])
      else Inr ())"

definition le16 :: "bytes \<Rightarrow> nat \<Rightarrow> u16" where
  "le16 data offset = le16_of (data ! offset) (data ! (offset + 1))"

definition parse_frame :: "u8 \<Rightarrow> u8 \<Rightarrow> bytes \<Rightarrow> (control_frame, l2cap_error) result" where
  "parse_frame code identifier payload =
     (if code = COMMAND_REJECT then
        res_bind (need payload 2) (\<lambda>_. Inr (CommandReject identifier (le16 payload 0) (drop 2 payload)))
      else if code = CONNECTION_REQUEST then
        res_bind (parse_psm payload 0) (\<lambda>(offset, psm).
          if offset + 2 > length payload then Inl (InvalidPacket ''truncated Connection_Request'' [])
          else Inr (ConnectionRequest identifier psm
            (le16_of (payload ! offset) (payload ! (offset + 1)))))
      else if code = CONNECTION_RESPONSE then
        res_bind (need payload 8) (\<lambda>_. Inr (ConnectionResponse identifier (le16 payload 0) (le16 payload 2)
          (le16 payload 4) (le16 payload 6)))
      else if code = CONFIGURE_REQUEST then
        res_bind (need payload 4) (\<lambda>_. Inr (ConfigureRequest identifier (le16 payload 0) (le16 payload 2)
          (drop 4 payload)))
      else if code = CONFIGURE_RESPONSE then
        res_bind (need payload 6) (\<lambda>_. Inr (ConfigureResponse identifier (le16 payload 0) (le16 payload 2)
          (le16 payload 4) (drop 6 payload)))
      else if code = DISCONNECTION_REQUEST then
        res_bind (need payload 4) (\<lambda>_. Inr (DisconnectionRequest identifier (le16 payload 0) (le16 payload 2)))
      else if code = DISCONNECTION_RESPONSE then
        res_bind (need payload 4) (\<lambda>_. Inr (DisconnectionResponse identifier (le16 payload 0) (le16 payload 2)))
      else if code = ECHO_REQUEST then
        Inr (EchoRequest identifier payload)
      else if code = ECHO_RESPONSE then
        Inr (EchoResponse identifier payload)
      else if code = INFORMATION_REQUEST then
        res_bind (need payload 2) (\<lambda>_. Inr (InformationRequest identifier (le16 payload 0)))
      else if code = INFORMATION_RESPONSE then
        res_bind (need payload 4) (\<lambda>_. Inr (InformationResponse identifier (le16 payload 0) (le16 payload 2)
          (drop 4 payload)))
      else if code = CONNECTION_PARAMETER_UPDATE_REQUEST then
        res_bind (need payload 8) (\<lambda>_. Inr (ConnectionParameterUpdateRequest identifier (le16 payload 0)
          (le16 payload 2) (le16 payload 4) (le16 payload 6)))
      else if code = CONNECTION_PARAMETER_UPDATE_RESPONSE then
        res_bind (need payload 2) (\<lambda>_. Inr (ConnectionParameterUpdateResponse identifier (le16 payload 0)))
      else if code = LE_CREDIT_BASED_CONNECTION_REQUEST then
        res_bind (need payload 10) (\<lambda>_. Inr (LeCreditBasedConnectionRequest identifier (le16 payload 0)
          (le16 payload 2) (le16 payload 4) (le16 payload 6) (le16 payload 8)))
      else if code = LE_CREDIT_BASED_CONNECTION_RESPONSE then
        res_bind (need payload 10) (\<lambda>_. Inr (LeCreditBasedConnectionResponse identifier (le16 payload 0)
          (le16 payload 2) (le16 payload 4) (le16 payload 6) (le16 payload 8)))
      else if code = LE_FLOW_CONTROL_CREDIT then
        res_bind (need payload 4) (\<lambda>_. Inr (LeFlowControlCredit identifier (le16 payload 0) (le16 payload 2)))
      else if code = CREDIT_BASED_CONNECTION_REQUEST then
        res_bind (need payload 8) (\<lambda>_. res_bind (read_cid_list (drop 8 payload)) (\<lambda>cids.
          Inr (CreditBasedConnectionRequest identifier (le16 payload 0) (le16 payload 2)
            (le16 payload 4) (le16 payload 6) cids)))
      else if code = CREDIT_BASED_CONNECTION_RESPONSE then
        res_bind (need payload 8) (\<lambda>_. res_bind (read_cid_list (drop 8 payload)) (\<lambda>cids.
          Inr (CreditBasedConnectionResponse identifier (le16 payload 0) (le16 payload 2)
            (le16 payload 4) (le16 payload 6) cids)))
      else if code = CREDIT_BASED_RECONFIGURE_REQUEST then
        res_bind (need payload 4) (\<lambda>_. res_bind (read_cid_list (drop 4 payload)) (\<lambda>cids.
          Inr (CreditBasedReconfigureRequest identifier (le16 payload 0) (le16 payload 2) cids)))
      else if code = CREDIT_BASED_RECONFIGURE_RESPONSE then
        res_bind (need payload 2) (\<lambda>_. Inr (CreditBasedReconfigureResponse identifier (le16 payload 0)))
      else Inr (Generic code identifier payload))"

definition frame_from_bytes :: "bytes \<Rightarrow> (control_frame, l2cap_error) result" where
  "frame_from_bytes pdu =
     (if length pdu < 4 then Inl (InvalidPacket ''not enough data for control frame'' [])
      else let code = pdu ! 0; identifier = pdu ! 1;
               len = unat (le16_of (pdu ! 2) (pdu ! 3));
               fin = min (4 + len) (length pdu);
               payload = drop 4 (take fin pdu) in
        parse_frame code identifier payload)"

section \<open>Configuration options\<close>

record configuration_option =
  option_type :: u8
  option_hint :: bool
  option_value :: bytes

definition option_new :: "u8 \<Rightarrow> bytes \<Rightarrow> configuration_option" where
  "option_new ty v = \<lparr>option_type = ty AND 0x7f, option_hint = False, option_value = v\<rparr>"

definition option_hinted :: "u8 \<Rightarrow> bytes \<Rightarrow> configuration_option" where
  "option_hinted ty v = \<lparr>option_type = ty AND 0x7f, option_hint = True, option_value = v\<rparr>"

fun encode_configuration_options :: "configuration_option list \<Rightarrow> (bytes, l2cap_error) result" where
  "encode_configuration_options [] = Inr []"
| "encode_configuration_options (opt # opts) =
     (if length (option_value opt) > 255
      then Inl (InvalidPacket ''configuration option is too long'' [])
      else res_bind (encode_configuration_options opts) (\<lambda>rest.
        Inr ([option_type opt OR (if option_hint opt then 0x80 else 0),
          of_nat (length (option_value opt))] @ option_value opt @ rest)))"

function decode_configuration_options :: "bytes \<Rightarrow> (configuration_option list, l2cap_error) result" where
  "decode_configuration_options data =
     (if data = [] then Inr []
      else if length data < 2 then Inl (InvalidPacket ''truncated configuration option header'' [])
      else let raw_type = data ! 0; len = unat (data ! 1) in
        if length data < 2 + len then Inl (InvalidPacket ''truncated configuration option value'' [])
        else res_bind (decode_configuration_options (drop (2 + len) data)) (\<lambda>opts.
          Inr (\<lparr>option_type = raw_type AND 0x7f, option_hint = (raw_type AND 0x80 \<noteq> 0),
            option_value = take len (drop 2 data)\<rparr> # opts)))"
  by pat_completeness auto
termination
  by (relation "measure length") auto

declare decode_configuration_options.simps [simp del]

section \<open>Information capabilities\<close>

record information_capabilities =
  connectionless_mtu :: u16
  extended_features :: u32
  fixed_channels :: u64

definition capabilities_default :: information_capabilities where
  "capabilities_default = \<lparr>connectionless_mtu = L2CAP_DEFAULT_CONNECTIONLESS_MTU,
     extended_features = 0, fixed_channels = push_bit (unat L2CAP_SIGNALING_CID) 1\<rparr>"

definition capabilities_new :: "u16 list \<Rightarrow> information_capabilities" where
  "capabilities_new features =
     capabilities_default\<lparr>extended_features := sum_list (map ucast features)\<rparr>"

definition set_connectionless_mtu :: "u16 \<Rightarrow> information_capabilities \<Rightarrow> information_capabilities" where
  "set_connectionless_mtu mtu c = c\<lparr>connectionless_mtu := mtu\<rparr>"

definition register_fixed_channel :: "u16 \<Rightarrow> (information_capabilities, unit, l2cap_error) action" where
  "register_fixed_channel cid c =
     (if cid \<ge> 64
      then (Inl (InvalidPacket ''fixed channel CID {} cannot be represented in the information mask''
        [unat cid]), c)
      else (Inr (), c\<lparr>fixed_channels := fixed_channels c OR push_bit (unat cid) 1\<rparr>))"

definition deregister_fixed_channel ::
  "u16 \<Rightarrow> information_capabilities \<Rightarrow> bool \<times> information_capabilities" where
  "deregister_fixed_channel cid c =
     (if cid \<ge> 64 then (False, c)
      else let bit = push_bit (unat cid) 1 in
        (fixed_channels c AND bit \<noteq> 0, c\<lparr>fixed_channels := fixed_channels c AND NOT bit\<rparr>))"

definition information_response ::
  "information_capabilities \<Rightarrow> u8 \<Rightarrow> u16 \<Rightarrow> control_frame" where
  "information_response c identifier info_type =
     (let (res, dat) =
        (if info_type = INFORMATION_TYPE_CONNECTIONLESS_MTU
           then (INFORMATION_RESULT_SUCCESS, le16_bytes (connectionless_mtu c))
         else if info_type = INFORMATION_TYPE_EXTENDED_FEATURES_SUPPORTED
           then (INFORMATION_RESULT_SUCCESS, to_le_bytes 4 (extended_features c))
         else if info_type = INFORMATION_TYPE_FIXED_CHANNELS_SUPPORTED
           then (INFORMATION_RESULT_SUCCESS, to_le_bytes 8 (fixed_channels c))
         else (INFORMATION_RESULT_NOT_SUPPORTED, [])) in
      InformationResponse identifier info_type res dat)"

section \<open>Lemmas: the frame check sequence\<close>

lemma crc_bit_xor: "crc_bit (x XOR y) = crc_bit x XOR crc_bit y"
proof -
  have odd_iff: "w AND 1 \<noteq> 0 \<longleftrightarrow> odd w" for w :: u16
    by (simp add: and_one_eq odd_iff_mod_2_eq_one)
  have odd_xor: "odd (x XOR y) \<longleftrightarrow> odd x \<noteq> odd y"
    using bit_xor_iff [of x y 0] by (simp add: bit_0)
  have drop_xor: "drop_bit (Suc 0) (x XOR y) = drop_bit (Suc 0) x XOR drop_bit (Suc 0) y"
    by (rule bit_word_eqI) (auto simp: bit_simps)
  show ?thesis
    by (simp add: crc_bit_def odd_iff odd_xor drop_xor xor.assoc xor.commute xor.left_commute)
qed

lemma crc_bit_even: "even w \<Longrightarrow> crc_bit w = drop_bit 1 w"
  by (simp add: crc_bit_def and_one_eq even_iff_mod_2_eq_zero)

lemma crc_bit_zero_iff: "crc_bit w = 0 \<longleftrightarrow> w = 0"
proof
  assume zero: "crc_bit w = 0"
  show "w = 0"
  proof (cases "even w")
    case True
    with zero have shifted: "drop_bit 1 w = 0" by (simp add: crc_bit_even)
    show ?thesis
    proof (rule bit_word_eqI)
      fix n assume "n < LENGTH(16)"
      show "bit w n = bit 0 n"
      proof (cases n)
        case 0
        with True show ?thesis by (simp add: bit_0)
      next
        case (Suc m)
        have "bit (drop_bit 1 w) m = bit (0 :: u16) m" by (simp only: shifted)
        with Suc show ?thesis by (simp add: bit_simps)
      qed
    qed
  next
    case False
    with zero have "drop_bit 1 w XOR 0xA001 = 0"
      by (simp add: crc_bit_def and_one_eq odd_iff_mod_2_eq_one)
    then have "bit (drop_bit 1 w XOR 0xA001) 15 = bit (0 :: u16) 15" by simp
    moreover have "bit (0xA001 :: u16) 15" by simp
    moreover have "\<not> bit (drop_bit 1 w) 15" using bit_imp_le_length [of w 16] by (auto simp: bit_simps)
    ultimately show ?thesis by (simp add: bit_xor_iff)
  qed
qed (simp add: crc_bit_def)

lemma crc_bits_xor: "(crc_bit ^^ n) (x XOR y) = (crc_bit ^^ n) x XOR (crc_bit ^^ n) y"
  by (induction n) (simp_all add: crc_bit_xor)

lemma crc_bits_zero_iff: "(crc_bit ^^ n) w = 0 \<longleftrightarrow> w = 0"
  by (induction n) (simp_all add: crc_bit_zero_iff)

lemma word_xor_cancel [simp]:
  fixes x y z :: "'a::len word"
  shows "x XOR z = y XOR z \<longleftrightarrow> x = y" "z XOR x = z XOR y \<longleftrightarrow> x = y"
proof -
  have "(x XOR z) XOR z = x" "(y XOR z) XOR z = y" by (simp_all add: xor.assoc)
  then show "x XOR z = y XOR z \<longleftrightarrow> x = y" by metis
  then show "z XOR x = z XOR y \<longleftrightarrow> x = y" by (simp add: xor.commute)
qed

lemma crc_bits_inj [simp]: "(crc_bit ^^ n) x = (crc_bit ^^ n) y \<longleftrightarrow> x = y"
proof -
  have "(crc_bit ^^ n) x = (crc_bit ^^ n) y \<longleftrightarrow> (crc_bit ^^ n) (x XOR y) = 0"
    using word_xor_cancel(1) [of "(crc_bit ^^ n) x" "(crc_bit ^^ n) y" "(crc_bit ^^ n) y"]
    by (simp add: crc_bits_xor)
  also have "\<dots> \<longleftrightarrow> x = y"
    using word_xor_cancel(1) [of x y y] by (simp add: crc_bits_zero_iff)
  finally show ?thesis .
qed

lemma crc_bits_shift:
  "(crc_bit ^^ n) (push_bit n w) = w" if "\<And>i. bit w i \<Longrightarrow> i + n < 16"
  using that
proof (induction n arbitrary: w)
  case (Suc n)
  have even: "even (push_bit (Suc n) w)"
    using bit_push_bit_iff [of "Suc n" w 0] by (simp add: bit_0)
  have "drop_bit 1 (push_bit (Suc n) w) = push_bit n w"
    by (rule bit_word_eqI) (use Suc.prems in \<open>force simp: bit_simps simp del: push_bit_Suc\<close>)
  with even have "crc_bit (push_bit (Suc n) w) = push_bit n w" by (simp add: crc_bit_even)
  moreover have "(crc_bit ^^ n) (push_bit n w) = w"
    by (rule Suc.IH) (use Suc.prems in fastforce)
  ultimately show ?case by (simp only: funpow_Suc_right o_apply)
qed simp

lemma crc_bits_byte: "(crc_bit ^^ 8) (push_bit 8 (ucast (b :: u8))) = ucast b"
  by (rule crc_bits_shift) (auto simp: bit_simps dest: bit_imp_le_length)

lemma crc_byte_own_low: "crc_byte c (ucast c) = drop_bit 8 c"
proof -
  have "c XOR ucast (ucast c :: u8) = push_bit 8 (drop_bit 8 c)"
    by (rule bit_word_eqI) (auto simp: bit_simps)
  then show ?thesis
    unfolding crc_byte_def by (simp only:) (rule crc_bits_shift, auto simp: bit_simps dest: bit_imp_le_length)
qed

lemma crc_16_append: "crc_16 (a @ b) = foldl crc_byte (crc_16 a) b"
  by (simp add: crc_16_def)

lemma foldl_crc_byte_inj [simp]: "foldl crc_byte c d = foldl crc_byte c' d \<longleftrightarrow> c = c'"
proof (induction d arbitrary: c c')
  case (Cons b d)
  have "crc_byte c b = crc_byte c' b \<longleftrightarrow> c = c'"
    by (simp only: crc_byte_def crc_bits_inj word_xor_cancel)
  with Cons show ?case by simp
qed simp

lemma crc_residue: "crc_16 (d @ le16_bytes (crc_16 d)) = 0"
proof -
  have "crc_byte (drop_bit 8 (crc_16 d)) (ucast (drop_bit 8 (crc_16 d))) = 0"
    by (subst crc_byte_own_low) (rule bit_word_eqI, auto simp: bit_simps dest: bit_imp_le_length)
  then show ?thesis by (simp add: crc_16_append le16_bytes_def crc_byte_own_low)
qed

text \<open>Two adjacent bytes enter the register as one 16-bit word.\<close>

lemma crc_two_bytes:
  "crc_byte (crc_byte c a) b = (crc_bit ^^ 16) (c XOR le16_of a b)"
proof -
  have "crc_byte (crc_byte c a) b
      = (crc_bit ^^ 8) ((crc_bit ^^ 8) (c XOR ucast a) XOR (crc_bit ^^ 8) (push_bit 8 (ucast b)))"
    by (simp only: crc_byte_def crc_bits_byte)
  also have "\<dots> = (crc_bit ^^ 16) ((c XOR ucast a) XOR push_bit 8 (ucast b))"
    using funpow_add [of 8 8 crc_bit] by (simp add: crc_bits_xor)
  also have "(c XOR ucast a) XOR push_bit 8 (ucast b) = c XOR le16_of a b"
    by (rule bit_word_eqI) (auto simp: le16_of_def bit_simps dest: bit_imp_le_length)
  finally show ?thesis .
qed

lemma crc_two_bytes_inj:
  "crc_byte (crc_byte c a) b = crc_byte (crc_byte c a') b' \<longleftrightarrow> a = a' \<and> b = b'"
proof -
  have "crc_byte (crc_byte c a) b = crc_byte (crc_byte c a') b'
      \<longleftrightarrow> c XOR le16_of a b = c XOR le16_of a' b'"
    by (simp only: crc_two_bytes crc_bits_inj)
  also have "\<dots> \<longleftrightarrow> le16_of a b = le16_of a' b'"
    by (simp only: word_xor_cancel)
  also have "\<dots> \<longleftrightarrow> a = a' \<and> b = b'"
    by (metis le16_bytes_of list.inject)
  finally show ?thesis .
qed

section \<open>Lemmas: PSM fields\<close>

text \<open>A PSM field on the wire: from the second byte on, an odd byte is followed by another one.\<close>

definition psm_wire_ok :: "u32 \<Rightarrow> bool" where
  "psm_wire_ok psm \<longleftrightarrow> (let bs = serialize_psm psm in
     even (last bs) \<and> list_all (\<lambda>b. odd b) (butlast (tl bs)))"

definition psm_byte :: "u32 \<Rightarrow> nat \<Rightarrow> u8" where
  "psm_byte psm k = ucast (drop_bit (8 * k) psm)"

lemma serialize_psm_bytes:
  "serialize_psm psm = [psm_byte psm 0, psm_byte psm (Suc 0)] @
     (if drop_bit 16 psm = 0 then [] else if drop_bit 24 psm = 0 then [psm_byte psm 2]
      else [psm_byte psm 2, psm_byte psm 3])"
proof -
  have low: "le16_bytes (ucast (psm AND 0xFFFF)) = [psm_byte psm 0, psm_byte psm (Suc 0)]"
  proof -
    have "psm AND 0xFFFF = take_bit 16 psm" by (simp add: take_bit_eq_mask mask_eq_exp_minus_1)
    then show ?thesis
      by (auto simp: le16_bytes_def psm_byte_def bit_simps intro!: bit_word_eqI)
  qed
  have byte: "ucast (w AND 0xFF) = (ucast w :: u8)" for w :: u32
  proof -
    have "w AND 0xFF = take_bit 8 w" by (simp add: take_bit_eq_mask mask_eq_exp_minus_1)
    then show ?thesis by (auto intro!: bit_word_eqI simp: bit_simps)
  qed
  have top: "drop_bit 32 psm = 0"
    by (rule bit_word_eqI) (auto simp: bit_simps dest: bit_imp_le_length)
  show ?thesis
    unfolding serialize_psm_def low
    by (simp add: psm_high_bytes.simps [of "drop_bit 16 psm"] psm_high_bytes.simps [of "drop_bit 24 psm"]
        psm_high_bytes.simps [of "drop_bit 32 psm"] psm_high_bytes.simps [of 0] byte psm_byte_def top)
qed

lemma psm_join:
  "ucast (psm_byte psm 0) OR push_bit 8 (ucast (psm_byte psm (Suc 0)))
     OR push_bit 16 (ucast (psm_byte psm 2)) OR push_bit 24 (ucast (psm_byte psm 3)) = psm"
proof (rule bit_word_eqI)
  fix n assume "n < LENGTH(32)"
  then consider "n < 8" | "8 \<le> n" "n < 16" | "16 \<le> n" "n < 24" | "24 \<le> n" "n < 32" by force
  then show "bit ((ucast (psm_byte psm 0) :: u32) OR push_bit 8 (ucast (psm_byte psm (Suc 0)))
     OR push_bit 16 (ucast (psm_byte psm 2)) OR push_bit 24 (ucast (psm_byte psm 3))) n = bit psm n"
    by cases (auto simp: psm_byte_def bit_simps)
qed

lemma psm_byte_zero: "drop_bit (8 * k) psm = 0 \<Longrightarrow> psm_byte psm k = 0"
  by (simp add: psm_byte_def)

lemma psm_join_short:
  "drop_bit 24 psm = 0 \<Longrightarrow> ucast (psm_byte psm 0) OR push_bit 8 (ucast (psm_byte psm (Suc 0)))
     OR push_bit 16 (ucast (psm_byte psm 2)) = psm"
  "drop_bit 16 psm = 0 \<Longrightarrow> ucast (psm_byte psm 0) OR push_bit 8 (ucast (psm_byte psm (Suc 0))) = psm"
proof -
  have mono: "drop_bit 16 psm = 0 \<Longrightarrow> drop_bit 24 psm = 0"
    using drop_bit_drop_bit [of 8 16 psm] by simp
  show "drop_bit 24 psm = 0 \<Longrightarrow> ucast (psm_byte psm 0) OR push_bit 8 (ucast (psm_byte psm (Suc 0)))
     OR push_bit 16 (ucast (psm_byte psm 2)) = psm"
    using psm_join [of psm] psm_byte_zero [of 3 psm] by simp
  then show "drop_bit 16 psm = 0 \<Longrightarrow> ucast (psm_byte psm 0) OR push_bit 8 (ucast (psm_byte psm (Suc 0))) = psm"
    using psm_byte_zero [of 2 psm] mono by simp
qed

lemma parse_psm_loop_progress:
  "parse_psm_loop data offset n psm = Inr (m, q) \<Longrightarrow> offset + n \<le> m \<and> (n + offset \<le> length data \<longrightarrow> m \<le> length data)"
proof (induction data offset n psm rule: parse_psm_loop.induct)
  case (1 data offset n psm)
  then show ?case
    by (subst (asm) (2) parse_psm_loop.simps) (auto split: if_splits simp: add.commute)
qed

lemma parse_psm_loop_odd:
  "odd (data ! (n - 1)) \<Longrightarrow> m \<le> n \<Longrightarrow> parse_psm_loop data 0 n psm \<noteq> Inr (m, q)"
  using parse_psm_loop_progress
    [of data 0 "Suc n" "psm OR push_bit (8 * n mod 32) (ucast (data ! n))" m q]
  by (subst parse_psm_loop.simps) (auto simp: odd_iff_mod_2_eq_one [symmetric])

lemma parse_psm_loop_even:
  "even (data ! (n - 1)) \<Longrightarrow> parse_psm_loop data 0 n psm = Inr (n, psm)"
  by (subst parse_psm_loop.simps) (simp add: odd_iff_mod_2_eq_one [symmetric])

lemma parse_psm_loop_next:
  "odd (data ! (n - 1)) \<Longrightarrow> n < length data \<Longrightarrow> parse_psm_loop data 0 n psm =
     parse_psm_loop data 0 (Suc n) (psm OR push_bit (8 * n mod 32) (ucast (data ! n)))"
  by (subst parse_psm_loop.simps) (simp add: odd_iff_mod_2_eq_one [symmetric])

lemmas psm_loop_rules = parse_psm_loop_odd parse_psm_loop_even parse_psm_loop_next

lemma psm_parse_iff:
  "parse_psm (serialize_psm psm @ r) 0 = Inr (length (serialize_psm psm), psm) \<longleftrightarrow> psm_wire_ok psm"
proof -
  let ?b = "psm_byte psm"
  consider (two) "drop_bit 16 psm = 0" | (three) "drop_bit 16 psm \<noteq> 0" "drop_bit 24 psm = 0"
    | (four) "drop_bit 16 psm \<noteq> 0" "drop_bit 24 psm \<noteq> 0" by blast
  then show ?thesis
  proof cases
    case two
    then show ?thesis
      by (cases "even (?b (Suc 0))")
        (simp_all add: serialize_psm_bytes psm_wire_ok_def parse_psm_def psm_join_short
          parse_psm_loop_even parse_psm_loop_odd)
  next
    case three
    show ?thesis
    proof (cases "even (?b (Suc 0))")
      case False
      then show ?thesis
        using three by (cases "even (?b 2)")
          (simp_all add: serialize_psm_bytes psm_wire_ok_def parse_psm_def parse_psm_loop_next
            parse_psm_loop_even parse_psm_loop_odd psm_join_short or.assoc)
    qed (simp add: three serialize_psm_bytes psm_wire_ok_def parse_psm_def parse_psm_loop_even)
  next
    case four
    show ?thesis
    proof (cases "even (?b (Suc 0)) \<or> even (?b 2)")
      case True
      then show ?thesis
        using four by (cases "even (?b (Suc 0))")
          (simp_all add: serialize_psm_bytes psm_wire_ok_def parse_psm_def parse_psm_loop_next
            parse_psm_loop_even)
    next
      case False
      then show ?thesis
        using four psm_join [of psm] by (cases "even (?b 3)")
          (simp_all add: serialize_psm_bytes psm_wire_ok_def parse_psm_def parse_psm_loop_next
            parse_psm_loop_even parse_psm_loop_odd or.assoc)
    qed
  qed
qed

section \<open>Lemmas: PDUs and signaling frames\<close>

definition pdu_wf :: "bool \<Rightarrow> l2cap_pdu \<Rightarrow> bool" where
  "pdu_wf with_fcs p \<longleftrightarrow> length (pdu_payload p) + (if with_fcs then 2 else 0) \<le> 65535"

lemma pdu_from_bytes_whole:
  "length q \<le> 65535 \<Longrightarrow>
   pdu_from_bytes (le16_bytes (of_nat (length q)) @ le16_bytes cid @ q @ r)
     = Inr \<lparr>pdu_cid = cid, pdu_payload = q\<rparr>"
  by (simp add: pdu_from_bytes_def le16_bytes_def)

definition pdu_fcs :: "l2cap_pdu \<Rightarrow> bytes" where
  "pdu_fcs p = le16_bytes (crc_16 (le16_bytes (of_nat (length (pdu_payload p) + 2))
     @ le16_bytes (pdu_cid p) @ pdu_payload p))"

lemma pdu_roundtrip:
  assumes "pdu_wf with_fcs p"
  shows "pdu_from_bytes (pdu_to_bytes p with_fcs @ r)
    = Inr (pdu_new (pdu_cid p) (pdu_payload p @ (if with_fcs then pdu_fcs p else [])))"
proof (cases with_fcs)
  case False
  with assms show ?thesis
    using pdu_from_bytes_whole [of "pdu_payload p" "pdu_cid p" r]
    by (simp add: pdu_wf_def pdu_to_bytes_def pdu_new_def)
next
  case True
  have "length (pdu_payload p @ pdu_fcs p) = length (pdu_payload p) + 2" by (simp add: pdu_fcs_def)
  with True assms show ?thesis
    using pdu_from_bytes_whole [of "pdu_payload p @ pdu_fcs p" "pdu_cid p" r]
    by (simp add: pdu_wf_def pdu_to_bytes_def pdu_new_def pdu_fcs_def Let_def)
qed

definition known_codes :: "u8 list" where
  "known_codes = [COMMAND_REJECT, CONNECTION_REQUEST, CONNECTION_RESPONSE, CONFIGURE_REQUEST,
     CONFIGURE_RESPONSE, DISCONNECTION_REQUEST, DISCONNECTION_RESPONSE, ECHO_REQUEST, ECHO_RESPONSE,
     INFORMATION_REQUEST, INFORMATION_RESPONSE, CONNECTION_PARAMETER_UPDATE_REQUEST,
     CONNECTION_PARAMETER_UPDATE_RESPONSE, LE_CREDIT_BASED_CONNECTION_REQUEST,
     LE_CREDIT_BASED_CONNECTION_RESPONSE, LE_FLOW_CONTROL_CREDIT, CREDIT_BASED_CONNECTION_REQUEST,
     CREDIT_BASED_CONNECTION_RESPONSE, CREDIT_BASED_RECONFIGURE_REQUEST,
     CREDIT_BASED_RECONFIGURE_RESPONSE]"

definition frame_wf :: "control_frame \<Rightarrow> bool" where
  "frame_wf f \<longleftrightarrow> length (frame_payload f) \<le> 65535 \<and> (case f of
       ConnectionRequest _ psm _ \<Rightarrow> psm_wire_ok psm
     | Generic code _ _ \<Rightarrow> code \<notin> set known_codes
     | _ \<Rightarrow> True)"

lemma pairs_exact_le16: "map (\<lambda>(a, b). le16_of a b) (pairs_exact (concat (map le16_bytes cs))) = cs"
  by (induction cs) (simp_all add: le16_bytes_def)

lemma length_concat_le16 [simp]: "length (concat (map le16_bytes cs)) = 2 * length cs"
  by (induction cs) simp_all

lemma read_cid_list_encoded [simp]: "read_cid_list (concat (map le16_bytes cs)) = Inr cs"
  by (simp add: read_cid_list_def pairs_exact_le16)

lemma parse_frame_psm:
  assumes "psm_wire_ok psm"
  shows "parse_frame CONNECTION_REQUEST i (serialize_psm psm @ le16_bytes cid)
    = Inr (ConnectionRequest i psm cid)"
  using assms
  by (simp add: parse_frame_def psm_parse_iff [THEN iffD2] nth_append)

lemma parse_frame_payload:
  assumes "frame_wf f"
  shows "parse_frame (frame_code f) (frame_identifier f) (frame_payload f) = Inr f"
proof (cases f)
  case (ConnectionRequest i psm cid)
  with assms show ?thesis by (simp add: parse_frame_psm frame_wf_def)
next
  case (Generic code i p)
  with assms show ?thesis by (simp add: frame_wf_def parse_frame_def known_codes_def)
qed (simp_all add: parse_frame_def need_def le16_def le16_bytes_def)

lemma frame_roundtrip:
  assumes "frame_wf f"
  shows "frame_from_bytes (frame_to_bytes f @ r) = Inr f"
proof -
  have "unat (of_nat (length (frame_payload f)) :: u16) = length (frame_payload f)"
    using assms by (simp add: frame_wf_def)
  then have "frame_from_bytes (frame_to_bytes f @ r)
      = parse_frame (frame_code f) (frame_identifier f) (frame_payload f)"
    by (simp add: frame_from_bytes_def frame_to_bytes_def Let_def le16_bytes_def)
  then show ?thesis by (simp add: parse_frame_payload assms)
qed

interpretation control_frames: wire_codec frame_to_bytes frame_from_bytes frame_wf
  by unfold_locales (use frame_roundtrip [of _ "[]"] in simp)

lemma pairs_exact_length: "length (pairs_exact xs) = length xs div 2"
  by (induction xs rule: pairs_exact.induct) auto

lemma read_cid_list_length: "read_cid_list d = Inr cs \<Longrightarrow> 2 * length cs = length d"
  by (auto simp: read_cid_list_def pairs_exact_length split: if_splits)

lemma res_bind_need: "res_bind (need p n) f = Inr x \<longleftrightarrow> n \<le> length p \<and> f () = Inr x"
  by (simp add: need_def)

definition is_connection_request :: "control_frame \<Rightarrow> bool" where
  "is_connection_request f = (case f of ConnectionRequest _ _ _ \<Rightarrow> True | _ \<Rightarrow> False)"

lemma parse_frame_wf:
  assumes "parse_frame code i p = Inr f" "length p \<le> 65535" "\<not> is_connection_request f"
  shows "frame_wf f \<and> frame_code f = code \<and> frame_identifier f = i"
proof -
  have "code \<noteq> CONNECTION_REQUEST"
    using assms by (auto simp: parse_frame_def is_connection_request_def res_bind_eq_Inr split: if_splits)
  with assms(1,2) show ?thesis
    unfolding parse_frame_def
    by (simp only: if_splits(1) [of "\<lambda>x. x = Inr f"] res_bind_need)
      (auto simp: frame_wf_def known_codes_def res_bind_eq_Inr dest!: read_cid_list_length)
qed

lemma frame_from_bytes_wf:
  assumes "frame_from_bytes b = Inr f" "\<not> is_connection_request f"
  shows "frame_wf f"
proof -
  let ?len = "unat (le16_of (b ! 2) (b ! 3))"
  let ?p = "drop 4 (take (min (4 + ?len) (length b)) b)"
  from assms(1) have "parse_frame (b ! 0) (b ! 1) ?p = Inr f"
    by (simp add: frame_from_bytes_def Let_def split: if_splits)
  moreover have "length ?p \<le> 65535"
    using unat_u16_less [of "le16_of (b ! 2) (b ! 3)"] by simp
  ultimately show ?thesis using parse_frame_wf assms(2) by blast
qed

section \<open>Lemmas: configuration options\<close>

definition option_wf :: "configuration_option \<Rightarrow> bool" where
  "option_wf opt \<longleftrightarrow> option_type opt \<le> 0x7f \<and> length (option_value opt) \<le> 255"

definition options_bytes :: "configuration_option list \<Rightarrow> bytes" where
  "options_bytes opts = concat (map (\<lambda>opt. [option_type opt OR (if option_hint opt then 0x80 else 0),
     of_nat (length (option_value opt))] @ option_value opt) opts)"

lemma encode_options_eq:
  "encode_configuration_options opts =
     (if list_all (\<lambda>opt. length (option_value opt) \<le> 255) opts then Inr (options_bytes opts)
      else Inl (InvalidPacket ''configuration option is too long'' []))"
  by (induction opts) (auto simp: options_bytes_def)

lemma option_type_masks:
  fixes t :: u8
  shows "t AND 0x7f = take_bit 7 t" and "t AND 0x80 \<noteq> 0 \<longleftrightarrow> bit t 7"
proof -
  show "t AND 0x7f = take_bit 7 t" by (simp add: take_bit_eq_mask mask_eq_exp_minus_1)
  show "t AND 0x80 \<noteq> 0 \<longleftrightarrow> bit t 7"
    using bit_iff_and_push_bit_not_eq_0 [of t 7] by (simp add: push_bit_eq_mult)
qed

lemma bit_hint: "bit (0x80 :: int) n \<longleftrightarrow> n = 7"
  using bit_push_bit_iff [of 7 "1 :: int" n] by (auto simp: push_bit_eq_mult bit_1_iff)

lemma option_type_split:
  fixes t :: u8
  shows "(t AND 0x7f) OR (if t AND 0x80 \<noteq> 0 then 0x80 else 0) = t"
  unfolding option_type_masks
proof (rule bit_word_eqI)
  fix n assume "n < LENGTH(8)"
  then consider "n < 7" | "n = 7" by force
  then show "bit (take_bit 7 t OR (if bit t 7 then 0x80 else 0)) n = bit t n"
    by cases (auto simp: bit_simps bit_hint)
qed

lemma option_type_join:
  fixes t :: u8
  assumes "t \<le> 0x7f"
  shows "(t OR (if h then 0x80 else 0)) AND 0x7f = t"
    and "(t OR (if h then 0x80 else 0)) AND 0x80 \<noteq> 0 \<longleftrightarrow> h"
proof -
  have t: "bit t n \<Longrightarrow> n < 7" for n
    using assms small_word_bits [of t 7 n] by (simp add: word_le_nat_alt)
  show "(t OR (if h then 0x80 else 0)) AND 0x7f = t"
    unfolding option_type_masks by (rule bit_word_eqI) (auto simp: bit_simps bit_hint dest: t)
  show "(t OR (if h then 0x80 else 0)) AND 0x80 \<noteq> 0 \<longleftrightarrow> h"
    unfolding option_type_masks by (auto simp: bit_simps bit_hint dest: t)
qed

lemma decode_options_Cons:
  "unat n = length v \<Longrightarrow> decode_configuration_options (t # n # v @ r) =
     res_bind (decode_configuration_options r) (\<lambda>opts.
       Inr (\<lparr>option_type = t AND 0x7f, option_hint = (t AND 0x80 \<noteq> 0), option_value = v\<rparr> # opts))"
  by (subst decode_configuration_options.simps) (simp add: Let_def)

lemma decode_options_Nil [simp]: "decode_configuration_options [] = Inr []"
  by (subst decode_configuration_options.simps) simp

lemma options_dec_enc:
  "list_all option_wf opts \<Longrightarrow> decode_configuration_options (options_bytes opts) = Inr opts"
proof (induction opts)
  case (Cons opt opts)
  then show ?case
    by (simp add: options_bytes_def decode_options_Cons option_wf_def option_type_join)
qed (simp add: options_bytes_def)

lemma options_enc_dec:
  "decode_configuration_options b = Inr opts \<Longrightarrow> list_all option_wf opts \<and> options_bytes opts = b"
proof (induction b arbitrary: opts rule: decode_configuration_options.induct)
  case (1 b)
  show ?case
  proof (cases b)
    case Nil
    with "1.prems" show ?thesis by (simp add: options_bytes_def)
  next
    case (Cons t tl)
    with "1.prems" obtain n rest where b: "b = t # n # rest"
      by (cases tl) (auto simp: decode_configuration_options.simps [of "[t]"])
    with "1.prems" have len: "unat n \<le> length rest"
      by (subst (asm) decode_configuration_options.simps) (auto simp: Let_def split: if_splits)
    define v r where "v = take (unat n) rest" and "r = drop (unat n) rest"
    with b len have bv: "b = t # n # v @ r" "unat n = length v" by simp_all
    with "1.prems" obtain os where os: "decode_configuration_options r = Inr os"
      "opts = \<lparr>option_type = t AND 0x7f, option_hint = (t AND 0x80 \<noteq> 0), option_value = v\<rparr> # os"
      by (auto simp: decode_options_Cons res_bind_eq_Inr)
    have "list_all option_wf os \<and> options_bytes os = r"
      using "1.IH" [of "b ! 0" "unat (b ! 1)"] os bv by simp
    moreover have "t AND 0x7f \<le> 0x7f" by (rule word_and_le1)
    moreover have "(of_nat (length v) :: u8) = n" "length v \<le> 255"
      using bv(2) [symmetric] unat_u8_less [of n] by simp_all
    ultimately show ?thesis
      using option_type_split [of t]
      by (auto simp: os bv(1) options_bytes_def) (simp add: option_wf_def)
  qed
qed

interpretation configuration_options: strict_codec options_bytes decode_configuration_options
  "list_all option_wf"
  by unfold_locales (auto dest: options_enc_dec simp: options_dec_enc)

section \<open>Lemmas: information capabilities\<close>

definition channel_registered :: "information_capabilities \<Rightarrow> u16 \<Rightarrow> bool" where
  "channel_registered c cid \<longleftrightarrow> bit (fixed_channels c) (unat cid)"

lemma fixed_channel_bit: "(w :: u64) AND push_bit n 1 \<noteq> 0 \<longleftrightarrow> bit w n"
  by (simp add: bit_iff_and_push_bit_not_eq_0)

lemma registered_below_64: "channel_registered c cid \<Longrightarrow> cid < 64"
  using bit_imp_le_length [of "fixed_channels c" "unat cid"]
  by (simp add: channel_registered_def word_less_nat_alt)

lemma channel_mask_bit: "cid < 64 \<Longrightarrow> bit (push_bit (unat cid) (1 :: u64)) (unat (x :: u16)) \<longleftrightarrow> x = cid"
  for cid :: u16
  by (auto simp: bit_simps bit_1_iff word_less_nat_alt word_unat_eq_iff)

lemma register_adds:
  "channel_registered (snd (register_fixed_channel cid c)) x
     \<longleftrightarrow> channel_registered c x \<or> x = cid \<and> cid < 64"
  using channel_mask_bit [of cid x]
  by (auto simp: channel_registered_def register_fixed_channel_def bit_or_iff not_le)

lemma register_fails: "(\<exists>e. fst (register_fixed_channel cid c) = Inl e) \<longleftrightarrow> 64 \<le> cid"
  by (simp add: register_fixed_channel_def)

lemma deregister_removes:
  "channel_registered (snd (deregister_fixed_channel cid c)) x
     \<longleftrightarrow> channel_registered c x \<and> x \<noteq> cid"
  using channel_mask_bit [of cid x] registered_below_64 [of c x]
    bit_imp_le_length [of "fixed_channels c" "unat x"]
  by (auto simp: channel_registered_def deregister_fixed_channel_def Let_def bit_and_iff bit_not_iff
      not_le)

lemma deregister_reports: "fst (deregister_fixed_channel cid c) \<longleftrightarrow> channel_registered c cid"
  using registered_below_64 [of c cid]
  by (auto simp: channel_registered_def deregister_fixed_channel_def fixed_channel_bit Let_def
      simp del: push_bit_of_1)

section \<open>Properties\<close>

text \<open>
  C37: a frame check sequence detects every corruption confined to two adjacent bytes. Replacing the
  bytes \<open>x y\<close> of a frame by a different pair changes \<^verbatim>\<open>crc_16\<close>, whatever precedes and follows them,
  and appending the checksum of a frame to it always gives the residue 0.
\<close>

theorem crc_detects_burst:
  "(crc_16 (a @ [x, y] @ b) = crc_16 (a @ [x', y'] @ b) \<longleftrightarrow> x = x' \<and> y = y')
   \<and> crc_16 (d @ le16_bytes (crc_16 d)) = 0"
proof -
  have "crc_16 (a @ [x, y] @ b) = crc_16 (a @ [x', y'] @ b) \<longleftrightarrow> x = x' \<and> y = y'"
    by (simp add: crc_16_def crc_two_bytes_inj)
  with crc_residue show ?thesis by blast
qed

text \<open>
  decoding a signaling frame inverts encoding it, also when other bytes follow the frame in the
  buffer, for every frame whose payload fits its 16-bit length, whose PSM is a legal wire PSM and
  whose code, when it is generic, is not one of the twenty decoded codes.
\<close>

theorem control_frame_roundtrip:
  "frame_wf f \<Longrightarrow> frame_from_bytes (frame_to_bytes f @ rest) = Inr f"
  by (rule frame_roundtrip)

theorem control_frame_roundtrip_witness:
  "frame_from_bytes (frame_to_bytes (CreditBasedReconfigureRequest 7 100 64 [0x40, 0x41]) @ [0xFF])
     = Inr (CreditBasedReconfigureRequest 7 100 64 [0x40, 0x41])"
  by (rule control_frame_roundtrip) (simp add: frame_wf_def)

text \<open>
  C36: what the decoder accepts is well formed. Any accepted signaling frame other than a connection
  request re-encodes to bytes that decode to the same frame, although trailing payload bytes that
  the decoder ignored are dropped.
\<close>

theorem control_frame_normalises:
  assumes "frame_from_bytes b = Inr f" and "\<not> is_connection_request f"
  shows "frame_wf f \<and> frame_from_bytes (frame_to_bytes f) = Inr f"
  using frame_from_bytes_wf [OF assms] control_frames.dec_enc by blast

theorem control_frame_normalises_witness:
  "frame_wf (DisconnectionRequest 3 0x41 0x40)
     \<and> frame_from_bytes (frame_to_bytes (DisconnectionRequest 3 0x41 0x40))
       = Inr (DisconnectionRequest 3 0x41 0x40)"
  by (rule control_frame_normalises [of "[6, 3, 5, 0, 0x41, 0, 0x40, 0, 9]"])
    (simp_all add: frame_from_bytes_def parse_frame_def need_def le16_def le16_of_def
      is_connection_request_def)

text \<open>
  a PSM field survives the wire exactly when its bytes after the first are odd up to a last even
  one. Every other PSM value is serialized to bytes that the parser rejects or reads as a field of
  another length or value.
\<close>

theorem psm_roundtrip_iff:
  "parse_psm (serialize_psm psm @ rest) 0 = Inr (length (serialize_psm psm), psm) \<longleftrightarrow> psm_wire_ok psm"
  by (rule psm_parse_iff)

text \<open>
  configuration options are decoded strictly. A byte string decodes to a list of options exactly
  when that list is well formed (7-bit types, values of at most 255 bytes) and encodes to it, so no
  truncated entry is accepted and the hint bit is never confused with the type.
\<close>

theorem configuration_options_strict:
  "decode_configuration_options b = Inr opts \<longleftrightarrow>
     list_all option_wf opts \<and> encode_configuration_options opts = Inr b"
proof -
  have "list_all option_wf opts \<Longrightarrow> encode_configuration_options opts = Inr (options_bytes opts)"
    by (auto simp: encode_options_eq option_wf_def list_all_iff)
  then show ?thesis by (auto simp: configuration_options.dec_iff)
qed

text \<open>
  the fixed-channel mask behaves as a set of channel identifiers below 64. Registering adds
  exactly the given one and fails, changing nothing, from 64 on; deregistering removes exactly it
  and reports whether it was present.
\<close>

theorem fixed_channels_set:
  "(channel_registered (snd (register_fixed_channel cid c)) x
     \<longleftrightarrow> channel_registered c x \<or> x = cid \<and> cid < 64)
   \<and> ((\<exists>e. fst (register_fixed_channel cid c) = Inl e) \<longleftrightarrow> 64 \<le> cid)
   \<and> (channel_registered (snd (deregister_fixed_channel cid c)) x
     \<longleftrightarrow> channel_registered c x \<and> x \<noteq> cid)
   \<and> (fst (deregister_fixed_channel cid c) \<longleftrightarrow> channel_registered c cid)"
  by (intro conjI register_adds register_fails deregister_removes deregister_reports)

end
