(* ===== verification/Ertm.thy ===== *)
theory Ertm
  imports L2cap_Codec
begin

text \<open>
  Enhanced Retransmission Mode of \<^verbatim>\<open>src/src/l2cap/ertm.rs\<close>: the 16-bit control field and the
  engine that segments SDUs, numbers, acknowledges, retransmits and reassembles frames.

  The engine is a record with the fields of \<^verbatim>\<open>ErtmEngine\<close> (queues as lists, front first), its methods
  are actions that keep the state they reached when they fail.
\<close>

section \<open>Control fields\<close>

abbreviation (input) ERTM_SEQUENCE_MODULUS :: u8 where "ERTM_SEQUENCE_MODULUS \<equiv> 64"

datatype segmentation_and_reassembly = Unsegmented | Start | End | Continuation

fun sar_code :: "segmentation_and_reassembly \<Rightarrow> u8" where
  "sar_code Unsegmented = 0"
| "sar_code Start = 1"
| "sar_code End = 2"
| "sar_code Continuation = 3"

definition sar_try_from :: "u8 \<Rightarrow> (segmentation_and_reassembly, l2cap_error) result" where
  "sar_try_from v =
     (if v = 0 then Inr Unsegmented else if v = 1 then Inr Start else if v = 2 then Inr End
      else if v = 3 then Inr Continuation else Inl (InvalidPacket ''invalid ERTM SAR value'' []))"

datatype supervisory_function = ReceiverReady | Reject | ReceiverNotReady | SelectiveReject

fun supervisory_code :: "supervisory_function \<Rightarrow> u8" where
  "supervisory_code ReceiverReady = 0"
| "supervisory_code Reject = 1"
| "supervisory_code ReceiverNotReady = 2"
| "supervisory_code SelectiveReject = 3"

definition supervisory_try_from :: "u8 \<Rightarrow> (supervisory_function, l2cap_error) result" where
  "supervisory_try_from v =
     (if v = 0 then Inr ReceiverReady else if v = 1 then Inr Reject
      else if v = 2 then Inr ReceiverNotReady else if v = 3 then Inr SelectiveReject
      else Inl (InvalidPacket ''invalid ERTM supervisory function'' []))"

text \<open>\<open>Information tx_seq final_bit req_seq sar\<close> and \<open>Supervisory function poll final_bit req_seq\<close>.\<close>

datatype enhanced_control_field =
    Information u8 bool u8 segmentation_and_reassembly
  | Supervisory supervisory_function bool bool u8

definition control_from_bytes :: "bytes \<Rightarrow> (enhanced_control_field, l2cap_error) result" where
  "control_from_bytes data =
     (if length data < 2 then Inl (InvalidPacket ''truncated ERTM control field'' [])
      else if data ! 0 AND 1 = 0 then
        res_bind (sar_try_from (drop_bit 6 (data ! 1))) (\<lambda>sar.
          Inr (Information (drop_bit 1 (data ! 0) AND 0x3f) (data ! 0 AND 0x80 \<noteq> 0)
            (data ! 1 AND 0x3f) sar))
      else
        res_bind (supervisory_try_from (drop_bit 2 (data ! 0) AND 3)) (\<lambda>f.
          Inr (Supervisory f (data ! 0 AND 0x10 \<noteq> 0) (data ! 0 AND 0x80 \<noteq> 0) (data ! 1 AND 0x3f))))"

definition u8_from_bool :: "bool \<Rightarrow> u8" where
  "u8_from_bool b = (if b then 1 else 0)"

definition validate_seq :: "string \<Rightarrow> u8 \<Rightarrow> (u8, l2cap_error) result" where
  "validate_seq name v =
     (if v < ERTM_SEQUENCE_MODULUS then Inr v
      else Inl (InvalidPacket (''ERTM '' @ name @ '' sequence number out of range'') []))"

fun control_to_bytes :: "enhanced_control_field \<Rightarrow> (bytes, l2cap_error) result" where
  "control_to_bytes (Information tx_seq final_bit req_seq sar) =
     res_bind (validate_seq ''transmit'' tx_seq) (\<lambda>t.
     res_bind (validate_seq ''request'' req_seq) (\<lambda>r.
     Inr [push_bit 1 t OR push_bit 7 (u8_from_bool final_bit), r OR push_bit 6 (sar_code sar)]))"
| "control_to_bytes (Supervisory f poll final_bit req_seq) =
     res_bind (validate_seq ''request'' req_seq) (\<lambda>r.
     Inr [1 OR push_bit 2 (supervisory_code f) OR push_bit 4 (u8_from_bool poll)
         OR push_bit 7 (u8_from_bool final_bit), r])"

fun control_req_seq :: "enhanced_control_field \<Rightarrow> u8" where
  "control_req_seq (Information _ _ req_seq _) = req_seq"
| "control_req_seq (Supervisory _ _ _ req_seq) = req_seq"

section \<open>The engine's state\<close>

record ertm_config =
  ec_local_mtu :: u16
  ec_peer_mtu :: u16
  ec_local_mps :: u16
  ec_peer_mps :: u16
  ec_tx_window_size :: u8
  ec_max_retransmissions :: u8
  ec_retransmission_timeout_ticks :: u32

definition ertm_config_default :: ertm_config where
  "ertm_config_default = \<lparr>ec_local_mtu = 2048, ec_peer_mtu = 2048, ec_local_mps = 1010,
     ec_peer_mps = 1010, ec_tx_window_size = 63, ec_max_retransmissions = 0,
     ec_retransmission_timeout_ticks = 2000\<rparr>"

definition ertm_config_validate :: "ertm_config \<Rightarrow> (ertm_config, l2cap_error) result" where
  "ertm_config_validate c =
     (if ec_local_mtu c = 0 \<or> ec_peer_mtu c = 0 then Inl (InvalidPacket ''ERTM MTU cannot be zero'' [])
      else if ec_local_mps c = 0 \<or> ec_peer_mps c = 0
        then Inl (InvalidPacket ''ERTM MPS cannot be zero'' [])
      else if \<not> (1 \<le> ec_tx_window_size c \<and> ec_tx_window_size c < ERTM_SEQUENCE_MODULUS)
        then Inl (InvalidPacket ''ERTM transmit window must be between 1 and 63'' [])
      else if ec_retransmission_timeout_ticks c = 0
        then Inl (InvalidPacket ''ERTM retransmission timeout cannot be zero'' [])
      else Inr c)"

record pending_frame =
  pf_payload :: bytes
  pf_tx_seq :: u8
  pf_sar :: segmentation_and_reassembly
  pf_sdu_length :: "u16 option"

definition pf_encode :: "pending_frame \<Rightarrow> u8 \<Rightarrow> bool \<Rightarrow> (bytes, l2cap_error) result" where
  "pf_encode f req_seq final_bit =
     res_bind (control_to_bytes (Information (pf_tx_seq f) final_bit req_seq (pf_sar f))) (\<lambda>control.
     Inr (control @ (case pf_sdu_length f of Some len \<Rightarrow> le16_bytes len | None \<Rightarrow> [])
       @ pf_payload f))"

record transmitted_frame =
  tf_frame :: pending_frame
  tf_transmissions :: u16

record ertm_engine =
  er_config :: ertm_config
  er_pending :: "pending_frame list"
  er_tx_window :: "transmitted_frame list"
  er_outbound :: "bytes list"
  er_received :: "bytes list"
  er_next_tx_seq :: u8
  er_last_acked_tx_seq :: u8
  er_expected_tx_seq :: u8
  er_last_acked_rx_seq :: u8
  er_remote_busy :: bool
  er_local_busy :: bool
  er_input_sdu :: bytes
  er_input_sdu_length :: "nat option"
  er_now :: u64
  er_retransmission_deadline :: "u64 option"
  er_failed :: bool

type_synonym 'a ertm_action = "(ertm_engine, 'a, l2cap_error) action"

definition ertm_new :: "ertm_config \<Rightarrow> (ertm_engine, l2cap_error) result" where
  "ertm_new c = res_bind (ertm_config_validate c) (\<lambda>c.
     Inr \<lparr>er_config = c, er_pending = [], er_tx_window = [], er_outbound = [], er_received = [],
       er_next_tx_seq = 0, er_last_acked_tx_seq = 0, er_expected_tx_seq = 0,
       er_last_acked_rx_seq = 0, er_remote_busy = False, er_local_busy = False, er_input_sdu = [],
       er_input_sdu_length = None, er_now = 0, er_retransmission_deadline = None,
       er_failed = False\<rparr>)"

section \<open>Sequence numbers and small steps\<close>

definition sequence_add :: "u8 \<Rightarrow> u8 \<Rightarrow> u8" where
  "sequence_add seq delta = (seq + delta) mod ERTM_SEQUENCE_MODULUS"

definition sequence_distance :: "u8 \<Rightarrow> u8 \<Rightarrow> u8" where
  "sequence_distance from to = (to + ERTM_SEQUENCE_MODULUS - from) mod ERTM_SEQUENCE_MODULUS"

text \<open>\<^verbatim>\<open>u64::saturating_add\<close>.\<close>

definition saturating_add64 :: "u64 \<Rightarrow> u64 \<Rightarrow> u64" where
  "saturating_add64 a b = (if unat a + unat b < 2 ^ 64 then a + b else - 1)"

definition ensure_active :: "unit ertm_action" where
  "ensure_active e =
     (if er_failed e then (Inl (InvalidPacket ''ERTM engine has failed'' []), e) else (Inr (), e))"

definition reset_input :: "ertm_engine \<Rightarrow> ertm_engine" where
  "reset_input e = e\<lparr>er_input_sdu := [], er_input_sdu_length := None\<rparr>"

definition refresh_retransmission_deadline :: "ertm_engine \<Rightarrow> ertm_engine" where
  "refresh_retransmission_deadline e = e\<lparr>er_retransmission_deadline :=
     (if er_tx_window e \<noteq> []
      then Some (saturating_add64 (er_now e) (ucast (ec_retransmission_timeout_ticks (er_config e))))
      else None)\<rparr>"

definition retransmission_limit_reached :: "u8 \<Rightarrow> transmitted_frame \<Rightarrow> bool" where
  "retransmission_limit_reached mx f =
     (let retransmissions = (if tf_transmissions f = 0 then 0 else tf_transmissions f - 1) in
      mx \<noteq> 0 \<and> retransmissions \<ge> ucast mx)"

definition retransmission_limit_error :: "u8 \<Rightarrow> l2cap_error" where
  "retransmission_limit_error tx_seq =
     InvalidPacket ''maximum retransmissions exceeded for ERTM sequence {tx_seq}'' [unat tx_seq]"

section \<open>Output\<close>

definition send_supervisory :: "supervisory_function \<Rightarrow> bool \<Rightarrow> bool \<Rightarrow> unit ertm_action" where
  "send_supervisory f poll final_bit e =
     (case control_to_bytes (Supervisory f poll final_bit (er_expected_tx_seq e)) of
        Inl err \<Rightarrow> (Inl err, e)
      | Inr b \<Rightarrow> (Inr (), e\<lparr>er_outbound := er_outbound e @ [b],
          er_last_acked_rx_seq := er_expected_tx_seq e\<rparr>))"

function output_loop :: "unit ertm_action" where
  "output_loop e =
     (if length (er_tx_window e) < unat (ec_tx_window_size (er_config e)) then
        (case er_pending e of
           [] \<Rightarrow> (Inr (), e)
         | frame # rest \<Rightarrow>
             (case pf_encode frame (er_expected_tx_seq e) False of
                Inl err \<Rightarrow> (Inl err, e\<lparr>er_pending := rest\<rparr>)
              | Inr encoded \<Rightarrow> output_loop (e\<lparr>er_pending := rest,
                  er_last_acked_rx_seq := er_expected_tx_seq e,
                  er_tx_window := er_tx_window e @ [\<lparr>tf_frame = frame, tf_transmissions = 1\<rparr>],
                  er_outbound := er_outbound e @ [encoded]\<rparr>)))
      else (Inr (), e))"
  by pat_completeness auto
termination
  by (relation "measure (\<lambda>e. length (er_pending e))") auto

declare output_loop.simps [simp del]

definition process_output :: "unit ertm_action" where
  "process_output e =
     (if er_remote_busy e then (Inr (), e)
      else act_then output_loop (act_modify refresh_retransmission_deadline) e)"

text \<open>The \<^verbatim>\<open>for frame in &mut self.tx_window\<close> loop: the frames it leaves and what it sends.\<close>

fun retransmit_loop ::
  "u8 \<Rightarrow> transmitted_frame list \<Rightarrow> (unit, l2cap_error) result \<times> transmitted_frame list \<times> bytes list"
where
  "retransmit_loop req_seq [] = (Inr (), [], [])"
| "retransmit_loop req_seq (f # fs) =
     (let f' = f\<lparr>tf_transmissions := tf_transmissions f + 1\<rparr> in
      case pf_encode (tf_frame f') req_seq False of
        Inl err \<Rightarrow> (Inl err, f' # fs, [])
      | Inr b \<Rightarrow> let (r, fs', out) = retransmit_loop req_seq fs in (r, f' # fs', b # out))"

definition retransmit_all :: "unit ertm_action" where
  "retransmit_all e =
     (if er_remote_busy e then (Inr (), e)
      else (case find (retransmission_limit_reached (ec_max_retransmissions (er_config e))) (er_tx_window e) of
          Some f \<Rightarrow>
            (Inl (retransmission_limit_error (pf_tx_seq (tf_frame f))), e\<lparr>er_failed := True\<rparr>)
        | None \<Rightarrow>
            let (r, window, out) = retransmit_loop (er_expected_tx_seq e) (er_tx_window e);
                e' = e\<lparr>er_tx_window := window, er_outbound := er_outbound e @ out,
                  er_last_acked_rx_seq :=
                    (if out = [] then er_last_acked_rx_seq e else er_expected_tx_seq e)\<rparr> in
            (case r of Inl err \<Rightarrow> (Inl err, e')
             | Inr _ \<Rightarrow> (Inr (), refresh_retransmission_deadline e'))))"

text \<open>The first frame with a sequence number, as its index in the window.\<close>

fun find_seq :: "u8 \<Rightarrow> transmitted_frame list \<Rightarrow> nat option" where
  "find_seq tx_seq [] = None"
| "find_seq tx_seq (f # fs) =
     (if pf_tx_seq (tf_frame f) = tx_seq then Some 0 else map_option Suc (find_seq tx_seq fs))"

definition retransmit_one :: "u8 \<Rightarrow> unit ertm_action" where
  "retransmit_one tx_seq e =
     (if er_remote_busy e then (Inr (), e)
      else (case find_seq tx_seq (er_tx_window e) of
          None \<Rightarrow> (Inl (InvalidPacket ''selective reject requested unknown ERTM sequence {tx_seq}''
            [unat tx_seq]), e)
        | Some i \<Rightarrow>
            let f = er_tx_window e ! i in
            if retransmission_limit_reached (ec_max_retransmissions (er_config e)) f
            then (Inl (retransmission_limit_error (pf_tx_seq (tf_frame f))), e\<lparr>er_failed := True\<rparr>)
            else let f' = f\<lparr>tf_transmissions := tf_transmissions f + 1\<rparr>;
                     e' = e\<lparr>er_tx_window := (er_tx_window e)[i := f']\<rparr> in
              (case pf_encode (tf_frame f') (er_expected_tx_seq e) False of
                 Inl err \<Rightarrow> (Inl err, e')
               | Inr b \<Rightarrow> (Inr (), refresh_retransmission_deadline
                   (e'\<lparr>er_outbound := er_outbound e' @ [b],
                      er_last_acked_rx_seq := er_expected_tx_seq e'\<rparr>)))))"

section \<open>Input\<close>

definition acknowledge :: "u8 \<Rightarrow> bool ertm_action" where
  "acknowledge new_seq e =
     (if new_seq \<ge> ERTM_SEQUENCE_MODULUS
      then (Inl (InvalidPacket ''ERTM acknowledgment sequence out of range'' []), e)
      else let count = unat (sequence_distance (er_last_acked_tx_seq e) new_seq) in
        if count > length (er_tx_window e)
        then (Inl (InvalidPacket ''ERTM acknowledged {count} frames with only {} outstanding''
          [count, length (er_tx_window e)]), e)
        else let e' = e\<lparr>er_tx_window := drop count (er_tx_window e)\<rparr> in
          (Inr (count \<noteq> 0),
           if count \<noteq> 0 then refresh_retransmission_deadline (e'\<lparr>er_last_acked_tx_seq := new_seq\<rparr>)
           else e'))"

definition check_partial_length :: "unit ertm_action" where
  "check_partial_length e =
     (if (case er_input_sdu_length e of Some len \<Rightarrow> length (er_input_sdu e) \<ge> len | None \<Rightarrow> False)
      then (Inl (InvalidPacket ''ERTM segmented SDU reached its length before an end frame'' []),
        reset_input e)
      else (Inr (), e))"

definition accept_information :: "segmentation_and_reassembly \<Rightarrow> bytes \<Rightarrow> unit ertm_action" where
  "accept_information sar payload e = (case sar of
       Unsegmented \<Rightarrow>
         if er_input_sdu e \<noteq> [] \<or> er_input_sdu_length e \<noteq> None
         then (Inl (InvalidPacket ''unsegmented frame interrupted an ERTM SDU'' []), reset_input e)
         else if length payload > unat (ec_local_mtu (er_config e))
         then (Inl (InvalidPacket ''ERTM SDU exceeds local MTU'' []), e)
         else (Inr (), e\<lparr>er_received := er_received e @ [payload]\<rparr>)
     | Start \<Rightarrow>
         if length payload < 2
         then (Inl (InvalidPacket ''ERTM start frame is missing SDU length'' []), e)
         else if er_input_sdu e \<noteq> [] \<or> er_input_sdu_length e \<noteq> None
         then (Inl (InvalidPacket ''ERTM start frame interrupted an SDU'' []), reset_input e)
         else let len = unat (le16_of (payload ! 0) (payload ! 1)) in
           if len > unat (ec_local_mtu (er_config e))
           then (Inl (InvalidPacket ''ERTM SDU exceeds local MTU'' []), e)
           else check_partial_length (e\<lparr>er_input_sdu_length := Some len,
             er_input_sdu := er_input_sdu e @ drop 2 payload\<rparr>)
     | Continuation \<Rightarrow>
         if er_input_sdu_length e = None
         then (Inl (InvalidPacket ''ERTM continuation without start'' []), e)
         else check_partial_length (e\<lparr>er_input_sdu := er_input_sdu e @ payload\<rparr>)
     | End \<Rightarrow>
         (case er_input_sdu_length e of
            None \<Rightarrow> (Inl (InvalidPacket ''ERTM end without start'' []), e)
          | Some len \<Rightarrow>
              let e' = e\<lparr>er_input_sdu := er_input_sdu e @ payload\<rparr> in
              if length (er_input_sdu e') \<noteq> len
              then (Inl (InvalidPacket ''ERTM SDU length mismatch'' []), reset_input e')
              else (Inr (), e'\<lparr>er_received := er_received e' @ [er_input_sdu e'],
                er_input_sdu := [], er_input_sdu_length := None\<rparr>)))"

section \<open>The public operations\<close>

text \<open>\<^verbatim>\<open>take_tx_seq\<close> followed by pushing the frame that carries the number.\<close>

definition take_tx_seq :: "ertm_engine \<Rightarrow> u8 \<times> ertm_engine" where
  "take_tx_seq e = (er_next_tx_seq e, e\<lparr>er_next_tx_seq := sequence_add (er_next_tx_seq e) 1\<rparr>)"

definition push_frame ::
  "bytes \<Rightarrow> segmentation_and_reassembly \<Rightarrow> u16 option \<Rightarrow> ertm_engine \<Rightarrow> ertm_engine" where
  "push_frame payload sar sdu_length e =
     (let (tx_seq, e') = take_tx_seq e in
      e'\<lparr>er_pending := er_pending e' @ [\<lparr>pf_payload = payload, pf_tx_seq = tx_seq, pf_sar = sar,
        pf_sdu_length = sdu_length\<rparr>]\<rparr>)"

fun push_segments :: "nat \<Rightarrow> nat \<Rightarrow> u16 \<Rightarrow> nat \<Rightarrow> bytes list \<Rightarrow> ertm_engine \<Rightarrow> ertm_engine" where
  "push_segments mps sdu_len len index [] e = e"
| "push_segments mps sdu_len len index (chunk # rest) e =
     (let offset = index * mps;
          sar = (if index = 0 then Start
                 else if offset + length chunk = sdu_len then End else Continuation) in
      push_segments mps sdu_len len (index + 1) rest
        (push_frame chunk sar (if sar = Start then Some len else None) e))"

definition send_sdu :: "bytes \<Rightarrow> unit ertm_action" where
  "send_sdu sdu = act_then ensure_active (\<lambda>e.
     if length sdu > unat (ec_peer_mtu (er_config e))
     then (Inl (InvalidPacket ''SDU exceeds peer MTU {}'' [unat (ec_peer_mtu (er_config e))]), e)
     else let mps = unat (ec_peer_mps (er_config e)) in
       if length sdu \<le> mps then process_output (push_frame sdu Unsegmented None e)
       else if length sdu > 65535
       then (Inl (InvalidPacket ''ERTM SDU length exceeds 16 bits'' []), e)
       else process_output
         (push_segments mps (length sdu) (of_nat (length sdu)) 0 (chunks mps sdu) e))"

definition receive_information ::
  "u8 \<Rightarrow> bool \<Rightarrow> segmentation_and_reassembly \<Rightarrow> bytes \<Rightarrow> unit ertm_action" where
  "receive_information tx_seq final_bit sar payload e =
     (if er_local_busy e then send_supervisory ReceiverNotReady False final_bit e
      else if tx_seq \<noteq> er_expected_tx_seq e then send_supervisory Reject False final_bit e
      else act_then (act_modify (\<lambda>e. e\<lparr>er_expected_tx_seq := sequence_add (er_expected_tx_seq e) 1\<rparr>))
        (act_then (accept_information sar payload)
        (act_then process_output
        (\<lambda>e. if er_last_acked_rx_seq e \<noteq> er_expected_tx_seq e
             then send_supervisory ReceiverReady False final_bit e else (Inr (), e)))) e)"

definition receive_supervisory ::
  "supervisory_function \<Rightarrow> bool \<Rightarrow> bool \<Rightarrow> u8 \<Rightarrow> bool \<Rightarrow> unit ertm_action" where
  "receive_supervisory f poll final_bit req_seq acked =
     act_then (act_modify (\<lambda>e. e\<lparr>er_remote_busy := (f = ReceiverNotReady)\<rparr>))
     (act_then (\<lambda>e. case f of
          Reject \<Rightarrow> retransmit_all e
        | SelectiveReject \<Rightarrow> retransmit_one req_seq e
        | _ \<Rightarrow> if final_bit \<and> \<not> acked \<and> er_tx_window e \<noteq> [] then retransmit_all e else (Inr (), e))
     (act_then (\<lambda>e. if poll
          then send_supervisory (if er_local_busy e then ReceiverNotReady else ReceiverReady) False True e
          else (Inr (), e))
     process_output))"

definition receive_frame :: "bytes \<Rightarrow> unit ertm_action" where
  "receive_frame frame =
     act_then ensure_active
     (act_bind (act_lift (control_from_bytes frame)) (\<lambda>control.
      act_bind (acknowledge (control_req_seq control)) (\<lambda>acked.
      case control of
        Information tx_seq final_bit req_seq sar \<Rightarrow>
          receive_information tx_seq final_bit sar (drop 2 frame)
      | Supervisory f poll final_bit req_seq \<Rightarrow>
          receive_supervisory f poll final_bit req_seq acked)))"

definition set_receiver_busy :: "bool \<Rightarrow> unit ertm_action" where
  "set_receiver_busy busy = act_then ensure_active (\<lambda>e.
     if er_local_busy e \<noteq> busy
     then send_supervisory (if busy then ReceiverNotReady else ReceiverReady) False False
       (e\<lparr>er_local_busy := busy\<rparr>)
     else (Inr (), e))"

definition ertm_tick :: "u32 \<Rightarrow> unit ertm_action" where
  "ertm_tick ticks = act_then ensure_active (\<lambda>e.
     let e' = e\<lparr>er_now := saturating_add64 (er_now e) (ucast ticks)\<rparr> in
     if (case er_retransmission_deadline e' of Some d \<Rightarrow> er_now e' \<ge> d | None \<Rightarrow> False)
        \<and> er_tx_window e' \<noteq> []
     then retransmit_all e' else (Inr (), e'))"

definition poll_outbound :: "ertm_engine \<Rightarrow> bytes option \<times> ertm_engine" where
  "poll_outbound e = (case er_outbound e of
       [] \<Rightarrow> (None, e) | b # rest \<Rightarrow> (Some b, e\<lparr>er_outbound := rest\<rparr>))"

definition drain_outbound :: "ertm_engine \<Rightarrow> bytes list \<times> ertm_engine" where
  "drain_outbound e = (er_outbound e, e\<lparr>er_outbound := []\<rparr>)"

definition pop_received :: "ertm_engine \<Rightarrow> bytes option \<times> ertm_engine" where
  "pop_received e = (case er_received e of
       [] \<Rightarrow> (None, e) | b # rest \<Rightarrow> (Some b, e\<lparr>er_received := rest\<rparr>))"

definition pending_frames :: "ertm_engine \<Rightarrow> nat" where
  "pending_frames e = length (er_pending e) + length (er_tx_window e)"

definition unacked_frames :: "ertm_engine \<Rightarrow> nat" where
  "unacked_frames e = length (er_tx_window e)"

section \<open>Lemmas: control fields\<close>

lemma bit_small_numerals:
  "bit (3 :: int) n \<longleftrightarrow> n < 2" "bit (63 :: int) n \<longleftrightarrow> n < 6" "bit (16 :: int) n \<longleftrightarrow> n = 4"
proof -
  have "(3 :: int) = mask 2" "(63 :: int) = mask 6" by (simp_all add: mask_eq_exp_minus_1)
  then show "bit (3 :: int) n \<longleftrightarrow> n < 2" "bit (63 :: int) n \<longleftrightarrow> n < 6"
    by (simp_all only: bit_mask_iff) auto
  show "bit (16 :: int) n \<longleftrightarrow> n = 4"
    using bit_push_bit_iff [of 4 "1 :: int" n] by (auto simp: push_bit_eq_mult bit_1_iff)
qed

lemma flag_masks:
  fixes t :: u8
  shows "t AND 1 = 0 \<longleftrightarrow> \<not> bit t 0" "t AND 0x80 = 0 \<longleftrightarrow> \<not> bit t 7"
    "t AND 0x10 = 0 \<longleftrightarrow> \<not> bit t 4"
  using bit_iff_and_push_bit_not_eq_0 [of t 0] bit_iff_and_push_bit_not_eq_0 [of t 7]
    bit_iff_and_push_bit_not_eq_0 [of t 4]
  by (simp_all add: push_bit_eq_mult)

lemma seq_bits: "(s :: u8) < 64 \<Longrightarrow> bit s n \<Longrightarrow> n < 6"
  using small_word_bits [of s 6 n] by (simp add: word_less_nat_alt)

lemma bit_u8_from_bool [simp]: "bit (u8_from_bool b) n \<longleftrightarrow> b \<and> n = 0"
  by (auto simp: u8_from_bool_def bit_1_iff)

lemma information_fields:
  fixes final_bit :: bool and sar :: segmentation_and_reassembly
  assumes "t < 64" "r < 64"
  defines "a \<equiv> push_bit 1 t OR push_bit 7 (u8_from_bool final_bit)"
    and "b \<equiv> r OR push_bit 6 (sar_code sar)"
  shows "a AND 1 = 0" "drop_bit 1 a AND 0x3f = t" "a AND 0x80 \<noteq> 0 \<longleftrightarrow> final_bit"
    "b AND 0x3f = r" "sar_try_from (drop_bit 6 b) = Inr sar"
proof -
  note ts = seq_bits [OF assms(1)] and rs = seq_bits [OF assms(2)]
  show "a AND 1 = 0" by (simp only: flag_masks a_def bit_or_iff bit_push_bit_iff) simp
  show "drop_bit 1 a AND 0x3f = t"
    by (rule bit_word_eqI)
      (auto simp: a_def bit_simps bit_small_numerals simp del: push_bit_Suc dest: ts)
  show "a AND 0x80 \<noteq> 0 \<longleftrightarrow> final_bit"
    by (auto simp: flag_masks a_def bit_simps simp del: push_bit_Suc dest: ts)
  show "b AND 0x3f = r"
    by (rule bit_word_eqI) (auto simp: b_def bit_simps bit_small_numerals dest: rs)
  have "drop_bit 6 b = sar_code sar"
    by (rule bit_word_eqI; cases sar) (auto simp: b_def bit_simps dest: rs)
  then show "sar_try_from (drop_bit 6 b) = Inr sar"
    by (cases sar) (simp_all add: sar_try_from_def)
qed

lemma supervisory_fields:
  fixes poll final_bit :: bool and f :: supervisory_function and r :: u8
  assumes "r < 64"
  defines "a \<equiv> 1 OR push_bit 2 (supervisory_code f) OR push_bit 4 (u8_from_bool poll)
         OR push_bit 7 (u8_from_bool final_bit)"
  shows "a AND 1 \<noteq> 0" "supervisory_try_from (drop_bit 2 a AND 3) = Inr f"
    "a AND 0x10 \<noteq> 0 \<longleftrightarrow> poll" "a AND 0x80 \<noteq> 0 \<longleftrightarrow> final_bit" "r AND 0x3f = r"
proof -
  have code: "bit (supervisory_code f) n \<Longrightarrow> n < 2" for n
    using small_word_bits [of "supervisory_code f" 2 n] by (cases f) auto
  show "a AND 1 \<noteq> 0" by (simp add: flag_masks a_def bit_simps)
  show "a AND 0x10 \<noteq> 0 \<longleftrightarrow> poll" "a AND 0x80 \<noteq> 0 \<longleftrightarrow> final_bit"
    by (auto simp: flag_masks a_def bit_simps bit_1_iff dest: code)
  show "r AND 0x3f = r"
    by (rule bit_word_eqI) (auto simp: bit_simps bit_small_numerals dest: seq_bits [OF assms(1)])
  have "drop_bit 2 a AND 3 = supervisory_code f"
    by (rule bit_word_eqI) (auto simp: a_def bit_simps bit_1_iff bit_small_numerals dest: code)
  then show "supervisory_try_from (drop_bit 2 a AND 3) = Inr f"
    by (cases f) (simp_all add: supervisory_try_from_def)
qed

fun control_wf :: "enhanced_control_field \<Rightarrow> bool" where
  "control_wf (Information t _ r _) \<longleftrightarrow> t < 64 \<and> r < 64"
| "control_wf (Supervisory _ _ _ r) \<longleftrightarrow> r < 64"

definition control_bytes :: "enhanced_control_field \<Rightarrow> bytes" where
  "control_bytes c = (case control_to_bytes c of Inr b \<Rightarrow> b | Inl _ \<Rightarrow> [])"

lemma control_to_bytes_ok: "control_wf c \<Longrightarrow> control_to_bytes c = Inr (control_bytes c)"
  by (cases c) (simp_all add: control_bytes_def validate_seq_def)

lemma length_control_bytes [simp]: "control_wf c \<Longrightarrow> length (control_bytes c) = 2"
  by (cases c) (simp_all add: control_bytes_def validate_seq_def)

lemma control_from_information:
  assumes "a AND 1 = 0" "drop_bit 1 a AND 0x3f = t" "a AND 0x80 \<noteq> 0 \<longleftrightarrow> f"
    "b AND 0x3f = q" "sar_try_from (drop_bit 6 b) = Inr s"
  shows "control_from_bytes (a # b # r) = Inr (Information t f q s)"
  using assms by (simp add: control_from_bytes_def)

lemma control_from_supervisory:
  assumes "a AND 1 \<noteq> 0" "supervisory_try_from (drop_bit 2 a AND 3) = Inr f"
    "a AND 0x10 \<noteq> 0 \<longleftrightarrow> p" "a AND 0x80 \<noteq> 0 \<longleftrightarrow> l" "b AND 0x3f = q"
  shows "control_from_bytes (a # b # r) = Inr (Supervisory f p l q)"
  using assms by (simp add: control_from_bytes_def)

lemma control_roundtrip:
  assumes "control_wf c"
  shows "control_from_bytes (control_bytes c @ r) = Inr c"
proof (cases c)
  case (Information t f q s)
  with assms have "control_bytes c = [push_bit 1 t OR push_bit 7 (u8_from_bool f), q OR push_bit 6 (sar_code s)]"
    by (simp add: control_bytes_def validate_seq_def)
  moreover from Information assms have seqs: "t < 64" "q < 64" by simp_all
  ultimately show ?thesis
    using control_from_information [OF information_fields [OF seqs], of f s r] Information by simp
next
  case (Supervisory f p l q)
  with assms have "control_bytes c = [1 OR push_bit 2 (supervisory_code f) OR push_bit 4 (u8_from_bool p)
         OR push_bit 7 (u8_from_bool l), q]"
    by (simp add: control_bytes_def validate_seq_def)
  moreover from Supervisory assms have seq: "q < 64" by simp
  ultimately show ?thesis
    using control_from_supervisory [OF supervisory_fields [OF seq], of f p l r] Supervisory by simp
qed

lemma and_3f_less: "(w :: u8) AND 0x3f < 64"
  using word_and_le1 [of w "0x3f"] by (simp add: word_le_nat_alt word_less_nat_alt)

lemma control_from_bytes_wf: "control_from_bytes b = Inr c \<Longrightarrow> control_wf c"
  by (auto simp: control_from_bytes_def res_bind_eq_Inr and_3f_less split: if_splits)

lemma two_bit_cases: "drop_bit 6 (w :: u8) \<in> {0, 1, 2, 3}" "(w AND 3) \<in> {0, 1, 2, 3}"
proof -
  have small: "v \<le> 3 \<Longrightarrow> v \<in> {0, 1, 2, 3}" for v :: u8
    by (simp add: word_le_nat_alt word_unat_eq_iff) linarith
  have "unat (drop_bit 6 w) = unat w div 64"
    by (simp add: drop_bit_eq_div unat_div)
  then have "unat (drop_bit 6 w) \<le> 3"
    using unat_u8_less [of w] by linarith
  then show "drop_bit 6 w \<in> {0, 1, 2, 3}" by (intro small) (simp add: word_le_nat_alt)
  show "(w AND 3) \<in> {0, 1, 2, 3}" by (rule small) (rule word_and_le1)
qed

lemma control_from_bytes_total:
  "(\<exists>c. control_from_bytes b = Inr c) \<longleftrightarrow> 2 \<le> length b"
  using two_bit_cases(1) [of "b ! 1"] two_bit_cases(2) [of "drop_bit 2 (b ! 0)"]
  by (auto simp: control_from_bytes_def sar_try_from_def supervisory_try_from_def)

interpretation ertm_control: wire_codec control_bytes control_from_bytes control_wf
  by unfold_locales (use control_roundtrip [of _ "[]"] in simp)

section \<open>Lemmas: sequence numbers\<close>

lemma sequence_add_less [simp]: "sequence_add s d < 64"
  by (simp add: sequence_add_def word_less_nat_alt unat_mod)

lemma unat_seq: "(s :: u8) < 64 \<longleftrightarrow> unat s < 64"
  by (simp add: word_less_nat_alt)

lemma unat_sequence_add_1: "s < 64 \<Longrightarrow> unat (sequence_add s 1) = (unat s + 1) mod 64"
  by (simp add: sequence_add_def unat_mod unat_word_ariths unat_seq mod_mod_cancel)

lemma unat_sequence_distance:
  assumes "a < 64" "b < 64"
  shows "unat (sequence_distance a b) = (unat b + 64 - unat a) mod 64"
proof -
  have "unat (b + 64) = unat b + 64"
    using assms by (subst unat_add_lem [THEN iffD1]) (simp_all add: unat_seq)
  moreover from this have "a \<le> b + 64"
    using assms by (simp add: word_le_nat_alt unat_seq)
  ultimately show ?thesis
    by (simp add: sequence_distance_def unat_mod unat_sub)
qed

text \<open>The number \<open>n\<close> places after \<open>s\<close>.\<close>

definition seq_advance :: "u8 \<Rightarrow> nat \<Rightarrow> u8" where
  "seq_advance s n = ((\<lambda>x. sequence_add x 1) ^^ n) s"

lemma seq_advance_0 [simp]: "seq_advance s 0 = s"
  by (simp add: seq_advance_def)

lemma seq_advance_Suc: "seq_advance s (Suc n) = sequence_add (seq_advance s n) 1"
  by (simp add: seq_advance_def)

lemma seq_advance_Suc_left: "seq_advance s (Suc n) = seq_advance (sequence_add s 1) n"
  by (simp add: seq_advance_def funpow_Suc_right del: funpow.simps)

lemma seq_advance_add: "seq_advance s (m + n) = seq_advance (seq_advance s m) n"
  by (induction m arbitrary: s) (simp_all add: seq_advance_Suc_left)

lemma seq_advance_less [simp]: "s < 64 \<Longrightarrow> seq_advance s n < 64"
  by (cases n) (simp_all add: seq_advance_Suc)

lemma unat_seq_advance: "s < 64 \<Longrightarrow> unat (seq_advance s n) = (unat s + n) mod 64"
proof (induction n)
  case 0
  then show ?case by (simp add: unat_seq)
next
  case (Suc n)
  then show ?case by (simp add: seq_advance_Suc unat_sequence_add_1 mod_Suc_eq)
qed

lemma seq_advance_distance: "a < 64 \<Longrightarrow> b < 64 \<Longrightarrow> seq_advance a (unat (sequence_distance a b)) = b"
proof -
  assume ab: "a < 64" "b < 64"
  have "(unat a + (unat b + 64 - unat a) mod 64) mod 64 = unat b"
    using ab by (simp add: unat_seq mod_add_right_eq)
  with ab have "unat (seq_advance a (unat (sequence_distance a b))) = unat b"
    by (simp add: unat_seq_advance unat_sequence_distance)
  then show ?thesis by (simp add: word_unat_eq_iff)
qed

lemma sequence_distance_advance:
  assumes "a < 64" "n < 64"
  shows "unat (sequence_distance a (seq_advance a n)) = n"
proof -
  have "((unat a + n) mod 64 + 64 - unat a) mod 64 = n"
    using assms by (simp add: unat_seq) (cases "unat a + n < 64"; simp add: mod_if)
  with assms show ?thesis by (simp add: unat_sequence_distance unat_seq_advance)
qed

fun seqs_from :: "u8 \<Rightarrow> pending_frame list \<Rightarrow> bool" where
  "seqs_from s [] = True"
| "seqs_from s (f # fs) \<longleftrightarrow> pf_tx_seq f = s \<and> seqs_from (sequence_add s 1) fs"

lemma seqs_from_append [simp]:
  "seqs_from s (xs @ ys) \<longleftrightarrow> seqs_from s xs \<and> seqs_from (seq_advance s (length xs)) ys"
  by (induction xs arbitrary: s) (simp_all add: seq_advance_Suc_left)

lemma seqs_from_drop: "seqs_from s xs \<Longrightarrow> n \<le> length xs \<Longrightarrow> seqs_from (seq_advance s n) (drop n xs)"
  by (metis append_take_drop_id length_take min.absorb2 seqs_from_append)

lemma seqs_from_less: "seqs_from s xs \<Longrightarrow> s < 64 \<Longrightarrow> f \<in> set xs \<Longrightarrow> pf_tx_seq f < 64"
  by (induction xs arbitrary: s) auto

section \<open>Lemmas: the engine invariant\<close>

definition pf_bytes :: "pending_frame \<Rightarrow> u8 \<Rightarrow> bytes" where
  "pf_bytes f req_seq = control_bytes (Information (pf_tx_seq f) False req_seq (pf_sar f))
     @ (case pf_sdu_length f of Some len \<Rightarrow> le16_bytes len | None \<Rightarrow> []) @ pf_payload f"

lemma pf_encode_ok: "pf_tx_seq f < 64 \<Longrightarrow> r < 64 \<Longrightarrow> pf_encode f r False = Inr (pf_bytes f r)"
  by (simp add: pf_encode_def pf_bytes_def control_to_bytes_ok del: control_to_bytes.simps)

lemma length_pf_bytes:
  "pf_tx_seq f < 64 \<Longrightarrow> r < 64 \<Longrightarrow> length (pf_bytes f r) \<le> length (pf_payload f) + 4"
  "pf_tx_seq f < 64 \<Longrightarrow> r < 64 \<Longrightarrow> 2 \<le> length (pf_bytes f r)"
  by (simp_all add: pf_bytes_def split: option.split)

definition window_frames :: "ertm_engine \<Rightarrow> pending_frame list" where
  "window_frames e = map tf_frame (er_tx_window e)"

definition limits_ok :: "ertm_engine \<Rightarrow> bool" where
  "limits_ok e \<longleftrightarrow> list_all (\<lambda>f. ec_max_retransmissions (er_config e) = 0
       \<or> 1 \<le> unat (tf_transmissions f)
         \<and> unat (tf_transmissions f) \<le> unat (ec_max_retransmissions (er_config e)) + 1) (er_tx_window e)"

definition tx_ok :: "ertm_engine \<Rightarrow> bool" where
  "tx_ok e \<longleftrightarrow> er_last_acked_tx_seq e < 64 \<and> er_last_acked_rx_seq e < 64
     \<and> length (er_tx_window e) \<le> unat (ec_tx_window_size (er_config e))
     \<and> seqs_from (er_last_acked_tx_seq e) (window_frames e @ er_pending e)
     \<and> er_next_tx_seq e = seq_advance (er_last_acked_tx_seq e) (pending_frames e)
     \<and> list_all (\<lambda>f. length (pf_payload f) \<le> unat (ec_peer_mps (er_config e)))
         (window_frames e @ er_pending e)
     \<and> list_all (\<lambda>b. 2 \<le> length b \<and> length b \<le> unat (ec_peer_mps (er_config e)) + 4) (er_outbound e)
     \<and> limits_ok e"

definition input_ok :: "nat option \<Rightarrow> bytes \<Rightarrow> nat \<Rightarrow> bool" where
  "input_ok len sdu mtu = (case len of None \<Rightarrow> sdu = [] | Some n \<Rightarrow> length sdu < n \<and> n \<le> mtu)"

lemma input_ok_simps [simp]:
  "input_ok None sdu mtu \<longleftrightarrow> sdu = []"
  "input_ok (Some n) sdu mtu \<longleftrightarrow> length sdu < n \<and> n \<le> mtu"
  by (simp_all add: input_ok_def)

definition rx_ok :: "ertm_engine \<Rightarrow> bool" where
  "rx_ok e \<longleftrightarrow> er_expected_tx_seq e < 64
     \<and> input_ok (er_input_sdu_length e) (er_input_sdu e) (unat (ec_local_mtu (er_config e)))
     \<and> list_all (\<lambda>b. length b \<le> unat (ec_local_mtu (er_config e))) (er_received e)"

definition config_ok :: "ertm_config \<Rightarrow> bool" where
  "config_ok c \<longleftrightarrow> ertm_config_validate c = Inr c"

definition timer_ok :: "ertm_engine \<Rightarrow> bool" where
  "timer_ok e \<longleftrightarrow> (er_retransmission_deadline e = None \<longleftrightarrow> er_tx_window e = [])"

definition ertm_core :: "ertm_engine \<Rightarrow> bool" where
  "ertm_core e \<longleftrightarrow> config_ok (er_config e) \<and> tx_ok e \<and> rx_ok e"

definition ertm_inv :: "ertm_engine \<Rightarrow> bool" where
  "ertm_inv e \<longleftrightarrow> ertm_core e \<and> timer_ok e"

lemmas ertm_inv_defs = ertm_inv_def ertm_core_def tx_ok_def rx_ok_def timer_ok_def limits_ok_def
  window_frames_def pending_frames_def

lemma ertm_new_inv: "ertm_new c = Inr e \<Longrightarrow> ertm_inv e"
  by (auto simp: ertm_new_def res_bind_eq_Inr ertm_inv_defs config_ok_def ertm_config_validate_def
      split: if_splits)

lemma refresh_inv: "ertm_core e \<Longrightarrow> ertm_inv (refresh_retransmission_deadline e)"
  by (auto simp: ertm_inv_defs refresh_retransmission_deadline_def)

lemma window_seq_less:
  "ertm_core e \<Longrightarrow> f \<in> set (er_tx_window e) \<Longrightarrow> pf_tx_seq (tf_frame f) < 64"
  "ertm_core e \<Longrightarrow> g \<in> set (er_pending e) \<Longrightarrow> pf_tx_seq g < 64"
  using seqs_from_less [of "er_last_acked_tx_seq e" "window_frames e @ er_pending e"]
  by (auto simp: ertm_core_def tx_ok_def window_frames_def)

lemma window_frame_length:
  assumes "ertm_core e" "f \<in> set (er_tx_window e)"
  shows "2 \<le> length (pf_bytes (tf_frame f) (er_expected_tx_seq e))"
    "length (pf_bytes (tf_frame f) (er_expected_tx_seq e)) \<le> unat (ec_peer_mps (er_config e)) + 4"
proof -
  have r: "er_expected_tx_seq e < 64" using assms by (simp add: ertm_core_def rx_ok_def)
  have "length (pf_payload (tf_frame f)) \<le> unat (ec_peer_mps (er_config e))"
    using assms by (simp add: ertm_core_def tx_ok_def window_frames_def list_all_iff)
  with length_pf_bytes [OF window_seq_less(1) [OF assms] r]
  show "2 \<le> length (pf_bytes (tf_frame f) (er_expected_tx_seq e))"
    "length (pf_bytes (tf_frame f) (er_expected_tx_seq e)) \<le> unat (ec_peer_mps (er_config e)) + 4"
    by linarith+
qed

lemma ensure_active_eq: "act_then ensure_active k e =
    (if er_failed e then (Inl (InvalidPacket ''ERTM engine has failed'' []), e) else k e)"
  by (simp add: act_then_def act_bind_def ensure_active_def)

lemma send_supervisory_eq:
  assumes "er_expected_tx_seq e < 64"
  shows "send_supervisory f p l e = (Inr (), e\<lparr>er_outbound :=
      er_outbound e @ [control_bytes (Supervisory f p l (er_expected_tx_seq e))],
      er_last_acked_rx_seq := er_expected_tx_seq e\<rparr>)"
  using assms by (simp add: send_supervisory_def control_to_bytes_ok del: control_to_bytes.simps)

lemma send_supervisory_inv:
  assumes "ertm_inv e"
  shows "ertm_inv (snd (send_supervisory f p l e))" "fst (send_supervisory f p l e) = Inr ()"
proof -
  have "er_expected_tx_seq e < 64" using assms by (simp add: ertm_inv_def ertm_core_def rx_ok_def)
  with assms show "ertm_inv (snd (send_supervisory f p l e))" "fst (send_supervisory f p l e) = Inr ()"
    by (auto simp: send_supervisory_eq ertm_inv_defs)
qed

lemma output_step_core:
  assumes "ertm_core e" "er_pending e = frame # rest"
    and "length (er_tx_window e) < unat (ec_tx_window_size (er_config e))"
    and "length b \<le> length (pf_payload frame) + 4" "2 \<le> length b"
  shows "ertm_core (e\<lparr>er_pending := rest, er_last_acked_rx_seq := er_expected_tx_seq e,
      er_tx_window := er_tx_window e @ [\<lparr>tf_frame = frame, tf_transmissions = 1\<rparr>],
      er_outbound := er_outbound e @ [b]\<rparr>)"
  using assms by (auto simp: ertm_inv_defs seq_advance_Suc_left)

lemma output_loop_core: "ertm_core e \<Longrightarrow> fst (output_loop e) = Inr () \<and> ertm_core (snd (output_loop e))"
proof (induction e rule: output_loop.induct)
  case (1 e)
  show ?case
  proof (cases "length (er_tx_window e) < unat (ec_tx_window_size (er_config e)) \<and> er_pending e \<noteq> []")
    case False
    with 1 show ?thesis by (subst (1 2) output_loop.simps) (auto split: list.split)
  next
    case True
    then obtain f fs where p: "er_pending e = f # fs" by (cases "er_pending e") auto
    have f: "pf_tx_seq f < 64" and r: "er_expected_tx_seq e < 64"
      using window_seq_less(2) [OF "1.prems", of f] p "1.prems" by (auto simp: ertm_core_def rx_ok_def)
    note enc = pf_encode_ok [OF f r] and len = length_pf_bytes(1) [OF f r]
    show ?thesis
      using length_pf_bytes(2) [OF f r] "1.IH" [OF _ p enc] True p enc output_step_core [OF "1.prems" p _ len]
      by (subst (1 2) output_loop.simps) simp
  qed
qed

lemma process_output_inv:
  assumes "ertm_inv e"
  shows "ertm_inv (snd (process_output e))" "fst (process_output e) = Inr ()"
proof -
  have "ertm_core e" using assms by (simp add: ertm_inv_def)
  note output_loop_core [OF this]
  then show "ertm_inv (snd (process_output e))" "fst (process_output e) = Inr ()"
    using assms by (auto simp: process_output_def act_then_def act_bind_def refresh_inv
        split: prod.split sum.split)
qed

text \<open>Retransmission: without a frame at its limit, every outstanding frame is sent again.\<close>

lemma retransmit_loop_eq:
  assumes "r < 64" "\<forall>f \<in> set fs. pf_tx_seq (tf_frame f) < 64"
  shows "retransmit_loop r fs = (Inr (), map (\<lambda>f. f\<lparr>tf_transmissions := tf_transmissions f + 1\<rparr>) fs,
    map (\<lambda>f. pf_bytes (tf_frame f) r) fs)"
  using assms by (induction fs) (simp_all add: pf_encode_ok Let_def)

lemma limit_reached_bound:
  assumes "\<not> retransmission_limit_reached mx f" "mx = 0 \<or> 1 \<le> unat (tf_transmissions f)"
  shows "mx = 0 \<or> unat (tf_transmissions f + 1) = unat (tf_transmissions f) + 1
    \<and> unat (tf_transmissions f + 1) \<le> unat mx + 1"
proof (cases "mx = 0")
  case False
  with assms have nz: "tf_transmissions f \<noteq> 0" by auto
  with False assms have "tf_transmissions f - 1 < ucast mx"
    by (simp add: retransmission_limit_reached_def not_le)
  note nz this
  then have "unat (tf_transmissions f) - 1 < unat mx"
    by (simp add: word_less_nat_alt unat_sub_if' unsigned_ucast_eq take_bit_eq_mod
        unat_u8_less [THEN order.strict_trans2] split: if_splits)
  moreover have "unat mx < 256" by (rule unat_u8_less)
  ultimately have "unat (tf_transmissions f) + 1 < 65536" by linarith
  then have "unat (tf_transmissions f + 1) = unat (tf_transmissions f) + 1"
    by (subst unat_add_lem [THEN iffD1]) simp_all
  with \<open>unat (tf_transmissions f) - 1 < unat mx\<close> show ?thesis by linarith
qed simp

lemma retransmit_all_inv:
  assumes "ertm_inv e"
  shows "ertm_inv (snd (retransmit_all e))"
proof -
  have r: "er_expected_tx_seq e < 64" using assms by (simp add: ertm_inv_def ertm_core_def rx_ok_def)
  have core: "ertm_core e" using assms by (simp add: ertm_inv_def)
  have seqs: "\<forall>f \<in> set (er_tx_window e). pf_tx_seq (tf_frame f) < 64"
    using window_seq_less(1) [OF core] by blast
  note len = window_frame_length [OF core]
  show ?thesis
  proof (cases "er_remote_busy e \<or> find (retransmission_limit_reached (ec_max_retransmissions (er_config e)))
      (er_tx_window e) \<noteq> None")
    case True
    with assms show ?thesis by (auto simp: retransmit_all_def ertm_inv_defs)
  next
    case False
    then have none: "f \<in> set (er_tx_window e) \<Longrightarrow>
        \<not> retransmission_limit_reached (ec_max_retransmissions (er_config e)) f" for f
      by (auto simp: find_None_iff)
    have "limits_ok e" using core by (simp add: ertm_core_def tx_ok_def)
    then have lim: "list_all (\<lambda>f. ec_max_retransmissions (er_config e) = 0
        \<or> 1 \<le> unat (tf_transmissions f + 1)
          \<and> unat (tf_transmissions f + 1) \<le> unat (ec_max_retransmissions (er_config e)) + 1)
        (er_tx_window e)"
      using limit_reached_bound [OF none] by (fastforce simp: limits_ok_def list_all_iff)
    show ?thesis
      using False core r lim len
      by (auto simp: retransmit_all_def retransmit_loop_eq [OF r seqs] Let_def intro!: refresh_inv)
        (auto simp: ertm_inv_defs list_all_iff comp_def)
  qed
qed

lemma find_seq_Some: "find_seq t fs = Some i \<Longrightarrow> i < length fs \<and> pf_tx_seq (tf_frame (fs ! i)) = t"
  by (induction fs arbitrary: i) (auto split: if_splits)

lemma map_tf_frame_update: "i < length fs \<Longrightarrow>
    map tf_frame (fs[i := (fs ! i)\<lparr>tf_transmissions := n\<rparr>]) = map tf_frame fs"
  by (simp add: map_update) (metis list_update_id nth_map)

lemma retransmit_one_inv:
  assumes "ertm_inv e"
  shows "ertm_inv (snd (retransmit_one t e))"
proof -
  have r: "er_expected_tx_seq e < 64" using assms by (simp add: ertm_inv_def ertm_core_def rx_ok_def)
  have core: "ertm_core e" using assms by (simp add: ertm_inv_def)
  show ?thesis
  proof (cases "find_seq t (er_tx_window e)")
    case None
    with assms show ?thesis by (simp add: retransmit_one_def)
  next
    case (Some i)
    let ?f = "er_tx_window e ! i"
    let ?mx = "ec_max_retransmissions (er_config e)"
    have i: "i < length (er_tx_window e)" using find_seq_Some [OF Some] by simp
    then have mem: "?f \<in> set (er_tx_window e)" by simp
    note seq = window_seq_less(1) [OF core mem] and len = window_frame_length [OF core mem]
    show ?thesis
    proof (cases "er_remote_busy e \<or> retransmission_limit_reached ?mx ?f")
      case True
      with assms Some show ?thesis by (auto simp: retransmit_one_def ertm_inv_defs)
    next
      case False
      have lims: "limits_ok e" using core by (simp add: ertm_core_def tx_ok_def)
      then have "?mx = 0 \<or> 1 \<le> unat (tf_transmissions ?f)"
        using mem by (auto simp: limits_ok_def list_all_iff)
      from limit_reached_bound [OF _ this] False
      have "?mx = 0 \<or> 1 \<le> unat (tf_transmissions ?f + 1) \<and> unat (tf_transmissions ?f + 1) \<le> unat ?mx + 1"
        by auto
      with lims have lim: "list_all (\<lambda>f. ?mx = 0 \<or> 1 \<le> unat (tf_transmissions f)
          \<and> unat (tf_transmissions f) \<le> unat ?mx + 1)
          ((er_tx_window e)[i := ?f\<lparr>tf_transmissions := tf_transmissions ?f + 1\<rparr>])"
        by (auto simp: limits_ok_def list_all_iff dest!: set_update_subset_insert [THEN subsetD])
      show ?thesis
        using False Some core r lim len i seq
        by (auto simp: retransmit_one_def pf_encode_ok Let_def intro!: refresh_inv)
          (auto simp: ertm_inv_defs map_tf_frame_update)
    qed
  qed
qed

lemma acknowledge_inv:
  assumes "ertm_inv e"
  shows "ertm_inv (snd (acknowledge s e))"
proof -
  have core: "ertm_core e" and last: "er_last_acked_tx_seq e < 64"
    using assms by (simp_all add: ertm_inv_def ertm_core_def tx_ok_def)
  define n where "n = unat (sequence_distance (er_last_acked_tx_seq e) s)"
  show ?thesis
  proof (cases "s < 64 \<and> n \<le> length (er_tx_window e) \<and> n \<noteq> 0")
    case False
    with assms show ?thesis by (auto simp: acknowledge_def n_def Let_def not_le)
  next
    case True
    then have s: "seq_advance (er_last_acked_tx_seq e) n = s"
      using last by (simp add: n_def seq_advance_distance)
    have fs: "drop n (window_frames e) = map tf_frame (drop n (er_tx_window e))"
      by (simp add: window_frames_def drop_map)
    have "seqs_from s (drop n (window_frames e @ er_pending e))"
      using core True seqs_from_drop [of "er_last_acked_tx_seq e" "window_frames e @ er_pending e" n] s
      by (simp add: ertm_core_def tx_ok_def window_frames_def)
    moreover have "seq_advance s (length (er_tx_window e) - n + length (er_pending e)) = er_next_tx_seq e"
      using core True s seq_advance_add [of "er_last_acked_tx_seq e" n
          "length (er_tx_window e) - n + length (er_pending e)"]
      by (simp add: ertm_core_def tx_ok_def pending_frames_def add.commute add.left_commute)
    ultimately have "ertm_core (e\<lparr>er_tx_window := drop n (er_tx_window e), er_last_acked_tx_seq := s\<rparr>)"
      using core True fs
      by (auto simp: ertm_core_def tx_ok_def rx_ok_def limits_ok_def pending_frames_def window_frames_def
          add.commute list_all_iff dest: in_set_dropD)
    moreover have "acknowledge s e = (Inr True, refresh_retransmission_deadline
        (e\<lparr>er_tx_window := drop n (er_tx_window e), er_last_acked_tx_seq := s\<rparr>))"
      using True by (simp add: acknowledge_def n_def not_le)
    ultimately show ?thesis by (simp add: refresh_inv)
  qed
qed

lemma accept_information_inv:
  "ertm_inv e \<Longrightarrow> ertm_inv (snd (accept_information sar payload e))"
  by (cases sar; cases "er_input_sdu_length e")
    (auto simp: accept_information_def check_partial_length_def reset_input_def ertm_inv_defs Let_def
      not_le)

lemma push_frame_inv:
  assumes "ertm_inv e" "length payload \<le> unat (ec_peer_mps (er_config e))"
  shows "ertm_inv (push_frame payload sar len e)"
  using assms
  by (auto simp: push_frame_def take_tx_seq_def ertm_inv_defs seq_advance_Suc add.commute
      simp flip: seq_advance_add)

lemma push_frame_config [simp]: "er_config (push_frame payload sar len e) = er_config e"
  by (simp add: push_frame_def take_tx_seq_def)

lemma push_segments_inv:
  "ertm_inv e \<Longrightarrow> list_all (\<lambda>c. length c \<le> unat (ec_peer_mps (er_config e))) cs
    \<Longrightarrow> ertm_inv (push_segments mps n len i cs e)"
  by (induction mps n len i cs e rule: push_segments.induct) (simp_all add: push_frame_inv Let_def)

lemma send_sdu_inv: "ertm_inv e \<Longrightarrow> ertm_inv (snd (send_sdu sdu e))"
  by (auto simp: send_sdu_def ensure_active_eq Let_def list_all_iff
      intro!: process_output_inv push_frame_inv push_segments_inv dest: chunks_elem)

lemma ertm_inv_flags [simp]:
  "ertm_inv (e\<lparr>er_remote_busy := b\<rparr>) = ertm_inv e" "ertm_inv (e\<lparr>er_local_busy := b\<rparr>) = ertm_inv e"
  "ertm_inv (e\<lparr>er_now := n\<rparr>) = ertm_inv e"
  "ertm_inv e \<Longrightarrow> s < 64 \<Longrightarrow> ertm_inv (e\<lparr>er_expected_tx_seq := s\<rparr>)"
  by (auto simp: ertm_inv_defs)

lemma process_output_keeps: "preserves ertm_inv process_output"
  by (simp add: preserves_def process_output_inv)

lemma receive_information_inv: "preserves ertm_inv (receive_information t l sar payload)"
proof -
  have "preserves ertm_inv (\<lambda>e. if er_last_acked_rx_seq e \<noteq> er_expected_tx_seq e
        then send_supervisory ReceiverReady False l e else (Inr (), e))"
    by (simp add: preserves_def send_supervisory_inv)
  moreover have "preserves ertm_inv (accept_information sar payload)"
    by (simp add: preserves_def accept_information_inv)
  ultimately have "preserves ertm_inv
      (act_then (act_modify (\<lambda>e. e\<lparr>er_expected_tx_seq := sequence_add (er_expected_tx_seq e) 1\<rparr>))
        (act_then (accept_information sar payload)
        (act_then process_output
        (\<lambda>e. if er_last_acked_rx_seq e \<noteq> er_expected_tx_seq e
             then send_supervisory ReceiverReady False l e else (Inr (), e)))))"
    by (intro preserves_intros process_output_keeps) simp_all
  then show ?thesis
    by (auto simp: preserves_def receive_information_def send_supervisory_inv)
qed

lemma receive_supervisory_inv: "preserves ertm_inv (receive_supervisory f p l s a)"
  unfolding receive_supervisory_def
proof (intro preserves_intros process_output_keeps)
  show "preserves ertm_inv (\<lambda>e. case f of
          Reject \<Rightarrow> retransmit_all e
        | SelectiveReject \<Rightarrow> retransmit_one s e
        | _ \<Rightarrow> if l \<and> \<not> a \<and> er_tx_window e \<noteq> [] then retransmit_all e else (Inr (), e))"
    by (cases f) (auto simp: preserves_def retransmit_all_inv retransmit_one_inv)
qed (auto simp: preserves_def send_supervisory_inv)

lemma receive_frame_inv: "ertm_inv e \<Longrightarrow> ertm_inv (snd (receive_frame frame e))"
proof -
  assume inv: "ertm_inv e"
  have "preserves ertm_inv (act_bind (act_lift (control_from_bytes frame)) (\<lambda>control.
      act_bind (acknowledge (control_req_seq control)) (\<lambda>acked.
      case control of
        Information tx_seq final_bit req_seq sar \<Rightarrow>
          receive_information tx_seq final_bit sar (drop 2 frame)
      | Supervisory f poll final_bit req_seq \<Rightarrow>
          receive_supervisory f poll final_bit req_seq acked)))"
    by (intro preserves_intros)
      (auto simp: preserves_def acknowledge_inv
        intro: preservesD [OF receive_information_inv] preservesD [OF receive_supervisory_inv]
        split: enhanced_control_field.split)
  with inv show ?thesis by (simp add: receive_frame_def ensure_active_eq preservesD)
qed

lemma set_receiver_busy_inv: "ertm_inv e \<Longrightarrow> ertm_inv (snd (set_receiver_busy b e))"
  by (simp add: set_receiver_busy_def ensure_active_eq send_supervisory_inv)

lemma ertm_tick_inv: "ertm_inv e \<Longrightarrow> ertm_inv (snd (ertm_tick n e))"
  by (simp add: ertm_tick_def ensure_active_eq retransmit_all_inv Let_def)

lemma queue_ops_inv:
  assumes "ertm_inv e"
  shows "ertm_inv (snd (poll_outbound e))" "ertm_inv (snd (drain_outbound e))"
    "ertm_inv (snd (pop_received e))"
  using assms
  by (auto simp: poll_outbound_def drain_outbound_def pop_received_def ertm_inv_defs split: list.split)

datatype ertm_op = SendSdu bytes | ReceiveFrame bytes | SetReceiverBusy bool | Tick u32
  | PollOutbound | DrainOutbound | PopReceived

fun ertm_step :: "ertm_engine \<Rightarrow> ertm_op \<Rightarrow> ertm_engine" where
  "ertm_step e (SendSdu sdu) = snd (send_sdu sdu e)"
| "ertm_step e (ReceiveFrame b) = snd (receive_frame b e)"
| "ertm_step e (SetReceiverBusy b) = snd (set_receiver_busy b e)"
| "ertm_step e (Tick n) = snd (ertm_tick n e)"
| "ertm_step e PollOutbound = snd (poll_outbound e)"
| "ertm_step e DrainOutbound = snd (drain_outbound e)"
| "ertm_step e PopReceived = snd (pop_received e)"

interpretation ertm: guarded_machine "\<lambda>e. \<exists>c. ertm_new c = Inr e" ertm_step ertm_inv
proof unfold_locales
  show "\<exists>c. ertm_new c = Inr e \<Longrightarrow> ertm_inv e" for e by (auto intro: ertm_new_inv)
  show "ertm_inv e \<Longrightarrow> ertm_inv (ertm_step e i)" for e i
    by (cases i) (simp_all add: send_sdu_inv receive_frame_inv set_receiver_busy_inv ertm_tick_inv
        queue_ops_inv)
qed

section \<open>Lemmas: what one step sends\<close>

definition sendable :: "ertm_engine \<Rightarrow> nat" where
  "sendable e = min (length (er_pending e)) (unat (ec_tx_window_size (er_config e)) - length (er_tx_window e))"

definition transmit :: "nat \<Rightarrow> ertm_engine \<Rightarrow> ertm_engine" where
  "transmit n e = e\<lparr>er_pending := drop n (er_pending e),
     er_tx_window := er_tx_window e
       @ map (\<lambda>f. \<lparr>tf_frame = f, tf_transmissions = 1\<rparr>) (take n (er_pending e)),
     er_outbound := er_outbound e @ map (\<lambda>f. pf_bytes f (er_expected_tx_seq e)) (take n (er_pending e)),
     er_last_acked_rx_seq := (if n = 0 then er_last_acked_rx_seq e else er_expected_tx_seq e)\<rparr>"

lemma transmit_0 [simp]: "transmit 0 e = e"
  by (simp add: transmit_def)

lemma output_loop_transmits: "ertm_core e \<Longrightarrow> output_loop e = (Inr (), transmit (sendable e) e)"
proof (induction e rule: output_loop.induct)
  case (1 e)
  show ?case
  proof (cases "length (er_tx_window e) < unat (ec_tx_window_size (er_config e)) \<and> er_pending e \<noteq> []")
    case False
    then have "sendable e = 0" by (auto simp: sendable_def)
    with False show ?thesis by (subst output_loop.simps) (auto split: list.split)
  next
    case True
    then obtain f fs where p: "er_pending e = f # fs" by (cases "er_pending e") auto
    have f: "pf_tx_seq f < 64" and r: "er_expected_tx_seq e < 64"
      using window_seq_less(2) [OF "1.prems", of f] p "1.prems" by (auto simp: ertm_core_def rx_ok_def)
    let ?e = "e\<lparr>er_pending := fs, er_last_acked_rx_seq := er_expected_tx_seq e,
      er_tx_window := er_tx_window e @ [\<lparr>tf_frame = f, tf_transmissions = 1\<rparr>],
      er_outbound := er_outbound e @ [pf_bytes f (er_expected_tx_seq e)]\<rparr>"
    have "output_loop e = output_loop ?e"
      using True p pf_encode_ok [OF f r] by (subst output_loop.simps) simp
    also have "\<dots> = (Inr (), transmit (sendable ?e) ?e)"
      using "1.IH" [OF _ p pf_encode_ok [OF f r]] True
        output_step_core [OF "1.prems" p _ length_pf_bytes [OF f r]] by simp
    also have "transmit (sendable ?e) ?e = transmit (sendable e) e"
    proof -
      have "sendable e = Suc (sendable ?e)" using True p by (auto simp: sendable_def)
      with p show ?thesis by (simp add: transmit_def)
    qed
    finally show ?thesis .
  qed
qed

lemma process_output_transmits:
  "ertm_core e \<Longrightarrow> \<not> er_remote_busy e \<Longrightarrow>
   process_output e = (Inr (), refresh_retransmission_deadline (transmit (sendable e) e))"
  by (simp add: process_output_def act_then_def act_bind_def output_loop_transmits)

text \<open>What the receiving half of an engine consists of; output never touches it.\<close>

definition rx_view :: "ertm_engine \<Rightarrow> (bytes list \<times> bytes \<times> nat option \<times> u8) \<times> (u8 \<times> ertm_config \<times> bool \<times> bool)"
where
  "rx_view e = ((er_received e, er_input_sdu e, er_input_sdu_length e, er_expected_tx_seq e),
     (er_last_acked_tx_seq e, er_config e, er_local_busy e, er_failed e))"

lemma process_output_rx:
  assumes "ertm_core e"
  shows "fst (process_output e) = Inr ()" "rx_view (snd (process_output e)) = rx_view e"
  using assms process_output_transmits [OF assms]
  by (cases "er_remote_busy e"; simp add: process_output_def rx_view_def transmit_def
      refresh_retransmission_deadline_def)+

lemma send_supervisory_rx:
  "er_expected_tx_seq e < 64 \<Longrightarrow> rx_view (snd (send_supervisory f p l e)) = rx_view e"
  by (simp add: send_supervisory_eq rx_view_def)

definition pf_body :: "pending_frame \<Rightarrow> bytes" where
  "pf_body f = (case pf_sdu_length f of Some len \<Rightarrow> le16_bytes len | None \<Rightarrow> []) @ pf_payload f"

lemma pf_bytes_control:
  assumes "pf_tx_seq f < 64" "r < 64"
  shows "control_from_bytes (pf_bytes f r) = Inr (Information (pf_tx_seq f) False r (pf_sar f))"
    "drop 2 (pf_bytes f r) = pf_body f"
  using assms control_roundtrip [of "Information (pf_tx_seq f) False r (pf_sar f)" "pf_body f"]
  by (simp_all add: pf_bytes_def pf_body_def)

lemma acknowledge_same: "s < 64 \<Longrightarrow> acknowledge s e = (Inr False, e)" if "er_last_acked_tx_seq e = s"
  using that sequence_distance_advance [of s 0] by (simp add: acknowledge_def)

definition expecting :: "ertm_engine \<Rightarrow> u8 \<Rightarrow> bool" where
  "expecting e s \<longleftrightarrow> ertm_inv e \<and> \<not> er_failed e \<and> \<not> er_local_busy e \<and> er_expected_tx_seq e = s"

lemma receive_in_order:
  assumes "expecting e (pf_tx_seq f)"
    and "accept_information (pf_sar f) (pf_body f)
      (e\<lparr>er_expected_tx_seq := sequence_add (pf_tx_seq f) 1\<rparr>) = (Inr (), e')"
  obtains e2 where "receive_frame (pf_bytes f (er_last_acked_tx_seq e)) e = (Inr (), e2)"
    "ertm_inv e2" "rx_view e2 = rx_view e'"
proof -
  have e: "ertm_inv e" "\<not> er_failed e" "\<not> er_local_busy e" "er_expected_tx_seq e = pf_tx_seq f"
    using assms(1) by (simp_all add: expecting_def)
  then have seqs: "pf_tx_seq f < 64" "er_last_acked_tx_seq e < 64"
    by (auto simp: ertm_inv_def ertm_core_def rx_ok_def tx_ok_def)
  have inv': "ertm_inv e'"
    using accept_information_inv [of "e\<lparr>er_expected_tx_seq := sequence_add (pf_tx_seq f) 1\<rparr>"
        "pf_sar f" "pf_body f"] e(1) assms(2) by simp
  then have core': "ertm_core e'" by (simp add: ertm_inv_def)
  let ?po = "snd (process_output e')"
  have po: "process_output e' = (Inr (), ?po)" "rx_view ?po = rx_view e'" "ertm_inv ?po"
    using process_output_rx [OF core'] process_output_inv [OF inv'] by (simp_all add: prod_eq_iff)
  let ?e2 = "if er_last_acked_rx_seq ?po \<noteq> er_expected_tx_seq ?po
     then snd (send_supervisory ReceiverReady False False ?po) else ?po"
  have exp: "er_expected_tx_seq ?po < 64"
    using po(3) by (simp add: ertm_inv_def ertm_core_def rx_ok_def)
  have "receive_frame (pf_bytes f (er_last_acked_tx_seq e)) e
      = receive_information (pf_tx_seq f) False (pf_sar f) (pf_body f) e"
    using e seqs by (simp add: receive_frame_def ensure_active_eq pf_bytes_control
        act_bind_Inr [where m = "acknowledge _", OF acknowledge_same])
  also have "\<dots> = (Inr (), ?e2)"
    using e assms(2) po(1) send_supervisory_inv(2) [OF po(3), of ReceiverReady False False]
    by (simp add: receive_information_def act_then_Inr [where m = "accept_information _ _"]
        act_then_Inr [where m = process_output] prod_eq_iff)
  finally have "receive_frame (pf_bytes f (er_last_acked_tx_seq e)) e = (Inr (), ?e2)" .
  moreover have "ertm_inv ?e2" using po(3) by (simp add: send_supervisory_inv)
  moreover have "rx_view ?e2 = rx_view e'" using po(2) send_supervisory_rx [OF exp] by simp
  ultimately show thesis using that by blast
qed

section \<open>Lemmas: segmentation and reassembly\<close>

fun segment_frames :: "nat \<Rightarrow> nat \<Rightarrow> u16 \<Rightarrow> nat \<Rightarrow> bytes list \<Rightarrow> u8 \<Rightarrow> pending_frame list" where
  "segment_frames mps n len i [] s = []"
| "segment_frames mps n len i (c # cs) s =
     (let sar = (if i = 0 then Start else if i * mps + length c = n then End else Continuation) in
      \<lparr>pf_payload = c, pf_tx_seq = s, pf_sar = sar,
        pf_sdu_length = (if sar = Start then Some len else None)\<rparr>
      # segment_frames mps n len (i + 1) cs (sequence_add s 1))"

definition sdu_frames :: "nat \<Rightarrow> bytes \<Rightarrow> u8 \<Rightarrow> pending_frame list" where
  "sdu_frames mps sdu s =
     (if length sdu \<le> mps
      then [\<lparr>pf_payload = sdu, pf_tx_seq = s, pf_sar = Unsegmented, pf_sdu_length = None\<rparr>]
      else segment_frames mps (length sdu) (of_nat (length sdu)) 0 (chunks mps sdu) s)"

lemma length_segment_frames [simp]: "length (segment_frames mps n len i cs s) = length cs"
  by (induction cs arbitrary: i s) (simp_all add: Let_def)

lemma push_frame_eq:
  "push_frame payload sar len e = e\<lparr>er_pending := er_pending e @ [\<lparr>pf_payload = payload,
     pf_tx_seq = er_next_tx_seq e, pf_sar = sar, pf_sdu_length = len\<rparr>],
     er_next_tx_seq := sequence_add (er_next_tx_seq e) 1\<rparr>"
  by (cases e) (simp add: push_frame_def take_tx_seq_def)

lemma push_segments_eq:
  "push_segments mps n len i cs e = e\<lparr>er_pending := er_pending e
     @ segment_frames mps n len i cs (er_next_tx_seq e),
     er_next_tx_seq := seq_advance (er_next_tx_seq e) (length cs)\<rparr>"
  by (induction cs arbitrary: i e)
    (simp_all add: push_frame_eq Let_def seq_advance_Suc_left)

lemma send_sdu_frames:
  assumes "\<not> er_failed e" "length sdu \<le> unat (ec_peer_mtu (er_config e))"
  shows "send_sdu sdu e = (let fs = sdu_frames (unat (ec_peer_mps (er_config e))) sdu (er_next_tx_seq e) in
    process_output (e\<lparr>er_pending := er_pending e @ fs,
      er_next_tx_seq := seq_advance (er_next_tx_seq e) (length fs)\<rparr>))"
  using assms unat_u16_less [of "ec_peer_mtu (er_config e)"]
  by (simp add: send_sdu_def ensure_active_eq sdu_frames_def push_segments_eq push_frame_eq
      Let_def seq_advance_Suc)

lemma act_each_Cons_ok: "f x s = (Inr (), t) \<Longrightarrow> act_each f (x # xs) s = act_each f xs t"
  by (simp add: act_then_Inr)

text \<open>A frame that leaves the receiver in the middle of an SDU.\<close>

lemma receive_partial:
  assumes "expecting e (pf_tx_seq f)"
    and "accept_information (pf_sar f) (pf_body f) (e\<lparr>er_expected_tx_seq := sequence_add (pf_tx_seq f) 1\<rparr>)
      = (Inr (), e\<lparr>er_expected_tx_seq := sequence_add (pf_tx_seq f) 1, er_input_sdu_length := Some n, er_input_sdu := pre\<rparr>)"
  obtains e2 where "receive_frame (pf_bytes f (er_last_acked_tx_seq e)) e = (Inr (), e2)"
    "expecting e2 (sequence_add (pf_tx_seq f) 1)" "er_received e2 = er_received e" "er_input_sdu e2 = pre"
    "er_input_sdu_length e2 = Some n" "snd (rx_view e2) = snd (rx_view e)" "er_last_acked_tx_seq e2 = er_last_acked_tx_seq e"
  using receive_in_order [OF assms] assms(1) by (auto simp: rx_view_def expecting_def)

text \<open>The receiver in the middle of an SDU of length \<open>n\<close>, with \<open>pre\<close> received so far.\<close>

lemma receive_last_segment:
  assumes "expecting e s" "er_input_sdu e = pre" "er_input_sdu_length e = Some n" "length pre + length rest = n"
  defines "f \<equiv> \<lparr>pf_payload = rest, pf_tx_seq = s, pf_sar = End, pf_sdu_length = None\<rparr>"
  shows "\<exists>e2. receive_frame (pf_bytes f (er_last_acked_tx_seq e)) e = (Inr (), e2) \<and> ertm_inv e2
    \<and> rx_view e2 = ((er_received e @ [pre @ rest], [], None, sequence_add s 1), snd (rx_view e))"
proof -
  let ?x = "e\<lparr>er_expected_tx_seq := sequence_add s 1\<rparr>"
  let ?e1 = "?x\<lparr>er_received := er_received e @ [pre @ rest], er_input_sdu := [], er_input_sdu_length := None\<rparr>"
  have "accept_information (pf_sar f) (pf_body f) ?x = (Inr (), ?e1)"
    using assms by (simp add: accept_information_def pf_body_def)
  then obtain e2 where "receive_frame (pf_bytes f (er_last_acked_tx_seq e)) e = (Inr (), e2)" "ertm_inv e2" "rx_view e2 = rx_view ?e1"
    using receive_in_order [of e f ?e1] assms by (auto simp: f_def)
  then show ?thesis by (auto simp: rx_view_def)
qed

lemma receive_segment_tail:
  assumes "0 < mps" "rest \<noteq> []" "0 < i" "i * mps + length rest = n" "length pre + length rest = n"
    and "expecting e s" "er_input_sdu e = pre" "er_input_sdu_length e = Some n"
  shows "\<exists>e2. act_each receive_frame (map (\<lambda>f. pf_bytes f (er_last_acked_tx_seq e))
        (segment_frames mps n len i (chunks mps rest) s)) e = (Inr (), e2) \<and> ertm_inv e2
      \<and> rx_view e2 = ((er_received e @ [pre @ rest], [], None, seq_advance s (length (chunks mps rest))),
        snd (rx_view e))"
  using assms
proof (induction rest arbitrary: i pre e s rule: length_induct)
  case (1 rest)
  let ?r = "er_last_acked_tx_seq e"
  let ?x = "\<lambda>e. e\<lparr>er_expected_tx_seq := sequence_add s 1\<rparr>"
  show ?case
  proof (cases "length rest \<le> mps")
    case True
    let ?f = "\<lparr>pf_payload = rest, pf_tx_seq = s, pf_sar = End, pf_sdu_length = None\<rparr>"
    have frames: "segment_frames mps n len i (chunks mps rest) s = [?f]"
      using "1.prems" True by (simp add: chunks_short)
    from receive_last_segment [OF "1.prems"(6-8,5)] show ?thesis
      using frames "1.prems" True
      by (auto simp: act_each_Cons_ok chunks_short rx_view_def seq_advance_Suc simp del: act_each.simps(2))
  next
    case False
    let ?c = "take mps rest" and ?d = "drop mps rest"
    let ?f = "\<lparr>pf_payload = ?c, pf_tx_seq = s, pf_sar = Continuation, pf_sdu_length = None\<rparr>"
    have frames: "segment_frames mps n len i (chunks mps rest) s
        = ?f # segment_frames mps n len (i + 1) (chunks mps ?d) (sequence_add s 1)"
      using "1.prems" False by (simp add: chunks_step)
    have "accept_information (pf_sar ?f) (pf_body ?f) (?x e) = (Inr (), (?x e)\<lparr>er_input_sdu := pre @ ?c\<rparr>)"
      using "1.prems" False
      by (simp add: accept_information_def pf_body_def check_partial_length_def)
    then have "accept_information (pf_sar ?f) (pf_body ?f) (?x e)
        = (Inr (), (?x e)\<lparr>er_input_sdu_length := Some n, er_input_sdu := pre @ ?c\<rparr>)"
      using "1.prems"(8) by (cases e) simp
    then obtain e2 where e2: "receive_frame (pf_bytes ?f ?r) e = (Inr (), e2)" "expecting e2 (sequence_add s 1)"
      "er_received e2 = er_received e" "er_input_sdu e2 = pre @ ?c" "er_input_sdu_length e2 = Some n"
      "snd (rx_view e2) = snd (rx_view e)" "er_last_acked_tx_seq e2 = ?r"
      using receive_partial [of e ?f "pre @ ?c" n] "1.prems" by auto
    have "length ?d < length rest" "?d \<noteq> []" "(i + 1) * mps + length ?d = n"
      "length (pre @ ?c) + length ?d = n"
      using "1.prems" False by auto
    then obtain e3 where "act_each receive_frame (map (\<lambda>f. pf_bytes f ?r)
        (segment_frames mps n len (i + 1) (chunks mps ?d) (sequence_add s 1))) e2 = (Inr (), e3)"
      "ertm_inv e3" "rx_view e3 = ((er_received e @ [(pre @ ?c) @ ?d], [], None,
        seq_advance (sequence_add s 1) (length (chunks mps ?d))), snd (rx_view e))"
      using "1.IH" [rule_format, of ?d "i + 1" "pre @ ?c" e2 "sequence_add s 1"] e2(2-) "1.prems"(1) by fastforce
    then show ?thesis
      using frames e2(1) False "1.prems"
      by (auto simp: act_each_Cons_ok chunks_step seq_advance_Suc_left simp del: act_each.simps(2))
  qed
qed

lemma receive_sdu_frames:
  assumes "expecting e s" "er_input_sdu_length e = None" "length sdu \<le> unat (ec_local_mtu (er_config e))"
    and "0 < mps"
  shows "\<exists>e2. act_each receive_frame (map (\<lambda>f. pf_bytes f (er_last_acked_tx_seq e)) (sdu_frames mps sdu s)) e
        = (Inr (), e2) \<and> ertm_inv e2
      \<and> rx_view e2 = ((er_received e @ [sdu], [], None, seq_advance s (length (sdu_frames mps sdu s))),
        snd (rx_view e))"
proof -
  let ?r = "er_last_acked_tx_seq e"
  let ?x = "\<lambda>e. e\<lparr>er_expected_tx_seq := sequence_add s 1\<rparr>"
  have empty: "er_input_sdu e = []"
    using assms(1,2) by (auto simp: expecting_def ertm_inv_def ertm_core_def rx_ok_def)
  show ?thesis
  proof (cases "length sdu \<le> mps")
    case True
    let ?f = "\<lparr>pf_payload = sdu, pf_tx_seq = s, pf_sar = Unsegmented, pf_sdu_length = None\<rparr>"
    let ?e1 = "(?x e)\<lparr>er_received := er_received e @ [sdu]\<rparr>"
    have "accept_information (pf_sar ?f) (pf_body ?f) (?x e) = (Inr (), ?e1)"
      using assms empty by (simp add: accept_information_def pf_body_def)
    then obtain e2 where "receive_frame (pf_bytes ?f ?r) e = (Inr (), e2)" "ertm_inv e2"
      "rx_view e2 = rx_view ?e1"
      using receive_in_order [of e ?f ?e1] assms by auto
    then show ?thesis
      using True assms empty
      by (auto simp: sdu_frames_def act_each_Cons_ok rx_view_def seq_advance_Suc simp del: act_each.simps(2))
  next
    case False
    let ?n = "length sdu" and ?c = "take mps sdu" and ?d = "drop mps sdu"
    let ?len = "of_nat (length sdu) :: u16"
    let ?f = "\<lparr>pf_payload = ?c, pf_tx_seq = s, pf_sar = Start, pf_sdu_length = Some ?len\<rparr>"
    have n: "unat ?len = ?n" using assms(3) unat_u16_less [of "ec_local_mtu (er_config e)"] by simp
    have frames: "sdu_frames mps sdu s = ?f # segment_frames mps ?n ?len 1 (chunks mps ?d) (sequence_add s 1)"
      using False assms by (subst sdu_frames_def, subst chunks_step) auto
    let ?e1 = "(?x e)\<lparr>er_input_sdu_length := Some ?n, er_input_sdu := ?c\<rparr>"
    have "accept_information (pf_sar ?f) (pf_body ?f) (?x e) = (Inr (), ?e1)"
      using assms False empty n
      by (simp add: accept_information_def pf_body_def check_partial_length_def le16_bytes_def)
    then obtain e2 where e2: "receive_frame (pf_bytes ?f ?r) e = (Inr (), e2)" "expecting e2 (sequence_add s 1)"
      "er_received e2 = er_received e" "er_input_sdu e2 = ?c" "er_input_sdu_length e2 = Some ?n"
      "snd (rx_view e2) = snd (rx_view e)" "er_last_acked_tx_seq e2 = ?r"
      using receive_partial [of e ?f ?c ?n] assms by auto
    then obtain e3 where "act_each receive_frame (map (\<lambda>f. pf_bytes f ?r)
        (segment_frames mps ?n ?len 1 (chunks mps ?d) (sequence_add s 1))) e2 = (Inr (), e3)"
      "ertm_inv e3" "rx_view e3 = ((er_received e @ [?c @ ?d], [], None,
        seq_advance (sequence_add s 1) (length (chunks mps ?d))), snd (rx_view e))"
      using receive_segment_tail [of mps ?d 1 ?n ?c e2 "sequence_add s 1" ?len] e2(2-) assms False by fastforce
    then show ?thesis
      using e2(1) by (auto simp: frames act_each_Cons_ok seq_advance_Suc_left simp del: act_each.simps(2))
  qed
qed

lemma seqs_from_nth: "seqs_from s fs \<Longrightarrow> i < length fs \<Longrightarrow> pf_tx_seq (fs ! i) = seq_advance s i"
proof (induction fs arbitrary: s i)
  case (Cons f fs)
  then show ?case by (cases i) (simp_all add: seq_advance_Suc_left)
qed simp

lemma window_seq_nth:
  "ertm_inv e \<Longrightarrow> i < unacked_frames e \<Longrightarrow>
   unat (pf_tx_seq (tf_frame (er_tx_window e ! i))) = (unat (er_last_acked_tx_seq e) + i) mod 64"
  using seqs_from_nth [of "er_last_acked_tx_seq e" "window_frames e" i]
  by (simp add: ertm_inv_def ertm_core_def tx_ok_def window_frames_def unacked_frames_def unat_seq_advance)

lemma config_ok_window: "config_ok c \<Longrightarrow> 1 \<le> unat (ec_tx_window_size c) \<and> unat (ec_tx_window_size c) \<le> 63"
  by (auto simp: config_ok_def ertm_config_validate_def word_le_nat_alt word_less_nat_alt split: if_splits)

lemma config_ok_mps: "config_ok c \<Longrightarrow> 0 < unat (ec_peer_mps c)"
  by (auto simp: config_ok_def ertm_config_validate_def unat_gt_0 split: if_splits)

lemma acknowledge_advance:
  assumes "ertm_inv e" "k < 64"
  shows "acknowledge (seq_advance (er_last_acked_tx_seq e) k) e =
    (if k \<le> unacked_frames e
     then (Inr (k \<noteq> 0), if k = 0 then e else refresh_retransmission_deadline
       (e\<lparr>er_tx_window := drop k (er_tx_window e),
          er_last_acked_tx_seq := seq_advance (er_last_acked_tx_seq e) k\<rparr>))
     else (Inl (InvalidPacket ''ERTM acknowledged {count} frames with only {} outstanding''
       [k, unacked_frames e]), e))"
proof -
  have last: "er_last_acked_tx_seq e < 64" using assms by (simp add: ertm_inv_def ertm_core_def tx_ok_def)
  then show ?thesis
    using assms(2) seq_advance_less [OF last, of k]
    by (simp add: acknowledge_def sequence_distance_advance unacked_frames_def not_le)
qed

section \<open>Properties\<close>

text \<open>
  C14: an ERTM engine is sound after any sequence of operations, whatever frames the peer sends. At
  most the configured window (itself at most 63) is unacknowledged, the outstanding frames carry
  consecutive sequence numbers from the last acknowledged one, the retransmission timer runs exactly
  while a frame is outstanding, no frame is sent more often than the configured number of
  retransmissions allows, no frame exceeds the peer's MPS plus its 4 header bytes and no SDU beyond
  the local MTU is delivered.
\<close>

theorem ertm_reachable:
  assumes "ertm_new c = Inr e0"
  shows "let e = foldl ertm_step e0 ops; cfg = er_config e in
    unacked_frames e \<le> unat (ec_tx_window_size cfg) \<and> unat (ec_tx_window_size cfg) \<le> 63
    \<and> (\<forall>i < unacked_frames e. unat (pf_tx_seq (tf_frame (er_tx_window e ! i)))
         = (unat (er_last_acked_tx_seq e) + i) mod 64)
    \<and> (er_retransmission_deadline e = None \<longleftrightarrow> unacked_frames e = 0)
    \<and> list_all (\<lambda>f. ec_max_retransmissions cfg = 0
         \<or> unat (tf_transmissions f) \<le> unat (ec_max_retransmissions cfg) + 1) (er_tx_window e)
    \<and> list_all (\<lambda>b. length b \<le> unat (ec_peer_mps cfg) + 4) (er_outbound e)
    \<and> list_all (\<lambda>b. length b \<le> unat (ec_local_mtu cfg)) (er_received e)"
proof -
  let ?e = "foldl ertm_step e0 ops"
  have inv: "ertm_inv ?e" using assms by (intro ertm.inv_reachable) blast
  then have "config_ok (er_config ?e)" by (simp add: ertm_inv_def ertm_core_def)
  from inv config_ok_window [OF this] window_seq_nth [OF inv] show ?thesis
    by (auto simp: Let_def ertm_inv_defs unacked_frames_def list_all_iff)
qed

theorem ertm_reachable_witness:
  "let e = foldl ertm_step (projr (ertm_new ertm_config_default)) [SendSdu [1, 2, 3], Tick 5000];
       cfg = er_config e in
    unacked_frames e \<le> unat (ec_tx_window_size cfg) \<and> unat (ec_tx_window_size cfg) \<le> 63
    \<and> (\<forall>i < unacked_frames e. unat (pf_tx_seq (tf_frame (er_tx_window e ! i)))
         = (unat (er_last_acked_tx_seq e) + i) mod 64)
    \<and> (er_retransmission_deadline e = None \<longleftrightarrow> unacked_frames e = 0)
    \<and> list_all (\<lambda>f. ec_max_retransmissions cfg = 0
         \<or> unat (tf_transmissions f) \<le> unat (ec_max_retransmissions cfg) + 1) (er_tx_window e)
    \<and> list_all (\<lambda>b. length b \<le> unat (ec_peer_mps cfg) + 4) (er_outbound e)
    \<and> list_all (\<lambda>b. length b \<le> unat (ec_local_mtu cfg)) (er_received e)"
  by (rule ertm_reachable [of ertm_config_default])
    (simp add: ertm_new_def ertm_config_validate_def ertm_config_default_def)

text \<open>
  C13: an SDU sent by one engine is delivered whole by the other. When the sender has an empty send
  queue and room in its window for the segments of the SDU, the frames \<^verbatim>\<open>send_sdu\<close> puts out, received
  in order by a peer that is idle and in step with it, make the peer deliver exactly that SDU, after
  which no SDU is half received and the number the peer expects is the next one of the sender. This holds for every segment size the peer negotiated.
\<close>

theorem ertm_sdu_transfer:
  assumes "ertm_inv a" "\<not> er_failed a" "\<not> er_remote_busy a" "er_pending a = []"
    and "length sdu \<le> unat (ec_peer_mtu (er_config a))"
    and "unacked_frames a + length (sdu_frames (unat (ec_peer_mps (er_config a))) sdu (er_next_tx_seq a))
      \<le> unat (ec_tx_window_size (er_config a))"
    and "ertm_inv b" "\<not> er_failed b" "\<not> er_local_busy b" "er_input_sdu_length b = None"
    and "length sdu \<le> unat (ec_local_mtu (er_config b))"
    and "er_expected_tx_seq b = er_next_tx_seq a" "er_last_acked_tx_seq b = er_expected_tx_seq a"
  shows "\<exists>a' frames b'. send_sdu sdu a = (Inr (), a') \<and> er_outbound a' = er_outbound a @ frames
    \<and> act_each receive_frame frames b = (Inr (), b') \<and> er_received b' = er_received b @ [sdu]
    \<and> er_input_sdu_length b' = None \<and> er_expected_tx_seq b' = er_next_tx_seq a'"
proof -
  let ?mps = "unat (ec_peer_mps (er_config a))"
  let ?fs = "sdu_frames ?mps sdu (er_next_tx_seq a)"
  let ?a1 = "a\<lparr>er_pending := ?fs, er_next_tx_seq := seq_advance (er_next_tx_seq a) (length ?fs)\<rparr>"
  have "config_ok (er_config a)" using assms(1) by (simp add: ertm_inv_def ertm_core_def)
  then have mps: "0 < ?mps" by (rule config_ok_mps)
  have "ertm_core ?a1"
  proof -
    have "ertm_inv (if length sdu \<le> ?mps then push_frame sdu Unsegmented None a
        else push_segments ?mps (length sdu) (of_nat (length sdu)) 0 (chunks ?mps sdu) a)"
      using assms(1) by (auto simp: list_all_iff intro!: push_frame_inv push_segments_inv dest: chunks_elem)
    then show ?thesis
      using assms(4) by (simp add: sdu_frames_def push_frame_eq push_segments_eq seq_advance_Suc
          ertm_inv_def split: if_splits)
  qed
  moreover have "sendable ?a1 = length ?fs"
    using assms(6) by (simp add: sendable_def unacked_frames_def)
  ultimately have send: "send_sdu sdu a = (Inr (), refresh_retransmission_deadline (transmit (length ?fs) ?a1))"
    using assms(2-5) process_output_transmits [of ?a1] by (simp add: send_sdu_frames Let_def)
  let ?a' = "refresh_retransmission_deadline (transmit (length ?fs) ?a1)"
  let ?out = "map (\<lambda>f. pf_bytes f (er_last_acked_tx_seq b)) ?fs"
  obtain b' where "act_each receive_frame ?out b = (Inr (), b')"
    "rx_view b' = ((er_received b @ [sdu], [], None, seq_advance (er_next_tx_seq a) (length ?fs)),
      snd (rx_view b))"
    using receive_sdu_frames [of b "er_next_tx_seq a" sdu ?mps] assms(7-12) mps
    by (auto simp: expecting_def)
  moreover have "er_outbound ?a' = er_outbound a @ ?out"
    "er_next_tx_seq ?a' = seq_advance (er_next_tx_seq a) (length ?fs)"
    using assms(13) by (simp_all add: refresh_retransmission_deadline_def transmit_def)
  ultimately show ?thesis using send by (auto simp: rx_view_def)
qed

text \<open>An engine with segments of two bytes, for the examples.\<close>

definition ertm_example :: ertm_engine where
  "ertm_example = projr (ertm_new (ertm_config_default\<lparr>ec_peer_mps := 2, ec_max_retransmissions := 3\<rparr>))"

lemma ertm_example_new:
  "ertm_new (ertm_config_default\<lparr>ec_peer_mps := 2, ec_max_retransmissions := 3\<rparr>) = Inr ertm_example"
  by (simp add: ertm_example_def ertm_new_def ertm_config_validate_def ertm_config_default_def)

lemmas ertm_example_eval = ertm_example_def ertm_new_def ertm_config_validate_def
  ertm_config_default_def

theorem ertm_sdu_transfer_witness:
  "\<exists>a' frames b'. send_sdu [1, 2, 3, 4, 5] ertm_example = (Inr (), a')
    \<and> er_outbound a' = er_outbound ertm_example @ frames
    \<and> act_each receive_frame frames ertm_example = (Inr (), b')
    \<and> er_received b' = er_received ertm_example @ [[1, 2, 3, 4, 5]]
    \<and> er_input_sdu_length b' = None \<and> er_expected_tx_seq b' = er_next_tx_seq a'"
  by (rule ertm_sdu_transfer)
    (simp_all add: ertm_new_inv [OF ertm_example_new], simp_all add: ertm_example_eval unacked_frames_def
      sdu_frames_def chunks_step)

text \<open>
  an expired timer retransmits everything outstanding or fails the engine for good. If the clock
  passes the deadline while the peer is not busy, either some frame used up its retransmissions and
  the engine is failed, or every unacknowledged frame is sent again, oldest first, each acknowledging
  what was received so far, and the timer is armed again.
\<close>

theorem ertm_timeout_retransmits:
  assumes "ertm_inv e" "\<not> er_failed e" "\<not> er_remote_busy e"
    and "er_retransmission_deadline e = Some d" "d \<le> saturating_add64 (er_now e) (ucast n)"
  shows "let (r, e') = ertm_tick n e in
    if list_ex (retransmission_limit_reached (ec_max_retransmissions (er_config e))) (er_tx_window e)
    then (\<exists>err. r = Inl err) \<and> er_failed e' \<and> er_outbound e' = er_outbound e
    else r = Inr () \<and> \<not> er_failed e' \<and> er_retransmission_deadline e' \<noteq> None
      \<and> er_outbound e' = er_outbound e
          @ map (\<lambda>f. pf_bytes (tf_frame f) (er_expected_tx_seq e)) (er_tx_window e)
      \<and> map tf_frame (er_tx_window e') = map tf_frame (er_tx_window e)"
proof -
  let ?now = "saturating_add64 (er_now e) (ucast n)"
  let ?lim = "retransmission_limit_reached (ec_max_retransmissions (er_config e))"
  have core: "ertm_core e" and ne: "er_tx_window e \<noteq> []"
    using assms(1,4) by (auto simp: ertm_inv_def timer_ok_def)
  have r: "er_expected_tx_seq e < 64" using core by (simp add: ertm_core_def rx_ok_def)
  have seqs: "\<forall>f \<in> set (er_tx_window e). pf_tx_seq (tf_frame f) < 64"
    using window_seq_less(1) [OF core] by blast
  have tick: "ertm_tick n e = retransmit_all (e\<lparr>er_now := ?now\<rparr>)"
    using assms ne by (simp add: ertm_tick_def ensure_active_eq Let_def)
  show ?thesis
  proof (cases "find ?lim (er_tx_window e)")
    case None
    then have "\<not> list_ex ?lim (er_tx_window e)" by (auto simp: find_None_iff list_ex_iff)
    then show ?thesis
      using tick None assms(2,3) ne
      by (simp add: retransmit_all_def retransmit_loop_eq [OF r seqs] refresh_retransmission_deadline_def
          comp_def)
  next
    case (Some f)
    then have "list_ex ?lim (er_tx_window e)" by (auto simp: find_Some_iff list_ex_iff)
    then show ?thesis
      using tick Some assms(3) by (simp add: retransmit_all_def)
  qed
qed

definition ertm_example_sent :: ertm_engine where
  "ertm_example_sent = ertm_example\<lparr>er_tx_window := [\<lparr>tf_frame = \<lparr>pf_payload = [7], pf_tx_seq = 0,
     pf_sar = Unsegmented, pf_sdu_length = None\<rparr>, tf_transmissions = 1\<rparr>], er_next_tx_seq := 1,
     er_retransmission_deadline := Some 2000\<rparr>"

lemma ertm_example_sent_inv: "ertm_inv ertm_example_sent"
  by (simp add: ertm_example_sent_def ertm_example_eval ertm_inv_defs config_ok_def sequence_add_def
      seq_advance_Suc)

theorem ertm_timeout_retransmits_witness:
  "let (r, e') = ertm_tick 2500 ertm_example_sent in
    if list_ex (retransmission_limit_reached (ec_max_retransmissions (er_config ertm_example_sent)))
      (er_tx_window ertm_example_sent)
    then (\<exists>err. r = Inl err) \<and> er_failed e' \<and> er_outbound e' = er_outbound ertm_example_sent
    else r = Inr () \<and> \<not> er_failed e' \<and> er_retransmission_deadline e' \<noteq> None
      \<and> er_outbound e' = er_outbound ertm_example_sent
          @ map (\<lambda>f. pf_bytes (tf_frame f) (er_expected_tx_seq ertm_example_sent))
              (er_tx_window ertm_example_sent)
      \<and> map tf_frame (er_tx_window e') = map tf_frame (er_tx_window ertm_example_sent)"
  by (rule ertm_timeout_retransmits [OF ertm_example_sent_inv, of 2000])
    (simp_all add: ertm_example_sent_def ertm_example_eval saturating_add64_def)

text \<open>
  acknowledgements release exactly the frames they cover. On a sound engine, an acknowledgement
  \<open>k\<close> places after the last one releases the \<open>k\<close> oldest outstanding frames when there are that many,
  and is otherwise rejected without changing anything, for every \<open>k\<close> below the modulus.
\<close>

theorem ertm_acknowledge_exact:
  assumes "ertm_inv e" "k < 64"
  shows "let (r, e') = acknowledge (seq_advance (er_last_acked_tx_seq e) k) e in
    if k \<le> unacked_frames e
    then r = Inr (k \<noteq> 0) \<and> er_tx_window e' = drop k (er_tx_window e)
      \<and> er_last_acked_tx_seq e' = seq_advance (er_last_acked_tx_seq e) k \<and> ertm_inv e'
    else (\<exists>err. r = Inl err) \<and> e' = e"
  using acknowledge_inv [OF assms(1), of "seq_advance (er_last_acked_tx_seq e) k"]
  by (auto simp: acknowledge_advance [OF assms] refresh_retransmission_deadline_def)

theorem ertm_acknowledge_exact_witness:
  "let e = ertm_example; (r, e') = acknowledge (seq_advance (er_last_acked_tx_seq e) 1) e in
    if 1 \<le> unacked_frames e
    then r = Inr ((1 :: nat) \<noteq> 0) \<and> er_tx_window e' = drop 1 (er_tx_window e)
      \<and> er_last_acked_tx_seq e' = seq_advance (er_last_acked_tx_seq e) 1 \<and> ertm_inv e'
    else (\<exists>err. r = Inl err) \<and> e' = e"
  using ertm_acknowledge_exact [OF ertm_new_inv [OF ertm_example_new], of 1] by simp

text \<open>
  failure is final. Every fallible operation of a failed engine reports an error and leaves the
  engine as it is.
\<close>

theorem ertm_failed_is_final:
  assumes "er_failed e"
  shows "(\<exists>err. send_sdu sdu e = (Inl err, e)) \<and> (\<exists>err. receive_frame frame e = (Inl err, e))
    \<and> (\<exists>err. set_receiver_busy b e = (Inl err, e)) \<and> (\<exists>err. ertm_tick n e = (Inl err, e))"
  using assms
  by (simp add: send_sdu_def receive_frame_def set_receiver_busy_def ertm_tick_def ensure_active_eq)

theorem ertm_failed_is_final_witness:
  "let e = ertm_example\<lparr>er_failed := True\<rparr> in
    (\<exists>err. send_sdu [1] e = (Inl err, e)) \<and> (\<exists>err. receive_frame [0, 0] e = (Inl err, e))
    \<and> (\<exists>err. set_receiver_busy True e = (Inl err, e)) \<and> (\<exists>err. ertm_tick 1 e = (Inl err, e))"
  unfolding Let_def by (rule ertm_failed_is_final) simp

text \<open>
  ERTM control fields. Every two bytes are a control field, a field with sequence numbers below
  64 decodes to itself whatever follows it, and every decoded field has such sequence numbers.
\<close>

theorem ertm_control_roundtrip:
  "(control_wf c \<longrightarrow> (\<exists>b. control_to_bytes c = Inr b \<and> control_from_bytes (b @ rest) = Inr c))
   \<and> ((\<exists>c. control_from_bytes d = Inr c) \<longleftrightarrow> 2 \<le> length d)
   \<and> (control_from_bytes d = Inr c \<longrightarrow> control_wf c)"
  using control_to_bytes_ok control_roundtrip control_from_bytes_total control_from_bytes_wf by auto

theorem ertm_control_roundtrip_witness:
  "\<exists>b. control_to_bytes (Information 5 True 9 Start) = Inr b
     \<and> control_from_bytes (b @ [7]) = Inr (Information 5 True 9 Start)"
  using ertm_control_roundtrip [of "Information 5 True 9 Start" "[7]" "[]"] by simp

end
