(* ===== verification/L2cap_Channel.thy ===== *)
theory L2cap_Channel
  imports Ertm
begin

text \<open>
  Connection-oriented Classic L2CAP channels of \<^verbatim>\<open>src/src/l2cap/classic.rs\<close>: channel specifications,
  the channel state, and the manager that runs the signaling protocol, negotiates the configuration
  and carries SDUs in Basic mode or through an ERTM engine per channel.
\<close>

section \<open>Specifications and channels\<close>

abbreviation (input) L2CAP_MIN_BR_EDR_MTU :: u16 where "L2CAP_MIN_BR_EDR_MTU \<equiv> 48"
abbreviation (input) L2CAP_DEFAULT_MTU :: u16 where "L2CAP_DEFAULT_MTU \<equiv> 2048"
abbreviation (input) L2CAP_DEFAULT_MPS :: u16 where "L2CAP_DEFAULT_MPS \<equiv> 1010"
abbreviation (input) L2CAP_ACL_U_DYNAMIC_CID_RANGE_START :: nat
  where "L2CAP_ACL_U_DYNAMIC_CID_RANGE_START \<equiv> 0x0040"
abbreviation (input) L2CAP_ACL_U_DYNAMIC_CID_RANGE_END :: nat
  where "L2CAP_ACL_U_DYNAMIC_CID_RANGE_END \<equiv> 0xffff"
abbreviation (input) L2CAP_PSM_DYNAMIC_RANGE_START :: nat where "L2CAP_PSM_DYNAMIC_RANGE_START \<equiv> 0x1001"
abbreviation (input) L2CAP_PSM_DYNAMIC_RANGE_END :: nat where "L2CAP_PSM_DYNAMIC_RANGE_END \<equiv> 0xffff"
abbreviation (input) DEFAULT_ERTM_TX_WINDOW_SIZE :: u8 where "DEFAULT_ERTM_TX_WINDOW_SIZE \<equiv> 63"
abbreviation (input) DEFAULT_ERTM_MAX_RETRANSMISSIONS :: u8 where "DEFAULT_ERTM_MAX_RETRANSMISSIONS \<equiv> 1"
abbreviation (input) DEFAULT_ERTM_RETRANSMISSION_TIMEOUT_MS :: u16
  where "DEFAULT_ERTM_RETRANSMISSION_TIMEOUT_MS \<equiv> 2000"
abbreviation (input) DEFAULT_ERTM_MONITOR_TIMEOUT_MS :: u16
  where "DEFAULT_ERTM_MONITOR_TIMEOUT_MS \<equiv> 12000"
abbreviation (input) RETRANSMISSION_MODE_ENHANCED :: u8 where "RETRANSMISSION_MODE_ENHANCED \<equiv> 0x03"

record classic_channel_spec =
  cs_mtu :: u16

definition classic_channel_spec_default :: classic_channel_spec where
  "classic_channel_spec_default = \<lparr>cs_mtu = L2CAP_DEFAULT_MTU\<rparr>"

record ertm_channel_spec =
  es_mtu :: u16
  es_mps :: u16
  es_tx_window_size :: u8
  es_max_retransmissions :: u8
  es_retransmission_timeout_ms :: u16
  es_monitor_timeout_ms :: u16
  es_fcs_enabled :: bool

definition ertm_channel_spec_default :: ertm_channel_spec where
  "ertm_channel_spec_default = \<lparr>es_mtu = L2CAP_DEFAULT_MTU, es_mps = L2CAP_DEFAULT_MPS,
     es_tx_window_size = DEFAULT_ERTM_TX_WINDOW_SIZE,
     es_max_retransmissions = DEFAULT_ERTM_MAX_RETRANSMISSIONS,
     es_retransmission_timeout_ms = DEFAULT_ERTM_RETRANSMISSION_TIMEOUT_MS,
     es_monitor_timeout_ms = DEFAULT_ERTM_MONITOR_TIMEOUT_MS, es_fcs_enabled = False\<rparr>"

datatype classic_channel_mode = Basic | EnhancedRetransmission

datatype channel_spec = BasicSpec classic_channel_spec | ErtmSpec ertm_channel_spec

fun spec_mtu :: "channel_spec \<Rightarrow> u16" where
  "spec_mtu (BasicSpec s) = cs_mtu s"
| "spec_mtu (ErtmSpec s) = es_mtu s"

fun spec_mode :: "channel_spec \<Rightarrow> classic_channel_mode" where
  "spec_mode (BasicSpec _) = Basic"
| "spec_mode (ErtmSpec _) = EnhancedRetransmission"

fun spec_ertm :: "channel_spec \<Rightarrow> ertm_channel_spec option" where
  "spec_ertm (BasicSpec _) = None"
| "spec_ertm (ErtmSpec s) = Some s"

datatype classic_channel_state = Closed | WaitConnectResponse | Configuring | Open | WaitDisconnect

record classic_channel =
  ch_psm :: u32
  ch_source_cid :: u16
  ch_destination_cid :: u16
  ch_mtu :: u16
  ch_peer_mtu :: u16
  ch_peer_mps :: u16
  ch_mode :: classic_channel_mode
  ch_fcs_enabled :: bool
  ch_state :: classic_channel_state
  ch_connection_result :: "u16 option"
  ch_incoming :: bool
  ch_peer_configuration_received :: bool
  ch_configuration_response_received :: bool
  ch_open_announced :: bool
  ch_spec :: channel_spec
  ch_ertm :: "ertm_engine option"
  ch_received :: "bytes list"

definition channel_outgoing :: "u32 \<Rightarrow> u16 \<Rightarrow> channel_spec \<Rightarrow> classic_channel" where
  "channel_outgoing psm source_cid spec = \<lparr>ch_psm = psm, ch_source_cid = source_cid,
     ch_destination_cid = 0, ch_mtu = spec_mtu spec, ch_peer_mtu = L2CAP_MIN_BR_EDR_MTU,
     ch_peer_mps = L2CAP_DEFAULT_MPS, ch_mode = spec_mode spec, ch_fcs_enabled = False,
     ch_state = WaitConnectResponse, ch_connection_result = None, ch_incoming = False,
     ch_peer_configuration_received = False, ch_configuration_response_received = False,
     ch_open_announced = False, ch_spec = spec, ch_ertm = None, ch_received = []\<rparr>"

definition channel_incoming :: "u32 \<Rightarrow> u16 \<Rightarrow> u16 \<Rightarrow> channel_spec \<Rightarrow> classic_channel" where
  "channel_incoming psm source_cid destination_cid spec = \<lparr>ch_psm = psm, ch_source_cid = source_cid,
     ch_destination_cid = destination_cid, ch_mtu = spec_mtu spec, ch_peer_mtu = L2CAP_MIN_BR_EDR_MTU,
     ch_peer_mps = L2CAP_DEFAULT_MPS, ch_mode = spec_mode spec, ch_fcs_enabled = False,
     ch_state = Configuring, ch_connection_result = Some CONNECTION_SUCCESSFUL, ch_incoming = True,
     ch_peer_configuration_received = False, ch_configuration_response_received = False,
     ch_open_announced = False, ch_spec = spec, ch_ertm = None, ch_received = []\<rparr>"

definition is_open :: "classic_channel \<Rightarrow> bool" where
  "is_open c \<longleftrightarrow> ch_state c = Open"

definition channel_pop_received :: "classic_channel \<Rightarrow> bytes option \<times> classic_channel" where
  "channel_pop_received c = (case ch_received c of
       [] \<Rightarrow> (None, c) | b # rest \<Rightarrow> (Some b, c\<lparr>ch_received := rest\<rparr>))"

section \<open>Validation and option encodings\<close>

definition validate_spec :: "classic_channel_spec \<Rightarrow> (unit, l2cap_error) result" where
  "validate_spec spec =
     (if cs_mtu spec < L2CAP_MIN_BR_EDR_MTU
      then Inl (InvalidPacket ''Classic MTU must be at least {L2CAP_MIN_BR_EDR_MTU}'' [48])
      else Inr ())"

definition validate_ertm_spec :: "ertm_channel_spec \<Rightarrow> (unit, l2cap_error) result" where
  "validate_ertm_spec spec =
     res_bind (validate_spec \<lparr>cs_mtu = es_mtu spec\<rparr>) (\<lambda>_.
     if es_mps spec = 0 then Inl (InvalidPacket ''ERTM MPS cannot be zero'' [])
     else if \<not> (1 \<le> es_tx_window_size spec \<and> es_tx_window_size spec < 64)
       then Inl (InvalidPacket ''ERTM transmit window must be between 1 and 63'' [])
     else if es_retransmission_timeout_ms spec = 0 \<or> es_monitor_timeout_ms spec = 0
       then Inl (InvalidPacket ''ERTM timeout cannot be zero'' [])
     else Inr ())"

function validate_psm_high :: "u32 \<Rightarrow> bool" where
  "validate_psm_high high =
     (if high = 0 then True else if high AND 1 \<noteq> 0 then False else validate_psm_high (drop_bit 8 high))"
  by pat_completeness auto
termination
  by (relation "measure unat") (auto simp: drop_bit_eq_div unat_div word_gt_0
      div_less_dividend unat_gt_0)

declare validate_psm_high.simps [simp del]

definition validate_psm :: "u32 \<Rightarrow> (unit, l2cap_error) result" where
  "validate_psm psm =
     (if psm = 0 \<or> psm AND 1 = 0 then Inl (InvalidPacket ''invalid Classic PSM'' [])
      else if validate_psm_high (drop_bit 8 psm) then Inr ()
      else Inl (InvalidPacket ''invalid Classic PSM'' []))"

record ertm_option =
  eo_mode :: u8
  eo_tx_window_size :: u8
  eo_max_retransmissions :: u8
  eo_mps :: u16

definition encode_ertm_option :: "ertm_channel_spec \<Rightarrow> bytes" where
  "encode_ertm_option spec =
     [RETRANSMISSION_MODE_ENHANCED, es_tx_window_size spec, es_max_retransmissions spec]
       @ le16_bytes (es_retransmission_timeout_ms spec) @ le16_bytes (es_monitor_timeout_ms spec)
       @ le16_bytes (es_mps spec)"

definition decode_ertm_option :: "bytes \<Rightarrow> ertm_option option" where
  "decode_ertm_option v =
     (if length v = 9
      then Some \<lparr>eo_mode = v ! 0, eo_tx_window_size = v ! 1, eo_max_retransmissions = v ! 2,
        eo_mps = le16_of (v ! 7) (v ! 8)\<rparr>
      else None)"

definition append_fcs :: "u16 \<Rightarrow> bytes \<Rightarrow> (bytes, l2cap_error) result" where
  "append_fcs cid payload =
     (if length payload + 2 > 65535 then Inl (InvalidPacket ''ERTM frame is too large'' [])
      else let checked = le16_bytes (of_nat (length payload + 2)) @ le16_bytes cid @ payload in
        Inr (payload @ le16_bytes (crc_16 checked)))"

definition verify_and_strip_fcs :: "u16 \<Rightarrow> bytes \<Rightarrow> (bytes, l2cap_error) result" where
  "verify_and_strip_fcs cid payload =
     (if length payload < 2 then Inl (InvalidPacket ''ERTM frame is missing its FCS'' [])
      else if length payload > 65535 then Inl (InvalidPacket ''ERTM frame is too large'' [])
      else let split = length payload - 2;
               expected = le16_of (payload ! split) (payload ! (split + 1));
               checked = le16_bytes (of_nat (length payload)) @ le16_bytes cid @ take split payload in
        if crc_16 checked \<noteq> expected then Inl (InvalidPacket ''ERTM frame has an invalid FCS'' [])
        else Inr (take split payload))"

section \<open>The channel manager\<close>

record information_response_record =
  ir_identifier :: u8
  ir_info_type :: u16
  ir_result :: u16
  ir_data :: bytes

record channel_manager =
  cm_servers :: "(u32, channel_spec) btree"
  cm_channels :: "(u16, classic_channel) btree"
  cm_accepted_channels :: "u16 list"
  cm_outbound :: "l2cap_pdu list"
  cm_information :: information_capabilities
  cm_information_responses :: "information_response_record list"
  cm_identifier :: u8

type_synonym 'a manager_action = "(channel_manager, 'a, l2cap_error) action"

definition with_information_capabilities :: "information_capabilities \<Rightarrow> channel_manager" where
  "with_information_capabilities information = \<lparr>cm_servers = [], cm_channels = [],
     cm_accepted_channels = [], cm_outbound = [], cm_information = information,
     cm_information_responses = [], cm_identifier = 0\<rparr>"

definition manager_new :: channel_manager where
  "manager_new = with_information_capabilities capabilities_default"

definition queue_control :: "control_frame \<Rightarrow> channel_manager \<Rightarrow> channel_manager" where
  "queue_control frame m =
     m\<lparr>cm_outbound := cm_outbound m @ [pdu_new L2CAP_SIGNALING_CID (frame_to_bytes frame)]\<rparr>"

definition next_identifier :: "channel_manager \<Rightarrow> u8 \<times> channel_manager" where
  "next_identifier m =
     (let identifier = cm_identifier m + 1;
          identifier = (if identifier = 0 then 1 else identifier) in
      (identifier, m\<lparr>cm_identifier := identifier\<rparr>))"

definition allocate_cid :: "channel_manager \<Rightarrow> (u16, l2cap_error) result" where
  "allocate_cid m =
     ok_or (InvalidPacket ''no free Classic CID'' [])
       (map_option of_nat (range_find (\<lambda>cid. \<not> bt_contains (cm_channels m) (of_nat cid))
         L2CAP_ACL_U_DYNAMIC_CID_RANGE_START L2CAP_ACL_U_DYNAMIC_CID_RANGE_END 1))"

definition put_channel :: "u16 \<Rightarrow> classic_channel \<Rightarrow> channel_manager \<Rightarrow> channel_manager" where
  "put_channel cid c m = m\<lparr>cm_channels := bt_insert cid c (cm_channels m)\<rparr>"

definition channel_not_found :: "u16 \<Rightarrow> l2cap_error" where
  "channel_not_found cid = InvalidPacket ''channel not found for CID {}'' [unat cid]"

definition request_information :: "u16 \<Rightarrow> channel_manager \<Rightarrow> u8 \<times> channel_manager" where
  "request_information info_type m =
     (let (identifier, m') = next_identifier m in
      (identifier, queue_control (InformationRequest identifier info_type) m'))"

definition poll_information_response ::
  "channel_manager \<Rightarrow> information_response_record option \<times> channel_manager" where
  "poll_information_response m = (case cm_information_responses m of
       [] \<Rightarrow> (None, m) | r # rs \<Rightarrow> (Some r, m\<lparr>cm_information_responses := rs\<rparr>))"

definition drain_information_responses ::
  "channel_manager \<Rightarrow> information_response_record list \<times> channel_manager" where
  "drain_information_responses m =
     (cm_information_responses m, m\<lparr>cm_information_responses := []\<rparr>)"

definition register_server_with_spec :: "u32 option \<Rightarrow> channel_spec \<Rightarrow> u32 manager_action" where
  "register_server_with_spec psm spec m =
     (case (case psm of
              Some p \<Rightarrow> res_bind (validate_psm p) (\<lambda>_. Inr p)
            | None \<Rightarrow> ok_or (InvalidPacket ''no free Classic PSM'' []) (map_option of_nat
                (range_find (\<lambda>candidate. validate_psm (of_nat candidate) = Inr ()
                    \<and> \<not> bt_contains (cm_servers m) (of_nat candidate))
                  L2CAP_PSM_DYNAMIC_RANGE_START L2CAP_PSM_DYNAMIC_RANGE_END 2))) of
        Inl err \<Rightarrow> (Inl err, m)
      | Inr p \<Rightarrow>
          if bt_contains (cm_servers m) p
          then (Inl (InvalidPacket ''PSM {} is already in use'' [unat p]), m)
          else (Inr p, m\<lparr>cm_servers := bt_insert p spec (cm_servers m)\<rparr>))"

definition register_server :: "u32 option \<Rightarrow> classic_channel_spec \<Rightarrow> u32 manager_action" where
  "register_server psm spec =
     act_then (act_lift (validate_spec spec)) (register_server_with_spec psm (BasicSpec spec))"

definition register_ertm_server :: "u32 option \<Rightarrow> ertm_channel_spec \<Rightarrow> u32 manager_action" where
  "register_ertm_server psm spec =
     act_then (act_lift (validate_ertm_spec spec)) (register_server_with_spec psm (ErtmSpec spec))"

definition unregister_server :: "u32 \<Rightarrow> channel_manager \<Rightarrow> bool \<times> channel_manager" where
  "unregister_server psm m =
     (bt_contains (cm_servers m) psm, m\<lparr>cm_servers := bt_remove psm (cm_servers m)\<rparr>)"

definition connect_with_spec :: "u32 \<Rightarrow> channel_spec \<Rightarrow> u16 manager_action" where
  "connect_with_spec psm spec m =
     (case allocate_cid m of
        Inl err \<Rightarrow> (Inl err, m)
      | Inr source_cid \<Rightarrow>
          let (identifier, m1) = next_identifier m;
              m2 = put_channel source_cid (channel_outgoing psm source_cid spec) m1 in
          (Inr source_cid, queue_control (ConnectionRequest identifier psm source_cid) m2))"

definition connect :: "u32 \<Rightarrow> classic_channel_spec \<Rightarrow> u16 manager_action" where
  "connect psm spec =
     act_then (act_lift (validate_psm psm)) (act_then (act_lift (validate_spec spec))
       (connect_with_spec psm (BasicSpec spec)))"

definition connect_ertm :: "u32 \<Rightarrow> ertm_channel_spec \<Rightarrow> u16 manager_action" where
  "connect_ertm psm spec =
     act_then (act_lift (validate_psm psm)) (act_then (act_lift (validate_ertm_spec spec))
       (connect_with_spec psm (ErtmSpec spec)))"

definition channel :: "channel_manager \<Rightarrow> u16 \<Rightarrow> classic_channel option" where
  "channel m source_cid = bt_get (cm_channels m) source_cid"

definition poll_accepted_channel :: "channel_manager \<Rightarrow> u16 option \<times> channel_manager" where
  "poll_accepted_channel m = (case cm_accepted_channels m of
       [] \<Rightarrow> (None, m) | c # cs \<Rightarrow> (Some c, m\<lparr>cm_accepted_channels := cs\<rparr>))"

definition manager_poll_outbound :: "channel_manager \<Rightarrow> l2cap_pdu option \<times> channel_manager" where
  "manager_poll_outbound m = (case cm_outbound m of
       [] \<Rightarrow> (None, m) | p # ps \<Rightarrow> (Some p, m\<lparr>cm_outbound := ps\<rparr>))"

definition manager_drain_outbound :: "channel_manager \<Rightarrow> l2cap_pdu list \<times> channel_manager" where
  "manager_drain_outbound m = (cm_outbound m, m\<lparr>cm_outbound := []\<rparr>)"

section \<open>Data path\<close>

fun queue_ertm_frames :: "u16 \<Rightarrow> bool \<Rightarrow> bytes list \<Rightarrow> unit manager_action" where
  "queue_ertm_frames destination_cid fcs [] m = (Inr (), m)"
| "queue_ertm_frames destination_cid fcs (frame # frames) m =
     (case (if fcs then append_fcs destination_cid frame else Inr frame) of
        Inl err \<Rightarrow> (Inl err, m)
      | Inr payload \<Rightarrow> queue_ertm_frames destination_cid fcs frames
          (m\<lparr>cm_outbound := cm_outbound m @ [pdu_new destination_cid payload]\<rparr>))"

text \<open>The engine's output and its delivered SDUs are moved to the manager and the channel.\<close>

definition flush_ertm :: "u16 \<Rightarrow> unit manager_action" where
  "flush_ertm local_cid m =
     (case bt_get (cm_channels m) local_cid of
        None \<Rightarrow> (Inl (channel_not_found local_cid), m)
      | Some c \<Rightarrow>
          (case ch_ertm c of
             None \<Rightarrow> (Inl (InvalidPacket ''channel is not using ERTM'' []), m)
           | Some e \<Rightarrow>
               let (frames, e') = drain_outbound e;
                   c' = c\<lparr>ch_ertm := Some (e'\<lparr>er_received := []\<rparr>),
                     ch_received := ch_received c @ er_received e'\<rparr> in
               queue_ertm_frames (ch_destination_cid c) (ch_fcs_enabled c) frames
                 (put_channel local_cid c' m)))"

definition run_engine :: "u16 \<Rightarrow> classic_channel \<Rightarrow> ertm_engine \<Rightarrow> unit ertm_action \<Rightarrow> unit manager_action"
where
  "run_engine cid c e op m =
     (let (r, e') = op e; m' = put_channel cid (c\<lparr>ch_ertm := Some e'\<rparr>) m in
      case r of Inl err \<Rightarrow> (Inl err, m') | Inr _ \<Rightarrow> flush_ertm cid m')"

text \<open>
  The two \<^verbatim>\<open>expect\<close> calls of \<^verbatim>\<open>tick\<close> panic when an enumerated channel lost its engine; the model
  reports that as an error of its own.
\<close>

definition tick_channel :: "u32 \<Rightarrow> u16 \<Rightarrow> unit manager_action" where
  "tick_channel ticks cid m =
     (case bt_get (cm_channels m) cid of
        None \<Rightarrow> (Inl (InvalidPacket ''panic: channel was just enumerated'' []), m)
      | Some c \<Rightarrow>
          (case ch_ertm c of
             None \<Rightarrow> (Inl (InvalidPacket ''panic: ERTM engine was just checked'' []), m)
           | Some e \<Rightarrow> run_engine cid c e (ertm_tick ticks) m))"

definition manager_tick :: "u32 \<Rightarrow> unit manager_action" where
  "manager_tick ticks m =
     (let cids = map fst (filter (\<lambda>(cid, c). ch_ertm c \<noteq> None) (cm_channels m)) in
      act_each (tick_channel ticks) cids m)"

definition manager_set_receiver_busy :: "u16 \<Rightarrow> bool \<Rightarrow> unit manager_action" where
  "manager_set_receiver_busy source_cid busy m =
     (case bt_get (cm_channels m) source_cid of
        None \<Rightarrow> (Inl (channel_not_found source_cid), m)
      | Some c \<Rightarrow>
          (case ch_ertm c of
             None \<Rightarrow> (Inl (InvalidPacket ''channel is not using ERTM'' []), m)
           | Some e \<Rightarrow> run_engine source_cid c e (set_receiver_busy busy) m))"

definition ertm_pending_frames :: "channel_manager \<Rightarrow> u16 \<Rightarrow> nat option" where
  "ertm_pending_frames m source_cid =
     Option.bind (bt_get (cm_channels m) source_cid) (\<lambda>c. map_option pending_frames (ch_ertm c))"

definition channel_send :: "u16 \<Rightarrow> bytes \<Rightarrow> unit manager_action" where
  "channel_send source_cid sdu m =
     (case bt_get (cm_channels m) source_cid of
        None \<Rightarrow> (Inl (channel_not_found source_cid), m)
      | Some c \<Rightarrow>
          if ch_state c \<noteq> Open then (Inl (InvalidPacket ''channel not open'' []), m)
          else (case ch_ertm c of
             Some e \<Rightarrow> run_engine source_cid c e (send_sdu sdu) m
           | None \<Rightarrow>
               if length sdu > unat (ch_peer_mtu c)
               then (Inl (InvalidPacket ''SDU exceeds peer MTU {}'' [unat (ch_peer_mtu c)]), m)
               else (Inr (), m\<lparr>cm_outbound := cm_outbound m @ [pdu_new (ch_destination_cid c) sdu]\<rparr>)))"

definition disconnect :: "u16 \<Rightarrow> unit manager_action" where
  "disconnect source_cid m =
     (case bt_get (cm_channels m) source_cid of
        None \<Rightarrow> (Inl (channel_not_found source_cid), m)
      | Some c \<Rightarrow>
          if ch_state c \<noteq> Open then (Inl (InvalidPacket ''channel not open'' []), m)
          else let m1 = put_channel source_cid (c\<lparr>ch_state := WaitDisconnect\<rparr>) m;
                   (identifier, m2) = next_identifier m1 in
            (Inr (), queue_control (DisconnectionRequest identifier (ch_destination_cid c) source_cid) m2))"

definition process_data :: "u16 \<Rightarrow> bytes \<Rightarrow> unit manager_action" where
  "process_data local_cid payload m =
     (case bt_get (cm_channels m) local_cid of
        None \<Rightarrow> (Inl (channel_not_found local_cid), m)
      | Some c \<Rightarrow>
          if ch_state c \<noteq> Open
          then (Inl (InvalidPacket ''channel {} is not open'' [unat local_cid]), m)
          else (case ch_ertm c of
             Some e \<Rightarrow>
               (case (if ch_fcs_enabled c then verify_and_strip_fcs local_cid payload else Inr payload) of
                  Inl err \<Rightarrow> (Inl err, m)
                | Inr frame \<Rightarrow> run_engine local_cid c e (receive_frame frame) m)
           | None \<Rightarrow>
               if length payload > unat (ch_mtu c)
               then (Inl (InvalidPacket ''incoming SDU exceeds channel MTU {}'' [unat (ch_mtu c)]), m)
               else (Inr (), put_channel local_cid (c\<lparr>ch_received := ch_received c @ [payload]\<rparr>) m)))"

section \<open>Signaling\<close>

definition maybe_open :: "u16 \<Rightarrow> channel_manager \<Rightarrow> channel_manager" where
  "maybe_open local_cid m =
     (case bt_get (cm_channels m) local_cid of
        None \<Rightarrow> m
      | Some c \<Rightarrow>
          if ch_peer_configuration_received c \<and> ch_configuration_response_received c
             \<and> ch_state c = Configuring
          then let c1 = c\<lparr>ch_state := Open\<rparr> in
            if ch_incoming c1 \<and> \<not> ch_open_announced c1
            then (put_channel local_cid (c1\<lparr>ch_open_announced := True\<rparr>) m)
              \<lparr>cm_accepted_channels := cm_accepted_channels m @ [local_cid]\<rparr>
            else put_channel local_cid c1 m
          else m)"

definition configure_request_options :: "channel_spec \<Rightarrow> configuration_option list" where
  "configure_request_options spec =
     [option_new CONFIGURATION_OPTION_MTU (le16_bytes (spec_mtu spec))]
       @ (case spec_ertm spec of
            None \<Rightarrow> []
          | Some e \<Rightarrow>
              [option_new CONFIGURATION_OPTION_RETRANSMISSION_AND_FLOW_CONTROL (encode_ertm_option e)]
              @ (if es_fcs_enabled e then [option_new CONFIGURATION_OPTION_FCS [1]] else []))"

definition queue_configure_request :: "u16 \<Rightarrow> unit manager_action" where
  "queue_configure_request local_cid m =
     (case bt_get (cm_channels m) local_cid of
        None \<Rightarrow> (Inl (channel_not_found local_cid), m)
      | Some c \<Rightarrow>
          let (identifier, m1) = next_identifier m in
          (case encode_configuration_options (configure_request_options (ch_spec c)) of
             Inl err \<Rightarrow> (Inl err, m1)
           | Inr options \<Rightarrow>
               (Inr (), queue_control (ConfigureRequest identifier (ch_destination_cid c) 0 options) m1)))"

definition on_connection_request :: "u8 \<Rightarrow> u32 \<Rightarrow> u16 \<Rightarrow> unit manager_action" where
  "on_connection_request identifier psm remote_cid m =
     (case bt_get (cm_servers m) psm of
        None \<Rightarrow> (Inr (), queue_control
          (ConnectionResponse identifier 0 remote_cid CONNECTION_REFUSED_PSM_NOT_SUPPORTED 0) m)
      | Some spec \<Rightarrow>
          (case allocate_cid m of
             Inl _ \<Rightarrow> (Inr (), queue_control
               (ConnectionResponse identifier 0 remote_cid CONNECTION_REFUSED_NO_RESOURCES_AVAILABLE 0) m)
           | Inr local_cid \<Rightarrow>
               let m1 = put_channel local_cid (channel_incoming psm local_cid remote_cid spec) m;
                   m2 = queue_control
                     (ConnectionResponse identifier local_cid remote_cid CONNECTION_SUCCESSFUL 0) m1 in
               queue_configure_request local_cid m2))"

definition on_connection_response :: "u16 \<Rightarrow> u16 \<Rightarrow> u16 \<Rightarrow> unit manager_action" where
  "on_connection_response destination_cid source_cid res m =
     (case bt_get (cm_channels m) source_cid of
        None \<Rightarrow> (Inl (InvalidPacket ''connection response for unknown CID {}'' [unat source_cid]), m)
      | Some c \<Rightarrow>
          if ch_state c \<noteq> WaitConnectResponse
          then (Inl (InvalidPacket ''connection response in invalid state'' []), m)
          else let c1 = c\<lparr>ch_connection_result := Some res\<rparr> in
            if res \<noteq> CONNECTION_SUCCESSFUL
            then (Inr (), put_channel source_cid (c1\<lparr>ch_state := Closed\<rparr>) m)
            else queue_configure_request source_cid (put_channel source_cid
              (c1\<lparr>ch_destination_cid := destination_cid, ch_state := Configuring\<rparr>) m))"

text \<open>What the option loop of \<^verbatim>\<open>on_configure_request\<close> carries from one option to the next.\<close>

record configure_loop =
  cl_result :: u16
  cl_response_options :: "configuration_option list"
  cl_peer_mtu :: u16
  cl_peer_ertm :: "ertm_option option"
  cl_peer_fcs :: "bool option"

definition unacceptable :: "configuration_option \<Rightarrow> configure_loop \<Rightarrow> configure_loop" where
  "unacceptable opt st =
     st\<lparr>cl_result := CONFIGURATION_UNACCEPTABLE_PARAMETERS, cl_response_options := [opt]\<rparr>"

fun configure_options ::
  "classic_channel_mode \<Rightarrow> configuration_option list \<Rightarrow> configure_loop \<Rightarrow> configure_loop" where
  "configure_options mode [] st = st"
| "configure_options mode (opt # opts) st =
     (if option_type opt = CONFIGURATION_OPTION_MTU then
        if length (option_value opt) \<noteq> 2 then unacceptable opt st
        else let mtu = le16_of (option_value opt ! 0) (option_value opt ! 1) in
          if mtu < L2CAP_MIN_BR_EDR_MTU
          then unacceptable (option_new CONFIGURATION_OPTION_MTU (le16_bytes L2CAP_MIN_BR_EDR_MTU)) st
          else configure_options mode opts (st\<lparr>cl_peer_mtu := mtu,
            cl_response_options := cl_response_options st @ [opt]\<rparr>)
      else if option_type opt = CONFIGURATION_OPTION_RETRANSMISSION_AND_FLOW_CONTROL then
        (case decode_ertm_option (option_value opt) of
           None \<Rightarrow> unacceptable opt st
         | Some parameters \<Rightarrow>
             let expected_mode = (case mode of Basic \<Rightarrow> 0
               | EnhancedRetransmission \<Rightarrow> RETRANSMISSION_MODE_ENHANCED) in
             if eo_mode parameters \<noteq> expected_mode
                \<or> (eo_mode parameters = RETRANSMISSION_MODE_ENHANCED
                    \<and> (eo_tx_window_size parameters = 0 \<or> eo_tx_window_size parameters \<ge> 64
                       \<or> eo_mps parameters = 0))
             then unacceptable opt st
             else configure_options mode opts (st\<lparr>cl_peer_ertm := Some parameters,
               cl_response_options := cl_response_options st @ [opt]\<rparr>))
      else if option_type opt = CONFIGURATION_OPTION_FCS then
        if length (option_value opt) \<noteq> 1 \<or> option_value opt ! 0 > 1 then unacceptable opt st
        else configure_options mode opts (st\<lparr>cl_peer_fcs := Some (option_value opt ! 0 \<noteq> 0),
          cl_response_options := cl_response_options st @ [opt]\<rparr>)
      else if \<not> option_hint opt then
        st\<lparr>cl_result := CONFIGURATION_UNKNOWN_OPTIONS, cl_response_options := [opt]\<rparr>
      else configure_options mode opts st)"

definition negotiated_config :: "ertm_channel_spec \<Rightarrow> ertm_option \<Rightarrow> ertm_config" where
  "negotiated_config spec parameters = \<lparr>ec_local_mtu = 0xFFFF, ec_peer_mtu = 0xFFFF,
     ec_local_mps = es_mps spec, ec_peer_mps = eo_mps parameters,
     ec_tx_window_size = eo_tx_window_size parameters,
     ec_max_retransmissions = eo_max_retransmissions parameters,
     ec_retransmission_timeout_ticks = ucast (es_retransmission_timeout_ms spec)\<rparr>"

text \<open>The mode checks after the loop: the result, the options to answer with and the channel.\<close>

definition configure_mode ::
  "configure_loop \<Rightarrow> (classic_channel, u16 \<times> configuration_option list, l2cap_error) action" where
  "configure_mode st c =
     (let keep = (cl_result st, cl_response_options st) in
      case spec_ertm (ch_spec c) of
        Some spec \<Rightarrow>
          (case cl_peer_ertm st of
             Some parameters \<Rightarrow>
               if (case cl_peer_fcs st of Some b \<Rightarrow> b | None \<Rightarrow> False) \<noteq> es_fcs_enabled spec
               then (Inr (CONFIGURATION_UNACCEPTABLE_PARAMETERS,
                 [option_new CONFIGURATION_OPTION_FCS [u8_from_bool (es_fcs_enabled spec)]]), c)
               else let c1 = c\<lparr>ch_peer_mps := eo_mps parameters, ch_fcs_enabled := es_fcs_enabled spec\<rparr> in
                 (case ertm_new (negotiated_config spec parameters) of
                    Inl err \<Rightarrow> (Inl err, c1)
                  | Inr e \<Rightarrow> (Inr keep, c1\<lparr>ch_ertm := Some e\<rparr>))
           | None \<Rightarrow> (Inr (CONFIGURATION_UNACCEPTABLE_PARAMETERS,
               [option_new CONFIGURATION_OPTION_RETRANSMISSION_AND_FLOW_CONTROL
                 (encode_ertm_option spec)]), c))
      | None \<Rightarrow>
          if cl_peer_ertm st \<noteq> None \<or> (case cl_peer_fcs st of Some b \<Rightarrow> b | None \<Rightarrow> False)
          then (Inr (CONFIGURATION_UNACCEPTABLE_PARAMETERS, cl_response_options st), c)
          else (Inr keep, c))"

definition configure_channel ::
  "u16 \<Rightarrow> configure_loop \<Rightarrow> (classic_channel, u16 \<times> configuration_option list, l2cap_error) action" where
  "configure_channel flags st c =
     (if cl_result st = CONFIGURATION_SUCCESS \<and> flags AND 1 = 0 then
        act_bind (configure_mode st) (\<lambda>(res, opts) c.
          (Inr (res, opts),
           if res = CONFIGURATION_SUCCESS then c\<lparr>ch_peer_configuration_received := True\<rparr>
           else c\<lparr>ch_state := Closed, ch_connection_result := Some res\<rparr>)) c
      else (Inr (cl_result st, cl_response_options st), c))"

definition on_configure_request :: "u8 \<Rightarrow> u16 \<Rightarrow> u16 \<Rightarrow> bytes \<Rightarrow> unit manager_action" where
  "on_configure_request identifier local_cid flags encoded_options m =
     (case decode_configuration_options encoded_options of
        Inl err \<Rightarrow> (Inl err, m)
      | Inr options \<Rightarrow>
          (case bt_get (cm_channels m) local_cid of
             None \<Rightarrow> (Inl (InvalidPacket ''configuration request for unknown CID {}'' [unat local_cid]), m)
           | Some c \<Rightarrow>
               let st = configure_options (ch_mode c) options \<lparr>cl_result = CONFIGURATION_SUCCESS,
                     cl_response_options = [], cl_peer_mtu = ch_peer_mtu c, cl_peer_ertm = None,
                     cl_peer_fcs = None\<rparr>;
                   (r, c1) = configure_channel flags st (c\<lparr>ch_peer_mtu := cl_peer_mtu st\<rparr>);
                   m1 = put_channel local_cid c1 m in
               (case r of
                  Inl err \<Rightarrow> (Inl err, m1)
                | Inr (res, response_options) \<Rightarrow>
                    (case encode_configuration_options response_options of
                       Inl err \<Rightarrow> (Inl err, m1)
                     | Inr encoded \<Rightarrow> (Inr (), maybe_open local_cid (queue_control
                         (ConfigureResponse identifier (ch_destination_cid c) 0 res encoded) m1))))))"

definition on_configure_response :: "u16 \<Rightarrow> u16 \<Rightarrow> unit manager_action" where
  "on_configure_response local_cid res m =
     (case bt_get (cm_channels m) local_cid of
        None \<Rightarrow> (Inl (InvalidPacket ''configuration response for unknown CID {}'' [unat local_cid]), m)
      | Some c \<Rightarrow>
          let c1 = (if res = CONFIGURATION_SUCCESS then c\<lparr>ch_configuration_response_received := True\<rparr>
                    else c\<lparr>ch_connection_result := Some res, ch_state := Closed\<rparr>) in
          (Inr (), maybe_open local_cid (put_channel local_cid c1 m)))"

definition on_disconnection_request :: "u8 \<Rightarrow> u16 \<Rightarrow> u16 \<Rightarrow> unit manager_action" where
  "on_disconnection_request identifier local_cid remote_cid m =
     (case bt_get (cm_channels m) local_cid of
        None \<Rightarrow> (Inl (InvalidPacket ''disconnection request for unknown CID {}'' [unat local_cid]), m)
      | Some c \<Rightarrow>
          if ch_destination_cid c \<noteq> remote_cid
          then (Inl (InvalidPacket ''disconnection CID mismatch'' []), m)
          else (Inr (), queue_control (DisconnectionResponse identifier local_cid remote_cid)
            (put_channel local_cid (c\<lparr>ch_state := Closed\<rparr>) m)))"

definition on_disconnection_response :: "u16 \<Rightarrow> u16 \<Rightarrow> unit manager_action" where
  "on_disconnection_response destination_cid source_cid m =
     (case bt_get (cm_channels m) source_cid of
        None \<Rightarrow> (Inl (InvalidPacket ''disconnection response for unknown CID {}'' [unat source_cid]), m)
      | Some c \<Rightarrow>
          if ch_destination_cid c \<noteq> destination_cid
          then (Inl (InvalidPacket ''disconnection CID mismatch'' []), m)
          else (Inr (), put_channel source_cid (c\<lparr>ch_state := Closed\<rparr>) m))"

fun process_control :: "control_frame \<Rightarrow> unit manager_action" where
  "process_control (ConnectionRequest identifier psm source_cid) m =
     on_connection_request identifier psm source_cid m"
| "process_control (ConnectionResponse _ destination_cid source_cid res _) m =
     on_connection_response destination_cid source_cid res m"
| "process_control (ConfigureRequest identifier destination_cid flags options) m =
     on_configure_request identifier destination_cid flags options m"
| "process_control (ConfigureResponse _ source_cid _ res _) m = on_configure_response source_cid res m"
| "process_control (DisconnectionRequest identifier destination_cid source_cid) m =
     on_disconnection_request identifier destination_cid source_cid m"
| "process_control (DisconnectionResponse _ destination_cid source_cid) m =
     on_disconnection_response destination_cid source_cid m"
| "process_control (EchoRequest identifier dat) m = (Inr (), queue_control (EchoResponse identifier dat) m)"
| "process_control (InformationRequest identifier info_type) m =
     (Inr (), queue_control (information_response (cm_information m) identifier info_type) m)"
| "process_control (InformationResponse identifier info_type res dat) m =
     (Inr (), m\<lparr>cm_information_responses := cm_information_responses m
       @ [\<lparr>ir_identifier = identifier, ir_info_type = info_type, ir_result = res, ir_data = dat\<rparr>]\<rparr>)"
| "process_control _ m = (Inr (), m)"

definition process_pdu :: "l2cap_pdu \<Rightarrow> unit manager_action" where
  "process_pdu pdu m =
     (if pdu_cid pdu = L2CAP_SIGNALING_CID
      then (case frame_from_bytes (pdu_payload pdu) of
              Inl err \<Rightarrow> (Inl err, m) | Inr frame \<Rightarrow> process_control frame m)
      else process_data (pdu_cid pdu) (pdu_payload pdu) m)"

definition process_bytes :: "bytes \<Rightarrow> unit manager_action" where
  "process_bytes b m =
     (case pdu_from_bytes b of Inl err \<Rightarrow> (Inl err, m) | Inr pdu \<Rightarrow> process_pdu pdu m)"

section \<open>Lemmas: frame check sequences and PSMs\<close>

lemma fcs_roundtrip: "append_fcs cid p = Inr q \<Longrightarrow> verify_and_strip_fcs cid q = Inr p"
  by (auto simp: append_fcs_def verify_and_strip_fcs_def Let_def nth_append le16_bytes_def
      split: if_splits)

lemma validate_psm_high_shift:
  "validate_psm_high w \<longleftrightarrow> (\<forall>k. \<not> bit w (8 * k))"
proof (induction w rule: validate_psm_high.induct)
  case (1 w)
  have and1: "w AND 1 \<noteq> 0 \<longleftrightarrow> bit w 0"
    using bit_iff_and_push_bit_not_eq_0 [of w 0] by simp
  have shift: "(\<forall>k. \<not> bit (drop_bit 8 w) (8 * k)) \<longleftrightarrow> (\<forall>k. \<not> bit w (8 * Suc k))"
    by (simp add: bit_drop_bit_eq add.commute)
  have split: "(\<forall>k. \<not> bit w (8 * k)) \<longleftrightarrow> \<not> bit w 0 \<and> (\<forall>k. \<not> bit w (8 * Suc k))"
    by (metis mult_0_right not0_implies_Suc)
  show ?case
  proof (cases "w = 0 \<or> w AND 1 \<noteq> 0")
    case True
    then show ?thesis using and1 split by (subst validate_psm_high.simps) auto
  next
    case False
    then show ?thesis
      using "1.IH" and1 shift split by (subst validate_psm_high.simps) auto
  qed
qed

lemma validate_psm_iff: "validate_psm psm = Inr () \<longleftrightarrow> (\<forall>k. bit psm (8 * k) \<longleftrightarrow> k = 0)"
proof -
  have and1: "psm AND 1 = 0 \<longleftrightarrow> \<not> bit psm 0"
    using bit_iff_and_push_bit_not_eq_0 [of psm 0] by simp
  have "(\<forall>k. bit psm (8 * k) \<longleftrightarrow> k = 0) \<longleftrightarrow> bit psm 0 \<and> (\<forall>k. \<not> bit psm (8 * Suc k))"
    by (metis mult_0_right not0_implies_Suc nat.distinct(1))
  moreover have "validate_psm_high (drop_bit 8 psm) \<longleftrightarrow> (\<forall>k. \<not> bit psm (8 * Suc k))"
    by (simp add: validate_psm_high_shift bit_drop_bit_eq add.commute)
  ultimately show ?thesis by (auto simp: validate_psm_def and1)
qed

lemma psm_byte_odd: "k < 4 \<Longrightarrow> odd (psm_byte psm k) \<longleftrightarrow> bit psm (8 * k)"
  by (simp add: psm_byte_def bit_simps flip: bit_0)

text \<open>The PSMs the code accepts but cannot transmit are those of more than sixteen bits.\<close>

lemma accepted_psm_wire:
  assumes "validate_psm psm = Inr ()"
  shows "psm_wire_ok psm \<longleftrightarrow> psm < 0x10000"
proof -
  from assms have bits: "bit psm (8 * k) \<longleftrightarrow> k = 0" for k
    by (simp add: validate_psm_iff)
  have even: "even (psm_byte psm (Suc 0))" "even (psm_byte psm 2)" "even (psm_byte psm 3)"
    using psm_byte_odd [of 1 psm] psm_byte_odd [of 2 psm] psm_byte_odd [of 3 psm] bits [of 1]
      bits [of 2] bits [of 3] by simp_all
  have "drop_bit 16 psm = 0 \<longleftrightarrow> unat psm div 65536 = 0"
    by (simp add: drop_bit_eq_div word_unat_eq_iff unat_div)
  then have small: "drop_bit 16 psm = 0 \<longleftrightarrow> psm < 0x10000"
    by (simp add: div_eq_0_iff word_less_nat_alt)
  show ?thesis
    unfolding small [symmetric] psm_wire_ok_def serialize_psm_bytes using even by simp
qed

section \<open>Lemmas: configuration\<close>

fun spec_ok :: "channel_spec \<Rightarrow> bool" where
  "spec_ok (BasicSpec s) \<longleftrightarrow> validate_spec s = Inr ()"
| "spec_ok (ErtmSpec s) \<longleftrightarrow> validate_ertm_spec s = Inr ()"

definition option_response_ok :: "configuration_option \<Rightarrow> bool" where
  "option_response_ok opt \<longleftrightarrow> length (option_value opt) \<le> 255"

definition peer_ertm_ok :: "classic_channel_mode \<Rightarrow> ertm_option option \<Rightarrow> bool" where
  "peer_ertm_ok mode p = (case p of None \<Rightarrow> True | Some q \<Rightarrow>
     mode = EnhancedRetransmission \<longrightarrow> eo_tx_window_size q \<noteq> 0 \<and> eo_tx_window_size q < 64 \<and> eo_mps q \<noteq> 0)"

definition loop_ok :: "classic_channel_mode \<Rightarrow> configure_loop \<Rightarrow> bool" where
  "loop_ok mode st \<longleftrightarrow> L2CAP_MIN_BR_EDR_MTU \<le> cl_peer_mtu st
     \<and> list_all option_response_ok (cl_response_options st) \<and> peer_ertm_ok mode (cl_peer_ertm st)"

lemma unacceptable_ok: "loop_ok mode st \<Longrightarrow> option_response_ok opt \<Longrightarrow> loop_ok mode (unacceptable opt st)"
  by (simp add: loop_ok_def unacceptable_def)

lemma loop_ok_update:
  assumes "loop_ok mode st" "option_response_ok opt"
  shows "L2CAP_MIN_BR_EDR_MTU \<le> mtu \<Longrightarrow>
      loop_ok mode (st\<lparr>cl_peer_mtu := mtu, cl_response_options := cl_response_options st @ [opt]\<rparr>)"
    "peer_ertm_ok mode (Some q) \<Longrightarrow>
      loop_ok mode (st\<lparr>cl_peer_ertm := Some q, cl_response_options := cl_response_options st @ [opt]\<rparr>)"
    "loop_ok mode (st\<lparr>cl_peer_fcs := f, cl_response_options := cl_response_options st @ [opt]\<rparr>)"
    "loop_ok mode (st\<lparr>cl_result := r, cl_response_options := [opt]\<rparr>)"
  using assms by (simp_all add: loop_ok_def)

lemma configure_options_ok:
  "loop_ok mode st \<Longrightarrow> list_all option_response_ok opts \<Longrightarrow> loop_ok mode (configure_options mode opts st)"
proof (induction opts arbitrary: st)
  case (Cons opt opts)
  then have opt: "option_response_ok opt" and opts: "list_all option_response_ok opts" by simp_all
  note IH = Cons.IH [OF _ opts]
  have new: "option_response_ok (option_new CONFIGURATION_OPTION_MTU (le16_bytes L2CAP_MIN_BR_EDR_MTU))"
    by (simp add: option_response_ok_def option_new_def)
  consider (mtu) "option_type opt = 1" | (rfc) "option_type opt = 4"
    | (other) "option_type opt \<noteq> 1" "option_type opt \<noteq> 4" by blast
  then show ?case
  proof cases
    case rfc
    show ?thesis
    proof (cases "decode_ertm_option (option_value opt)")
      case None
      with rfc Cons.prems(1) opt show ?thesis by (simp add: unacceptable_ok)
    next
      case (Some q)
      let ?bad = "eo_mode q \<noteq> (case mode of Basic \<Rightarrow> 0 | EnhancedRetransmission \<Rightarrow> 3)
        \<or> (eo_mode q = 3 \<and> (eo_tx_window_size q = 0 \<or> eo_tx_window_size q \<ge> 64 \<or> eo_mps q = 0))"
      have "\<not> ?bad \<Longrightarrow> peer_ertm_ok mode (Some q)"
        by (cases mode) (auto simp: peer_ertm_ok_def not_le)
      with rfc Some Cons.prems(1) opt show ?thesis
        by (cases ?bad) (simp_all add: unacceptable_ok IH loop_ok_update)
    qed
  qed (use Cons.prems(1) opt new in
      \<open>simp_all add: unacceptable_ok IH loop_ok_update Let_def not_less\<close>)
qed simp

lemma negotiated_config_ok:
  assumes "validate_ertm_spec spec = Inr ()" "peer_ertm_ok EnhancedRetransmission (Some p)"
  shows "config_ok (negotiated_config spec p)"
proof -
  have "es_retransmission_timeout_ms spec \<noteq> 0" "es_mps spec \<noteq> 0"
    using assms(1) by (auto simp: validate_ertm_spec_def res_bind_eq_Inr split: if_splits)
  moreover from this have "(ucast (es_retransmission_timeout_ms spec) :: u32) \<noteq> 0"
    by (simp add: word_unat_eq_iff unsigned_ucast_eq take_bit_eq_mod
        unat_u16_less [THEN order.strict_trans2])
  moreover have "1 \<le> eo_tx_window_size p"
    using assms(2) by (simp add: peer_ertm_ok_def word_le_nat_alt unat_gt_0 Suc_le_eq)
  ultimately show ?thesis
    using assms(2) by (simp add: config_ok_def ertm_config_validate_def negotiated_config_def peer_ertm_ok_def)
qed

section \<open>Lemmas: the manager invariant and the channel state machine\<close>

text \<open>The edges of the channel state machine; \<open>Closed\<close> has no way out.\<close>

inductive chan_edge :: "classic_channel_state \<Rightarrow> classic_channel_state \<Rightarrow> bool" where
  connected: "chan_edge WaitConnectResponse Configuring"
| opened: "chan_edge Configuring Open"
| disconnecting: "chan_edge Open WaitDisconnect"
| closed: "chan_edge s Closed"

inductive_cases closed_edgeE: "chan_edge Closed s"

abbreviation chan_edges :: "classic_channel_state \<Rightarrow> classic_channel_state \<Rightarrow> bool" where
  "chan_edges \<equiv> chan_edge\<^sup>*\<^sup>*"

lemma closed_is_final: "chan_edges Closed s \<longleftrightarrow> s = Closed"
proof
  show "chan_edges Closed s \<Longrightarrow> s = Closed"
    by (induction rule: rtranclp_induct) (auto elim: closed_edgeE)
qed simp

lemma chan_edges_steps:
  "chan_edges s s" "chan_edges s Closed" "chan_edges WaitConnectResponse Configuring"
  "chan_edges Configuring Open" "chan_edges Open WaitDisconnect"
  by (auto intro: chan_edge.intros)

definition channel_inv :: "classic_channel \<Rightarrow> bool" where
  "channel_inv c \<longleftrightarrow> spec_ok (ch_spec c) \<and> ch_mtu c = spec_mtu (ch_spec c) \<and> ch_mode c = spec_mode (ch_spec c)
     \<and> L2CAP_MIN_BR_EDR_MTU \<le> ch_peer_mtu c
     \<and> (ch_state c = Open \<longrightarrow> ch_peer_configuration_received c \<and> ch_configuration_response_received c)
     \<and> (ch_mode c = EnhancedRetransmission \<and> ch_peer_configuration_received c \<longrightarrow> ch_ertm c \<noteq> None)
     \<and> (ch_mode c = Basic \<longrightarrow> ch_ertm c = None
          \<and> list_all (\<lambda>b. length b \<le> unat (ch_mtu c)) (ch_received c))
     \<and> (\<forall>e. ch_ertm c = Some e \<longrightarrow> ertm_inv e)
     \<and> (ch_open_announced c \<longrightarrow> ch_incoming c)"

definition channel_ok :: "u16 \<Rightarrow> classic_channel \<Rightarrow> bool" where
  "channel_ok cid c \<longleftrightarrow> channel_inv c \<and> ch_source_cid c = cid \<and> 0x40 \<le> cid"

definition manager_inv :: "channel_manager \<Rightarrow> bool" where
  "manager_inv m \<longleftrightarrow> bt_ok (cm_servers m) \<and> bt_ok (cm_channels m)
     \<and> (\<forall>psm spec. bt_get (cm_servers m) psm = Some spec \<longrightarrow> spec_ok spec \<and> validate_psm psm = Inr ())
     \<and> (\<forall>cid c. channel m cid = Some c \<longrightarrow> channel_ok cid c)
     \<and> (\<forall>cid \<in> set (cm_accepted_channels m). channel m cid \<noteq> None)"

text \<open>Channels are never forgotten, keep their identity and move along the edges only.\<close>

definition evolves :: "channel_manager \<Rightarrow> channel_manager \<Rightarrow> bool" where
  "evolves m m' \<longleftrightarrow> (\<forall>cid c. channel m cid = Some c \<longrightarrow>
     (\<exists>c'. channel m' cid = Some c' \<and> chan_edges (ch_state c) (ch_state c')
        \<and> ch_spec c' = ch_spec c \<and> ch_psm c' = ch_psm c))"

definition sound_step :: "'a manager_action \<Rightarrow> bool" where
  "sound_step a \<longleftrightarrow> (\<forall>m. manager_inv m \<longrightarrow> manager_inv (snd (a m)) \<and> evolves m (snd (a m)))"

lemma evolves_refl [simp]: "evolves m m"
  by (auto simp: evolves_def)

lemma evolves_trans [trans]: "evolves a b \<Longrightarrow> evolves b c \<Longrightarrow> evolves a c"
  unfolding evolves_def by (metis rtranclp_trans)

lemma evolves_same_channels [simp]: "cm_channels m' = cm_channels m \<Longrightarrow> evolves m m'"
  by (auto simp: evolves_def channel_def)

lemma channel_put:
  "bt_ok (cm_channels m) \<Longrightarrow> channel (put_channel cid c m) k = (if k = cid then Some c else channel m k)"
  by (simp add: channel_def put_channel_def)

lemma put_inv: "manager_inv m \<Longrightarrow> channel_ok cid c \<Longrightarrow> manager_inv (put_channel cid c m)"
  by (auto simp: manager_inv_def channel_put) (auto simp: put_channel_def)

lemma put_evolves:
  assumes "manager_inv m" "channel m cid = Some c" "chan_edges (ch_state c) (ch_state c')"
    "ch_spec c' = ch_spec c" "ch_psm c' = ch_psm c"
  shows "evolves m (put_channel cid c' m)"
  using assms by (auto simp: evolves_def channel_put manager_inv_def)

lemma put_new_evolves:
  "manager_inv m \<Longrightarrow> channel m cid = None \<Longrightarrow> evolves m (put_channel cid c' m)"
  by (auto simp: evolves_def channel_put manager_inv_def)

lemma queue_control_fields [simp]:
  "cm_channels (queue_control f m) = cm_channels m" "manager_inv (queue_control f m) = manager_inv m"
  "channel (queue_control f m) = channel m"
  by (simp_all add: queue_control_def manager_inv_def channel_def fun_eq_iff)

lemma evolves_queue [simp]: "evolves m (queue_control f m') = evolves m m'"
  by (simp add: evolves_def)

lemma next_identifier_fields [simp]:
  "cm_channels (snd (next_identifier m)) = cm_channels m"
  "cm_outbound (snd (next_identifier m)) = cm_outbound m"
  "manager_inv (snd (next_identifier m)) = manager_inv m"
  "channel (snd (next_identifier m)) = channel m"
  by (simp_all add: next_identifier_def manager_inv_def channel_def fun_eq_iff Let_def)

lemma evolves_next [simp]: "evolves m (snd (next_identifier m')) = evolves m m'"
  by (simp add: evolves_def)

lemma outbound_fields [simp]:
  "manager_inv (m\<lparr>cm_outbound := ps\<rparr>) = manager_inv m"
  "manager_inv (m\<lparr>cm_information_responses := rs\<rparr>) = manager_inv m"
  "channel (m\<lparr>cm_outbound := ps\<rparr>) = channel m"
  by (simp_all add: manager_inv_def channel_def fun_eq_iff)

lemma manager_inv_channel: "manager_inv m \<Longrightarrow> channel m cid = Some c \<Longrightarrow> channel_ok cid c"
  by (simp add: manager_inv_def)

lemma sound_stepD:
  "sound_step a \<Longrightarrow> manager_inv m \<Longrightarrow> manager_inv (snd (a m))"
  "sound_step a \<Longrightarrow> manager_inv m \<Longrightarrow> evolves m (snd (a m))"
  by (simp_all add: sound_step_def)

lemma sound_step_then: "sound_step a \<Longrightarrow> sound_step b \<Longrightarrow> sound_step (act_then a b)"
  by (auto simp: sound_step_def act_then_def act_bind_def split: prod.split sum.split)
    (metis evolves_trans snd_conv)+

lemma sound_step_each: "(\<And>x. sound_step (f x)) \<Longrightarrow> sound_step (act_each f xs)"
  by (induction xs) (simp_all add: sound_step_then, simp add: sound_step_def)

lemma sound_step_lift: "sound_step (act_lift r)"
  by (simp add: sound_step_def)

lemma queue_ertm_frames_channels:
  "cm_channels (snd (queue_ertm_frames d fcs frames m)) = cm_channels m"
  "cm_servers (snd (queue_ertm_frames d fcs frames m)) = cm_servers m"
  "cm_accepted_channels (snd (queue_ertm_frames d fcs frames m)) = cm_accepted_channels m"
  by (induction d fcs frames m rule: queue_ertm_frames.induct) (auto split: sum.split)

lemma manager_inv_cong:
  "cm_channels m' = cm_channels m \<Longrightarrow> cm_servers m' = cm_servers m \<Longrightarrow>
   cm_accepted_channels m' = cm_accepted_channels m \<Longrightarrow> manager_inv m' = manager_inv m"
  by (simp add: manager_inv_def channel_def)

text \<open>A channel with a new engine state in place of its old one.\<close>

lemma channel_ok_engine:
  "channel_ok cid c \<Longrightarrow> ch_ertm c = Some e \<Longrightarrow> ertm_inv e' \<Longrightarrow>
   channel_ok cid (c\<lparr>ch_ertm := Some e'\<rparr>)"
  "channel_ok cid c \<Longrightarrow> ch_ertm c = Some e \<Longrightarrow> ertm_inv e' \<Longrightarrow>
   channel_ok cid (c\<lparr>ch_ertm := Some e', ch_received := xs\<rparr>)"
  by (auto simp: channel_ok_def channel_inv_def)

lemma ertm_inv_drained: "ertm_inv e \<Longrightarrow> ertm_inv (e\<lparr>er_outbound := [], er_received := []\<rparr>)"
  by (simp add: ertm_inv_defs)

lemma flush_ertm_sound: "sound_step (flush_ertm cid)"
  unfolding sound_step_def
proof (intro allI impI)
  fix m assume inv: "manager_inv m"
  show "manager_inv (snd (flush_ertm cid m)) \<and> evolves m (snd (flush_ertm cid m))"
  proof (cases "channel m cid")
    case None
    with inv show ?thesis by (simp add: flush_ertm_def channel_def)
  next
    case (Some c)
    note ok = manager_inv_channel [OF inv Some]
    show ?thesis
    proof (cases "ch_ertm c")
      case None
      with inv Some show ?thesis by (simp add: flush_ertm_def channel_def)
    next
      case (Some e)
      let ?c = "c\<lparr>ch_ertm := Some (e\<lparr>er_outbound := [], er_received := []\<rparr>),
        ch_received := ch_received c @ er_received e\<rparr>"
      have "ertm_inv e" using ok Some by (simp add: channel_ok_def channel_inv_def)
      then have "channel_ok cid ?c" using channel_ok_engine(2) [OF ok Some] ertm_inv_drained by blast
      with inv have inv': "manager_inv (put_channel cid ?c m)" by (rule put_inv)
      have ev: "evolves m (put_channel cid ?c m)"
        using inv \<open>channel m cid = Some c\<close> by (rule put_evolves) simp_all
      have eq: "snd (flush_ertm cid m) = snd (queue_ertm_frames (ch_destination_cid c) (ch_fcs_enabled c)
          (er_outbound e) (put_channel cid ?c m))"
        using Some \<open>channel m cid = Some c\<close>
        by (simp add: flush_ertm_def channel_def drain_outbound_def)
      show ?thesis
        unfolding eq
        using evolves_trans [OF ev evolves_same_channels [OF queue_ertm_frames_channels(1)]]
          manager_inv_cong [OF queue_ertm_frames_channels, THEN iffD2, OF inv'] by blast
    qed
  qed
qed

lemma run_engine_sound:
  assumes "manager_inv m" "channel m cid = Some c" "ch_ertm c = Some e"
    and "\<And>e. ertm_inv e \<Longrightarrow> ertm_inv (snd (op e))"
  shows "manager_inv (snd (run_engine cid c e op m)) \<and> evolves m (snd (run_engine cid c e op m))"
proof -
  note ok = manager_inv_channel [OF assms(1,2)]
  have "ertm_inv e" using ok assms(3) by (simp add: channel_ok_def channel_inv_def)
  then have "channel_ok cid (c\<lparr>ch_ertm := Some (snd (op e))\<rparr>)"
    using channel_ok_engine(1) [OF ok assms(3)] assms(4) by blast
  with assms(1) have inv: "manager_inv (put_channel cid (c\<lparr>ch_ertm := Some (snd (op e))\<rparr>) m)"
    by (rule put_inv)
  have ev: "evolves m (put_channel cid (c\<lparr>ch_ertm := Some (snd (op e))\<rparr>) m)"
    using assms(1,2) by (rule put_evolves) simp_all
  from inv ev sound_stepD [OF flush_ertm_sound inv, of cid] show ?thesis
    by (auto simp: run_engine_def Let_def split_beta split: sum.split intro: evolves_trans)
qed

lemma sound_stepI:
  "(\<And>m. manager_inv m \<Longrightarrow> manager_inv (snd (a m)) \<and> evolves m (snd (a m))) \<Longrightarrow> sound_step a"
  by (simp add: sound_step_def)

text \<open>An operation that looks up a channel and does nothing when it is absent.\<close>

lemma sound_step_on_channel:
  assumes "\<And>m. channel m cid = None \<Longrightarrow> snd (a m) = m"
    and "\<And>m c. manager_inv m \<Longrightarrow> channel m cid = Some c \<Longrightarrow> channel_ok cid c \<Longrightarrow>
      manager_inv (snd (a m)) \<and> evolves m (snd (a m))"
  shows "sound_step a"
proof (rule sound_stepI)
  fix m assume inv: "manager_inv m"
  show "manager_inv (snd (a m)) \<and> evolves m (snd (a m))"
  proof (cases "channel m cid")
    case None
    with assms(1) inv show ?thesis by simp
  next
    case (Some c)
    with assms(2) inv manager_inv_channel show ?thesis by blast
  qed
qed

lemma put_sound:
  assumes "manager_inv m" "channel m cid = Some c" "channel_ok cid c'"
    "chan_edges (ch_state c) (ch_state c')" "ch_spec c' = ch_spec c" "ch_psm c' = ch_psm c"
  shows "manager_inv (put_channel cid c' m) \<and> evolves m (put_channel cid c' m)"
  using assms put_inv put_evolves by blast

lemma tick_channel_sound: "sound_step (tick_channel n cid)"
proof (rule sound_step_on_channel [where cid = cid])
  fix m c assume "manager_inv m" "channel m cid = Some c"
  then show "manager_inv (snd (tick_channel n cid m)) \<and> evolves m (snd (tick_channel n cid m))"
    using run_engine_sound [of m cid c _ "ertm_tick n"] ertm_tick_inv
    by (auto simp: tick_channel_def channel_def split: option.split)
qed (simp add: tick_channel_def channel_def)

lemma manager_tick_sound: "sound_step (manager_tick n)"
proof -
  have "sound_step (act_each (tick_channel n) cids)" for cids
    by (rule sound_step_each) (rule tick_channel_sound)
  then show ?thesis by (simp add: sound_step_def manager_tick_def Let_def)
qed

lemma set_receiver_busy_sound: "sound_step (manager_set_receiver_busy cid b)"
proof (rule sound_step_on_channel [where cid = cid])
  fix m c assume "manager_inv m" "channel m cid = Some c"
  then show "manager_inv (snd (manager_set_receiver_busy cid b m))
      \<and> evolves m (snd (manager_set_receiver_busy cid b m))"
    using run_engine_sound [of m cid c _ "set_receiver_busy b"] set_receiver_busy_inv
    by (auto simp: manager_set_receiver_busy_def channel_def split: option.split)
qed (simp add: manager_set_receiver_busy_def channel_def)

lemma channel_send_sound: "sound_step (channel_send cid sdu)"
proof (rule sound_step_on_channel [where cid = cid])
  fix m c assume "manager_inv m" "channel m cid = Some c"
  then show "manager_inv (snd (channel_send cid sdu m)) \<and> evolves m (snd (channel_send cid sdu m))"
    using run_engine_sound [of m cid c _ "send_sdu sdu"] send_sdu_inv
    by (auto simp: channel_send_def channel_def split: option.split)
qed (simp add: channel_send_def channel_def)

lemma process_data_sound: "sound_step (process_data cid payload)"
proof (rule sound_step_on_channel [where cid = cid])
  fix m c assume *: "manager_inv m" "channel m cid = Some c" "channel_ok cid c"
  have "manager_inv (put_channel cid (c\<lparr>ch_received := ch_received c @ [payload]\<rparr>) m)
      \<and> evolves m (put_channel cid (c\<lparr>ch_received := ch_received c @ [payload]\<rparr>) m)"
    if "length payload \<le> unat (ch_mtu c)"
    using * that by (intro put_sound) (auto simp: channel_ok_def channel_inv_def)
  with * show "manager_inv (snd (process_data cid payload m)) \<and> evolves m (snd (process_data cid payload m))"
    using run_engine_sound [of m cid c _ "receive_frame _"] receive_frame_inv
    by (auto simp: process_data_def channel_def split: option.split sum.split)
qed (simp add: process_data_def channel_def)

lemma disconnect_sound: "sound_step (disconnect cid)"
proof (rule sound_step_on_channel [where cid = cid])
  fix m c assume *: "manager_inv m" "channel m cid = Some c" "channel_ok cid c"
  have "manager_inv (put_channel cid (c\<lparr>ch_state := WaitDisconnect\<rparr>) m)
      \<and> evolves m (put_channel cid (c\<lparr>ch_state := WaitDisconnect\<rparr>) m)" if "ch_state c = Open"
    using * that by (intro put_sound) (auto simp: channel_ok_def channel_inv_def chan_edges_steps)
  with * show "manager_inv (snd (disconnect cid m)) \<and> evolves m (snd (disconnect cid m))"
    by (auto simp: disconnect_def channel_def Let_def split_beta)
qed (simp add: disconnect_def channel_def)

lemma announce_sound:
  assumes "manager_inv m" "channel m cid \<noteq> None"
  shows "manager_inv (m\<lparr>cm_accepted_channels := cm_accepted_channels m @ [cid]\<rparr>)"
    "evolves m' (m\<lparr>cm_accepted_channels := cs\<rparr>) = evolves m' m"
  using assms by (auto simp: manager_inv_def evolves_def channel_def)

lemma put_channel_accepted [simp]: "cm_accepted_channels (put_channel cid c m) = cm_accepted_channels m"
  by (simp add: put_channel_def)

lemma maybe_open_sound: "sound_step (\<lambda>m. (Inr r, maybe_open cid m))"
proof (rule sound_step_on_channel [where cid = cid])
  fix m c assume *: "manager_inv m" "channel m cid = Some c" "channel_ok cid c"
  have bt: "bt_ok (cm_channels m)" using *(1) by (simp add: manager_inv_def)
  let ?open = "c\<lparr>ch_state := Open\<rparr>"
  let ?ready = "ch_peer_configuration_received c \<and> ch_configuration_response_received c
    \<and> ch_state c = Configuring"
  show "manager_inv (snd (Inr r, maybe_open cid m)) \<and> evolves m (snd (Inr r, maybe_open cid m))"
  proof (cases ?ready)
    case False
    with * show ?thesis by (auto simp: maybe_open_def channel_def)
  next
    case True
    then have plain: "manager_inv (put_channel cid ?open m) \<and> evolves m (put_channel cid ?open m)"
      using * by (intro put_sound) (auto simp: channel_ok_def channel_inv_def chan_edges_steps)
    show ?thesis
    proof (cases "ch_incoming c \<and> \<not> ch_open_announced c")
      case False
      with True plain * show ?thesis by (auto simp: maybe_open_def channel_def Let_def)
    next
      case announce: True
      let ?new = "?open\<lparr>ch_open_announced := True\<rparr>"
      have new: "manager_inv (put_channel cid ?new m) \<and> evolves m (put_channel cid ?new m)"
        using * True announce
        by (intro put_sound) (auto simp: channel_ok_def channel_inv_def chan_edges_steps)
      then have "channel (put_channel cid ?new m) cid \<noteq> None" using bt by (simp add: channel_put)
      with True announce * new announce_sound [of "put_channel cid ?new m" cid] show ?thesis
        by (simp add: maybe_open_def channel_def Let_def)
    qed
  qed
qed (simp add: maybe_open_def channel_def)

lemma maybe_open_keeps: "manager_inv m \<Longrightarrow> manager_inv (maybe_open cid m) \<and> evolves m (maybe_open cid m)"
  using maybe_open_sound [of "()" cid] by (simp add: sound_step_def)

lemma queue_configure_request_sound: "sound_step (queue_configure_request cid)"
  by (auto simp: sound_step_def queue_configure_request_def Let_def split_beta
      split: option.split sum.split)

lemma allocate_cid_fresh:
  assumes "allocate_cid m = Inr cid"
  shows "channel m cid = None" "0x40 \<le> cid"
proof -
  from assms obtain n where n: "cid = of_nat n"
    "range_find (\<lambda>cid. \<not> bt_contains (cm_channels m) (of_nat cid)) 0x40 0xffff 1 = Some n"
    by (auto simp: allocate_cid_def)
  from range_find_Some [OF n(2)] n(1) show "channel m cid = None" "0x40 \<le> cid"
    by (auto simp: bt_contains_def channel_def word_le_nat_alt)
qed

lemma new_channel_ok:
  "spec_ok spec \<Longrightarrow> 0x40 \<le> cid \<Longrightarrow> channel_ok cid (channel_outgoing psm cid spec)"
  "spec_ok spec \<Longrightarrow> 0x40 \<le> cid \<Longrightarrow> channel_ok cid (channel_incoming psm cid remote spec)"
  by (cases spec; simp add: channel_ok_def channel_inv_def channel_outgoing_def channel_incoming_def)+

lemma connect_with_spec_sound: "spec_ok spec \<Longrightarrow> sound_step (connect_with_spec psm spec)"
proof (rule sound_stepI)
  fix m assume ok: "spec_ok spec" and inv: "manager_inv m"
  show "manager_inv (snd (connect_with_spec psm spec m)) \<and> evolves m (snd (connect_with_spec psm spec m))"
  proof (cases "allocate_cid m")
    case (Inr cid)
    note fresh = allocate_cid_fresh [OF Inr]
    let ?m = "put_channel cid (channel_outgoing psm cid spec) (snd (next_identifier m))"
    have "manager_inv ?m" by (rule put_inv) (use inv ok fresh new_channel_ok(1) in simp_all)
    moreover have "evolves (snd (next_identifier m)) ?m"
      by (rule put_new_evolves) (use inv fresh in simp_all)
    then have "evolves m ?m"
      by (rule evolves_trans [rotated]) simp
    ultimately show ?thesis using Inr by (simp add: connect_with_spec_def Let_def split_beta)
  qed (use inv in \<open>simp add: connect_with_spec_def\<close>)
qed

lemma sound_step_guarded:
  "(r = Inr () \<Longrightarrow> sound_step a) \<Longrightarrow> sound_step (act_then (act_lift r) a)"
  by (cases r) (simp_all add: sound_step_def)

lemma connect_sound: "sound_step (connect psm spec)"
  unfolding connect_def by (intro sound_step_guarded connect_with_spec_sound) simp

lemma connect_ertm_sound: "sound_step (connect_ertm psm spec)"
  unfolding connect_ertm_def by (intro sound_step_guarded connect_with_spec_sound) simp

lemma on_connection_request_sound: "sound_step (on_connection_request i psm remote)"
proof (rule sound_stepI)
  fix m assume inv: "manager_inv m"
  show "manager_inv (snd (on_connection_request i psm remote m))
      \<and> evolves m (snd (on_connection_request i psm remote m))"
  proof (cases "bt_get (cm_servers m) psm")
    case (Some spec)
    show ?thesis
    proof (cases "allocate_cid m")
      case (Inr cid)
      note fresh = allocate_cid_fresh [OF Inr]
      have "spec_ok spec" using inv Some by (simp add: manager_inv_def)
      then have ok: "channel_ok cid (channel_incoming psm cid remote spec)"
        using fresh new_channel_ok(2) by blast
      let ?m = "queue_control (ConnectionResponse i cid remote CONNECTION_SUCCESSFUL 0)
        (put_channel cid (channel_incoming psm cid remote spec) m)"
      have inv': "manager_inv ?m" using put_inv [OF inv ok] by simp
      have ev: "evolves m ?m" using put_new_evolves [OF inv fresh(1)] by simp
      have "snd (on_connection_request i psm remote m) = snd (queue_configure_request cid ?m)"
        using Some Inr by (simp add: on_connection_request_def)
      with sound_stepD(1) [OF queue_configure_request_sound inv', of cid]
        evolves_trans [OF ev sound_stepD(2) [OF queue_configure_request_sound inv', of cid]]
      show ?thesis by simp
    qed (use inv Some in \<open>simp add: on_connection_request_def\<close>)
  qed (use inv in \<open>simp add: on_connection_request_def\<close>)
qed

lemma on_connection_response_sound: "sound_step (on_connection_response d cid res)"
proof (rule sound_step_on_channel [where cid = cid])
  fix m c assume *: "manager_inv m" "channel m cid = Some c" "channel_ok cid c"
  let ?c = "c\<lparr>ch_connection_result := Some res\<rparr>"
  have closed: "manager_inv (put_channel cid (?c\<lparr>ch_state := Closed\<rparr>) m)
      \<and> evolves m (put_channel cid (?c\<lparr>ch_state := Closed\<rparr>) m)"
    using * by (intro put_sound) (auto simp: channel_ok_def channel_inv_def chan_edges_steps)
  let ?m = "put_channel cid (?c\<lparr>ch_destination_cid := d, ch_state := Configuring\<rparr>) m"
  have conf: "manager_inv ?m \<and> evolves m ?m" if "ch_state c = WaitConnectResponse"
    using * that by (intro put_sound) (auto simp: channel_ok_def channel_inv_def chan_edges_steps)
  then have "manager_inv (snd (queue_configure_request cid ?m)) \<and> evolves m (snd (queue_configure_request cid ?m))"
    if "ch_state c = WaitConnectResponse"
    using that sound_stepD [OF queue_configure_request_sound, of ?m cid] evolves_trans by blast
  with * closed show "manager_inv (snd (on_connection_response d cid res m))
      \<and> evolves m (snd (on_connection_response d cid res m))"
    by (auto simp: on_connection_response_def channel_def Let_def)
qed (simp add: on_connection_response_def channel_def)

text \<open>What one configuration request does to a sound channel.\<close>

lemma configure_mode_sound:
  assumes "channel_ok cid c" "peer_ertm_ok (ch_mode c) (cl_peer_ertm st)"
    "list_all option_response_ok (cl_response_options st)"
  obtains res opts c' where "configure_mode st c = (Inr (res, opts), c')" "channel_ok cid c'"
    "ch_state c' = ch_state c" "ch_spec c' = ch_spec c" "ch_psm c' = ch_psm c"
    "ch_destination_cid c' = ch_destination_cid c" "list_all option_response_ok opts"
    "res = CONFIGURATION_SUCCESS \<and> ch_mode c = EnhancedRetransmission \<longrightarrow> ch_ertm c' \<noteq> None"
proof (cases "ch_spec c")
  case (BasicSpec s)
  with assms show thesis
    by (cases "cl_peer_ertm st \<noteq> None \<or> (case cl_peer_fcs st of Some b \<Rightarrow> b | None \<Rightarrow> False)")
      (auto simp: configure_mode_def channel_ok_def channel_inv_def intro: that)
next
  case (ErtmSpec s)
  note ok = assms(1)
  have mode: "ch_mode c = EnhancedRetransmission" and spec: "validate_ertm_spec s = Inr ()"
    using ok ErtmSpec by (simp_all add: channel_ok_def channel_inv_def)
  have opts: "option_response_ok (option_new t [x])" "option_response_ok (option_new t (encode_ertm_option s))"
    for t x by (simp_all add: option_response_ok_def option_new_def encode_ertm_option_def)
  let ?fcs = "(case cl_peer_fcs st of Some b \<Rightarrow> b | None \<Rightarrow> False)"
  show thesis
  proof (cases "cl_peer_ertm st")
    case None
    with ErtmSpec ok opts show thesis
      by (intro that [of CONFIGURATION_UNACCEPTABLE_PARAMETERS
            "[option_new CONFIGURATION_OPTION_RETRANSMISSION_AND_FLOW_CONTROL (encode_ertm_option s)]" c])
        (simp_all add: configure_mode_def)
  next
    case (Some p)
    have "config_ok (negotiated_config s p)"
      using assms(2) Some mode spec by (intro negotiated_config_ok) simp_all
    then obtain e where e: "ertm_new (negotiated_config s p) = Inr e"
      by (simp add: ertm_new_def config_ok_def)
    let ?c = "c\<lparr>ch_peer_mps := eo_mps p, ch_fcs_enabled := es_fcs_enabled s, ch_ertm := Some e\<rparr>"
    have "channel_ok cid ?c"
      using ok mode ertm_new_inv [OF e] by (auto simp: channel_ok_def channel_inv_def)
    with ErtmSpec Some ok opts e assms(3) show thesis
      by (cases "?fcs = es_fcs_enabled s")
        (auto simp: configure_mode_def
          intro: that [of "cl_result st" "cl_response_options st" ?c]
            that [of CONFIGURATION_UNACCEPTABLE_PARAMETERS
              "[option_new CONFIGURATION_OPTION_FCS [u8_from_bool (es_fcs_enabled s)]]" c])
  qed
qed

lemma configure_channel_sound:
  assumes "channel_ok cid c" "loop_ok (ch_mode c) st"
  obtains res opts c' where "configure_channel flags st c = (Inr (res, opts), c')" "channel_ok cid c'"
    "chan_edges (ch_state c) (ch_state c')" "ch_spec c' = ch_spec c" "ch_psm c' = ch_psm c"
    "ch_destination_cid c' = ch_destination_cid c" "list_all option_response_ok opts"
proof (cases "cl_result st = CONFIGURATION_SUCCESS \<and> flags AND 1 = 0")
  case False
  with assms show thesis
    by (intro that [of "cl_result st" "cl_response_options st" c])
      (auto simp: configure_channel_def loop_ok_def)
next
  case True
  have prem: "peer_ertm_ok (ch_mode c) (cl_peer_ertm st)"
    "list_all option_response_ok (cl_response_options st)"
    using assms(2) by (simp_all add: loop_ok_def)
  obtain res opts c1 where c1: "configure_mode st c = (Inr (res, opts), c1)" "channel_ok cid c1"
    "ch_state c1 = ch_state c" "ch_spec c1 = ch_spec c" "ch_psm c1 = ch_psm c"
    "ch_destination_cid c1 = ch_destination_cid c" "list_all option_response_ok opts"
    "res = CONFIGURATION_SUCCESS \<and> ch_mode c = EnhancedRetransmission \<longrightarrow> ch_ertm c1 \<noteq> None"
    by (rule configure_mode_sound [OF assms(1) prem])
  have mode: "ch_mode c1 = ch_mode c"
    using assms(1) c1 by (simp add: channel_ok_def channel_inv_def)
  let ?c = "if res = CONFIGURATION_SUCCESS then c1\<lparr>ch_peer_configuration_received := True\<rparr>
           else c1\<lparr>ch_state := Closed, ch_connection_result := Some res\<rparr>"
  have "configure_channel flags st c = (Inr (res, opts), ?c)"
    using True c1(1) by (simp add: configure_channel_def act_bind_Inr)
  moreover have "channel_ok cid ?c"
    using c1 mode by (auto simp: channel_ok_def channel_inv_def)
  moreover have "chan_edges (ch_state c) (ch_state ?c)"
    using c1(3) by (simp add: chan_edges_steps)
  ultimately show thesis using c1 by (intro that [of res opts ?c]) simp_all
qed

lemma decoded_options_ok: "decode_configuration_options b = Inr opts \<Longrightarrow> list_all option_response_ok opts"
  using options_enc_dec [of b opts]
  by (auto simp: list_all_iff option_wf_def option_response_ok_def)

lemma encode_options_ok: "list_all option_response_ok opts \<Longrightarrow>
    encode_configuration_options opts = Inr (options_bytes opts)"
  by (auto simp: encode_options_eq option_response_ok_def list_all_iff)

lemma on_configure_request_result:
  assumes "manager_inv m" "channel m cid = Some c" "decode_configuration_options b = Inr options"
  obtains res opts c' where "channel_ok cid c'" "chan_edges (ch_state c) (ch_state c')"
    "ch_spec c' = ch_spec c" "ch_psm c' = ch_psm c"
    "on_configure_request i cid flags b m = (Inr (), maybe_open cid (queue_control
      (ConfigureResponse i (ch_destination_cid c) 0 res (options_bytes opts)) (put_channel cid c' m)))"
proof -
  note ok = manager_inv_channel [OF assms(1,2)]
  define st where "st = configure_options (ch_mode c) options \<lparr>cl_result = CONFIGURATION_SUCCESS,
      cl_response_options = [], cl_peer_mtu = ch_peer_mtu c, cl_peer_ertm = None, cl_peer_fcs = None\<rparr>"
  have st: "loop_ok (ch_mode c) st"
    unfolding st_def using ok decoded_options_ok [OF assms(3)]
    by (intro configure_options_ok) (auto simp: loop_ok_def peer_ertm_ok_def channel_ok_def channel_inv_def)
  let ?c = "c\<lparr>ch_peer_mtu := cl_peer_mtu st\<rparr>"
  have "channel_ok cid ?c" "loop_ok (ch_mode ?c) st"
    using ok st by (auto simp: channel_ok_def channel_inv_def loop_ok_def)
  from configure_channel_sound [OF this, of flags]
  obtain res opts c' where c': "configure_channel flags st ?c = (Inr (res, opts), c')" "channel_ok cid c'"
    "chan_edges (ch_state ?c) (ch_state c')" "ch_spec c' = ch_spec ?c" "ch_psm c' = ch_psm ?c"
    "list_all option_response_ok opts" by metis
  show thesis
    using that [of c' res opts] c' assms(2,3) encode_options_ok [OF c'(6)]
    by (simp add: on_configure_request_def st_def channel_def)
qed

lemma on_configure_request_sound: "sound_step (on_configure_request i cid flags b)"
proof (rule sound_step_on_channel [where cid = cid])
  fix m c assume *: "manager_inv m" "channel m cid = Some c" "channel_ok cid c"
  show "manager_inv (snd (on_configure_request i cid flags b m))
      \<and> evolves m (snd (on_configure_request i cid flags b m))"
  proof (cases "decode_configuration_options b")
    case (Inl err)
    with * show ?thesis by (simp add: on_configure_request_def)
  next
    case (Inr options)
    from on_configure_request_result [OF *(1,2) Inr, of i flags]
    obtain res opts c' where c': "channel_ok cid c'" "chan_edges (ch_state c) (ch_state c')"
      "ch_spec c' = ch_spec c" "ch_psm c' = ch_psm c"
      "on_configure_request i cid flags b m = (Inr (), maybe_open cid (queue_control
        (ConfigureResponse i (ch_destination_cid c) 0 res (options_bytes opts)) (put_channel cid c' m)))"
      by metis
    let ?m = "queue_control (ConfigureResponse i (ch_destination_cid c) 0 res (options_bytes opts))
        (put_channel cid c' m)"
    have "manager_inv ?m" "evolves m ?m"
      using put_sound [OF *(1,2) c'(1-4)] by simp_all
    with maybe_open_keeps [of ?m cid] c'(5) show ?thesis
      using evolves_trans [of m ?m] by (simp del: evolves_queue)
  qed
qed (auto simp: on_configure_request_def channel_def split: sum.split)

lemma on_configure_response_sound: "sound_step (on_configure_response cid res)"
proof (rule sound_step_on_channel [where cid = cid])
  fix m c assume *: "manager_inv m" "channel m cid = Some c" "channel_ok cid c"
  let ?c = "if res = CONFIGURATION_SUCCESS then c\<lparr>ch_configuration_response_received := True\<rparr>
    else c\<lparr>ch_connection_result := Some res, ch_state := Closed\<rparr>"
  have "channel_ok cid ?c" "chan_edges (ch_state c) (ch_state ?c)"
    using *(3) by (cases "res = CONFIGURATION_SUCCESS";
        auto simp: channel_ok_def channel_inv_def chan_edges_steps)+
  then have "manager_inv (put_channel cid ?c m) \<and> evolves m (put_channel cid ?c m)"
    by (rule put_sound [OF *(1,2)]) simp_all
  moreover have "on_configure_response cid res m = (Inr (), maybe_open cid (put_channel cid ?c m))"
    using *(2) by (simp add: on_configure_response_def channel_def Let_def)
  ultimately show "manager_inv (snd (on_configure_response cid res m))
      \<and> evolves m (snd (on_configure_response cid res m))"
    using maybe_open_keeps [of "put_channel cid ?c m" cid] evolves_trans [of m "put_channel cid ?c m"]
    by simp
qed (simp add: on_configure_response_def channel_def)

lemma close_sound:
  assumes "manager_inv m" "channel m cid = Some c" "channel_ok cid c"
  shows "manager_inv (put_channel cid (c\<lparr>ch_state := Closed\<rparr>) m)
    \<and> evolves m (put_channel cid (c\<lparr>ch_state := Closed\<rparr>) m)"
  using assms by (intro put_sound) (auto simp: channel_ok_def channel_inv_def chan_edges_steps)

lemma on_disconnection_request_sound: "sound_step (on_disconnection_request i cid remote)"
  by (rule sound_step_on_channel [where cid = cid])
    (use close_sound in \<open>auto simp: on_disconnection_request_def channel_def\<close>)

lemma on_disconnection_response_sound: "sound_step (on_disconnection_response d cid)"
  by (rule sound_step_on_channel [where cid = cid])
    (use close_sound in \<open>auto simp: on_disconnection_response_def channel_def\<close>)

lemma process_control_sound: "sound_step (process_control f)"
proof (rule sound_stepI)
  fix m assume inv: "manager_inv m"
  note sound = on_connection_request_sound on_connection_response_sound on_configure_request_sound
    on_configure_response_sound on_disconnection_request_sound on_disconnection_response_sound
  show "manager_inv (snd (process_control f m)) \<and> evolves m (snd (process_control f m))"
    using inv by (cases f) (simp_all add: sound [THEN sound_stepD(1)] sound [THEN sound_stepD(2)])
qed

lemma process_pdu_sound: "sound_step (process_pdu pdu)"
  using process_control_sound process_data_sound
  by (auto simp: sound_step_def process_pdu_def split: sum.split)

lemma process_bytes_sound: "sound_step (process_bytes b)"
  using process_pdu_sound by (auto simp: sound_step_def process_bytes_def split: sum.split)

lemma register_server_with_spec_sound: "spec_ok spec \<Longrightarrow> sound_step (register_server_with_spec psm spec)"
proof (rule sound_stepI)
  fix m assume ok: "spec_ok spec" and inv: "manager_inv m"
  let ?r = "register_server_with_spec psm spec m"
  show "manager_inv (snd ?r) \<and> evolves m (snd ?r)"
  proof (cases "fst ?r")
    case (Inl err)
    then have "snd ?r = m" by (auto simp: register_server_with_spec_def split: sum.splits if_splits)
    with inv show ?thesis by simp
  next
    case (Inr p)
    then have r: "snd ?r = m\<lparr>cm_servers := bt_insert p spec (cm_servers m)\<rparr>" and valid: "validate_psm p = Inr ()"
      by (auto simp: register_server_with_spec_def res_bind_eq_Inr dest: range_find_Some
          split: sum.splits if_splits option.splits)
    show ?thesis
      unfolding r using inv ok valid
      by (auto simp: manager_inv_def channel_def split: if_splits)
  qed
qed

lemma register_server_sound: "sound_step (register_server psm spec)"
  unfolding register_server_def
  by (intro sound_step_guarded register_server_with_spec_sound) simp

lemma register_ertm_server_sound: "sound_step (register_ertm_server psm spec)"
  unfolding register_ertm_server_def
  by (intro sound_step_guarded register_server_with_spec_sound) simp

text \<open>\<^verbatim>\<open>channel_mut(cid).and_then(pop_received)\<close>, the way the host takes delivered SDUs.\<close>

definition manager_pop_received :: "u16 \<Rightarrow> channel_manager \<Rightarrow> bytes option \<times> channel_manager" where
  "manager_pop_received cid m = (case bt_get (cm_channels m) cid of
       None \<Rightarrow> (None, m)
     | Some c \<Rightarrow> let (b, c') = channel_pop_received c in (b, put_channel cid c' m))"

datatype manager_op =
    RegisterServer "u32 option" classic_channel_spec
  | RegisterErtmServer "u32 option" ertm_channel_spec
  | UnregisterServer u32
  | Connect u32 classic_channel_spec
  | ConnectErtm u32 ertm_channel_spec
  | SendOn u16 bytes
  | Disconnect u16
  | ProcessPdu l2cap_pdu
  | ProcessBytes bytes
  | TickAll u32
  | SetBusy u16 bool
  | PopReceivedOn u16
  | PollAccepted
  | PollPdu
  | DrainPdus
  | RequestInformation u16
  | PollInformation
  | DrainInformation

fun manager_step :: "channel_manager \<Rightarrow> manager_op \<Rightarrow> channel_manager" where
  "manager_step m (RegisterServer psm spec) = snd (register_server psm spec m)"
| "manager_step m (RegisterErtmServer psm spec) = snd (register_ertm_server psm spec m)"
| "manager_step m (UnregisterServer psm) = snd (unregister_server psm m)"
| "manager_step m (Connect psm spec) = snd (connect psm spec m)"
| "manager_step m (ConnectErtm psm spec) = snd (connect_ertm psm spec m)"
| "manager_step m (SendOn cid sdu) = snd (channel_send cid sdu m)"
| "manager_step m (Disconnect cid) = snd (disconnect cid m)"
| "manager_step m (ProcessPdu pdu) = snd (process_pdu pdu m)"
| "manager_step m (ProcessBytes b) = snd (process_bytes b m)"
| "manager_step m (TickAll n) = snd (manager_tick n m)"
| "manager_step m (SetBusy cid b) = snd (manager_set_receiver_busy cid b m)"
| "manager_step m (PopReceivedOn cid) = snd (manager_pop_received cid m)"
| "manager_step m PollAccepted = snd (poll_accepted_channel m)"
| "manager_step m PollPdu = snd (manager_poll_outbound m)"
| "manager_step m DrainPdus = snd (manager_drain_outbound m)"
| "manager_step m (RequestInformation t) = snd (request_information t m)"
| "manager_step m PollInformation = snd (poll_information_response m)"
| "manager_step m DrainInformation = snd (drain_information_responses m)"

lemmas sound_ops = register_server_sound register_ertm_server_sound connect_sound connect_ertm_sound
  channel_send_sound disconnect_sound process_pdu_sound process_bytes_sound manager_tick_sound
  set_receiver_busy_sound

lemma pop_received_keeps:
  assumes "manager_inv m"
  shows "manager_inv (snd (manager_pop_received cid m)) \<and> evolves m (snd (manager_pop_received cid m))"
proof (cases "channel m cid")
  case None
  with assms show ?thesis by (simp add: manager_pop_received_def channel_def)
next
  case (Some c)
  let ?c = "snd (channel_pop_received c)"
  have "channel_ok cid ?c" "ch_state ?c = ch_state c" "ch_spec ?c = ch_spec c" "ch_psm ?c = ch_psm c"
    using manager_inv_channel [OF assms Some]
    by (auto simp: channel_pop_received_def channel_ok_def channel_inv_def split: list.split)
  with put_sound [OF assms Some, of ?c] Some show ?thesis
    by (simp add: manager_pop_received_def channel_def split_beta)
qed

lemma manager_step_sound:
  assumes "manager_inv m"
  shows "manager_inv (manager_step m op) \<and> evolves m (manager_step m op)"
proof (cases op)
  case (UnregisterServer psm)
  with assms show ?thesis
    by (auto simp: unregister_server_def manager_inv_def channel_def split: if_splits)
next
  case PollAccepted
  with assms show ?thesis
    by (auto simp: poll_accepted_channel_def manager_inv_def channel_def split: list.split)
qed (use assms in \<open>simp_all add: sound_ops [THEN sound_stepD(1)] sound_ops [THEN sound_stepD(2)]
      pop_received_keeps manager_poll_outbound_def manager_drain_outbound_def request_information_def
      poll_information_response_def drain_information_responses_def split_beta split: list.split\<close>)

interpretation channels: guarded_machine "\<lambda>m. \<exists>i. m = with_information_capabilities i" manager_step manager_inv
proof unfold_locales
  show "\<exists>i. m = with_information_capabilities i \<Longrightarrow> manager_inv m" for m
    by (auto simp: with_information_capabilities_def manager_inv_def channel_def)
  show "manager_inv m \<Longrightarrow> manager_inv (manager_step m op)" for m op
    using manager_step_sound by blast
qed

lemma evolves_run:
  "manager_inv m \<Longrightarrow> evolves m (foldl manager_step m ops)"
proof (induction ops arbitrary: m)
  case (Cons op ops)
  then show ?case using manager_step_sound [of m op] evolves_trans by simp blast
qed simp

lemma channel_ok_facts:
  assumes "channel_ok cid c"
  shows "ch_source_cid c = cid \<and> 0x40 \<le> cid \<and> spec_ok (ch_spec c)
      \<and> ch_mode c = spec_mode (ch_spec c) \<and> L2CAP_MIN_BR_EDR_MTU \<le> ch_peer_mtu c
      \<and> (if is_open c then ch_peer_configuration_received c \<and> ch_configuration_response_received c
           \<and> (ch_ertm c \<noteq> None \<longleftrightarrow> ch_mode c = EnhancedRetransmission) else True)
      \<and> (case ch_ertm c of Some e \<Rightarrow> ertm_inv e | None \<Rightarrow> True)
      \<and> (if ch_mode c = Basic then list_all (\<lambda>b. length b \<le> unat (ch_mtu c)) (ch_received c) else True)"
  using assms by (cases "ch_mode c"; cases "ch_ertm c")
    (auto simp: channel_ok_def channel_inv_def is_open_def)

section \<open>Lemmas: opening a channel between two managers\<close>

lemma process_signal:
  "frame_wf f \<Longrightarrow> process_pdu (pdu_new L2CAP_SIGNALING_CID (frame_to_bytes f)) m = process_control f m"
  using frame_roundtrip [of f "[]"] by (simp add: process_pdu_def pdu_new_def)

definition mtu_option :: "u16 \<Rightarrow> bytes" where
  "mtu_option mtu = options_bytes [option_new CONFIGURATION_OPTION_MTU (le16_bytes mtu)]"

lemma length_mtu_option [simp]: "length (mtu_option mtu) = 4"
  by (simp add: mtu_option_def options_bytes_def option_new_def)

lemma mtu_option_wf: "list_all option_wf [option_new CONFIGURATION_OPTION_MTU (le16_bytes mtu)]"
  by (simp add: option_wf_def option_new_def)

lemma handshake_frames_wf:
  "psm_wire_ok psm \<Longrightarrow> frame_wf (ConnectionRequest i psm cid)"
  "frame_wf (ConnectionResponse i d s r t)" "frame_wf (ConfigureRequest i d 0 (mtu_option mtu))"
  "frame_wf (ConfigureResponse i s 0 r (mtu_option mtu))"
  by (simp_all add: frame_wf_def serialize_psm_bytes)

text \<open>How one signaling step changes the manager: one channel, what it sends and announces.\<close>

definition signals ::
  "channel_manager \<Rightarrow> channel_manager \<Rightarrow> u16 \<Rightarrow> classic_channel \<Rightarrow> control_frame list \<Rightarrow> u16 list \<Rightarrow> bool"
where
  "signals m m' cid c' out acc \<longleftrightarrow> bt_ok (cm_channels m') \<and> channel m' = (channel m)(cid \<mapsto> c')
     \<and> cm_outbound m' = cm_outbound m @ map (\<lambda>f. pdu_new L2CAP_SIGNALING_CID (frame_to_bytes f)) out
     \<and> cm_accepted_channels m' = cm_accepted_channels m @ acc"

lemma signals_trans:
  "signals m1 m2 cid c out acc \<Longrightarrow> signals m2 m3 cid c' out' acc' \<Longrightarrow>
   signals m1 m3 cid c' (out @ out') (acc @ acc')"
  by (auto simp: signals_def)

lemma signals_channel: "signals m m' cid c out acc \<Longrightarrow> channel m' cid = Some c \<and> bt_ok (cm_channels m')"
  by (simp add: signals_def)

lemma signals_put: "bt_ok (cm_channels m) \<Longrightarrow> signals m (put_channel cid c m) cid c [] []"
  by (auto simp: signals_def channel_put fun_eq_iff) (simp_all add: put_channel_def)

lemma signals_queue: "signals m m' cid c out acc \<Longrightarrow> signals m (queue_control f m') cid c (out @ [f]) acc"
  by (simp add: signals_def) (simp add: queue_control_def)

lemma signals_next: "signals m m' cid c out acc \<Longrightarrow> signals m (snd (next_identifier m')) cid c out acc"
  by (simp add: signals_def) (simp add: next_identifier_def Let_def)

lemma signals_open:
  assumes "signals m m' cid c out acc"
  shows "\<not> (ch_peer_configuration_received c \<and> ch_configuration_response_received c
      \<and> ch_state c = Configuring) \<Longrightarrow> signals m (maybe_open cid m') cid c out acc"
    and "ch_peer_configuration_received c \<Longrightarrow> ch_configuration_response_received c \<Longrightarrow>
      ch_state c = Configuring \<Longrightarrow> ch_incoming c \<Longrightarrow> \<not> ch_open_announced c \<Longrightarrow>
      signals m (maybe_open cid m') cid (c\<lparr>ch_state := Open, ch_open_announced := True\<rparr>) out (acc @ [cid])"
    and "ch_peer_configuration_received c \<Longrightarrow> ch_configuration_response_received c \<Longrightarrow>
      ch_state c = Configuring \<Longrightarrow> \<not> ch_incoming c \<Longrightarrow>
      signals m (maybe_open cid m') cid (c\<lparr>ch_state := Open\<rparr>) out acc"
  using assms signals_channel [OF assms] signals_put [of m' cid]
  by (auto simp: maybe_open_def channel_def Let_def fun_eq_iff signals_def)

lemma signals_configure_request:
  assumes "signals m m' cid c out acc" "ch_spec c = BasicSpec s" "ch_destination_cid c = d"
  obtains i m'' where "queue_configure_request cid m' = (Inr (), m'')"
    "signals m m'' cid c (out @ [ConfigureRequest i d 0 (mtu_option (cs_mtu s))]) acc"
proof -
  let ?i = "fst (next_identifier m')"
  let ?f = "ConfigureRequest ?i d 0 (mtu_option (cs_mtu s))"
  have "encode_configuration_options (configure_request_options (ch_spec c)) = Inr (mtu_option (cs_mtu s))"
    using assms(2) by (simp add: configure_request_options_def encode_options_eq mtu_option_def option_new_def)
  then have "queue_configure_request cid m' = (Inr (), queue_control ?f (snd (next_identifier m')))"
    using signals_channel [OF assms(1)] assms(3)
    by (simp add: queue_configure_request_def channel_def split_beta)
  then show thesis using that signals_queue [OF signals_next [OF assms(1)]] by blast
qed

lemma signals_on_configure_request:
  assumes "signals m m' cid c out acc" "ch_spec c = BasicSpec s" "ch_mode c = Basic"
    "L2CAP_MIN_BR_EDR_MTU \<le> mtu" "ch_destination_cid c = d"
  defines "c' \<equiv> c\<lparr>ch_peer_mtu := mtu, ch_peer_configuration_received := True\<rparr>"
  obtains m'' where "on_configure_request i cid 0 (mtu_option mtu) m' = (Inr (), maybe_open cid m'')"
    "signals m m'' cid c' (out @ [ConfigureResponse i d 0 0 (mtu_option mtu)]) acc"
proof -
  let ?o = "option_new CONFIGURATION_OPTION_MTU (le16_bytes mtu)"
  have dec: "decode_configuration_options (mtu_option mtu) = Inr [?o]"
    unfolding mtu_option_def by (rule options_dec_enc [OF mtu_option_wf])
  have enc: "encode_configuration_options [?o] = Inr (mtu_option mtu)"
    by (simp add: encode_options_eq mtu_option_def option_new_def)
  let ?m = "queue_control (ConfigureResponse i d 0 0 (mtu_option mtu)) (put_channel cid c' m')"
  have "on_configure_request i cid 0 (mtu_option mtu) m' = (Inr (), maybe_open cid ?m)"
    using signals_channel [OF assms(1)] assms(2,3) assms(4) [THEN leD] assms(5) enc
    by (simp add: on_configure_request_def dec channel_def option_new_def configure_channel_def
        configure_mode_def act_bind_def c'_def)
  moreover have "signals m ?m cid c' (out @ [ConfigureResponse i d 0 0 (mtu_option mtu)]) acc"
    using signals_trans [OF assms(1) signals_put, of c'] signals_channel [OF assms(1)]
    by (intro signals_queue) simp
  ultimately show thesis using that by blast
qed

lemma signals_on_configure_response:
  assumes "signals m m' cid c out acc"
  defines "c' \<equiv> c\<lparr>ch_configuration_response_received := True\<rparr>"
  obtains m'' where "on_configure_response cid CONFIGURATION_SUCCESS m' = (Inr (), maybe_open cid m'')"
    "signals m m'' cid c' out acc"
  using signals_channel [OF assms(1)] signals_trans [OF assms(1) signals_put, of c'] that
  by (auto simp: on_configure_response_def channel_def c'_def)

definition signal_pdus :: "control_frame list \<Rightarrow> l2cap_pdu list" where
  "signal_pdus fs = map (\<lambda>f. pdu_new L2CAP_SIGNALING_CID (frame_to_bytes f)) fs"

definition sent :: "channel_manager \<Rightarrow> channel_manager" where
  "sent m = m\<lparr>cm_outbound := []\<rparr>"

lemma deliver_signals [simp]:
  "act_each process_pdu (signal_pdus []) m = (Inr (), m)"
  "frame_wf f \<Longrightarrow> process_control f m = (Inr (), m') \<Longrightarrow>
   act_each process_pdu (signal_pdus (f # fs)) m = act_each process_pdu (signal_pdus fs) m'"
  by (simp_all add: signal_pdus_def process_signal act_then_Inr)

lemma signals_sent: "signals m m' cid c out acc \<Longrightarrow> signals (sent m') (sent m') cid c [] []"
  by (auto simp: signals_def sent_def fun_eq_iff)

lemma signals_out: "signals m m' cid c out acc \<Longrightarrow> cm_outbound m = [] \<Longrightarrow> cm_outbound m' = signal_pdus out"
  by (simp add: signals_def signal_pdus_def)

text \<open>The four deliveries, each from the channel the previous one left.\<close>

lemma server_accepts:
  assumes "bt_ok (cm_channels b)" "allocate_cid b = Inr cb" "bt_get (cm_servers b) psm = Some (BasicSpec s2)"
    "psm_wire_ok psm"
  obtains ib b1 where "act_each process_pdu (signal_pdus [ConnectionRequest i psm ca]) b = (Inr (), b1)"
    "signals b b1 cb (channel_incoming psm cb ca (BasicSpec s2))
       [ConnectionResponse i cb ca CONNECTION_SUCCESSFUL 0, ConfigureRequest ib ca 0 (mtu_option (cs_mtu s2))] []"
proof -
  let ?ob = "channel_incoming psm cb ca (BasicSpec s2)"
  let ?resp = "ConnectionResponse i cb ca CONNECTION_SUCCESSFUL 0"
  have p1: "signals b (queue_control ?resp (put_channel cb ?ob b)) cb ?ob ([] @ [?resp]) []"
    by (rule signals_queue [OF signals_put [OF assms(1)]])
  obtain ib b1 where b1: "queue_configure_request cb (queue_control ?resp (put_channel cb ?ob b)) = (Inr (), b1)"
    "signals b b1 cb ?ob (([] @ [?resp]) @ [ConfigureRequest ib ca 0 (mtu_option (cs_mtu s2))]) []"
    by (rule signals_configure_request [OF p1, of s2 ca]) (simp_all add: channel_incoming_def)
  then have "process_control (ConnectionRequest i psm ca) b = (Inr (), b1)"
    using assms(2,3) by (simp add: on_connection_request_def)
  with b1(2) show thesis
    using that [of b1 ib] handshake_frames_wf(1) [OF assms(4)] by simp
qed

lemma client_configures:
  assumes "signals m a1 ca (channel_outgoing psm ca (BasicSpec s1)) out acc" "48 \<le> cs_mtu s2"
  obtains i2 a2 where "act_each process_pdu (signal_pdus [ConnectionResponse i cb ca CONNECTION_SUCCESSFUL 0,
      ConfigureRequest ib ca 0 (mtu_option (cs_mtu s2))]) (sent a1) = (Inr (), a2)"
    "signals (sent a1) a2 ca ((channel_outgoing psm ca (BasicSpec s1))\<lparr>ch_connection_result := Some 0,
       ch_destination_cid := cb, ch_state := Configuring, ch_peer_mtu := cs_mtu s2,
       ch_peer_configuration_received := True\<rparr>)
      [ConfigureRequest i2 cb 0 (mtu_option (cs_mtu s1)), ConfigureResponse ib cb 0 0 (mtu_option (cs_mtu s2))] []"
proof -
  let ?c1 = "(channel_outgoing psm ca (BasicSpec s1))\<lparr>ch_connection_result := Some 0,
       ch_destination_cid := cb, ch_state := Configuring\<rparr>"
  note sent = signals_channel [OF signals_sent [OF assms(1)]]
  have p1: "signals (sent a1) (put_channel ca ?c1 (sent a1)) ca ?c1 [] []"
    using sent by (intro signals_put) simp
  obtain i2 a1' where a1': "queue_configure_request ca (put_channel ca ?c1 (sent a1)) = (Inr (), a1')"
    "signals (sent a1) a1' ca ?c1 ([] @ [ConfigureRequest i2 cb 0 (mtu_option (cs_mtu s1))]) []"
    by (rule signals_configure_request [OF p1, of s1 cb]) (simp_all add: channel_outgoing_def)
  let ?c2 = "?c1\<lparr>ch_peer_mtu := cs_mtu s2, ch_peer_configuration_received := True\<rparr>"
  obtain a2 where a2: "on_configure_request ib ca 0 (mtu_option (cs_mtu s2)) a1' = (Inr (), maybe_open ca a2)"
    "signals (sent a1) a2 ca ?c2 (([] @ [ConfigureRequest i2 cb 0 (mtu_option (cs_mtu s1))])
       @ [ConfigureResponse ib cb 0 0 (mtu_option (cs_mtu s2))]) []"
    by (rule signals_on_configure_request [OF a1'(2), of s1 "cs_mtu s2" cb ib])
      (simp_all add: channel_outgoing_def assms(2))
  have "signals (sent a1) (maybe_open ca a2) ca ?c2 [ConfigureRequest i2 cb 0 (mtu_option (cs_mtu s1)),
       ConfigureResponse ib cb 0 0 (mtu_option (cs_mtu s2))] []"
    using signals_open(1) [OF a2(2)] by (simp add: channel_outgoing_def)
  moreover have "on_connection_response cb ca 0 (sent a1) = (Inr (), a1')"
    using a1'(1) sent by (simp add: on_connection_response_def channel_def) (simp add: channel_outgoing_def)
  ultimately show thesis
    using that [of "maybe_open ca a2" i2] a2(1) handshake_frames_wf(2,3) by simp
qed

lemma server_opens:
  assumes "signals m b1 cb (channel_incoming psm cb ca (BasicSpec s2)) out acc" "48 \<le> cs_mtu s1"
  obtains b2 where "act_each process_pdu (signal_pdus [ConfigureRequest i2 cb 0 (mtu_option (cs_mtu s1)),
      ConfigureResponse ib cb 0 0 (mtu_option mtu)]) (sent b1) = (Inr (), b2)"
    "signals (sent b1) b2 cb ((channel_incoming psm cb ca (BasicSpec s2))\<lparr>ch_peer_mtu := cs_mtu s1,
       ch_peer_configuration_received := True, ch_configuration_response_received := True,
       ch_state := Open, ch_open_announced := True\<rparr>)
      [ConfigureResponse i2 ca 0 0 (mtu_option (cs_mtu s1))] [cb]"
proof -
  let ?c1 = "(channel_incoming psm cb ca (BasicSpec s2))\<lparr>ch_peer_mtu := cs_mtu s1,
    ch_peer_configuration_received := True\<rparr>"
  let ?out = "[ConfigureResponse i2 ca 0 0 (mtu_option (cs_mtu s1))]"
  obtain b2 where b2: "on_configure_request i2 cb 0 (mtu_option (cs_mtu s1)) (sent b1) = (Inr (), maybe_open cb b2)"
    "signals (sent b1) b2 cb ?c1 ([] @ ?out) []"
    by (rule signals_on_configure_request [OF signals_sent [OF assms(1)], of s2 "cs_mtu s1" ca i2])
      (simp_all add: channel_incoming_def assms(2))
  have b2o: "signals (sent b1) (maybe_open cb b2) cb ?c1 ?out []"
    using signals_open(1) [OF b2(2)] by (simp add: channel_incoming_def)
  obtain b3 where b3: "on_configure_response cb 0 (maybe_open cb b2) = (Inr (), maybe_open cb b3)"
    "signals (sent b1) b3 cb (?c1\<lparr>ch_configuration_response_received := True\<rparr>) ?out []"
    by (rule signals_on_configure_response [OF b2o])
  from signals_open(2) [OF b3(2)] show thesis
    using that [of "maybe_open cb b3"] b2(1) b3(1) handshake_frames_wf(3,4)
    by (simp add: channel_incoming_def)
qed

lemma client_opens:
  assumes "signals m a2 ca c out acc" "ch_state c = Configuring" "ch_peer_configuration_received c"
    "\<not> ch_incoming c"
  obtains a3 where "act_each process_pdu (signal_pdus [ConfigureResponse i ca 0 0 (mtu_option mtu)]) (sent a2)
      = (Inr (), a3)"
    "signals (sent a2) a3 ca (c\<lparr>ch_configuration_response_received := True, ch_state := Open\<rparr>) [] []"
proof -
  obtain a3 where a3: "on_configure_response ca 0 (sent a2) = (Inr (), maybe_open ca a3)"
    "signals (sent a2) a3 ca (c\<lparr>ch_configuration_response_received := True\<rparr>) [] []"
    by (rule signals_on_configure_response [OF signals_sent [OF assms(1)]])
  from signals_open(3) [OF a3(2)] assms(2-4) show thesis
    using that [of "maybe_open ca a3"] a3(1) handshake_frames_wf(4) by simp
qed

section \<open>Lemmas: one channel's clock does not touch the others\<close>

lemma put_channel_other:
  "bt_ok (cm_channels m) \<Longrightarrow> k \<noteq> cid \<Longrightarrow> channel (put_channel cid c m) k = channel m k"
  "bt_ok (cm_channels m) \<Longrightarrow> bt_ok (cm_channels (put_channel cid c m))"
  by (simp_all add: channel_put) (simp add: put_channel_def)

lemma flush_ertm_other:
  assumes "bt_ok (cm_channels m)" "k \<noteq> cid"
  shows "channel (snd (flush_ertm cid m)) k = channel m k \<and> bt_ok (cm_channels (snd (flush_ertm cid m)))"
  using assms put_channel_other [OF assms(1)] queue_ertm_frames_channels(1)
  by (auto simp: flush_ertm_def channel_def split_beta split: option.split)

lemma tick_channel_other:
  assumes "bt_ok (cm_channels m)" "k \<noteq> cid"
  shows "channel (snd (tick_channel n cid m)) k = channel m k \<and> bt_ok (cm_channels (snd (tick_channel n cid m)))"
  using assms put_channel_other [OF assms(1)] flush_ertm_other
  by (auto simp: tick_channel_def run_engine_def split_beta Let_def split: option.split sum.split)

lemma tick_failed:
  assumes "channel m cid = Some c" "ch_ertm c = Some e" "er_failed e"
  shows "\<exists>err. fst (tick_channel n cid m) = Inl err"
  using assms by (simp add: tick_channel_def channel_def run_engine_def ertm_tick_def ensure_active_eq)

lemma tick_stops_at_failed:
  assumes "sorted_wrt (<) cids" "cid \<in> set cids" "bt_ok (cm_channels m)"
    "channel m cid = Some c" "ch_ertm c = Some e" "er_failed e" "cid < k"
  shows "(\<exists>err. fst (act_each (tick_channel n) cids m) = Inl err)
    \<and> channel (snd (act_each (tick_channel n) cids m)) k = channel m k"
  using assms(1-4)
proof (induction cids arbitrary: m)
  case (Cons x xs)
  have "x \<le> cid" using Cons.prems(1,2) by auto
  then have other: "channel (snd (tick_channel n x m)) k = channel m k"
    "bt_ok (cm_channels (snd (tick_channel n x m)))"
    using tick_channel_other [OF Cons.prems(3), of k x n] assms(7) by auto
  show ?case
  proof (cases "tick_channel n x m")
    case (Pair r m1)
    show ?thesis
    proof (cases r)
      case (Inl err)
      with Pair other show ?thesis by (simp add: act_then_Inl)
    next
      case (Inr u)
      then have "x \<noteq> cid" using Pair tick_failed [OF Cons.prems(4) assms(5,6), of n] by auto
      then have "channel m1 cid = Some c"
        using tick_channel_other [OF Cons.prems(3), of cid x n] Cons.prems(4) Pair by simp
      with Cons.IH [of m1] Cons.prems \<open>x \<noteq> cid\<close> other Pair Inr show ?thesis
        by (simp add: act_then_Inr)
    qed
  qed
qed simp

section \<open>Properties\<close>

text \<open>
  C20: the channel manager is sound whatever its user and its peer do. After any sequence of
  operations and received PDUs from the initial state, every channel is registered under its own
  dynamic CID with a valid specification, an open channel has been configured in both directions,
  an open channel uses an ERTM engine exactly when its mode is ERTM and that engine satisfies its
  invariant, a Basic channel never holds an SDU beyond its MTU, and every announced channel exists.
\<close>

theorem manager_reachable:
  "let m = foldl manager_step (with_information_capabilities info) ops in
    list_all (\<lambda>(cid, c). ch_source_cid c = cid \<and> 0x40 \<le> cid \<and> spec_ok (ch_spec c)
      \<and> ch_mode c = spec_mode (ch_spec c) \<and> L2CAP_MIN_BR_EDR_MTU \<le> ch_peer_mtu c
      \<and> (if is_open c then ch_peer_configuration_received c \<and> ch_configuration_response_received c
           \<and> (ch_ertm c \<noteq> None \<longleftrightarrow> ch_mode c = EnhancedRetransmission) else True)
      \<and> (case ch_ertm c of Some e \<Rightarrow> ertm_inv e | None \<Rightarrow> True)
      \<and> (if ch_mode c = Basic then list_all (\<lambda>b. length b \<le> unat (ch_mtu c)) (ch_received c) else True))
      (cm_channels m)
    \<and> list_all (bt_contains (cm_channels m)) (cm_accepted_channels m)"
proof -
  let ?m = "foldl manager_step (with_information_capabilities info) ops"
  have inv: "manager_inv ?m" by (rule channels.inv_reachable) blast
  have "channel_ok cid c" if "(cid, c) \<in> set (cm_channels ?m)" for cid c
    using inv that bt_in_set_get by (fastforce simp: manager_inv_def channel_def)
  then have "list_all (\<lambda>(cid, c). channel_ok cid c) (cm_channels ?m)" by (auto simp: list_all_iff)
  then have "list_all (\<lambda>(cid, c). ch_source_cid c = cid \<and> 0x40 \<le> cid \<and> spec_ok (ch_spec c)
      \<and> ch_mode c = spec_mode (ch_spec c) \<and> L2CAP_MIN_BR_EDR_MTU \<le> ch_peer_mtu c
      \<and> (if is_open c then ch_peer_configuration_received c \<and> ch_configuration_response_received c
           \<and> (ch_ertm c \<noteq> None \<longleftrightarrow> ch_mode c = EnhancedRetransmission) else True)
      \<and> (case ch_ertm c of Some e \<Rightarrow> ertm_inv e | None \<Rightarrow> True)
      \<and> (if ch_mode c = Basic then list_all (\<lambda>b. length b \<le> unat (ch_mtu c)) (ch_received c) else True))
      (cm_channels ?m)"
    by (rule list.pred_mono_strong) (unfold split_beta, rule channel_ok_facts)
  moreover have "list_all (bt_contains (cm_channels ?m)) (cm_accepted_channels ?m)"
    using inv by (simp add: manager_inv_def list_all_iff bt_contains_def channel_def)
  ultimately show ?thesis by (simp only: Let_def)
qed

text \<open>
  C22: a channel only moves along the edges of its state machine. From any sound state, a whole run of
  operations keeps every channel registered with the same PSM and specification, and takes its state
  from the old one to the new one along connect, open, disconnect and close edges; a closed channel
  is never revived.
\<close>

theorem channel_state_machine:
  assumes "manager_inv m" "channel m cid = Some c"
  shows "\<exists>c'. channel (foldl manager_step m ops) cid = Some c'
    \<and> chan_edges (ch_state c) (ch_state c') \<and> (ch_state c = Closed \<longrightarrow> ch_state c' = Closed)
    \<and> ch_spec c' = ch_spec c \<and> ch_psm c' = ch_psm c"
  using evolves_run [OF assms(1), of ops] assms(2) unfolding evolves_def
  by (metis closed_is_final)

lemma manager_new_inv: "manager_inv manager_new"
  by (rule channels.inv_start) (auto simp: manager_new_def)

text \<open>A manager with one channel being opened, for the examples.\<close>

definition manager_example :: channel_manager where
  "manager_example = snd (connect 0x11 classic_channel_spec_default manager_new)"

lemma manager_example_eq:
  "manager_example = manager_new\<lparr>cm_channels := [(0x40, channel_outgoing 0x11 0x40
     (BasicSpec classic_channel_spec_default))], cm_identifier := 1,
     cm_outbound := [pdu_new 1 (frame_to_bytes (ConnectionRequest 1 0x11 0x40))]\<rparr>"
  by (simp add: manager_example_def connect_def validate_psm_def validate_psm_high.simps validate_spec_def
      classic_channel_spec_default_def connect_with_spec_def allocate_cid_def range_find_hit manager_new_def
      with_information_capabilities_def bt_contains_def next_identifier_def put_channel_def
      queue_control_def)

lemma manager_example_inv: "manager_inv manager_example"
  using channels.inv_run [OF channels.inv_start, of manager_new "[Connect 0x11 classic_channel_spec_default]"]
  by (auto simp: manager_example_def manager_new_def)

theorem channel_state_machine_witness:
  "\<exists>c'. channel (foldl manager_step manager_example [ProcessBytes [1, 0, 1, 0, 9], TickAll 5]) 0x40 = Some c'
    \<and> chan_edges WaitConnectResponse (ch_state c')
    \<and> (WaitConnectResponse = Closed \<longrightarrow> ch_state c' = Closed)
    \<and> ch_spec c' = BasicSpec classic_channel_spec_default \<and> ch_psm c' = 0x11"
  using channel_state_machine [OF manager_example_inv, of "0x40" "channel_outgoing 0x11 0x40
     (BasicSpec classic_channel_spec_default)" "[ProcessBytes [1, 0, 1, 0, 9], TickAll 5]"]
  by (simp add: manager_example_eq channel_def bt_get_def channel_outgoing_def)

text \<open>
  ERTM frame checks. A frame with its check sequence appended is accepted on the same CID and
  stripped to the original, and is too large exactly beyond 65533 bytes; a frame of the same length
  in which two adjacent bytes of the payload were corrupted is rejected.
\<close>

theorem ertm_fcs:
  "((\<exists>q. append_fcs cid p = Inr q \<and> verify_and_strip_fcs cid q = Inr p) \<longleftrightarrow> length p \<le> 65533)
   \<and> (append_fcs cid (a @ [x, y] @ b) = Inr (a @ [x, y] @ b @ s) \<longrightarrow> (x, y) \<noteq> (x', y')
        \<longrightarrow> (\<exists>err. verify_and_strip_fcs cid (a @ [x', y'] @ b @ s) = Inl err))"
proof (intro conjI impI)
  show "(\<exists>q. append_fcs cid p = Inr q \<and> verify_and_strip_fcs cid q = Inr p) \<longleftrightarrow> length p \<le> 65533"
    using fcs_roundtrip [of cid p] by (auto simp: append_fcs_def Let_def)
  assume s: "append_fcs cid (a @ [x, y] @ b) = Inr (a @ [x, y] @ b @ s)" and ne: "(x, y) \<noteq> (x', y')"
  let ?n = "length a + length b + 2"
  let ?h = "le16_bytes (of_nat (?n + 2)) @ le16_bytes cid"
  from s have s: "s = le16_bytes (crc_16 (?h @ a @ [x, y] @ b))" and n: "?n + 2 \<le> 65535"
    by (auto simp: append_fcs_def Let_def add.commute add.left_commute split: if_splits)
  have "crc_16 (?h @ a @ [x', y'] @ b) \<noteq> crc_16 (?h @ a @ [x, y] @ b)"
    using crc_two_bytes_inj [of "foldl crc_byte 0 (?h @ a)" x' y' x y] ne
    by (auto simp: crc_16_def)
  then show "\<exists>err. verify_and_strip_fcs cid (a @ [x', y'] @ b @ s) = Inl err"
    using n by (simp add: verify_and_strip_fcs_def s nth_append Let_def add.commute add.left_commute)
qed

theorem ertm_fcs_witness:
  "\<exists>err. verify_and_strip_fcs 0x40
     ([7] @ [1, 3] @ [9] @ le16_bytes (crc_16 [6, 0, 0x40, 0, 7, 1, 2, 9])) = Inl err"
proof -
  have sent: "append_fcs 0x40 ([7] @ [1, 2] @ [9])
      = Inr ([7] @ [1, 2] @ [9] @ le16_bytes (crc_16 [6, 0, 0x40, 0, 7, 1, 2, 9]))"
    by (simp add: append_fcs_def le16_bytes_def Let_def)
  have "(1 :: u8, 2 :: u8) \<noteq> (1, 3)" by simp
  with sent show ?thesis by (rule ertm_fcs [THEN conjunct2, rule_format])
qed

text \<open>
  C38: the PSMs the manager accepts do not all survive its own wire format. Of the PSMs \<^verbatim>\<open>validate_psm\<close>
  accepts, exactly those below 0x10000 are parsed back by \<^verbatim>\<open>parse_psm\<close> from what \<^verbatim>\<open>serialize_psm\<close>
  wrote; a connection request for the accepted PSM 0x20001 is read by the peer as one for PSM 1 from
  another CID.
\<close>

theorem accepted_psm_roundtrip:
  "(validate_psm psm = Inr () \<longrightarrow>
      (parse_psm (serialize_psm psm @ rest) 0 = Inr (length (serialize_psm psm), psm) \<longleftrightarrow> psm < 0x10000))
   \<and> validate_psm 0x20001 = Inr ()
   \<and> frame_from_bytes (frame_to_bytes (ConnectionRequest i 0x20001 0x0040)) = Inr (ConnectionRequest i 1 0x4002)"
proof (intro conjI impI)
  show "parse_psm (serialize_psm psm @ rest) 0 = Inr (length (serialize_psm psm), psm) \<longleftrightarrow> psm < 0x10000"
    if "validate_psm psm = Inr ()"
    using accepted_psm_wire [OF that] psm_parse_iff [of psm rest] by simp
  show "validate_psm 0x20001 = Inr ()"
    by (simp add: validate_psm_def validate_psm_high.simps)
  have "serialize_psm 0x20001 = [1, 0, 2]"
    by (simp add: serialize_psm_def le16_bytes_def psm_high_bytes.simps)
  then show "frame_from_bytes (frame_to_bytes (ConnectionRequest i 0x20001 0x0040)) = Inr (ConnectionRequest i 1 0x4002)"
    by (simp add: frame_from_bytes_def frame_to_bytes_def le16_bytes_def le16_of_def parse_frame_def
        parse_psm_def parse_psm_loop.simps)
qed

theorem accepted_psm_roundtrip_witness:
  "parse_psm (serialize_psm 0x1001 @ [5]) 0 = Inr (length (serialize_psm 0x1001), 0x1001) \<longleftrightarrow> (0x1001 :: u32) < 0x10000"
  using accepted_psm_roundtrip [of "0x1001" "[5]" 0]
  by (simp add: validate_psm_def validate_psm_high.simps)

text \<open>
  C39: one failed ERTM engine stops the clock of every later channel. While the manager holds a channel
  whose engine has failed, open or closed, \<^verbatim>\<open>tick\<close> reports an error and leaves every channel with a
  higher CID exactly as it was, so their retransmission timers never expire.
\<close>

theorem tick_starves_later_channels:
  assumes "manager_inv m" "channel m cid = Some c" "ch_ertm c = Some e" "er_failed e" "cid < k"
  shows "(\<exists>err. fst (manager_tick n m) = Inl err) \<and> channel (snd (manager_tick n m)) k = channel m k"
proof -
  let ?cids = "map fst (filter (\<lambda>(cid, c). ch_ertm c \<noteq> None) (cm_channels m))"
  have bt: "bt_ok (cm_channels m)" using assms(1) by (simp add: manager_inv_def)
  then have "sorted_wrt (<) ?cids"
    by (simp add: bt_ok_def sorted_wrt_map sorted_wrt_filter)
  moreover have "cid \<in> set ?cids"
    using assms(2,3) bt_get_in_set [of "cm_channels m" cid c] by (force simp: channel_def)
  ultimately show ?thesis
    using tick_stops_at_failed [OF _ _ bt assms(2-5)] by (simp add: manager_tick_def Let_def)
qed

definition tick_example :: channel_manager where
  "tick_example = manager_new\<lparr>cm_channels :=
     [(0x40, (channel_outgoing 0x11 0x40 (ErtmSpec ertm_channel_spec_default))\<lparr>ch_state := Closed,
        ch_ertm := Some (ertm_example_sent\<lparr>er_failed := True\<rparr>)\<rparr>),
      (0x41, (channel_outgoing 0x11 0x41 (ErtmSpec ertm_channel_spec_default))\<lparr>ch_state := Open,
        ch_peer_configuration_received := True, ch_configuration_response_received := True,
        ch_ertm := Some ertm_example_sent\<rparr>)]\<rparr>"

lemma ertm_inv_failed: "ertm_inv e \<Longrightarrow> ertm_inv (e\<lparr>er_failed := b\<rparr>)"
  by (simp add: ertm_inv_defs)

lemma tick_example_inv: "manager_inv tick_example"
proof -
  have "spec_ok (ErtmSpec ertm_channel_spec_default)"
    by (simp add: validate_ertm_spec_def validate_spec_def ertm_channel_spec_default_def)
  then show ?thesis
    using manager_new_inv ertm_example_sent_inv ertm_inv_failed [OF ertm_example_sent_inv]
    by (auto simp: tick_example_def manager_inv_def channel_def bt_get_def channel_ok_def channel_inv_def
        channel_outgoing_def manager_new_def with_information_capabilities_def split: if_splits)
qed

theorem tick_starves_later_channels_witness:
  "(\<exists>err. fst (manager_tick 100000 tick_example) = Inl err)
   \<and> channel (snd (manager_tick 100000 tick_example)) 0x41 = channel tick_example 0x41"
  by (rule tick_starves_later_channels [OF tick_example_inv, of "0x40" "(channel_outgoing 0x11 0x40
      (ErtmSpec ertm_channel_spec_default))\<lparr>ch_state := Closed,
        ch_ertm := Some (ertm_example_sent\<lparr>er_failed := True\<rparr>)\<rparr>" "ertm_example_sent\<lparr>er_failed := True\<rparr>"])
    (simp_all add: tick_example_def channel_def bt_get_def)

text \<open>
  C21: two managers open a Basic channel. When one connects to a PSM the other serves, with both
  output queues empty, exchanging everything either side puts out leads, without a single error, to
  both ends being open in four deliveries: each end knows the other's CID and advertised MTU, the
  server side announces the channel, and nothing is left to send.
\<close>

theorem basic_handshake:
  assumes "manager_inv a" "cm_outbound a = []" "allocate_cid a = Inr ca"
    and "manager_inv b" "cm_outbound b = []" "allocate_cid b = Inr cb"
    and "validate_psm psm = Inr ()" "psm < 0x10000" "validate_spec s1 = Inr ()"
    and "bt_get (cm_servers b) psm = Some (BasicSpec s2)"
  shows "\<exists>a1 b1 a2 b2 a3. connect psm s1 a = (Inr ca, a1)
    \<and> act_each process_pdu (cm_outbound a1) b = (Inr (), b1)
    \<and> act_each process_pdu (cm_outbound b1) (sent a1) = (Inr (), a2)
    \<and> act_each process_pdu (cm_outbound a2) (sent b1) = (Inr (), b2)
    \<and> act_each process_pdu (cm_outbound b2) (sent a2) = (Inr (), a3)
    \<and> cm_outbound a3 = [] \<and> cm_accepted_channels b2 = cm_accepted_channels b @ [cb]
    \<and> (\<exists>c. channel a3 ca = Some c \<and> is_open c \<and> ch_destination_cid c = cb \<and> ch_peer_mtu c = cs_mtu s2)
    \<and> (\<exists>c. channel b2 cb = Some c \<and> is_open c \<and> ch_destination_cid c = ca \<and> ch_peer_mtu c = cs_mtu s1)"
proof -
  have bt: "bt_ok (cm_channels a)" "bt_ok (cm_channels b)"
    using assms(1,4) by (simp_all add: manager_inv_def)
  have "spec_ok (BasicSpec s2)" using assms(4,10) unfolding manager_inv_def by blast
  then have mtus: "48 \<le> cs_mtu s1" "48 \<le> cs_mtu s2"
    using assms(9) by (auto simp: validate_spec_def split: if_splits)
  have wire: "psm_wire_ok psm" using assms(7,8) accepted_psm_wire by blast
  let ?oa = "channel_outgoing psm ca (BasicSpec s1)" and ?ia = "fst (next_identifier a)"
  define a1 where "a1 = queue_control (ConnectionRequest ?ia psm ca) (put_channel ca ?oa (snd (next_identifier a)))"
  have con: "connect psm s1 a = (Inr ca, a1)"
    using assms(3,7,9) by (simp add: connect_def connect_with_spec_def a1_def split_beta)
  have a1: "signals (snd (next_identifier a)) a1 ca ?oa [ConnectionRequest ?ia psm ca] []"
    unfolding a1_def using signals_queue [OF signals_put, of "snd (next_identifier a)"] bt by simp
  obtain ib b1 where b1: "act_each process_pdu (signal_pdus [ConnectionRequest ?ia psm ca]) b = (Inr (), b1)"
    "signals b b1 cb (channel_incoming psm cb ca (BasicSpec s2))
       [ConnectionResponse ?ia cb ca CONNECTION_SUCCESSFUL 0, ConfigureRequest ib ca 0 (mtu_option (cs_mtu s2))] []"
    by (rule server_accepts [OF bt(2) assms(6,10) wire])
  obtain i2 a2 where a2: "act_each process_pdu (signal_pdus [ConnectionResponse ?ia cb ca CONNECTION_SUCCESSFUL 0,
      ConfigureRequest ib ca 0 (mtu_option (cs_mtu s2))]) (sent a1) = (Inr (), a2)"
    "signals (sent a1) a2 ca (?oa\<lparr>ch_connection_result := Some 0, ch_destination_cid := cb,
       ch_state := Configuring, ch_peer_mtu := cs_mtu s2, ch_peer_configuration_received := True\<rparr>)
      [ConfigureRequest i2 cb 0 (mtu_option (cs_mtu s1)), ConfigureResponse ib cb 0 0 (mtu_option (cs_mtu s2))] []"
    by (rule client_configures [OF a1 mtus(2)])
  obtain b2 where b2: "act_each process_pdu (signal_pdus [ConfigureRequest i2 cb 0 (mtu_option (cs_mtu s1)),
      ConfigureResponse ib cb 0 0 (mtu_option (cs_mtu s2))]) (sent b1) = (Inr (), b2)"
    "signals (sent b1) b2 cb ((channel_incoming psm cb ca (BasicSpec s2))\<lparr>ch_peer_mtu := cs_mtu s1,
       ch_peer_configuration_received := True, ch_configuration_response_received := True,
       ch_state := Open, ch_open_announced := True\<rparr>) [ConfigureResponse i2 ca 0 0 (mtu_option (cs_mtu s1))] [cb]"
    by (rule server_opens [OF b1(2) mtus(1)])
  obtain a3 where a3: "act_each process_pdu (signal_pdus [ConfigureResponse i2 ca 0 0 (mtu_option (cs_mtu s1))])
      (sent a2) = (Inr (), a3)"
    "signals (sent a2) a3 ca (?oa\<lparr>ch_connection_result := Some 0, ch_destination_cid := cb,
       ch_state := Open, ch_peer_mtu := cs_mtu s2, ch_peer_configuration_received := True,
       ch_configuration_response_received := True\<rparr>) [] []"
    by (rule client_opens [OF a2(2)]) (simp_all add: channel_outgoing_def)
  have "cm_outbound a1 = signal_pdus [ConnectionRequest ?ia psm ca]"
    using signals_out [OF a1] assms(2) by simp
  moreover note signals_out [OF b1(2) assms(5)] signals_out [OF a2(2)] signals_out [OF b2(2)]
    signals_out [OF a3(2)]
  moreover have "cm_accepted_channels b2 = cm_accepted_channels b @ [cb]"
    using b1(2) b2(2) by (simp add: signals_def sent_def)
  moreover note signals_channel [OF a3(2)] signals_channel [OF b2(2)]
  ultimately show ?thesis
    using con b1(1) a2(1) b2(1) a3(1)
    by (intro exI [of _ a1] exI [of _ b1] exI [of _ a2] exI [of _ b2] exI [of _ a3])
      (simp add: sent_def is_open_def, simp add: signal_pdus_def channel_outgoing_def channel_incoming_def)
qed

definition server_example :: channel_manager where
  "server_example = manager_new\<lparr>cm_servers := [(0x11, BasicSpec classic_channel_spec_default)]\<rparr>"

lemma server_example_inv: "manager_inv server_example"
  using manager_new_inv
  by (auto simp: server_example_def manager_inv_def channel_def bt_get_def manager_new_def validate_psm_def
      validate_psm_high.simps validate_spec_def classic_channel_spec_default_def
      with_information_capabilities_def split: if_splits)

theorem basic_handshake_witness:
  "\<exists>a1 b1 a2 b2 a3. connect 0x11 classic_channel_spec_default manager_new = (Inr 0x40, a1)
    \<and> act_each process_pdu (cm_outbound a1) server_example = (Inr (), b1)
    \<and> act_each process_pdu (cm_outbound b1) (sent a1) = (Inr (), a2)
    \<and> act_each process_pdu (cm_outbound a2) (sent b1) = (Inr (), b2)
    \<and> act_each process_pdu (cm_outbound b2) (sent a2) = (Inr (), a3)
    \<and> cm_outbound a3 = [] \<and> cm_accepted_channels b2 = cm_accepted_channels server_example @ [0x40]
    \<and> (\<exists>c. channel a3 0x40 = Some c \<and> is_open c \<and> ch_destination_cid c = 0x40
         \<and> ch_peer_mtu c = cs_mtu classic_channel_spec_default)
    \<and> (\<exists>c. channel b2 0x40 = Some c \<and> is_open c \<and> ch_destination_cid c = 0x40
         \<and> ch_peer_mtu c = cs_mtu classic_channel_spec_default)"
  by (rule basic_handshake)
    (simp_all add: manager_new_inv server_example_inv, simp_all add: server_example_def manager_new_def
      with_information_capabilities_def allocate_cid_def range_find_hit bt_contains_def bt_get_def
      validate_psm_def validate_psm_high.simps validate_spec_def classic_channel_spec_default_def)

end
