(* ===== verification/Values.thy ===== *)
theory Values
  imports Prelude
begin

text \<open>
  The value types of \<^verbatim>\<open>src/src/values.rs\<close>: Bluetooth addresses with their text form, UUIDs with their
  Bluetooth-base expansion, and the Classic bond. A Rust \<^verbatim>\<open>&str\<close> is the list of its UTF-8 bytes, one
  \<open>char\<close> per byte.
\<close>

section \<open>Addresses\<close>

text \<open>The messages carry their template and the text they print.\<close>

datatype value_error =
    InvalidAddress string string
  | InvalidUuid string nat
  | InvalidLinkKeyLength nat

datatype address_kind = Public | Random

record bluetooth_address =
  addr_bytes_le :: bytes
  addr_kind :: address_kind

definition address_from_le_bytes :: "bytes \<Rightarrow> address_kind \<Rightarrow> bluetooth_address" where
  "address_from_le_bytes b kind = \<lparr>addr_bytes_le = b, addr_kind = kind\<rparr>"

text \<open>\<^verbatim>\<open>str::strip_suffix\<close> and \<^verbatim>\<open>str::split\<close> on one character.\<close>

definition strip_suffix :: "string \<Rightarrow> string \<Rightarrow> string option" where
  "strip_suffix suf s =
     (if length suf \<le> length s \<and> drop (length s - length suf) s = suf
      then Some (take (length s - length suf) s) else None)"

fun split_on :: "char \<Rightarrow> string \<Rightarrow> string list" where
  "split_on d [] = [[]]"
| "split_on d (c # cs) =
     (if c = d then [] # split_on d cs
      else case split_on d cs of [] \<Rightarrow> [[c]] | w # ws \<Rightarrow> (c # w) # ws)"

text \<open>\<^verbatim>\<open>char::to_digit(16)\<close> and \<^verbatim>\<open>u8::from_str_radix(_, 16)\<close>, which accepts one leading plus sign.\<close>

definition hex_digit :: "char \<Rightarrow> nat option" where
  "hex_digit c =
     (let n = of_char c :: nat in
      if 48 \<le> n \<and> n \<le> 57 then Some (n - 48)
      else if 65 \<le> n \<and> n \<le> 70 then Some (n - 55)
      else if 97 \<le> n \<and> n \<le> 102 then Some (n - 87)
      else None)"

fun hex_digits :: "nat \<Rightarrow> string \<Rightarrow> nat option" where
  "hex_digits acc [] = Some acc"
| "hex_digits acc (c # cs) = (case hex_digit c of
     None \<Rightarrow> None | Some d \<Rightarrow> hex_digits (16 * acc + d) cs)"

definition u8_from_hex :: "string \<Rightarrow> u8 option" where
  "u8_from_hex s =
     (let digits = (case s of c # cs \<Rightarrow> if c = CHR ''+'' then cs else s | [] \<Rightarrow> []) in
      if digits = [] then None
      else (case hex_digits 0 digits of Some n \<Rightarrow> if n < 256 then Some (of_nat n) else None
            | None \<Rightarrow> None))"

text \<open>\<^verbatim>\<open>str::from_utf8\<close> on two bytes: two ASCII bytes or one two-byte sequence.\<close>

definition utf8_pair :: "char \<Rightarrow> char \<Rightarrow> bool" where
  "utf8_pair a b =
     (let m = of_char a :: nat; n = of_char b :: nat in
      (m < 128 \<and> n < 128) \<or> (194 \<le> m \<and> m \<le> 223 \<and> 128 \<le> n \<and> n \<le> 191))"

fun parse_octets :: "(char \<times> char) list \<Rightarrow> (bytes, value_error) result" where
  "parse_octets [] = Inr []"
| "parse_octets ((a, b) # pairs) =
     (if \<not> utf8_pair a b then Inl (InvalidAddress ''address is not UTF-8'' [])
      else case u8_from_hex [a, b] of
          None \<Rightarrow> Inl (InvalidAddress ''invalid octet {pair:?}'' [a, b])
        | Some v \<Rightarrow> res_bind (parse_octets pairs) (\<lambda>vs. Inr (v # vs)))"

definition compact_digits :: "string \<Rightarrow> (string, value_error) result" where
  "compact_digits v =
     (if length v = 12 \<and> CHR '':'' \<notin> set v then Inr v
      else if length v = 17 then
        let octets = split_on (CHR '':'') v in
        if length octets \<noteq> 6 \<or> list_ex (\<lambda>octet. length octet \<noteq> 2) octets
        then Inl (InvalidAddress ''expected six two-digit octets'' [])
        else Inr (concat octets)
      else Inl (InvalidAddress ''expected 12 hexadecimal digits'' []))"

definition address_parse :: "string \<Rightarrow> address_kind \<Rightarrow> (bluetooth_address, value_error) result" where
  "address_parse input default_kind =
     (let (v, kind) = (case strip_suffix ''/P'' input of
            Some v \<Rightarrow> (v, Public) | None \<Rightarrow> (input, default_kind)) in
      res_bind (compact_digits v) (\<lambda>digits.
      res_bind (parse_octets (pairs_exact digits)) (\<lambda>octets.
      Inr \<lparr>addr_bytes_le = rev octets, addr_kind = kind\<rparr>)))"

definition hex_char :: "nat \<Rightarrow> char" where
  "hex_char n = ''0123456789ABCDEF'' ! n"

definition hex_byte :: "u8 \<Rightarrow> string" where
  "hex_byte b = [hex_char (unat b div 16), hex_char (unat b mod 16)]"

fun join_colons :: "string list \<Rightarrow> string" where
  "join_colons [] = []"
| "join_colons [w] = w"
| "join_colons (w # ws) = w @ '':'' @ join_colons ws"

definition address_display :: "bluetooth_address \<Rightarrow> string" where
  "address_display a =
     join_colons (map hex_byte (rev (addr_bytes_le a))) @ (if addr_kind a = Public then ''/P'' else [])"

section \<open>UUIDs\<close>

definition BASE_UUID_LE :: bytes where
  "BASE_UUID_LE = [0xFB, 0x34, 0x9B, 0x5F, 0x80, 0x00, 0x00, 0x80, 0x00, 0x10, 0x00, 0x00]"

record bluetooth_uuid =
  uuid_bytes_le :: bytes

definition uuid_from_u16 :: "u16 \<Rightarrow> bluetooth_uuid" where
  "uuid_from_u16 v = \<lparr>uuid_bytes_le = le16_bytes v\<rparr>"

definition uuid_from_le_bytes :: "bytes \<Rightarrow> (bluetooth_uuid, value_error) result" where
  "uuid_from_le_bytes b =
     (if length b \<in> {2, 4, 16} then Inr \<lparr>uuid_bytes_le = b\<rparr>
      else Inl (InvalidUuid ''expected 2, 4, or 16 bytes, got {length}'' (length b)))"

text \<open>A UUID of another width cannot be constructed; the code marks that branch unreachable.\<close>

definition expanded_le_bytes :: "bluetooth_uuid \<Rightarrow> bytes" where
  "expanded_le_bytes u =
     (let b = uuid_bytes_le u in
      if length b = 2 then BASE_UUID_LE @ b @ [0, 0]
      else if length b = 4 then BASE_UUID_LE @ b
      else b)"

definition uuid_to_bytes :: "bluetooth_uuid \<Rightarrow> bool \<Rightarrow> bytes" where
  "uuid_to_bytes u force_128 = (if force_128 then expanded_le_bytes u else uuid_bytes_le u)"

definition uuid_eq :: "bluetooth_uuid \<Rightarrow> bluetooth_uuid \<Rightarrow> bool" where
  "uuid_eq u v \<longleftrightarrow> expanded_le_bytes u = expanded_le_bytes v"

section \<open>Bonds\<close>

record classic_bond =
  bond_link_key :: bytes
  bond_link_key_type :: u8
  bond_authenticated :: bool

definition bond_new :: "bytes \<Rightarrow> u8 \<Rightarrow> bool \<Rightarrow> classic_bond" where
  "bond_new link_key link_key_type authenticated =
     \<lparr>bond_link_key = link_key, bond_link_key_type = link_key_type, bond_authenticated = authenticated\<rparr>"

definition bond_from_slice :: "bytes \<Rightarrow> u8 \<Rightarrow> bool \<Rightarrow> (classic_bond, value_error) result" where
  "bond_from_slice link_key link_key_type authenticated =
     (if length link_key = 16 then Inr (bond_new link_key link_key_type authenticated)
      else Inl (InvalidLinkKeyLength (length link_key)))"

section \<open>Lemmas\<close>

definition address_wf :: "bluetooth_address \<Rightarrow> bool" where
  "address_wf a \<longleftrightarrow> length (addr_bytes_le a) = 6"

definition uuid_wf :: "bluetooth_uuid \<Rightarrow> bool" where
  "uuid_wf u \<longleftrightarrow> length (uuid_bytes_le u) \<in> {2, 4, 16}"

lemma nat_less_16: "n < 16 \<Longrightarrow> n \<in> {0, 1, 2, 3, 4, 5, 6, 7, 8, 9, 10, 11, 12, 13, 14, 15 :: nat}"
  by (auto simp: numeral_eq_Suc less_Suc_eq)

lemma hex_char_facts:
  assumes "n < 16"
  shows "hex_digit (hex_char n) = Some n" "hex_char n \<noteq> CHR ''+''" "hex_char n \<noteq> CHR '':''"
    "hex_char n \<noteq> CHR ''P''" "(of_char (hex_char n) :: nat) < 128"
  using nat_less_16 [OF assms] by (auto simp: hex_char_def hex_digit_def)

lemma hex_byte_parses:
  "\<exists>p q. hex_byte b = [p, q] \<and> utf8_pair p q \<and> u8_from_hex [p, q] = Some b
     \<and> p \<noteq> CHR '':'' \<and> q \<noteq> CHR '':'' \<and> q \<noteq> CHR ''P''"
proof -
  have n: "unat b div 16 < 16" "unat b mod 16 < 16" using unat_u8_less [of b] by simp_all
  have "16 * (unat b div 16) + unat b mod 16 = unat b" by simp
  then show ?thesis
    using hex_char_facts [OF n(1)] hex_char_facts [OF n(2)] unat_u8_less [of b]
    by (simp add: hex_byte_def utf8_pair_def u8_from_hex_def)
qed

lemma split_on_word: "d \<notin> set w \<Longrightarrow> split_on d (w @ d # s) = w # split_on d s"
  by (induction w) auto

lemma split_on_single: "d \<notin> set w \<Longrightarrow> split_on d w = [w]"
  by (induction w) auto

lemma split_join_colons:
  "ws \<noteq> [] \<Longrightarrow> \<forall>w \<in> set ws. CHR '':'' \<notin> set w \<Longrightarrow> split_on (CHR '':'') (join_colons ws) = ws"
  by (induction ws rule: join_colons.induct) (simp_all add: split_on_word split_on_single)

lemma length_hex_byte [simp]: "length (hex_byte b) = 2"
  by (simp add: hex_byte_def)

lemma hex_byte_no_colon: "CHR '':'' \<notin> set (hex_byte b)"
  using hex_byte_parses [of b] by auto

lemma parse_octets_hex: "parse_octets (pairs_exact (concat (map hex_byte bs))) = Inr bs"
proof (induction bs)
  case (Cons b bs)
  then show ?case using hex_byte_parses [of b] by auto
qed simp

lemma length_join_hex: "length (join_colons (map hex_byte bs)) = 3 * length bs - 1"
proof (induction bs rule: induct_list012)
  case (3 x y zs)
  then show ?case by simp
qed simp_all

lemma join_hex_last:
  "bs \<noteq> [] \<Longrightarrow> last (join_colons (map hex_byte bs)) = last (hex_byte (last bs))"
proof (induction bs rule: induct_list012)
  case (3 x y zs)
  have "join_colons (map hex_byte (y # zs)) \<noteq> []"
    using length_join_hex [of "y # zs"] by auto
  with 3 show ?case by simp
qed simp_all

lemma strip_suffix_append [simp]: "strip_suffix suf (s @ suf) = Some s"
  by (simp add: strip_suffix_def)

lemma strip_suffix_last: "suf \<noteq> [] \<Longrightarrow> s \<noteq> [] \<Longrightarrow> last s \<noteq> last suf \<Longrightarrow> strip_suffix suf s = None"
  unfolding strip_suffix_def by (metis last_drop diff_less_mono2 length_greater_0_conv drop_all
      linorder_not_less)

lemma address_text:
  assumes "address_wf a"
  shows "strip_suffix ''/P'' (address_display a) = (if addr_kind a = Public
      then Some (join_colons (map hex_byte (rev (addr_bytes_le a)))) else None)"
proof (cases "addr_kind a")
  case Public
  then show ?thesis by (simp add: address_display_def)
next
  case Random
  let ?bs = "rev (addr_bytes_le a)"
  have ne: "?bs \<noteq> []" using assms by (auto simp: address_wf_def)
  then have "last (join_colons (map hex_byte ?bs)) \<noteq> CHR ''P''"
    using join_hex_last [OF ne] hex_byte_parses [of "last ?bs"] by auto
  moreover have "join_colons (map hex_byte ?bs) \<noteq> []"
    using length_join_hex [of ?bs] assms by (auto simp: address_wf_def)
  ultimately have "strip_suffix ''/P'' (join_colons (map hex_byte ?bs)) = None"
    by (intro strip_suffix_last) simp_all
  with Random show ?thesis by (simp add: address_display_def)
qed

lemma address_display_parse:
  assumes "address_wf a"
  shows "address_parse (address_display a) (addr_kind a) = Inr a"
proof -
  let ?bs = "rev (addr_bytes_le a)" and ?t = "join_colons (map hex_byte (rev (addr_bytes_le a)))"
  have bs: "length ?bs = 6" using assms by (simp add: address_wf_def)
  then have len: "length ?t = 17" using length_join_hex [of ?bs] by simp
  have "map hex_byte ?bs \<noteq> []" using bs by auto
  then have split: "split_on (CHR '':'') ?t = map hex_byte ?bs"
    by (rule split_join_colons) (simp add: hex_byte_no_colon)
  have shown: "(case strip_suffix ''/P'' (address_display a) of Some v \<Rightarrow> (v, Public)
      | None \<Rightarrow> (address_display a, addr_kind a)) = (?t, addr_kind a)"
    using address_text [OF assms] by (cases "addr_kind a") (simp_all add: address_display_def)
  have "list_ex (\<lambda>octet. length octet \<noteq> 2) (map hex_byte ?bs) = False"
    by (simp add: list_ex_iff)
  with len split bs show ?thesis
    unfolding address_parse_def shown
    by (simp add: compact_digits_def parse_octets_hex Let_def del: rev_map)
qed

text \<open>What a pair of characters is worth as an octet: a plus sign and a digit are worth the digit, two digits the number
  they write.\<close>

definition octet_value :: "char \<Rightarrow> char \<Rightarrow> u8 option" where
  "octet_value p q = (case hex_digit q of None \<Rightarrow> None | Some lo \<Rightarrow>
     if p = CHR ''+'' then Some (of_nat lo) else map_option (\<lambda>hi. of_nat (16 * hi + lo)) (hex_digit p))"

lemma hex_digit_char:
  "hex_digit c = Some n \<Longrightarrow> n < 16 \<and> c \<noteq> CHR ''+'' \<and> c \<noteq> CHR '':'' \<and> c \<noteq> CHR ''P'' \<and> (of_char c :: nat) < 128"
  by (auto simp: hex_digit_def Let_def split: if_splits)

lemma u8_from_hex_pair: "u8_from_hex [p, q] = octet_value p q"
  by (auto simp: u8_from_hex_def octet_value_def split: option.split dest!: hex_digit_char)

lemma octet_value_chars:
  "octet_value p q = Some b \<Longrightarrow> utf8_pair p q \<and> p \<noteq> CHR '':'' \<and> q \<noteq> CHR '':'' \<and> q \<noteq> CHR ''P''"
  by (auto simp: octet_value_def utf8_pair_def split: option.splits if_splits dest!: hex_digit_char)

lemma parse_octets_iff: "parse_octets ps = Inr bs \<longleftrightarrow> map (\<lambda>(p, q). octet_value p q) ps = map Some bs"
proof (induction ps arbitrary: bs)
  case (Cons c ps)
  obtain p q where "c = (p, q)" by fastforce
  with Cons show ?case
    using octet_value_chars [of p q] by (cases bs) (auto simp: u8_from_hex_pair res_bind_eq_Inr split: option.splits)
qed auto

definition pair_texts :: "(char \<times> char) list \<Rightarrow> string list" where
  "pair_texts ps = map (\<lambda>(p, q). [p, q]) ps"

lemma pairs_concat: "pairs_exact (concat (pair_texts ps)) = ps"
  by (induction ps) (auto simp: pair_texts_def)

lemma concat_pairs: "even (length v) \<Longrightarrow> concat (pair_texts (pairs_exact v)) = v"
  by (induction v rule: pairs_exact.induct) (auto simp: pair_texts_def)

lemma texts_of_pairs: "list_all (\<lambda>w. length w = 2) ws \<Longrightarrow> pair_texts (pairs_exact (concat ws)) = ws"
proof (induction ws)
  case (Cons w ws)
  then obtain p q where "w = [p, q]" by (auto simp: length_Suc_conv numeral_2_eq_2)
  with Cons show ?case by (simp add: pair_texts_def)
qed (simp add: pair_texts_def)

lemma split_on_not_Nil [simp]: "split_on d s \<noteq> []"
  by (induction s) (auto split: list.splits)

lemma join_colons_Cons: "ws \<noteq> [] \<Longrightarrow> join_colons (w # ws) = w @ '':'' @ join_colons ws"
  by (cases ws) simp_all

lemma join_split_colons: "join_colons (split_on (CHR '':'') s) = s"
proof (induction s)
  case (Cons c s)
  obtain w ws where ws: "split_on (CHR '':'') s = w # ws" by (cases "split_on (CHR '':'') s") auto
  with Cons show ?case by (cases ws) (auto simp: join_colons_Cons)
qed simp

lemma text_no_colon:
  assumes "map (\<lambda>(p, q). octet_value p q) octets = map Some bs"
  shows "\<forall>w \<in> set (pair_texts octets). CHR '':'' \<notin> set w"
proof
  fix w
  assume "w \<in> set (pair_texts octets)"
  then obtain p q where pq: "(p, q) \<in> set octets" "w = [p, q]" by (auto simp: pair_texts_def)
  then have "octet_value p q \<in> set (map Some bs)" unfolding assms [symmetric] by force
  then show "CHR '':'' \<notin> set w" using octet_value_chars [of p q] pq(2) by auto
qed

lemma text_not_qualified:
  assumes "map (\<lambda>(p, q). octet_value p q) octets = map Some bs" "octets \<noteq> []" "last v = last (last (pair_texts octets))" "v \<noteq> []"
  shows "strip_suffix ''/P'' v = None"
proof -
  obtain p q where pq: "last octets = (p, q)" by fastforce
  then have "last v = q" using assms(2,3) by (simp add: pair_texts_def last_map)
  moreover from pq assms(2) have "octet_value p q \<in> set (map Some bs)"
    unfolding assms(1) [symmetric] by (metis (mono_tags, lifting) case_prod_conv image_eqI last_in_set list.set_map)
  then have "q \<noteq> CHR ''P''" using octet_value_chars [of p q] by auto
  ultimately show ?thesis using assms(4) by (intro strip_suffix_last) simp_all
qed

text \<open>The two spellings of six octets.\<close>

definition spells :: "string \<Rightarrow> (char \<times> char) list \<Rightarrow> bool" where
  "spells v octets \<longleftrightarrow> v = concat (pair_texts octets) \<or> v = join_colons (pair_texts octets)"

lemma compact_spelt:
  assumes "compact_digits v = Inr digits"
  shows "length (pairs_exact digits) = 6 \<and> spells v (pairs_exact digits)"
proof -
  have len: "length (pairs_exact d) = length d div 2" for d :: string
    by (induction d rule: pairs_exact.induct) auto
  show ?thesis
  proof (cases "length v = 12 \<and> CHR '':'' \<notin> set v")
    case True
    with assms have "digits = v" by (simp add: compact_digits_def)
    with True show ?thesis by (simp add: len spells_def concat_pairs)
  next
    case False
    let ?ws = "split_on (CHR '':'') v"
    from False assms have "length ?ws = 6" and two: "\<not> list_ex (\<lambda>w. length w \<noteq> 2) ?ws" and d: "digits = concat ?ws"
      by (simp_all only: compact_digits_def Let_def if_False split: if_splits) simp_all
    moreover from two have "list_all (\<lambda>w. length w = 2) ?ws" by (simp add: list_ex_iff list_all_iff)
    then have texts: "pair_texts (pairs_exact digits) = ?ws" unfolding d by (rule texts_of_pairs)
    ultimately have "length (pairs_exact digits) = 6" by (metis length_map pair_texts_def)
    with texts show ?thesis by (simp add: spells_def join_split_colons)
  qed
qed

lemma spelt_compact:
  assumes "length octets = 6" "spells v octets" "map (\<lambda>(p, q). octet_value p q) octets = map Some bs"
  shows "compact_digits v = Inr (concat (pair_texts octets))"
proof -
  note colon = text_no_colon [OF assms(3)]
  have two: "\<forall>w \<in> set (pair_texts octets). length w = 2" by (auto simp: pair_texts_def)
  have six: "length (pair_texts octets) = 6" using assms(1) by (simp add: pair_texts_def)
  show ?thesis
  proof (cases "v = concat (pair_texts octets)")
    case True
    have "length (concat ws) = 2 * length ws" if "\<forall>w \<in> set ws. length w = 2" for ws :: "string list"
      using that by (induction ws) auto
    then have "length v = 12" using True two six by simp
    moreover have "CHR '':'' \<notin> set v" using True colon by auto
    ultimately show ?thesis using True by (simp add: compact_digits_def)
  next
    case False
    then have v: "v = join_colons (pair_texts octets)" using assms(2) by (simp add: spells_def)
    have "length (join_colons ws) = 3 * length ws - 1" if "\<forall>w \<in> set ws. length w = 2" for ws
      using that by (induction ws rule: join_colons.induct) auto
    then have "length v = 17" using v six two by simp
    moreover have "split_on (CHR '':'') v = pair_texts octets"
      unfolding v using six colon by (intro split_join_colons) auto
    ultimately show ?thesis using six two by (auto simp: compact_digits_def list_ex_iff)
  qed
qed

lemma spelt_unqualified:
  assumes "length octets = 6" "spells v octets" "map (\<lambda>(p, q). octet_value p q) octets = map Some bs"
  shows "strip_suffix ''/P'' v = None"
proof (rule text_not_qualified [OF assms(3)])
  have "pair_texts octets \<noteq> []" "\<forall>w \<in> set (pair_texts octets). w \<noteq> []" using assms(1) by (auto simp: pair_texts_def)
  moreover have "last (concat ws) = last (last ws) \<and> concat ws \<noteq> []" "last (join_colons ws) = last (last ws) \<and> join_colons ws \<noteq> []"
    if "ws \<noteq> []" "\<forall>w \<in> set ws. w \<noteq> []" for ws
    using that by (induction ws rule: join_colons.induct) auto
  ultimately show "last v = last (last (pair_texts octets))" "v \<noteq> []" using assms(2) unfolding spells_def by metis+
qed (use assms(1) in auto)

lemma address_parse_body:
  "(\<exists>digits. compact_digits v = Inr digits \<and> parse_octets (pairs_exact digits) = Inr bs)
    \<longleftrightarrow> (\<exists>octets. length octets = 6 \<and> spells v octets \<and> map (\<lambda>(p, q). octet_value p q) octets = map Some bs)"
  using compact_spelt [of v] spelt_compact [of _ v bs] by (auto simp: parse_octets_iff pairs_concat)

lemma address_parse_eq:
  "address_parse input default_kind = Inr a \<longleftrightarrow>
    (\<exists>octets v. length octets = 6 \<and> spells v octets \<and> map (\<lambda>(p, q). octet_value p q) octets = map Some (rev (addr_bytes_le a))
      \<and> (input = v @ ''/P'' \<and> addr_kind a = Public \<or> input = v \<and> addr_kind a = default_kind))"
proof -
  have body: "res_bind (compact_digits v) (\<lambda>digits. res_bind (parse_octets (pairs_exact digits)) (\<lambda>octets.
      Inr \<lparr>addr_bytes_le = rev octets, addr_kind = kind\<rparr>)) = Inr a \<longleftrightarrow>
    (\<exists>octets. length octets = 6 \<and> spells v octets \<and> map (\<lambda>(p, q). octet_value p q) octets = map Some (rev (addr_bytes_le a)))
    \<and> addr_kind a = kind" for v kind
    unfolding address_parse_body [symmetric] by (cases a) (auto simp: res_bind_eq_Inr)
  show ?thesis
  proof (cases "strip_suffix ''/P'' input")
    case None
    then have "input \<noteq> v @ ''/P''" for v by auto
    with None show ?thesis by (auto simp: address_parse_def body)
  next
    case (Some v)
    then have input: "input = v @ ''/P''"
      by (metis append_take_drop_id option.distinct(1) option.inject strip_suffix_def)
    with Some spelt_unqualified [of _ input "rev (addr_bytes_le a)"] show ?thesis by (auto simp: address_parse_def body)
  qed
qed

lemma uuid_expanded_length: "uuid_wf u \<Longrightarrow> length (expanded_le_bytes u) = 16"
  by (auto simp: uuid_wf_def expanded_le_bytes_def BASE_UUID_LE_def)

section \<open>Properties\<close>

text \<open>
  an address survives its text form. Parsing what an address displays as gives the address back,
  its qualifier included, for all six-byte addresses.
\<close>

theorem address_roundtrip: "address_wf a \<Longrightarrow> address_parse (address_display a) (addr_kind a) = Inr a"
  by (rule address_display_parse)

theorem address_roundtrip_witness:
  "address_parse (address_display \<lparr>addr_bytes_le = [0x5A, 1, 2, 3, 0xC0, 0xFE], addr_kind = Random\<rparr>) Random
     = Inr \<lparr>addr_bytes_le = [0x5A, 1, 2, 3, 0xC0, 0xFE], addr_kind = Random\<rparr>"
  using address_roundtrip [of "\<lparr>addr_bytes_le = [0x5A, 1, 2, 3, 0xC0, 0xFE], addr_kind = Random\<rparr>"]
  by (simp add: address_wf_def)

text \<open>
  C40: exactly which texts denote an address. The parser accepts a text if and only if it is the six octets of the
  address in big-endian order, run together or separated by colons, followed by the qualifier of a public
  address or by nothing, where an octet is two hexadecimal digits or, other than the documentation says, a plus sign and one
  digit. An octet with a plus sign is worth the same as one with a leading zero, so with each of its octets below sixteen an
  address has a further spelling that its display form never shows.
\<close>

theorem address_accepts_sign:
  "(address_parse input default_kind = Inr a \<longleftrightarrow>
      (\<exists>octets v. length octets = 6 \<and> spells v octets
        \<and> map (\<lambda>(p, q). octet_value p q) octets = map Some (rev (addr_bytes_le a))
        \<and> (input = v @ ''/P'' \<and> addr_kind a = Public \<or> input = v \<and> addr_kind a = default_kind)))
   \<and> octet_value (CHR ''+'') q = octet_value (CHR ''0'') q"
  by (simp add: address_parse_eq octet_value_def hex_digit_def split: option.split)

text \<open>
  UUID equality is equality of the 128-bit expansions. A 16-bit UUID equals its 32-bit and 128-bit
  forms, the expansion has 16 bytes and is a fixed point, and two 16-bit UUIDs are equal only when
  their values are.
\<close>

theorem uuid_expansion:
  "uuid_eq (uuid_from_u16 v) \<lparr>uuid_bytes_le = le16_bytes v @ [0, 0]\<rparr>
   \<and> uuid_eq (uuid_from_u16 v) \<lparr>uuid_bytes_le = expanded_le_bytes (uuid_from_u16 v)\<rparr>
   \<and> length (expanded_le_bytes (uuid_from_u16 v)) = 16
   \<and> (uuid_eq (uuid_from_u16 v) (uuid_from_u16 w) \<longleftrightarrow> v = w)"
  by (auto simp: uuid_eq_def uuid_from_u16_def expanded_le_bytes_def BASE_UUID_LE_def)

end
