(* ===== verification/Classic_Host.thy ===== *)
theory Classic_Host
  imports Hci L2cap_Channel Values
begin

text \<open>
  The Classic host of \<^verbatim>\<open>src/src/classic_host.rs\<close>: the credit-based flow control of outgoing ACL packets,
  the reaction to HCI events (connection, pairing, encryption, completed packets, disconnection) and
  the path of channel data between the channel manager and ACL packets.

  The bond store is a trait the application implements (\<^verbatim>\<open>BondStore\<close> of \<^verbatim>\<open>src/src/api.rs\<close>): the model
  takes its methods as a record of functions over an arbitrary store state.
\<close>

section \<open>Events, outputs and errors\<close>

abbreviation (input) HCI_ACCEPT_CONNECTION_REQUEST :: u16 where "HCI_ACCEPT_CONNECTION_REQUEST \<equiv> 0x0409"
abbreviation (input) HCI_LINK_KEY_REQUEST_REPLY :: u16 where "HCI_LINK_KEY_REQUEST_REPLY \<equiv> 0x040B"
abbreviation (input) HCI_LINK_KEY_REQUEST_NEGATIVE_REPLY :: u16
  where "HCI_LINK_KEY_REQUEST_NEGATIVE_REPLY \<equiv> 0x040C"
abbreviation (input) HCI_AUTHENTICATION_REQUESTED :: u16 where "HCI_AUTHENTICATION_REQUESTED \<equiv> 0x0411"
abbreviation (input) HCI_SET_CONNECTION_ENCRYPTION :: u16 where "HCI_SET_CONNECTION_ENCRYPTION \<equiv> 0x0413"
abbreviation (input) HCI_IO_CAPABILITY_REQUEST_REPLY :: u16
  where "HCI_IO_CAPABILITY_REQUEST_REPLY \<equiv> 0x042B"
abbreviation (input) HCI_USER_CONFIRMATION_REQUEST_REPLY :: u16
  where "HCI_USER_CONFIRMATION_REQUEST_REPLY \<equiv> 0x042C"
abbreviation (input) HCI_ROLE_PERIPHERAL :: u8 where "HCI_ROLE_PERIPHERAL \<equiv> 0x01"
abbreviation (input) HCI_IO_CAPABILITY_NO_INPUT_NO_OUTPUT :: u8
  where "HCI_IO_CAPABILITY_NO_INPUT_NO_OUTPUT \<equiv> 0x03"
abbreviation (input) HCI_AUTHENTICATION_REQUIREMENTS_DEDICATED_BONDING_NO_MITM :: u8
  where "HCI_AUTHENTICATION_REQUIREMENTS_DEDICATED_BONDING_NO_MITM \<equiv> 0x02"

datatype bond_store_error = LoadFailed | ListFailed | UpsertFailed

record 's bond_store =
  select_local_address :: "bluetooth_address \<Rightarrow> ('s, unit, bond_store_error) action"
  bs_load :: "'s \<Rightarrow> bluetooth_address \<Rightarrow> (classic_bond option, bond_store_error) result"
  bs_load_all :: "'s \<Rightarrow> ((bluetooth_address \<times> classic_bond) list, bond_store_error) result"
  bs_upsert :: "bluetooth_address \<Rightarrow> classic_bond \<Rightarrow> ('s, unit, bond_store_error) action"

datatype classic_event =
    ConnectionRequested bluetooth_address
  | ConnectionComplete u8 u16 bluetooth_address
  | LinkKeyRequest bluetooth_address
  | LinkKeyNotification bluetooth_address bytes u8
  | IoCapabilityRequest bluetooth_address
  | UserConfirmationRequest bluetooth_address
  | AuthenticationComplete u8 u16
  | EncryptionChange u8 u16 bool
  | NumberOfCompletedPackets u16 u16
  | DisconnectionComplete u16 u8

datatype session_event =
    Connected bluetooth_address u16
  | BondStored bluetooth_address
  | Encrypted bluetooth_address
  | ChannelOpened u32 u16
  | Disconnected bluetooth_address u8

datatype host_output = OutCommand command_packet | OutAcl acl_packet | OutEvent session_event

text \<open>The last constructor stands for the panics of the \<^verbatim>\<open>expect\<close> calls.\<close>

datatype host_error =
    BondStoreFailed bond_store_error
  | HostCodec codec_error
  | HostL2cap l2cap_error
  | NoConnection
  | ConnectionHandleMismatch u16 u16
  | PeerMismatch bluetooth_address bluetooth_address
  | AclCreditUnderflow u16 u16
  | HostPanic string

record connection =
  cn_peer :: bluetooth_address
  cn_handle :: u16
  cn_encrypted :: bool
  cn_channels :: channel_manager

section \<open>ACL flow control\<close>

record acl_flow =
  fl_payload_size :: nat
  fl_total_packets :: u16
  fl_in_flight :: "(u16, u16) btree"
  fl_queued :: "acl_packet list"

definition flow_new :: "nat \<Rightarrow> u16 \<Rightarrow> acl_flow" where
  "flow_new payload_size total_packets = \<lparr>fl_payload_size = payload_size,
     fl_total_packets = total_packets, fl_in_flight = [], fl_queued = []\<rparr>"

text \<open>\<^verbatim>\<open>values().copied().sum()\<close> at \<^verbatim>\<open>u16\<close>, wrapping as the release build does.\<close>

definition in_flight_total :: "(u16, u16) btree \<Rightarrow> u16" where
  "in_flight_total in_flight = sum_list (map snd in_flight)"

definition enqueue :: "acl_packet list \<Rightarrow> acl_flow \<Rightarrow> acl_flow" where
  "enqueue packets f = f\<lparr>fl_queued := fl_queued f @ packets\<rparr>"

definition or_default :: "u16 option \<Rightarrow> u16" where
  "or_default v = (case v of None \<Rightarrow> 0 | Some n \<Rightarrow> n)"

fun flush_loop ::
  "u16 \<Rightarrow> (u16, u16) btree \<Rightarrow> acl_packet list \<Rightarrow> host_output list
   \<Rightarrow> (u16, u16) btree \<times> acl_packet list \<times> host_output list" where
  "flush_loop total_packets in_flight [] out = (in_flight, [], out)"
| "flush_loop total_packets in_flight (packet # queued) out =
     (if in_flight_total in_flight < total_packets then
        let h = acl_connection_handle packet in
        flush_loop total_packets (bt_insert h (or_default (bt_get in_flight h) + 1) in_flight) queued
          (out @ [OutAcl packet])
      else (in_flight, packet # queued, out))"

definition flow_flush :: "acl_flow \<Rightarrow> host_output list \<Rightarrow> acl_flow \<times> host_output list" where
  "flow_flush f out =
     (let (in_flight, queued, out') = flush_loop (fl_total_packets f) (fl_in_flight f) (fl_queued f) out in
      (f\<lparr>fl_in_flight := in_flight, fl_queued := queued\<rparr>, out'))"

definition complete :: "u16 \<Rightarrow> u16 \<Rightarrow> (acl_flow, unit, host_error) action" where
  "complete connection_handle completed f =
     (let in_flight = or_default (bt_get (fl_in_flight f) connection_handle) in
      if completed > in_flight then (Inl (AclCreditUnderflow in_flight completed), f)
      else let remaining = in_flight - completed in
        (Inr (), f\<lparr>fl_in_flight :=
           (if remaining = 0 then bt_remove connection_handle (fl_in_flight f)
            else bt_insert connection_handle remaining (fl_in_flight f))\<rparr>))"

definition flow_clear_handle :: "u16 \<Rightarrow> acl_flow \<Rightarrow> acl_flow" where
  "flow_clear_handle connection_handle f =
     f\<lparr>fl_in_flight := bt_remove connection_handle (fl_in_flight f),
       fl_queued := filter (\<lambda>p. acl_connection_handle p \<noteq> connection_handle) (fl_queued f)\<rparr>"

section \<open>The host\<close>

record 's classic_host =
  ho_bonds :: 's
  ho_connection :: "connection option"
  ho_pending_peer :: "bluetooth_address option"
  ho_servers :: "(u32, classic_channel_spec) btree"
  ho_acl_assembler :: acl_assembler
  ho_acl_flow :: acl_flow
  ho_output :: "host_output list"

type_synonym ('s, 'a) host_action = "('s classic_host, 'a, host_error) action"

definition host_new :: "'s \<Rightarrow> nat \<Rightarrow> u16 \<Rightarrow> 's classic_host" where
  "host_new bonds acl_payload_size total_acl_packets = \<lparr>ho_bonds = bonds, ho_connection = None,
     ho_pending_peer = None, ho_servers = [], ho_acl_assembler = assembler_default,
     ho_acl_flow = flow_new acl_payload_size total_acl_packets, ho_output = []\<rparr>"

definition push_output :: "host_output \<Rightarrow> 's classic_host \<Rightarrow> 's classic_host" where
  "push_output out h = h\<lparr>ho_output := ho_output h @ [out]\<rparr>"

definition queue_command :: "u16 \<Rightarrow> bytes \<Rightarrow> ('s, unit) host_action" where
  "queue_command opcode parameters h =
     (case command_new opcode parameters of
        Inl err \<Rightarrow> (Inl (HostCodec err), h)
      | Inr c \<Rightarrow> (Inr (), push_output (OutCommand c) h))"

definition connection_handle :: "'s classic_host \<Rightarrow> (u16, host_error) result" where
  "connection_handle h = ok_or NoConnection (map_option cn_handle (ho_connection h))"

definition ensure_handle :: "u16 \<Rightarrow> 's classic_host \<Rightarrow> (unit, host_error) result" where
  "ensure_handle actual h =
     res_bind (connection_handle h) (\<lambda>expected.
     if actual = expected then Inr () else Inl (ConnectionHandleMismatch expected actual))"

definition connection_mut :: "u16 \<Rightarrow> 's classic_host \<Rightarrow> (connection, host_error) result" where
  "connection_mut actual h =
     res_bind (ensure_handle actual h) (\<lambda>_. ok_or NoConnection (ho_connection h))"

text \<open>An operation of the channel manager of the current connection.\<close>

definition put_channels :: "channel_manager \<Rightarrow> 's classic_host \<Rightarrow> 's classic_host" where
  "put_channels m h = h\<lparr>ho_connection := map_option (\<lambda>c. c\<lparr>cn_channels := m\<rparr>) (ho_connection h)\<rparr>"

definition on_channels :: "'a manager_action \<Rightarrow> ('s, 'a) host_action" where
  "on_channels op h =
     (case ho_connection h of
        None \<Rightarrow> (Inl NoConnection, h)
      | Some c \<Rightarrow> let (r, m) = op (cn_channels c) in (map_err HostL2cap r, put_channels m h))"

definition host_register_server :: "u32 \<Rightarrow> classic_channel_spec \<Rightarrow> ('s, unit) host_action" where
  "host_register_server psm spec h =
     (let (r, h') = (case ho_connection h of
            None \<Rightarrow> (Inr psm, h) | Some _ \<Rightarrow> on_channels (register_server (Some psm) spec) h) in
      case r of
        Inl err \<Rightarrow> (Inl err, h')
      | Inr _ \<Rightarrow> (Inr (), h'\<lparr>ho_servers := bt_insert psm spec (ho_servers h')\<rparr>))"

text \<open>
  The loop that drains the accepted channels; \<open>None\<close> stands for the panic of its \<^verbatim>\<open>expect\<close> on a channel
  that is no longer registered.
\<close>

fun opened_channels :: "channel_manager \<Rightarrow> u16 list \<Rightarrow> (u32 \<times> u16) list option" where
  "opened_channels m [] = Some []"
| "opened_channels m (cid # cids) = (case channel m cid of
     None \<Rightarrow> None
   | Some c \<Rightarrow> map_option (\<lambda>r. (ch_psm c, cid) # r) (opened_channels m cids))"

fun enqueue_pdus :: "u16 \<Rightarrow> l2cap_pdu list \<Rightarrow> (acl_flow, unit, codec_error) action" where
  "enqueue_pdus handle [] f = (Inr (), f)"
| "enqueue_pdus handle (pdu # pdus) f =
     (case fragment_l2cap_pdu handle 0 (fl_payload_size f) (pdu_to_bytes pdu False) False of
        Inl err \<Rightarrow> (Inl err, f)
      | Inr packets \<Rightarrow> enqueue_pdus handle pdus (enqueue packets f))"

definition flush_channels :: "('s, unit) host_action" where
  "flush_channels h =
     (case ho_connection h of
        None \<Rightarrow> (Inl NoConnection, h)
      | Some c \<Rightarrow>
          let m = cn_channels c;
              pdus = cm_outbound m;
              h1 = put_channels (m\<lparr>cm_outbound := [], cm_accepted_channels := []\<rparr>) h in
          (case opened_channels m (cm_accepted_channels m) of
             None \<Rightarrow> (Inl (HostPanic ''accepted channel remains registered''), h1)
           | Some opened \<Rightarrow>
               let (r, flow) = enqueue_pdus (cn_handle c) pdus (ho_acl_flow h1) in
               (case r of
                  Inl err \<Rightarrow> (Inl (HostCodec err), h1\<lparr>ho_acl_flow := flow\<rparr>)
                | Inr _ \<Rightarrow>
                    let (flow', out) = flow_flush flow (ho_output h1) in
                    (Inr (), h1\<lparr>ho_acl_flow := flow',
                       ho_output := out @ map (\<lambda>(psm, cid). OutEvent (ChannelOpened psm cid)) opened\<rparr>))))"

definition process_acl :: "acl_packet \<Rightarrow> ('s, unit) host_action" where
  "process_acl packet h =
     (case connection_handle h of
        Inl err \<Rightarrow> (Inl err, h)
      | Inr handle \<Rightarrow>
          if acl_connection_handle packet \<noteq> handle
          then (Inl (ConnectionHandleMismatch handle (acl_connection_handle packet)), h)
          else let (r, asm) = feed packet (ho_acl_assembler h);
                   h1 = h\<lparr>ho_acl_assembler := asm\<rparr> in
            (case r of
               Inl err \<Rightarrow> (Inl (HostCodec err), h1)
             | Inr None \<Rightarrow> (Inr (), h1)
             | Inr (Some b) \<Rightarrow>
                 (case pdu_from_bytes b of
                    Inl err \<Rightarrow> (Inl (HostL2cap err), h1)
                  | Inr pdu \<Rightarrow>
                      if ho_connection h1 = None then (Inl (HostPanic ''connection handle was checked''), h1)
                      else act_then (on_channels (process_pdu pdu)) flush_channels h1)))"

definition send_channel_sdu :: "u16 \<Rightarrow> bytes \<Rightarrow> ('s, unit) host_action" where
  "send_channel_sdu source_cid sdu = act_then (on_channels (channel_send source_cid sdu)) flush_channels"

definition connect_channel :: "u32 \<Rightarrow> classic_channel_spec \<Rightarrow> ('s, u16) host_action" where
  "connect_channel psm spec =
     act_bind (on_channels (connect psm spec)) (\<lambda>source_cid.
     act_then flush_channels (act_ok source_cid))"

definition channel_info :: "'s classic_host \<Rightarrow> u16 \<Rightarrow> (u32 \<times> u16 \<times> bool) option" where
  "channel_info h source_cid =
     Option.bind (ho_connection h) (\<lambda>c.
     map_option (\<lambda>ch. (ch_psm ch, ch_peer_mtu ch, ch_state ch = Open)) (channel (cn_channels c) source_cid))"

definition channel_output_is_flushed :: "'s classic_host \<Rightarrow> bool" where
  "channel_output_is_flushed h \<longleftrightarrow> fl_queued (ho_acl_flow h) = []"

definition interrupt_send_capacity_available :: "'s classic_host \<Rightarrow> bool" where
  "interrupt_send_capacity_available h \<longleftrightarrow>
     fl_queued (ho_acl_flow h) = []
     \<and> in_flight_total (fl_in_flight (ho_acl_flow h)) < fl_total_packets (ho_acl_flow h)"

definition take_channel_sdu :: "u16 \<Rightarrow> 's classic_host \<Rightarrow> bytes option \<times> 's classic_host" where
  "take_channel_sdu source_cid h =
     (case ho_connection h of
        None \<Rightarrow> (None, h)
      | Some c \<Rightarrow> let (b, m) = manager_pop_received source_cid (cn_channels c) in (b, put_channels m h))"

definition pop_output :: "'s classic_host \<Rightarrow> host_output option \<times> 's classic_host" where
  "pop_output h = (case ho_output h of
       [] \<Rightarrow> (None, h) | out # rest \<Rightarrow> (Some out, h\<lparr>ho_output := rest\<rparr>))"

section \<open>Events\<close>

definition register_all :: "(u32, classic_channel_spec) btree \<Rightarrow> (channel_manager, unit, l2cap_error) action" where
  "register_all = act_each (\<lambda>(psm, spec). act_then (register_server (Some psm) spec) (act_ok ()))"

definition accept_connection :: "u16 \<Rightarrow> bluetooth_address \<Rightarrow> ('s, unit) host_action" where
  "accept_connection handle peer h =
     (case register_all (ho_servers h) manager_new of
        (Inl err, _) \<Rightarrow> (Inl (HostL2cap err), h)
      | (Inr _, channels) \<Rightarrow>
          queue_command HCI_AUTHENTICATION_REQUESTED (le16_bytes handle)
            (push_output (OutEvent (Connected peer handle))
              (h\<lparr>ho_pending_peer := None, ho_connection := Some \<lparr>cn_peer = peer, cn_handle = handle,
                 cn_encrypted = False, cn_channels = channels\<rparr>\<rparr>)))"

definition on_disconnection_complete :: "u16 \<Rightarrow> u8 \<Rightarrow> ('s, unit) host_action" where
  "on_disconnection_complete handle reason h =
     (case connection_mut handle h of
        Inl err \<Rightarrow> (Inl err, h)
      | Inr c \<Rightarrow> (Inr (), push_output (OutEvent (Disconnected (cn_peer c) reason))
          (h\<lparr>ho_acl_flow := flow_clear_handle handle (ho_acl_flow h),
             ho_acl_assembler := clear_handle handle (ho_acl_assembler h),
             ho_output := filter (\<lambda>out. \<not> (case out of
               OutAcl packet \<Rightarrow> acl_connection_handle packet = handle | _ \<Rightarrow> False)) (ho_output h),
             ho_connection := None\<rparr>)))"

fun handle_event :: "'s bond_store \<Rightarrow> classic_event \<Rightarrow> ('s, unit) host_action" where
  "handle_event store (ConnectionRequested peer) h =
     queue_command HCI_ACCEPT_CONNECTION_REQUEST (addr_bytes_le peer @ [HCI_ROLE_PERIPHERAL])
       (h\<lparr>ho_pending_peer := Some peer\<rparr>)"
| "handle_event store (ConnectionComplete status handle peer) h =
     (if status = 0 then
        (case ho_pending_peer h of
           Some expected \<Rightarrow>
             if peer \<noteq> expected then (Inl (PeerMismatch expected peer), h)
             else accept_connection handle peer h
         | None \<Rightarrow> accept_connection handle peer h)
      else (Inr (), h\<lparr>ho_pending_peer := None\<rparr>))"
| "handle_event store (LinkKeyRequest peer) h =
     (case bs_load store (ho_bonds h) peer of
        Inl err \<Rightarrow> (Inl (BondStoreFailed err), h)
      | Inr (Some bond) \<Rightarrow>
          queue_command HCI_LINK_KEY_REQUEST_REPLY (addr_bytes_le peer @ bond_link_key bond) h
      | Inr None \<Rightarrow> queue_command HCI_LINK_KEY_REQUEST_NEGATIVE_REPLY (addr_bytes_le peer) h)"
| "handle_event store (LinkKeyNotification peer link_key link_key_type) h =
     (let authenticated = link_key_type \<in> {0x05, 0x08};
          (r, bonds) = bs_upsert store peer (bond_new link_key link_key_type authenticated) (ho_bonds h);
          h1 = h\<lparr>ho_bonds := bonds\<rparr> in
      case r of
        Inl err \<Rightarrow> (Inl (BondStoreFailed err), h1)
      | Inr _ \<Rightarrow> (Inr (), push_output (OutEvent (BondStored peer)) h1))"
| "handle_event store (IoCapabilityRequest peer) h =
     queue_command HCI_IO_CAPABILITY_REQUEST_REPLY
       (addr_bytes_le peer @ [HCI_IO_CAPABILITY_NO_INPUT_NO_OUTPUT, 0,
          HCI_AUTHENTICATION_REQUIREMENTS_DEDICATED_BONDING_NO_MITM]) h"
| "handle_event store (UserConfirmationRequest peer) h =
     queue_command HCI_USER_CONFIRMATION_REQUEST_REPLY (addr_bytes_le peer) h"
| "handle_event store (AuthenticationComplete status handle) h =
     (if status = 0 then
        (case ensure_handle handle h of
           Inl err \<Rightarrow> (Inl err, h)
         | Inr _ \<Rightarrow> queue_command HCI_SET_CONNECTION_ENCRYPTION (le16_bytes handle @ [1]) h)
      else (Inr (), h))"
| "handle_event store (EncryptionChange status handle enabled) h =
     (if status = 0 \<and> enabled then
        (case connection_mut handle h of
           Inl err \<Rightarrow> (Inl err, h)
         | Inr c \<Rightarrow> (Inr (), push_output (OutEvent (Encrypted (cn_peer c)))
             (h\<lparr>ho_connection := Some (c\<lparr>cn_encrypted := True\<rparr>)\<rparr>)))
      else (Inr (), h))"
| "handle_event store (NumberOfCompletedPackets handle completed) h =
     (case complete handle completed (ho_acl_flow h) of
        (Inl err, flow) \<Rightarrow> (Inl err, h\<lparr>ho_acl_flow := flow\<rparr>)
      | (Inr _, flow) \<Rightarrow>
          let (flow', out) = flow_flush flow (ho_output h) in
          (Inr (), h\<lparr>ho_acl_flow := flow', ho_output := out\<rparr>))"
| "handle_event store (DisconnectionComplete handle reason) h = on_disconnection_complete handle reason h"

section \<open>Lemmas: credits\<close>

definition credits :: "(u16, u16) btree \<Rightarrow> nat" where
  "credits m = sum_list (map (unat \<circ> snd) m)"

definition outstanding :: "(u16, u16) btree \<Rightarrow> u16 \<Rightarrow> nat" where
  "outstanding m handle = unat (or_default (bt_get m handle))"

definition credits_inv :: "u16 \<Rightarrow> (u16, u16) btree \<Rightarrow> bool" where
  "credits_inv limit m \<longleftrightarrow> bt_ok m \<and> (\<forall>(h, n) \<in> set m. n \<noteq> 0) \<and> credits m \<le> unat limit"

lemma or_default_simps [simp]: "or_default None = 0" "or_default (Some n) = n"
  by (simp_all add: or_default_def)

lemma credits_simps [simp]: "credits [] = 0" "credits (e # m) = unat (snd e) + credits m"
  by (simp_all add: credits_def)

lemma in_flight_total_exact: "credits m < 65536 \<Longrightarrow> unat (in_flight_total m) = credits m"
proof (induction m)
  case (Cons e m)
  then have "unat (in_flight_total m) = credits m" by simp
  with Cons.prems show ?case
    by (simp add: in_flight_total_def unat_word_ariths)
qed (simp add: in_flight_total_def)

lemma outstanding_Cons: "outstanding ((k, v) # m) h = (if h = k then unat v else outstanding m h)"
  by (simp add: outstanding_def bt_get_def)

lemma outstanding_insert: "bt_ok m \<Longrightarrow> outstanding (bt_insert h v m) k = (if k = h then unat v else outstanding m k)"
  by (simp add: outstanding_def)

lemma outstanding_remove: "outstanding (bt_remove h m) k = (if k = h then 0 else outstanding m k)"
  by (simp add: outstanding_def)

lemma outstanding_absent: "h \<notin> fst ` set m \<Longrightarrow> outstanding m h = 0"
  by (simp add: outstanding_def bt_get_notin)

lemma credits_insert: "bt_ok m \<Longrightarrow> credits (bt_insert h v m) + outstanding m h = credits m + unat v"
proof (induction m)
  case (Cons e m)
  then have "h < fst e \<Longrightarrow> outstanding (e # m) h = 0"
    by (intro outstanding_absent) force
  with Cons show ?case
    by (cases e) (auto simp: outstanding_Cons)
qed (simp add: outstanding_absent)

lemma credits_remove: "bt_ok m \<Longrightarrow> credits (bt_remove h m) + outstanding m h = credits m"
proof (induction m)
  case (Cons e m)
  then have absent: "h = fst e \<Longrightarrow> h \<notin> fst ` set m" by force
  then have "h = fst e \<Longrightarrow> bt_remove h m = m"
    unfolding bt_remove_def by (intro filter_True ballI) (metis image_eqI)
  with Cons show ?case
    by (cases e) (auto simp: outstanding_Cons bt_remove_def)
qed (simp add: bt_remove_def outstanding_absent)

lemma outstanding_le: "bt_ok m \<Longrightarrow> outstanding m h \<le> credits m"
  using credits_remove [of m h] by simp

lemma credits_inv_limit: "credits_inv limit m \<Longrightarrow> unat (in_flight_total m) = credits m"
  using unat_u16_less [of limit] by (intro in_flight_total_exact) (simp add: credits_inv_def)

lemma credits_inv_remove: "credits_inv limit m \<Longrightarrow> credits_inv limit (bt_remove h m)"
  using credits_remove [of m h] bt_ok_remove [of m h]
  by (auto simp: credits_inv_def) (auto simp: bt_remove_def)

lemma credits_inv_insert:
  assumes "credits_inv limit m" "v \<noteq> 0" "credits m + unat v \<le> unat limit + outstanding m h"
  shows "credits_inv limit (bt_insert h v m)"
  using assms credits_insert [of m h v] by (auto simp: credits_inv_def bt_set_insert)

text \<open>Granting one credit: it fits below the limit, so nothing wraps.\<close>

lemma grant_credit:
  fixes h :: u16
  assumes "credits_inv limit m" "credits m < unat limit"
  defines "m' \<equiv> bt_insert h (or_default (bt_get m h) + 1) m"
  shows "credits_inv limit m'" "credits m' = Suc (credits m)"
    "outstanding m' k = outstanding m k + (if k = h then 1 else 0)"
proof -
  let ?v = "or_default (bt_get m h) + 1"
  from assms have ok: "bt_ok m" by (simp add: credits_inv_def)
  have v: "unat ?v = outstanding m h + 1"
    using assms outstanding_le [OF ok, of h] unat_u16_less [of limit]
    by (simp add: outstanding_def unat_word_ariths)
  then have nz: "?v \<noteq> 0" by (metis add_is_0 one_neq_zero unat_0)
  then show "credits_inv limit m'"
    unfolding m'_def using assms v by (intro credits_inv_insert) simp_all
  show "credits m' = Suc (credits m)"
    using credits_insert [OF ok, of h ?v] v by (simp add: m'_def)
  show "outstanding m' k = outstanding m k + (if k = h then 1 else 0)"
    using v by (simp add: m'_def outstanding_insert ok)
qed

definition count_handle :: "u16 \<Rightarrow> acl_packet list \<Rightarrow> nat" where
  "count_handle h ps = length (filter (\<lambda>p. acl_connection_handle p = h) ps)"

lemma flush_loop_spec:
  fixes q :: "acl_packet list"
  assumes "credits_inv limit m"
  defines "n \<equiv> min (length q) (unat limit - credits m)"
  shows "case flush_loop limit m q out of (m', q', out') \<Rightarrow>
    q' = drop n q \<and> out' = out @ map OutAcl (take n q) \<and> credits_inv limit m'
    \<and> credits m' = credits m + n
    \<and> (\<forall>h. outstanding m' h = outstanding m h + count_handle h (take n q))"
  unfolding n_def using assms(1)
proof (induction q arbitrary: m out)
  case (Cons p q)
  let ?h = "acl_connection_handle p"
  let ?m = "bt_insert ?h (or_default (bt_get m ?h) + 1) m"
  show ?case
  proof (cases "credits m < unat limit")
    case True
    then have "in_flight_total m < limit"
      using credits_inv_limit [OF Cons.prems] by (simp add: word_less_nat_alt)
    moreover have "min (length (p # q)) (unat limit - credits m)
        = Suc (min (length q) (unat limit - Suc (credits m)))" using True by (auto simp: min_def)
    moreover note grant_credit [OF Cons.prems True, of ?h]
    moreover note Cons.IH [of ?m "out @ [OutAcl p]"]
    ultimately show ?thesis by (auto simp: Let_def count_handle_def split: prod.splits)
  next
    case False
    then have "\<not> in_flight_total m < limit"
      using credits_inv_limit [OF Cons.prems] by (simp add: word_less_nat_alt)
    with False Cons.prems show ?thesis by (simp add: count_handle_def)
  qed
qed (simp add: count_handle_def)

definition flow_inv :: "acl_flow \<Rightarrow> bool" where
  "flow_inv f \<longleftrightarrow> credits_inv (fl_total_packets f) (fl_in_flight f) \<and> list_all acl_wf (fl_queued f)"

definition room :: "acl_flow \<Rightarrow> nat" where
  "room f = min (length (fl_queued f)) (unat (fl_total_packets f) - credits (fl_in_flight f))"

lemma flow_flush_spec:
  assumes "credits_inv (fl_total_packets f) (fl_in_flight f)"
  shows "snd (flow_flush f out) = out @ map OutAcl (take (room f) (fl_queued f))"
    and "fl_queued (fst (flow_flush f out)) = drop (room f) (fl_queued f)"
    and "credits (fl_in_flight (fst (flow_flush f out))) = credits (fl_in_flight f) + room f"
    and "outstanding (fl_in_flight (fst (flow_flush f out))) h
      = outstanding (fl_in_flight f) h + count_handle h (take (room f) (fl_queued f))"
    and "credits_inv (fl_total_packets f) (fl_in_flight (fst (flow_flush f out)))"
    and "fl_total_packets (fst (flow_flush f out)) = fl_total_packets f"
    and "fl_payload_size (fst (flow_flush f out)) = fl_payload_size f"
  using flush_loop_spec [OF assms, of "fl_queued f" out]
  by (simp_all add: flow_flush_def room_def split_beta)

lemma flow_inv_flush: "flow_inv f \<Longrightarrow> flow_inv (fst (flow_flush f out))"
  by (simp add: flow_inv_def flow_flush_spec list_all_iff) (meson in_set_dropD)

lemma complete_spec:
  assumes "flow_inv f"
  shows "fst (complete handle n f) =
      (if unat n \<le> outstanding (fl_in_flight f) handle then Inr ()
       else Inl (AclCreditUnderflow (of_nat (outstanding (fl_in_flight f) handle)) n))"
    and "unat n \<le> outstanding (fl_in_flight f) handle \<Longrightarrow>
      outstanding (fl_in_flight (snd (complete handle n f))) h
        = outstanding (fl_in_flight f) h - (if h = handle then unat n else 0)"
    and "outstanding (fl_in_flight f) handle < unat n \<Longrightarrow> snd (complete handle n f) = f"
    and "flow_inv (snd (complete handle n f))"
    and "fl_queued (snd (complete handle n f)) = fl_queued f"
    and "fl_total_packets (snd (complete handle n f)) = fl_total_packets f"
proof -
  let ?c = "or_default (bt_get (fl_in_flight f) handle)"
  have ok: "bt_ok (fl_in_flight f)" using assms by (simp add: flow_inv_def credits_inv_def)
  have out: "outstanding (fl_in_flight f) handle = unat ?c" by (simp add: outstanding_def)
  have le: "n > ?c \<longleftrightarrow> \<not> unat n \<le> unat ?c" by (simp add: word_less_nat_alt not_le)
  have sub: "unat n \<le> unat ?c \<Longrightarrow> unat (?c - n) = unat ?c - unat n"
    by (simp add: unat_sub word_le_nat_alt)
  show "fst (complete handle n f) =
      (if unat n \<le> outstanding (fl_in_flight f) handle then Inr ()
       else Inl (AclCreditUnderflow (of_nat (outstanding (fl_in_flight f) handle)) n))"
    unfolding complete_def out Let_def le by simp
  show "outstanding (fl_in_flight f) handle < unat n \<Longrightarrow> snd (complete handle n f) = f"
    unfolding complete_def out Let_def le by simp
  show "unat n \<le> outstanding (fl_in_flight f) handle \<Longrightarrow>
      outstanding (fl_in_flight (snd (complete handle n f))) h
        = outstanding (fl_in_flight f) h - (if h = handle then unat n else 0)"
    unfolding complete_def out Let_def le using sub ok
    by (auto simp: outstanding_insert outstanding_remove out)
  show "fl_queued (snd (complete handle n f)) = fl_queued f"
    "fl_total_packets (snd (complete handle n f)) = fl_total_packets f"
    by (simp_all add: complete_def Let_def)
  show "flow_inv (snd (complete handle n f))"
  proof (cases "n > ?c \<or> ?c - n = 0")
    case True
    then show ?thesis using assms credits_inv_remove by (auto simp: complete_def flow_inv_def Let_def)
  next
    case False
    then have "credits_inv (fl_total_packets f) (bt_insert handle (?c - n) (fl_in_flight f))"
      using assms sub le out by (intro credits_inv_insert) (auto simp: flow_inv_def credits_inv_def)
    with False assms show ?thesis by (simp add: complete_def flow_inv_def Let_def)
  qed
qed

lemma flow_inv_clear: "flow_inv f \<Longrightarrow> flow_inv (flow_clear_handle h f)"
  by (auto simp: flow_inv_def flow_clear_handle_def credits_inv_remove list_all_iff)

lemma collected_all:
  assumes "collect_results (map f xs) = Inr ys" "\<And>x y. f x = Inr y \<Longrightarrow> P y"
  shows "list_all P ys"
proof -
  have "list_all2 (\<lambda>x y. f x = Inr y) xs ys" using assms(1) by (simp add: collect_results_Inr_iff)
  then show ?thesis by induction (use assms(2) in simp_all)
qed

lemma fragments_wf:
  assumes "fragment_l2cap_pdu h bf sz pdu flushable = Inr ps"
  shows "list_all (\<lambda>p. acl_wf p \<and> acl_connection_handle p = h) ps"
proof -
  obtain f where ps: "collect_results (map f (enumerate 0 (chunks sz pdu))) = Inr ps"
    and f: "\<And>x. f x = acl_new h (if fst x = 0 then if flushable then 2 else 0 else 1) bf (snd x)"
    using assms by (auto simp: fragment_l2cap_pdu_def Let_def split_beta split: if_splits)
  from ps show ?thesis by (rule collected_all) (auto simp: f acl_new_eq)
qed

lemma flow_inv_enqueue: "flow_inv f \<Longrightarrow> list_all acl_wf ps \<Longrightarrow> flow_inv (enqueue ps f)"
  by (simp add: flow_inv_def enqueue_def)

lemma enqueue_pdus_inv: "flow_inv f \<Longrightarrow> flow_inv (snd (enqueue_pdus handle pdus f))"
proof (induction pdus arbitrary: f)
  case (Cons pdu pdus)
  have "list_all acl_wf ps" if "fragment_l2cap_pdu handle 0 sz b False = Inr ps" for ps sz b
    using fragments_wf [OF that] by (simp add: list_all_iff)
  with Cons show ?case by (auto split: sum.split intro!: Cons.IH flow_inv_enqueue)
qed simp

section \<open>Lemmas: the host invariant\<close>

definition output_wf :: "host_output \<Rightarrow> bool" where
  "output_wf out = (case out of OutCommand c \<Rightarrow> command_wf c | OutAcl p \<Rightarrow> acl_wf p | OutEvent _ \<Rightarrow> True)"

definition host_inv :: "'s classic_host \<Rightarrow> bool" where
  "host_inv h \<longleftrightarrow> flow_inv (ho_acl_flow h) \<and> assembler_inv (ho_acl_assembler h)
     \<and> (\<forall>c. ho_connection h = Some c \<longrightarrow> manager_inv (cn_channels c))
     \<and> bt_ok (ho_servers h) \<and> list_all output_wf (ho_output h)"

text \<open>An action keeps the invariant and does not panic.\<close>

definition safe_action :: "('s, 'a) host_action \<Rightarrow> bool" where
  "safe_action a \<longleftrightarrow> (\<forall>h. host_inv h \<longrightarrow> host_inv (snd (a h)) \<and> (\<forall>msg. fst (a h) \<noteq> Inl (HostPanic msg)))"

lemma safe_actionD:
  "safe_action a \<Longrightarrow> host_inv h \<Longrightarrow> host_inv (snd (a h))"
  "safe_action a \<Longrightarrow> host_inv h \<Longrightarrow> fst (a h) \<noteq> Inl (HostPanic msg)"
  by (auto simp: safe_action_def)

lemma safe_then: "safe_action a \<Longrightarrow> safe_action b \<Longrightarrow> safe_action (act_then a b)"
  unfolding safe_action_def act_then_def act_bind_def by (fastforce split: prod.splits sum.splits)

lemma safe_bind: "safe_action a \<Longrightarrow> (\<And>x. safe_action (f x)) \<Longrightarrow> safe_action (act_bind a f)"
  unfolding safe_action_def act_bind_def by (fastforce split: prod.splits sum.splits)

lemma safe_ok: "safe_action (act_ok x)"
  by (simp add: safe_action_def)

lemma queue_command_safe: "safe_action (queue_command opcode ps)"
  by (auto simp: safe_action_def queue_command_def command_new_def validate_u8_length_def
      host_inv_def push_output_def output_wf_def command_wf_def split: sum.splits)

lemma on_channels_safe: "sound_step op \<Longrightarrow> safe_action (on_channels op)"
  by (auto simp: safe_action_def on_channels_def put_channels_def host_inv_def map_err_def split_beta
      dest: sound_stepD(1) split: option.split sum.splits)

lemma opened_channels_Some:
  "\<forall>cid \<in> set cids. channel m cid \<noteq> None \<Longrightarrow> \<exists>opened. opened_channels m cids = Some opened"
  by (induction cids) auto

lemma flushed_manager_inv:
  "manager_inv m \<Longrightarrow> manager_inv (m\<lparr>cm_outbound := [], cm_accepted_channels := []\<rparr>)"
  by (simp add: manager_inv_def channel_def)

lemma flushed_output_wf:
  assumes "flow_inv f" "list_all output_wf out"
  shows "list_all output_wf (snd (flow_flush f out))"
  using assms by (auto simp: flow_flush_spec(1) flow_inv_def list_all_iff output_wf_def dest: in_set_takeD)

lemma flush_channels_safe: "safe_action flush_channels"
  unfolding safe_action_def
proof (intro allI impI)
  fix h :: "'s classic_host" assume inv: "host_inv h"
  show "host_inv (snd (flush_channels h)) \<and> (\<forall>msg. fst (flush_channels h) \<noteq> Inl (HostPanic msg))"
  proof (cases "ho_connection h")
    case None
    with inv show ?thesis by (simp add: flush_channels_def)
  next
    case (Some c)
    let ?m = "cn_channels c"
    from inv Some have m: "manager_inv ?m" by (simp add: host_inv_def)
    then obtain opened where opened: "opened_channels ?m (cm_accepted_channels ?m) = Some opened"
      using opened_channels_Some [of "cm_accepted_channels ?m" ?m] by (auto simp: manager_inv_def)
    let ?h = "put_channels (?m\<lparr>cm_outbound := [], cm_accepted_channels := []\<rparr>) h"
    have h: "host_inv ?h"
      using inv Some flushed_manager_inv [OF m] by (simp add: host_inv_def put_channels_def)
    obtain r flow where enq: "enqueue_pdus (cn_handle c) (cm_outbound ?m) (ho_acl_flow ?h) = (r, flow)"
      by fastforce
    have flow: "flow_inv flow"
      using enqueue_pdus_inv [of "ho_acl_flow ?h" "cn_handle c" "cm_outbound ?m"] enq h
      by (simp add: host_inv_def)
    then have "list_all output_wf (snd (flow_flush flow (ho_output ?h)))"
      using h by (simp add: flushed_output_wf host_inv_def)
    with h flow flow_inv_flush [OF flow] show ?thesis
      unfolding flush_channels_def Some using opened enq
      by (auto simp: Let_def split_beta host_inv_def list_all_iff output_wf_def split: sum.split)
  qed
qed

lemma process_acl_safe: "safe_action (process_acl p)"
  unfolding safe_action_def
proof (intro allI impI)
  fix h :: "'s classic_host" assume inv: "host_inv h"
  let ?h = "h\<lparr>ho_acl_assembler := snd (feed p (ho_acl_assembler h))\<rparr>"
  have h: "host_inv ?h" using inv by (simp add: host_inv_def assembler_inv_feed)
  have "safe_action (act_then (on_channels (process_pdu pdu)) flush_channels)" for pdu
    by (intro safe_then on_channels_safe process_pdu_sound flush_channels_safe)
  then have "host_inv (snd (act_then (on_channels (process_pdu pdu)) flush_channels ?h))"
    "fst (act_then (on_channels (process_pdu pdu)) flush_channels ?h) \<noteq> Inl (HostPanic msg)" for pdu msg
    using h unfolding safe_action_def by blast+
  with inv h show "host_inv (snd (process_acl p h)) \<and> (\<forall>msg. fst (process_acl p h) \<noteq> Inl (HostPanic msg))"
    by (auto simp: process_acl_def connection_handle_def ok_or_def Let_def split_beta
        split: sum.split option.split)
qed

lemma send_channel_sdu_safe: "safe_action (send_channel_sdu cid sdu)"
  unfolding send_channel_sdu_def
  by (intro safe_then on_channels_safe channel_send_sound flush_channels_safe)

lemma connect_channel_safe: "safe_action (connect_channel psm spec)"
  unfolding connect_channel_def
  by (intro safe_bind safe_then on_channels_safe connect_sound flush_channels_safe safe_ok)

lemma host_register_server_safe: "safe_action (host_register_server psm spec)"
  unfolding safe_action_def
proof (intro allI impI)
  fix h :: "'s classic_host" assume inv: "host_inv h"
  let ?a = "on_channels (register_server (Some psm) spec) h"
  have a: "host_inv (snd ?a) \<and> (\<forall>msg. fst ?a \<noteq> Inl (HostPanic msg))"
    using on_channels_safe [OF register_server_sound] inv by (auto simp: safe_action_def)
  then have "host_inv ((snd ?a)\<lparr>ho_servers := bt_insert psm spec (ho_servers (snd ?a))\<rparr>)"
    by (simp add: host_inv_def)
  with a inv show "host_inv (snd (host_register_server psm spec h))
      \<and> (\<forall>msg. fst (host_register_server psm spec h) \<noteq> Inl (HostPanic msg))"
    by (cases "ho_connection h")
      (auto simp: host_register_server_def split_beta Let_def host_inv_def split: sum.split)
qed

lemma register_all_inv: "manager_inv (snd (register_all servers manager_new))"
proof -
  have "sound_step (act_then (register_server (Some psm) spec) (act_ok ()))" for psm spec
    using sound_step_lift [of "Inr ()"] by (intro sound_step_then register_server_sound)
      (simp add: sound_step_def)
  then have "sound_step (register_all servers)"
    unfolding register_all_def by (intro sound_step_each) (simp add: split_beta)
  then show ?thesis using manager_new_inv by (simp add: sound_step_def)
qed

lemma host_inv_push: "host_inv h \<Longrightarrow> output_wf out \<Longrightarrow> host_inv (push_output out h)"
  by (simp add: host_inv_def push_output_def)

lemma accept_connection_safe: "safe_action (accept_connection handle peer)"
  unfolding safe_action_def
proof (intro allI impI)
  fix h :: "'s classic_host" assume inv: "host_inv h"
  obtain r m where reg: "register_all (ho_servers h) manager_new = (r, m)" by fastforce
  let ?h = "push_output (OutEvent (Connected peer handle)) (h\<lparr>ho_pending_peer := None,
    ho_connection := Some \<lparr>cn_peer = peer, cn_handle = handle, cn_encrypted = False, cn_channels = m\<rparr>\<rparr>)"
  have "host_inv ?h"
    using inv register_all_inv [of "ho_servers h"] reg
    by (intro host_inv_push) (simp_all add: host_inv_def output_wf_def)
  then have "host_inv (snd (queue_command 0x0411 (le16_bytes handle) ?h))
      \<and> (\<forall>msg. fst (queue_command 0x0411 (le16_bytes handle) ?h) \<noteq> Inl (HostPanic msg))"
    using queue_command_safe unfolding safe_action_def by blast
  with inv reg show "host_inv (snd (accept_connection handle peer h))
      \<and> (\<forall>msg. fst (accept_connection handle peer h) \<noteq> Inl (HostPanic msg))"
    by (simp add: accept_connection_def split: sum.split)
qed

lemma disconnection_safe: "safe_action (on_disconnection_complete handle reason)"
  by (auto simp: safe_action_def on_disconnection_complete_def connection_mut_def ensure_handle_def
      connection_handle_def ok_or_def host_inv_def push_output_def output_wf_def flow_inv_clear
      assembler_inv_clear list_all_iff split: sum.split option.split)

lemma host_inv_pending [simp]: "host_inv (h\<lparr>ho_pending_peer := p\<rparr>) = host_inv h"
  by (simp add: host_inv_def)

lemma completed_safe: "safe_action (handle_event store (NumberOfCompletedPackets handle n))"
  unfolding safe_action_def
proof (intro allI impI)
  fix h :: "'a classic_host"
  assume inv: "host_inv h"
  obtain r f where c: "complete handle n (ho_acl_flow h) = (r, f)" by fastforce
  then have "flow_inv f" "r = Inr () \<or> r = Inl (AclCreditUnderflow (of_nat
      (outstanding (fl_in_flight (ho_acl_flow h)) handle)) n)"
    using complete_spec(1,4) [of "ho_acl_flow h" handle n] inv by (auto simp: host_inv_def split: if_splits)
  with inv c show "host_inv (snd (handle_event store (NumberOfCompletedPackets handle n) h))
      \<and> (\<forall>msg. fst (handle_event store (NumberOfCompletedPackets handle n) h) \<noteq> Inl (HostPanic msg))"
    using flow_inv_flush [of f "ho_output h"] flushed_output_wf [of f "ho_output h"]
    by (auto simp: host_inv_def split_beta)
qed

lemma handle_event_safe: "safe_action (handle_event store ev)"
proof (cases ev)
  case (ConnectionRequested peer)
  then show ?thesis
    by (simp add: safe_action_def safe_actionD [OF queue_command_safe])
next
  case (ConnectionComplete status handle peer)
  then show ?thesis
    using accept_connection_safe [of handle peer]
    by (auto simp: safe_action_def split: option.split)
next
  case (LinkKeyRequest peer)
  then show ?thesis
    using queue_command_safe by (auto simp: safe_action_def split: sum.split option.split)
next
  case (LinkKeyNotification peer key type)
  then show ?thesis
    by (auto simp: safe_action_def Let_def split_beta host_inv_def push_output_def output_wf_def
        split: sum.split)
next
  case (AuthenticationComplete status handle)
  then show ?thesis
    using queue_command_safe by (auto simp: safe_action_def ensure_handle_def connection_handle_def
        ok_or_def split: sum.split option.split)
next
  case (EncryptionChange status handle enabled)
  then show ?thesis
    by (auto simp: safe_action_def connection_mut_def ensure_handle_def connection_handle_def ok_or_def
        host_inv_def push_output_def output_wf_def split: sum.split option.split)
next
  case (NumberOfCompletedPackets handle n)
  then show ?thesis using completed_safe by simp
qed (use queue_command_safe disconnection_safe in \<open>simp_all add: safe_action_def\<close>)

datatype host_op =
    HostEvent classic_event
  | HostAcl acl_packet
  | HostSend u16 bytes
  | HostConnect u32 classic_channel_spec
  | HostRegister u32 classic_channel_spec
  | HostTake u16
  | HostPop

text \<open>One call of the session into the host: its result, values dropped, and the host after it.\<close>

fun host_call :: "'s bond_store \<Rightarrow> host_op \<Rightarrow> ('s, unit) host_action" where
  "host_call store (HostEvent ev) h = handle_event store ev h"
| "host_call store (HostAcl p) h = process_acl p h"
| "host_call store (HostSend cid sdu) h = send_channel_sdu cid sdu h"
| "host_call store (HostConnect psm spec) h = act_then (connect_channel psm spec) (act_ok ()) h"
| "host_call store (HostRegister psm spec) h = host_register_server psm spec h"
| "host_call store (HostTake cid) h = (Inr (), snd (take_channel_sdu cid h))"
| "host_call store HostPop h = (Inr (), snd (pop_output h))"

definition host_step :: "'s bond_store \<Rightarrow> 's classic_host \<Rightarrow> host_op \<Rightarrow> 's classic_host" where
  "host_step store h op = snd (host_call store op h)"

lemma take_channel_sdu_inv: "host_inv h \<Longrightarrow> host_inv (snd (take_channel_sdu cid h))"
  by (auto simp: take_channel_sdu_def split_beta host_inv_def put_channels_def pop_received_keeps
      split: option.split)

lemma pop_output_inv: "host_inv h \<Longrightarrow> host_inv (snd (pop_output h))"
  by (auto simp: pop_output_def host_inv_def split: list.split)

lemma host_call_safe: "safe_action (host_call store op)"
proof (cases op)
  case (HostConnect psm spec)
  then have "safe_action (act_then (connect_channel psm spec) (act_ok ()))"
    by (intro safe_then connect_channel_safe safe_ok)
  with HostConnect show ?thesis by (simp add: safe_action_def)
qed (use handle_event_safe process_acl_safe send_channel_sdu_safe host_register_server_safe
      in \<open>simp_all add: safe_action_def take_channel_sdu_inv pop_output_inv\<close>)

interpretation host: panic_free_machine "\<lambda>h. \<exists>bonds sz total_packets. h = host_new bonds sz total_packets"
  "host_step store" host_inv "\<lambda>h op. host_call store op h" "\<lambda>r. \<exists>msg. r = Inl (HostPanic msg)" for store :: "'s bond_store"
proof unfold_locales
  show "\<exists>bonds sz total_packets. h = host_new bonds sz total_packets \<Longrightarrow> host_inv h" for h :: "'s classic_host"
    by (auto simp: host_new_def host_inv_def flow_new_def flow_inv_def credits_inv_def assembler_inv_def
        assembler_default_def)
  show "host_inv h \<Longrightarrow> host_inv (host_step store h op)" for h :: "'s classic_host" and op
    using host_call_safe [of store op] by (simp add: host_step_def safe_action_def)
  show "host_step store h op = snd (host_call store op h)" for h :: "'s classic_host" and op
    by (simp add: host_step_def)
  show "host_inv h \<Longrightarrow> \<not> (\<exists>msg. fst (host_call store op h) = Inl (HostPanic msg))" for h :: "'s classic_host" and op
    using host_call_safe [of store op] by (simp add: safe_action_def)
qed

text \<open>The controller's buffer sizes are fixed at construction.\<close>

definition limits :: "'s classic_host \<Rightarrow> nat \<times> u16" where
  "limits h = (fl_payload_size (ho_acl_flow h), fl_total_packets (ho_acl_flow h))"

definition flow_limits :: "acl_flow \<Rightarrow> nat \<times> u16" where
  "flow_limits f = (fl_payload_size f, fl_total_packets f)"

lemma limits_flow: "flow_limits (ho_acl_flow h) = limits h"
  by (simp add: limits_def flow_limits_def)

lemma limits_updates [simp]:
  "limits (h\<lparr>ho_bonds := a\<rparr>) = limits h" "limits (h\<lparr>ho_connection := b\<rparr>) = limits h"
  "limits (h\<lparr>ho_pending_peer := c\<rparr>) = limits h" "limits (h\<lparr>ho_servers := d\<rparr>) = limits h"
  "limits (h\<lparr>ho_acl_assembler := e\<rparr>) = limits h" "limits (h\<lparr>ho_acl_flow := f\<rparr>) = flow_limits f"
  "limits (h\<lparr>ho_output := g\<rparr>) = limits h"
  by (simp_all add: limits_def flow_limits_def)

lemma flow_limits_ops [simp]:
  "flow_limits (fst (flow_flush f out)) = flow_limits f"
  "flow_limits (snd (complete handle n f)) = flow_limits f"
  "flow_limits (flow_clear_handle handle f) = flow_limits f"
  by (simp_all add: flow_limits_def flow_flush_def complete_def flow_clear_handle_def Let_def split_beta)

lemma flow_limits_enqueue [simp]: "flow_limits (snd (enqueue_pdus handle pdus f)) = flow_limits f"
  by (induction pdus arbitrary: f) (auto simp: enqueue_def flow_limits_def split: sum.split)

lemma limits_push [simp]: "limits (push_output out h) = limits h" "limits (put_channels m h) = limits h"
  by (simp_all add: limits_def push_output_def put_channels_def)

lemma limits_command [simp]: "limits (snd (queue_command opcode ps h)) = limits h"
  by (simp add: queue_command_def split: sum.split)

lemma limits_on_channels [simp]: "limits (snd (on_channels op h)) = limits h"
  by (simp add: on_channels_def split_beta split: option.split)

lemma limits_flush_channels [simp]: "limits (snd (flush_channels h)) = limits h"
  by (auto simp: flush_channels_def Let_def split_beta limits_flow split: option.split sum.split)

lemma limits_bind:
  "(\<And>h. limits (snd (a h)) = limits h) \<Longrightarrow> (\<And>x h. limits (snd (b x h)) = limits h)
   \<Longrightarrow> limits (snd (act_bind a b h)) = limits h"
  by (cases rule: act_bind_cases [of a h b]) (auto, metis snd_conv, metis snd_conv)

lemma limits_then [simp]:
  "(\<And>h. limits (snd (a h)) = limits h) \<Longrightarrow> (\<And>h. limits (snd (b h)) = limits h)
   \<Longrightarrow> limits (snd (act_then a b h)) = limits h"
  by (simp add: act_then_def limits_bind)

lemma limits_process_acl: "limits (snd (process_acl p h)) = limits h"
  by (auto simp: process_acl_def Let_def split_beta split: sum.split option.split)

lemma limits_event: "limits (snd (handle_event store ev h)) = limits h"
proof (cases ev)
  case (NumberOfCompletedPackets handle n)
  have "flow_limits (snd (complete handle n (ho_acl_flow h))) = limits h" by (simp add: limits_flow)
  with NumberOfCompletedPackets show ?thesis
    by (cases "complete handle n (ho_acl_flow h)") (auto simp: split_beta split: sum.split)
qed (auto simp: limits_flow accept_connection_def on_disconnection_complete_def Let_def split_beta
      split: option.split sum.split)

lemma limits_step: "limits (host_step store h op) = limits h"
  unfolding host_step_def
  by (cases op) (auto simp: limits_event limits_process_acl send_channel_sdu_def connect_channel_def
      limits_bind host_register_server_def take_channel_sdu_def pop_output_def Let_def split_beta
      split: option.split sum.split list.split)

lemma limits_run: "limits (foldl (host_step store) h ops) = limits h"
  by (induction ops arbitrary: h) (simp_all add: limits_step)

section \<open>Lemmas: SDUs from host to host\<close>

definition relabel :: "u16 \<Rightarrow> acl_packet \<Rightarrow> acl_packet" where
  "relabel handle p = p\<lparr>acl_connection_handle := handle\<rparr>"

text \<open>What happens to a host when its last fragment completes the PDU \<open>d\<close>.\<close>

definition deliver :: "bytes \<Rightarrow> ('s, unit) host_action" where
  "deliver d h = (case pdu_from_bytes d of
      Inl err \<Rightarrow> (Inl (HostL2cap err), h)
    | Inr pdu \<Rightarrow> act_then (on_channels (process_pdu pdu)) flush_channels h)"

lemma process_acl_feed:
  assumes "connection_handle h = Inr handle" "acl_connection_handle p = handle"
    and "feed p (ho_acl_assembler h) = (Inr r, asm)"
  shows "process_acl p h = (case r of None \<Rightarrow> act_ok () | Some d \<Rightarrow> deliver d) (h\<lparr>ho_acl_assembler := asm\<rparr>)"
proof -
  have "ho_connection h \<noteq> None" using assms(1) by (auto simp: connection_handle_def ok_or_def split: option.splits)
  with assms show ?thesis by (auto simp: process_acl_def deliver_def Let_def split: option.split sum.split)
qed

lemma process_fragments:
  assumes "bt_ok (asm_pending (ho_acl_assembler h))" "connection_handle h = Inr handle" "ps \<noteq> []"
    and "list_all (\<lambda>p. acl_connection_handle p = handle) ps"
    and "fst (feed_all_one ps (pending_of (ho_acl_assembler h) handle))
      = replicate (length ps - 1) (Inr None) @ [Inr (Some d)]"
  shows "\<exists>asm. act_each process_acl ps h = deliver d (h\<lparr>ho_acl_assembler := asm\<rparr>)"
  using assms
proof (induction ps arbitrary: h)
  case (Cons p ps)
  obtain r asm where feed: "feed p (ho_acl_assembler h) = (r, asm)" by fastforce
  have p: "acl_connection_handle p = handle" using Cons.prems by simp
  note refines = feed_refines [OF Cons.prems(1), of p]
  let ?h = "h\<lparr>ho_acl_assembler := asm\<rparr>"
  have one: "fst (feed_one p (pending_of (ho_acl_assembler h) handle)) = r"
    "pending_of asm handle = snd (feed_one p (pending_of (ho_acl_assembler h) handle))"
    "bt_ok (asm_pending asm)"
    using refines feed p by simp_all
  show ?case
  proof (cases "ps = []")
    case True
    then have "r = Inr (Some d)" using Cons.prems(5) one by (simp add: split_beta)
    with True show ?thesis
      using process_acl_feed [OF Cons.prems(2) p] feed by auto
  next
    case False
    then have r: "r = Inr None" and rest: "fst (feed_all_one ps (pending_of asm handle))
        = replicate (length ps - 1) (Inr None) @ [Inr (Some d)]"
      using Cons.prems(5) one by (cases ps; simp add: split_beta Let_def)+
    have "\<exists>asm'. act_each process_acl ps ?h = deliver d (?h\<lparr>ho_acl_assembler := asm'\<rparr>)"
      using False Cons.prems one rest by (intro Cons.IH) (simp_all add: connection_handle_def)
    moreover have "process_acl p h = (Inr (), ?h)"
      using process_acl_feed [OF Cons.prems(2) p, of None asm] feed r by simp
    ultimately show ?thesis by (simp add: act_then_Inr)
  qed
qed simp

lemma relabel_fragments:
  assumes "handle \<le> ACL_HANDLE_MASK" "handle' \<le> ACL_HANDLE_MASK" "0 < sz" "sz \<le> 65535" "complete_pdu d"
    and "fragment_l2cap_pdu handle 0 sz d False = Inr ps"
  shows "fragment_l2cap_pdu handle' 0 sz d False = Inr (map (relabel handle') ps)"
  using assms fragment_shape [of handle 0 sz d False] fragment_shape [of handle' 0 sz d False]
  by (auto simp: relabel_def first_fragment_def continuations_def)

lemma pdu_complete: "length (pdu_payload p) \<le> 65535 \<Longrightarrow> complete_pdu (pdu_to_bytes p False)"
  by (simp add: complete_pdu_def pdu_to_bytes_def le16_bytes_def Let_def)

text \<open>Everything the host has handed out or will hand out next, in order.\<close>

definition pending_output :: "'s classic_host \<Rightarrow> host_output list" where
  "pending_output h = ho_output h @ map OutAcl (fl_queued (ho_acl_flow h))"

text \<open>A channel both ends can use in Basic mode, and a manager with nothing left to flush.\<close>

definition basic_open :: "channel_manager \<Rightarrow> u16 \<Rightarrow> classic_channel \<Rightarrow> bool" where
  "basic_open m cid c \<longleftrightarrow> channel m cid = Some c \<and> ch_state c = Open \<and> ch_ertm c = None"

definition settled :: "channel_manager \<Rightarrow> bool" where
  "settled m \<longleftrightarrow> cm_outbound m = [] \<and> cm_accepted_channels m = []"

lemma send_basic:
  assumes "ho_connection h = Some c" "basic_open (cn_channels c) cid ch" "settled (cn_channels c)"
    and "length sdu \<le> unat (ch_peer_mtu ch)" "cn_handle c \<le> ACL_HANDLE_MASK"
    and "0 < fl_payload_size (ho_acl_flow h)" "fl_payload_size (ho_acl_flow h) \<le> 65535"
    and "flow_inv (ho_acl_flow h)"
  shows "\<exists>ps. fragment_l2cap_pdu (cn_handle c) 0 (fl_payload_size (ho_acl_flow h))
        (pdu_to_bytes (pdu_new (ch_destination_cid ch) sdu) False) False = Inr ps
    \<and> fst (send_channel_sdu cid sdu h) = Inr ()
    \<and> pending_output (snd (send_channel_sdu cid sdu h)) = pending_output h @ map OutAcl ps"
proof -
  let ?pdu = "pdu_new (ch_destination_cid ch) sdu" and ?m = "cn_channels c" and ?f = "ho_acl_flow h"
  have "complete_pdu (pdu_to_bytes ?pdu False)"
    using assms(4) unat_u16_less [of "ch_peer_mtu ch"] by (intro pdu_complete) (simp add: pdu_new_def)
  then obtain ps where ps: "fragment_l2cap_pdu (cn_handle c) 0 (fl_payload_size ?f)
      (pdu_to_bytes ?pdu False) False = Inr ps"
    using fragment_shape [of "cn_handle c" 0 "fl_payload_size ?f" "pdu_to_bytes ?pdu False" False] assms
    by simp
  then have "list_all acl_wf ps" using fragments_wf [OF ps] by (simp add: list_all_iff)
  then have inv: "flow_inv (enqueue ps ?f)" using assms(8) by (rule flow_inv_enqueue [rotated])
  have send: "on_channels (channel_send cid sdu) h = (Inr (), put_channels (?m\<lparr>cm_outbound := [?pdu]\<rparr>) h)"
    using assms by (simp add: on_channels_def channel_send_def basic_open_def channel_def settled_def)
  have spec: "snd (flow_flush (enqueue ps ?f) out) @ map OutAcl (fl_queued (fst (flow_flush (enqueue ps ?f) out)))
      = out @ map OutAcl (fl_queued ?f @ ps)" for out
  proof -
    let ?n = "room (enqueue ps ?f)"
    have "snd (flow_flush (enqueue ps ?f) out)
          @ map OutAcl (fl_queued (fst (flow_flush (enqueue ps ?f) out)))
        = out @ map OutAcl (take ?n (fl_queued ?f @ ps) @ drop ?n (fl_queued ?f @ ps))"
      using inv by (simp only: flow_flush_spec flow_inv_def map_append append_assoc)
        (simp add: enqueue_def)
    then show ?thesis unfolding append_take_drop_id .
  qed
  have "flush_channels (put_channels (?m\<lparr>cm_outbound := [?pdu]\<rparr>) h)
    = (Inr (), (put_channels (?m\<lparr>cm_outbound := [], cm_accepted_channels := []\<rparr>) h)
        \<lparr>ho_acl_flow := fst (flow_flush (enqueue ps ?f) (ho_output h)),
         ho_output := snd (flow_flush (enqueue ps ?f) (ho_output h))\<rparr>)"
    using assms(1,3) ps by (simp add: flush_channels_def put_channels_def settled_def split_beta Let_def)
  then show ?thesis
    using ps send spec by (simp add: send_channel_sdu_def act_then_Inr pending_output_def)
qed

lemma deliver_basic:
  assumes "manager_inv (cn_channels c)" "ho_connection h = Some c" "basic_open (cn_channels c) cid ch"
    and "settled (cn_channels c)" "length sdu \<le> unat (ch_mtu ch)"
  shows "fst (deliver (pdu_to_bytes (pdu_new cid sdu) False) h) = Inr ()
    \<and> ho_connection (snd (deliver (pdu_to_bytes (pdu_new cid sdu) False) h))
      = Some (c\<lparr>cn_channels := put_channel cid (ch\<lparr>ch_received := ch_received ch @ [sdu]\<rparr>) (cn_channels c)\<rparr>)"
proof -
  let ?m = "put_channel cid (ch\<lparr>ch_received := ch_received ch @ [sdu]\<rparr>) (cn_channels c)"
  have len: "length sdu \<le> 65535" using assms(5) unat_u16_less [of "ch_mtu ch"] by simp
  then have pdu: "pdu_from_bytes (pdu_to_bytes (pdu_new cid sdu) False) = Inr (pdu_new cid sdu)"
    using pdu_roundtrip [of False "pdu_new cid sdu" "[]"] by (simp add: pdu_wf_def pdu_new_def)
  have "0x40 \<le> cid"
    using assms(1,3) manager_inv_channel [of "cn_channels c" cid ch] by (simp add: basic_open_def channel_ok_def)
  then have "cid \<noteq> L2CAP_SIGNALING_CID" by (auto simp: word_le_nat_alt)
  then have on: "on_channels (process_pdu (pdu_new cid sdu)) h = (Inr (), put_channels ?m h)"
    using assms by (simp add: on_channels_def process_pdu_def process_data_def pdu_new_def basic_open_def
        channel_def)
  have "?m\<lparr>cm_outbound := [], cm_accepted_channels := []\<rparr> = ?m"
    using assms(4) by (cases "cn_channels c") (simp add: put_channel_def settled_def)
  then have "fst (flush_channels (put_channels ?m h)) = Inr ()
      \<and> ho_connection (snd (flush_channels (put_channels ?m h))) = Some (c\<lparr>cn_channels := ?m\<rparr>)"
    using assms(2,4) by (simp add: flush_channels_def put_channels_def settled_def split_beta Let_def put_channel_def)
  with pdu on show ?thesis by (simp add: deliver_def act_then_Inr)
qed

section \<open>Lemmas: connection set-up\<close>

definition servers_valid :: "(u32, classic_channel_spec) btree \<Rightarrow> bool" where
  "servers_valid servers \<longleftrightarrow> bt_ok servers
     \<and> list_all (\<lambda>(psm, spec). validate_psm psm = Inr () \<and> validate_spec spec = Inr ()) servers"

lemma register_all_Cons:
  "register_all ((psm, spec) # servers) = act_then (act_then (register_server (Some psm) spec) (act_ok ()))
     (register_all servers)"
  by (simp add: register_all_def)

lemma register_server_ok:
  assumes "validate_psm psm = Inr ()" "validate_spec spec = Inr ()" "bt_get (cm_servers m) psm = None"
  shows "register_server (Some psm) spec m
    = (Inr psm, m\<lparr>cm_servers := bt_insert psm (BasicSpec spec) (cm_servers m)\<rparr>)"
  using assms by (simp add: register_server_def register_server_with_spec_def bt_contains_def)

lemma register_all_ok:
  assumes "servers_valid servers" "bt_ok (cm_servers m)"
    and "\<And>psm. psm \<in> fst ` set servers \<Longrightarrow> bt_get (cm_servers m) psm = None"
  shows "\<exists>m'. register_all servers m = (Inr (), m') \<and> (\<forall>psm. bt_get (cm_servers m') psm =
      (case bt_get servers psm of Some spec \<Rightarrow> Some (BasicSpec spec) | None \<Rightarrow> bt_get (cm_servers m) psm))"
  using assms
proof (induction servers arbitrary: m)
  case Nil
  then show ?case by (simp add: register_all_def)
next
  case (Cons e servers)
  obtain psm spec where e: "e = (psm, spec)" by fastforce
  let ?m = "m\<lparr>cm_servers := bt_insert psm (BasicSpec spec) (cm_servers m)\<rparr>"
  have head: "psm \<notin> fst ` set servers" using Cons.prems(1) e by (force simp: servers_valid_def)
  have "\<exists>m'. register_all servers ?m = (Inr (), m') \<and> (\<forall>q. bt_get (cm_servers m') q =
      (case bt_get servers q of Some spec \<Rightarrow> Some (BasicSpec spec) | None \<Rightarrow> bt_get (cm_servers ?m) q))"
    using Cons.prems e head by (intro Cons.IH) (auto simp: servers_valid_def)
  then obtain m' where m': "register_all servers ?m = (Inr (), m')" "\<And>q. bt_get (cm_servers m') q =
      (case bt_get servers q of Some spec \<Rightarrow> Some (BasicSpec spec) | None \<Rightarrow> bt_get (cm_servers ?m) q)"
    by blast
  have "register_server (Some psm) spec m = (Inr psm, ?m)"
    using Cons.prems e by (intro register_server_ok) (auto simp: servers_valid_def)
  with m' have "register_all (e # servers) m = (Inr (), m')"
    by (simp add: e register_all_Cons act_then_def act_bind_def)
  moreover have "bt_get servers psm = None" using head by (rule bt_get_notin)
  ultimately show ?case using m'(2) Cons.prems(2) by (auto simp: e bt_get_def [of "_ # _"] split: option.split)
      (auto simp: bt_get_def)
qed

lemma queue_command_ok:
  "length ps \<le> 255 \<Longrightarrow> queue_command opcode ps h
     = (Inr (), push_output (OutCommand \<lparr>cmd_opcode = opcode, cmd_parameters = ps\<rparr>) h)"
  by (simp add: queue_command_def command_new_def validate_u8_length_def)

definition reply :: "u16 \<Rightarrow> bytes \<Rightarrow> host_output" where
  "reply opcode ps = OutCommand \<lparr>cmd_opcode = opcode, cmd_parameters = ps\<rparr>"

fun handle_events :: "'s bond_store \<Rightarrow> classic_event list \<Rightarrow> ('s, unit) host_action" where
  "handle_events store [] h = (Inr (), h)"
| "handle_events store (ev # evs) h = act_then (handle_event store ev) (handle_events store evs) h"

section \<open>Properties\<close>

text \<open>
  C15: the host respects the controller's ACL buffers and never panics. Whatever the events, packets and
  calls, and whatever the bond store answers, the packets in flight never exceed the number of buffers
  the controller announced, the 16-bit sum the code forms is their exact number, no empty entry is
  kept, every packet handed to the transport is well formed, and no \<^verbatim>\<open>expect\<close> is ever reached.
\<close>

theorem host_reachable:
  "let h = foldl (host_step store) (host_new bonds sz total_packets) ops; flow = ho_acl_flow h in
     fl_total_packets flow = total_packets \<and> fl_payload_size flow = sz
     \<and> credits (fl_in_flight flow) \<le> unat total_packets
     \<and> unat (in_flight_total (fl_in_flight flow)) = credits (fl_in_flight flow)
     \<and> list_all (\<lambda>(_, n). n \<noteq> 0) (fl_in_flight flow)
     \<and> list_all output_wf (ho_output h)
     \<and> fst (host_call store op h) \<noteq> Inl (HostPanic msg)"
proof -
  let ?h = "foldl (host_step store) (host_new bonds sz total_packets) ops"
  have inv: "host_inv ?h" using host.inv_reachable [of "host_new bonds sz total_packets" store ops] by blast
  have "limits ?h = (sz, total_packets)"
    unfolding limits_run by (simp add: limits_def host_new_def flow_new_def)
  then have lim: "fl_payload_size (ho_acl_flow ?h) = sz" "fl_total_packets (ho_acl_flow ?h) = total_packets"
    by (simp_all add: limits_def)
  from inv lim have cr: "credits_inv total_packets (fl_in_flight (ho_acl_flow ?h))"
    by (simp add: host_inv_def flow_inv_def)
  moreover have "list_all output_wf (ho_output ?h)" using inv by (simp add: host_inv_def)
  moreover have "\<not> (\<exists>msg. fst (host_call store op ?h) = Inl (HostPanic msg))"
    by (rule host.never_panics) blast
  ultimately show ?thesis
    using lim credits_inv_limit [OF cr] by (simp add: Let_def credits_inv_def list_all_iff)
qed

text \<open>
  Completed packets return exactly their credits. A report of more packets than the link has in
  flight is an error that changes nothing; any other report is subtracted from that link alone, and the
  freed buffers are used at once: queued packets leave in order until the queue is empty or every
  buffer is in use, each charged to its own link.
\<close>

theorem completed_packets:
  assumes "flow_inv (ho_acl_flow h)"
  shows "let f = ho_acl_flow h; have_out = outstanding (fl_in_flight f) handle;
      (r, h') = handle_event store (NumberOfCompletedPackets handle n) h; f' = ho_acl_flow h' in
    if have_out < unat n then r = Inl (AclCreditUnderflow (of_nat have_out) n) \<and> h' = h
    else r = Inr () \<and> (\<exists>k. ho_output h' = ho_output h @ map OutAcl (take k (fl_queued f))
      \<and> fl_queued f' = drop k (fl_queued f)
      \<and> (fl_queued f' = [] \<or> credits (fl_in_flight f') = unat (fl_total_packets f))
      \<and> (\<forall>x. outstanding (fl_in_flight f') x = outstanding (fl_in_flight f) x
            - (if x = handle then unat n else 0) + count_handle x (take k (fl_queued f))))"
proof -
  let ?f = "ho_acl_flow h" and ?e = "NumberOfCompletedPackets handle n"
  obtain r g where c: "complete handle n ?f = (r, g)" by fastforce
  note spec = complete_spec [OF assms, where handle = handle and n = n]
  show ?thesis
  proof (cases "outstanding (fl_in_flight ?f) handle < unat n")
    case True
    then have "r = Inl (AclCreditUnderflow (of_nat (outstanding (fl_in_flight ?f) handle)) n)" "g = ?f"
      using spec(1,3) c by simp_all
    with c True show ?thesis by simp
  next
    case False
    then have r: "r = Inr ()" and out: "\<And>x. outstanding (fl_in_flight g) x
        = outstanding (fl_in_flight ?f) x - (if x = handle then unat n else 0)"
      and g: "credits_inv (fl_total_packets g) (fl_in_flight g)" "fl_queued g = fl_queued ?f"
        "fl_total_packets g = fl_total_packets ?f"
      using spec c by (simp_all add: flow_inv_def)
    have full: "drop (room g) (fl_queued g) = [] \<or> credits (fl_in_flight g) + room g = unat (fl_total_packets g)"
      using g(1) by (auto simp: room_def credits_inv_def min_def)
    show ?thesis
      using False c r flow_flush_spec [OF g(1), of "ho_output h"] full
      by (auto simp: Let_def split_beta out g(2,3) intro!: exI [of _ "room g"])
  qed
qed

text \<open>
  C34: a disconnection forgets the link. A report for a link that is not the current one is an error that
  changes nothing. Otherwise the connection, its credits, its queued and undelivered packets and its
  partial PDU are gone, every other link's data and all other outputs stay in order, and the last
  output reports the disconnection.
\<close>

theorem disconnection_forgets_link:
  "case ho_connection h of
     None \<Rightarrow> handle_event store (DisconnectionComplete handle reason) h = (Inl NoConnection, h)
   | Some c \<Rightarrow>
      if cn_handle c \<noteq> handle
      then handle_event store (DisconnectionComplete handle reason) h
        = (Inl (ConnectionHandleMismatch (cn_handle c) handle), h)
      else let (r, h') = handle_event store (DisconnectionComplete handle reason) h;
        f = ho_acl_flow h; f' = ho_acl_flow h' in
        r = Inr () \<and> ho_connection h' = None
        \<and> (\<forall>x. outstanding (fl_in_flight f') x = (if x = handle then 0 else outstanding (fl_in_flight f) x))
        \<and> fl_queued f' = filter (\<lambda>p. acl_connection_handle p \<noteq> handle) (fl_queued f)
        \<and> (\<forall>x. pending_of (ho_acl_assembler h') x
              = (if x = handle then None else pending_of (ho_acl_assembler h) x))
        \<and> list_all (\<lambda>out. case out of OutAcl p \<Rightarrow> acl_connection_handle p \<noteq> handle | _ \<Rightarrow> True)
              (ho_output h')
        \<and> (\<exists>kept. ho_output h' = kept @ [OutEvent (Disconnected (cn_peer c) reason)]
            \<and> filter (\<lambda>out. case out of OutAcl p \<Rightarrow> acl_connection_handle p \<noteq> handle | _ \<Rightarrow> True)
                (ho_output h) = kept)"
proof (cases "ho_connection h")
  case None
  then show ?thesis
    by (simp add: on_disconnection_complete_def connection_mut_def ensure_handle_def connection_handle_def)
next
  case (Some c)
  have drop: "(\<lambda>out. \<not> (case out of OutAcl p \<Rightarrow> acl_connection_handle p = handle | _ \<Rightarrow> False))
      = (\<lambda>out. case out of OutAcl p \<Rightarrow> acl_connection_handle p \<noteq> handle | _ \<Rightarrow> True)"
    by (rule ext) (simp split: host_output.split)
  from Some show ?thesis
    by (simp add: on_disconnection_complete_def connection_mut_def ensure_handle_def connection_handle_def
        push_output_def flow_clear_handle_def outstanding_remove clear_handle_def pending_of_def drop
        list_all_iff)
qed

text \<open>Concrete values the witnesses use.\<close>

definition peer_example :: bluetooth_address where
  "peer_example = \<lparr>addr_bytes_le = [1, 2, 3, 4, 5, 6], addr_kind = Public\<rparr>"

definition packet_example :: "u16 \<Rightarrow> u8 \<Rightarrow> acl_packet" where
  "packet_example handle b = \<lparr>acl_connection_handle = handle, acl_packet_boundary = 0,
     acl_broadcast_flag = 0, acl_data = [b]\<rparr>"

definition flow_example :: acl_flow where
  "flow_example = \<lparr>fl_payload_size = 27, fl_total_packets = 2, fl_in_flight = [(7, 2)],
     fl_queued = [packet_example 7 10, packet_example 8 11]\<rparr>"

lemma flow_example_inv: "flow_inv flow_example"
  by (simp add: flow_inv_def flow_example_def credits_inv_def packet_example_def acl_wf_def)

definition store_example :: "((bluetooth_address \<times> classic_bond) list) bond_store" where
  "store_example = \<lparr>select_local_address = (\<lambda>_. act_ok ()),
     bs_load = (\<lambda>s peer. Inr (map_of s peer)), bs_load_all = Inr,
     bs_upsert = (\<lambda>peer bond s. (Inr (), (peer, bond) # s))\<rparr>"

definition host_example :: "(bluetooth_address \<times> classic_bond) list classic_host" where
  "host_example = (host_new [] 27 2)\<lparr>ho_acl_flow := flow_example\<rparr>"

lemma host_example_fields:
  "ho_acl_flow host_example = flow_example" "ho_output host_example = []"
  "fl_queued flow_example = [packet_example 7 10, packet_example 8 11]"
  "outstanding (fl_in_flight flow_example) 7 = 2"
  by (simp_all add: host_example_def host_new_def flow_example_def outstanding_Cons)

theorem completed_packets_witness:
  "let (r, h') = handle_event store_example (NumberOfCompletedPackets 7 1) host_example in
     r = Inr () \<and> (\<exists>k. ho_output h' = map OutAcl (take k [packet_example 7 10, packet_example 8 11])
       \<and> outstanding (fl_in_flight (ho_acl_flow h')) 7
         = 1 + count_handle 7 (take k [packet_example 7 10, packet_example 8 11]))"
  using completed_packets [of host_example 7 store_example 1]
  by (auto simp: flow_example_inv host_example_fields Let_def split_beta simp del: handle_event.simps)

text \<open>
  a link key is answered with the key that was stored. For a bond store in which a successful
  upsert is what the next load of that peer returns, a link-key notification followed by a link-key
  request of the same peer is reported and then answered with exactly that key.
\<close>

theorem link_key_roundtrip:
  assumes "\<And>s b. fst (bs_upsert store peer b s) = Inr ()
      \<Longrightarrow> bs_load store (snd (bs_upsert store peer b s)) peer = Inr (Some b)"
    and "fst (bs_upsert store peer (bond_new key t (t \<in> {0x05, 0x08})) (ho_bonds h)) = Inr ()"
    and "address_wf peer" "length key = 16"
  shows "fst (handle_events store [LinkKeyNotification peer key t, LinkKeyRequest peer] h) = Inr ()
    \<and> ho_output (snd (handle_events store [LinkKeyNotification peer key t, LinkKeyRequest peer] h))
      = ho_output h @ [OutEvent (BondStored peer),
          reply HCI_LINK_KEY_REQUEST_REPLY (addr_bytes_le peer @ key)]"
  using assms(1) [OF assms(2)] assms(2-4)
  by (simp add: act_then_def act_bind_def split_beta Let_def push_output_def queue_command_ok reply_def
      address_wf_def bond_new_def)

theorem link_key_roundtrip_witness:
  "ho_output (snd (handle_events store_example [LinkKeyNotification peer_example (replicate 16 9) 5,
      LinkKeyRequest peer_example] host_example))
    = [OutEvent (BondStored peer_example),
       reply HCI_LINK_KEY_REQUEST_REPLY (addr_bytes_le peer_example @ replicate 16 9)]"
  using link_key_roundtrip [of store_example peer_example "replicate 16 9" 5 host_example]
  by (simp add: store_example_def peer_example_def address_wf_def host_example_fields
      del: handle_events.simps)

text \<open>
  the pairing of a new peer. From a host whose registered servers are valid, the events of an
  incoming connection with a peer that has no bond are answered with the accept, authentication,
  negative link-key, IO-capability, confirmation and encryption commands, in that order and with the
  parameters of the specification; the bond reaches the store, and the connection ends up encrypted
  with a channel manager that serves exactly the registered servers.
\<close>

theorem pairing_sequence:
  assumes "servers_valid (ho_servers h)" "address_wf peer" "length key = 16"
    and "bs_load store (ho_bonds h) peer = Inr None"
    and "bs_upsert store peer (bond_new key t (t \<in> {0x05, 0x08})) (ho_bonds h) = (Inr (), bonds)"
  shows "\<exists>m. handle_events store
      [ConnectionRequested peer, ConnectionComplete 0 handle peer, LinkKeyRequest peer,
       IoCapabilityRequest peer, UserConfirmationRequest peer, LinkKeyNotification peer key t,
       AuthenticationComplete 0 handle, EncryptionChange 0 handle True] h
    = (Inr (), h\<lparr>ho_bonds := bonds, ho_pending_peer := None,
        ho_connection := Some \<lparr>cn_peer = peer, cn_handle = handle, cn_encrypted = True, cn_channels = m\<rparr>,
        ho_output := ho_output h @
          [reply HCI_ACCEPT_CONNECTION_REQUEST (addr_bytes_le peer @ [HCI_ROLE_PERIPHERAL]),
           OutEvent (Connected peer handle),
           reply HCI_AUTHENTICATION_REQUESTED (le16_bytes handle),
           reply HCI_LINK_KEY_REQUEST_NEGATIVE_REPLY (addr_bytes_le peer),
           reply HCI_IO_CAPABILITY_REQUEST_REPLY (addr_bytes_le peer @ [3, 0, 2]),
           reply HCI_USER_CONFIRMATION_REQUEST_REPLY (addr_bytes_le peer),
           OutEvent (BondStored peer),
           reply HCI_SET_CONNECTION_ENCRYPTION (le16_bytes handle @ [1]),
           OutEvent (Encrypted peer)]\<rparr>)
    \<and> manager_inv m
    \<and> (\<forall>psm. bt_get (cm_servers m) psm = map_option BasicSpec (bt_get (ho_servers h) psm))"
proof -
  have "cm_servers manager_new = []" by (simp add: manager_new_def with_information_capabilities_def)
  then obtain m where m: "register_all (ho_servers h) manager_new = (Inr (), m)"
    and servers: "\<And>psm. bt_get (cm_servers m) psm = map_option BasicSpec (bt_get (ho_servers h) psm)"
    using register_all_ok [OF assms(1), of manager_new] by (fastforce split: option.splits)
  have "manager_inv m" using register_all_inv [of "ho_servers h"] m by simp
  with servers m assms show ?thesis
    by (intro exI [of _ m]) (cases h, simp add: act_then_def act_bind_def push_output_def queue_command_ok
        reply_def address_wf_def accept_connection_def ensure_handle_def connection_handle_def
        connection_mut_def)
qed

theorem pairing_sequence_witness:
  "fst (handle_events store_example
      [ConnectionRequested peer_example, ConnectionComplete 0 7 peer_example, LinkKeyRequest peer_example,
       IoCapabilityRequest peer_example, UserConfirmationRequest peer_example,
       LinkKeyNotification peer_example (replicate 16 9) 5,
       AuthenticationComplete 0 7, EncryptionChange 0 7 True] host_example) = Inr ()"
  using pairing_sequence [of host_example peer_example "replicate 16 9" store_example 5
      "[(peer_example, bond_new (replicate 16 9) 5 True)]" 7]
  by (auto simp: store_example_def peer_example_def address_wf_def host_example_def host_new_def
      servers_valid_def simp del: handle_events.simps handle_event.simps)

text \<open>
  C1: an SDU sent on one host is received on the other. When two connected hosts have an open Basic
  channel between them, sending an SDU that fits both ends succeeds and appends some ACL packets to
  the sender's output (those already queued first, whatever the credits); once these packets, under
  the receiver's own connection handle, have been processed, the receiving channel has exactly the SDU
  appended and nothing else of its manager changed. Neither the fragment size, which may cut anywhere
  after the four header bytes, nor a partial PDU left in the receiver's assembler matters.
\<close>

theorem host_sdu_transfer:
  assumes "ho_connection a = Some ca" "basic_open (cn_channels ca) cid ch" "settled (cn_channels ca)"
    and "flow_inv (ho_acl_flow a)" "cn_handle ca \<le> ACL_HANDLE_MASK"
    and "4 \<le> fl_payload_size (ho_acl_flow a)" "fl_payload_size (ho_acl_flow a) \<le> 65535"
    and "host_inv b" "ho_connection b = Some cb"
    and "basic_open (cn_channels cb) (ch_destination_cid ch) peer" "settled (cn_channels cb)"
    and "cn_handle cb \<le> ACL_HANDLE_MASK"
    and "length sdu \<le> unat (ch_peer_mtu ch)" "length sdu \<le> unat (ch_mtu peer)"
  shows "\<exists>ps. fst (send_channel_sdu cid sdu a) = Inr ()
    \<and> pending_output (snd (send_channel_sdu cid sdu a)) = pending_output a @ map OutAcl ps
    \<and> (let (r, b') = act_each process_acl (map (relabel (cn_handle cb)) ps) b in
        r = Inr () \<and> ho_connection b' = Some (cb\<lparr>cn_channels := put_channel (ch_destination_cid ch)
          (peer\<lparr>ch_received := ch_received peer @ [sdu]\<rparr>) (cn_channels cb)\<rparr>))"
proof -
  let ?d = "pdu_to_bytes (pdu_new (ch_destination_cid ch) sdu) False" and ?sz = "fl_payload_size (ho_acl_flow a)"
  have d: "complete_pdu ?d"
    using assms(13) unat_u16_less [of "ch_peer_mtu ch"] by (intro pdu_complete) (simp add: pdu_new_def)
  from send_basic [OF assms(1-3,13,5) _ assms(7,4)] assms(6) obtain ps
    where ps: "fragment_l2cap_pdu (cn_handle ca) 0 ?sz ?d False = Inr ps"
      and sent: "fst (send_channel_sdu cid sdu a) = Inr ()"
        "pending_output (snd (send_channel_sdu cid sdu a)) = pending_output a @ map OutAcl ps"
    by auto
  let ?ps = "map (relabel (cn_handle cb)) ps"
  have frags: "fragment_l2cap_pdu (cn_handle cb) 0 ?sz ?d False = Inr ?ps"
    using assms(5-7,12) d ps by (intro relabel_fragments) auto
  have asm: "bt_ok (asm_pending (ho_acl_assembler b))" "connection_handle b = Inr (cn_handle cb)"
    using assms(8,9) by (simp_all add: host_inv_def assembler_inv_def connection_handle_def)
  have fed: "feed_all_one ?ps pend = (replicate (length ?ps - 1) (Inr None) @ [Inr (Some ?d)], None)" for pend
    using assms(12,6,7) d frags by (intro feed_fragments) simp_all
  then have "?ps \<noteq> []" by fastforce
  moreover have "list_all (\<lambda>p. acl_connection_handle p = cn_handle cb) ?ps"
    using fragments_wf [OF frags] by (simp add: list_all_iff)
  ultimately obtain asm' where run: "act_each process_acl ?ps b = deliver ?d (b\<lparr>ho_acl_assembler := asm'\<rparr>)"
    using process_fragments [OF asm, of ?ps ?d] fed [of "pending_of (ho_acl_assembler b) (cn_handle cb)"]
    by auto
  have "manager_inv (cn_channels cb)" using assms(8,9) by (simp add: host_inv_def)
  then have "fst (act_each process_acl ?ps b) = Inr () \<and> ho_connection (snd (act_each process_acl ?ps b))
      = Some (cb\<lparr>cn_channels := put_channel (ch_destination_cid ch)
          (peer\<lparr>ch_received := ch_received peer @ [sdu]\<rparr>) (cn_channels cb)\<rparr>)"
    unfolding run using assms(9-11,14) by (intro deliver_basic) simp_all
  with sent show ?thesis by (intro exI [of _ ps]) (simp add: split_beta)
qed

text \<open>Two connected hosts with one open Basic channel between them.\<close>

definition channel_example :: classic_channel where
  "channel_example = (channel_incoming 0x11 0x40 0x40 (BasicSpec \<lparr>cs_mtu = 672\<rparr>))
     \<lparr>ch_state := Open, ch_peer_configuration_received := True,
      ch_configuration_response_received := True, ch_open_announced := True\<rparr>"

definition connection_example :: "u16 \<Rightarrow> connection" where
  "connection_example handle = \<lparr>cn_peer = peer_example, cn_handle = handle, cn_encrypted = True,
     cn_channels = put_channel 0x40 channel_example manager_new\<rparr>"

definition connected_example :: "u16 \<Rightarrow> (bluetooth_address \<times> classic_bond) list classic_host" where
  "connected_example handle = (host_new [] 6 2)\<lparr>ho_connection := Some (connection_example handle)\<rparr>"

lemma connection_example_inv: "manager_inv (cn_channels (connection_example handle))"
  unfolding connection_example_def
  by (simp, intro put_inv manager_new_inv)
    (simp add: channel_ok_def channel_inv_def channel_example_def channel_incoming_def validate_spec_def)

lemma connected_example_facts:
  "host_inv (connected_example handle)"
  "ho_connection (connected_example handle) = Some (connection_example handle)"
  "flow_inv (ho_acl_flow (connected_example handle))"
  "fl_payload_size (ho_acl_flow (connected_example handle)) = 6"
  "basic_open (cn_channels (connection_example handle)) 0x40 channel_example"
  "settled (cn_channels (connection_example handle))"
  "cn_handle (connection_example handle) = handle"
  "ch_destination_cid channel_example = 0x40" "ch_peer_mtu channel_example = 48"
  "ch_mtu channel_example = 672" "ch_received channel_example = []"
proof -
  have "host_inv (host_new [] 6 2 :: (bluetooth_address \<times> classic_bond) list classic_host)"
    using host.inv_start [of "host_new [] 6 2"] by blast
  then show "host_inv (connected_example handle)" "flow_inv (ho_acl_flow (connected_example handle))"
    using connection_example_inv by (simp_all add: connected_example_def host_inv_def)
qed (simp_all add: connected_example_def connection_example_def host_new_def flow_new_def basic_open_def
    settled_def channel_def put_channel_def manager_new_def with_information_capabilities_def
    channel_example_def channel_incoming_def bt_get_def)

theorem host_sdu_transfer_witness:
  "\<exists>ps. pending_output (snd (send_channel_sdu 0x40 [1, 2, 3, 4, 5] (connected_example 7)))
      = pending_output (connected_example 7) @ map OutAcl ps
    \<and> fst (act_each process_acl (map (relabel 9) ps) (connected_example 9)) = Inr ()"
  using host_sdu_transfer [of "connected_example 7" "connection_example 7" "0x40" channel_example
      "connected_example 9" "connection_example 9" channel_example "[1, 2, 3, 4, 5]"]
  by (auto simp: connected_example_facts split_beta Let_def)

end
