(* ===== verification/Hidp.thy ===== *)
theory Hidp
  imports Interfaces
begin

text \<open>
  The HID profile protocol of \<^verbatim>\<open>src/src/hidp.rs\<close>: the message codec, the device runtime that answers a
  host's control and interrupt messages through a delegate, and the host-side constructors and
  dispatch. The open one-byte enumerations (report types, handshakes, message types, protocol modes,
  control commands, return codes) are bytes.
\<close>

section \<open>Messages\<close>

abbreviation (input) OTHER_REPORT :: u8 where "OTHER_REPORT \<equiv> 0"
abbreviation (input) INPUT_REPORT :: u8 where "INPUT_REPORT \<equiv> 1"
abbreviation (input) OUTPUT_REPORT :: u8 where "OUTPUT_REPORT \<equiv> 2"
abbreviation (input) HS_SUCCESSFUL :: u8 where "HS_SUCCESSFUL \<equiv> 0"
abbreviation (input) HS_ERR_INVALID_REPORT_ID :: u8 where "HS_ERR_INVALID_REPORT_ID \<equiv> 2"
abbreviation (input) HS_ERR_UNSUPPORTED_REQUEST :: u8 where "HS_ERR_UNSUPPORTED_REQUEST \<equiv> 3"
abbreviation (input) HS_ERR_INVALID_PARAMETER :: u8 where "HS_ERR_INVALID_PARAMETER \<equiv> 4"
abbreviation (input) HS_ERR_UNKNOWN :: u8 where "HS_ERR_UNKNOWN \<equiv> 0x0E"
abbreviation (input) MT_HANDSHAKE :: u8 where "MT_HANDSHAKE \<equiv> 0"
abbreviation (input) MT_CONTROL :: u8 where "MT_CONTROL \<equiv> 1"
abbreviation (input) MT_GET_REPORT :: u8 where "MT_GET_REPORT \<equiv> 4"
abbreviation (input) MT_SET_REPORT :: u8 where "MT_SET_REPORT \<equiv> 5"
abbreviation (input) MT_GET_PROTOCOL :: u8 where "MT_GET_PROTOCOL \<equiv> 6"
abbreviation (input) MT_SET_PROTOCOL :: u8 where "MT_SET_PROTOCOL \<equiv> 7"
abbreviation (input) MT_DATA :: u8 where "MT_DATA \<equiv> 0x0A"
abbreviation (input) CC_SUSPEND :: u8 where "CC_SUSPEND \<equiv> 3"
abbreviation (input) CC_EXIT_SUSPEND :: u8 where "CC_EXIT_SUSPEND \<equiv> 4"
abbreviation (input) CC_VIRTUAL_CABLE_UNPLUG :: u8 where "CC_VIRTUAL_CABLE_UNPLUG \<equiv> 5"
abbreviation (input) GS_REPORT_ID_NOT_FOUND :: u8 where "GS_REPORT_ID_NOT_FOUND \<equiv> 1"
abbreviation (input) GS_ERR_UNSUPPORTED_REQUEST :: u8 where "GS_ERR_UNSUPPORTED_REQUEST \<equiv> 2"
abbreviation (input) GS_ERR_INVALID_PARAMETER :: u8 where "GS_ERR_INVALID_PARAMETER \<equiv> 4"
abbreviation (input) GS_SUCCESS :: u8 where "GS_SUCCESS \<equiv> 0xFF"

datatype hidp_error = HidpTruncated string | HidpInvalid string | HidpTrailingBytes nat

datatype hidp_message =
    Handshake u8
  | Control u8
  | GetReport (report_type: u8) (report_id: u8) (buffer_size: "u16 option")
  | SetReport u8 bytes
  | GetProtocol
  | SetProtocol u8
  | Data u8 bytes
  | UnknownMessage u8 u8 bytes

fun message_type :: "hidp_message \<Rightarrow> u8" where
  "message_type (Handshake _) = MT_HANDSHAKE"
| "message_type (Control _) = MT_CONTROL"
| "message_type (GetReport _ _ _) = MT_GET_REPORT"
| "message_type (SetReport _ _) = MT_SET_REPORT"
| "message_type GetProtocol = MT_GET_PROTOCOL"
| "message_type (SetProtocol _) = MT_SET_PROTOCOL"
| "message_type (Data _ _) = MT_DATA"
| "message_type (UnknownMessage t _ _) = t"

text \<open>The parameter nibble and the bytes after the header.\<close>

fun message_fields :: "hidp_message \<Rightarrow> u8 \<times> bytes" where
  "message_fields (Handshake res) = (res, [])"
| "message_fields (Control command) = (command, [])"
| "message_fields (GetReport rt rid (Some sz)) = (0x08 OR rt, [rid] @ le16_bytes sz)"
| "message_fields (GetReport rt rid None) = (rt, [rid])"
| "message_fields (SetReport rt dat) = (rt, dat)"
| "message_fields (Data rt dat) = (rt, dat)"
| "message_fields GetProtocol = (0, [])"
| "message_fields (SetProtocol mode) = (mode, [])"
| "message_fields (UnknownMessage _ parameter dat) = (parameter, dat)"

definition message_to_bytes :: "hidp_message \<Rightarrow> (bytes, hidp_error) result" where
  "message_to_bytes m =
     (let (parameter, dat) = message_fields m in
      if message_type m > 0x0F \<or> parameter > 0x0F then Inl (HidpInvalid ''HIDP header field'')
      else Inr ((push_bit 4 (message_type m) OR parameter) # dat))"

definition exact_empty :: "bytes \<Rightarrow> (unit, hidp_error) result" where
  "exact_empty dat = (if dat = [] then Inr () else Inl (HidpTrailingBytes (length dat)))"

definition parse_get_report :: "u8 \<Rightarrow> bytes \<Rightarrow> (hidp_message, hidp_error) result" where
  "parse_get_report parameter dat =
     (case dat of
        [] \<Rightarrow> Inl (HidpTruncated ''HIDP report ID'')
      | rid # _ \<Rightarrow>
          res_bind
            (if parameter AND 0x08 \<noteq> 0 then
               if length dat < 3 then Inl (HidpTruncated ''HIDP report buffer size'')
               else if length dat \<noteq> 3 then Inl (HidpTrailingBytes (length dat - 3))
               else Inr (Some (le16_of (dat ! 1) (dat ! 2)))
             else if length dat \<noteq> 1 then Inl (HidpTrailingBytes (length dat - 1))
             else Inr None)
            (\<lambda>sz. Inr (GetReport (parameter AND 3) rid sz)))"

definition message_from_bytes :: "bytes \<Rightarrow> (hidp_message, hidp_error) result" where
  "message_from_bytes b =
     (case b of
        [] \<Rightarrow> Inl (HidpTruncated ''HIDP header'')
      | header # dat \<Rightarrow>
          let mt = drop_bit 4 header; parameter = header AND 0x0F in
          if mt = MT_HANDSHAKE then res_bind (exact_empty dat) (\<lambda>_. Inr (Handshake parameter))
          else if mt = MT_CONTROL then res_bind (exact_empty dat) (\<lambda>_. Inr (Control parameter))
          else if mt = MT_GET_REPORT then parse_get_report parameter dat
          else if mt = MT_SET_REPORT then Inr (SetReport (parameter AND 3) dat)
          else if mt = MT_GET_PROTOCOL then res_bind (exact_empty dat) (\<lambda>_. Inr GetProtocol)
          else if mt = MT_SET_PROTOCOL
            then res_bind (exact_empty dat) (\<lambda>_. Inr (SetProtocol (parameter AND 1)))
          else if mt = MT_DATA then Inr (Data (parameter AND 3) dat)
          else Inr (UnknownMessage mt parameter dat))"

section \<open>The device runtime\<close>

record get_set_status =
  gs_data :: bytes
  gs_status :: u8

definition status_success :: "bytes \<Rightarrow> get_set_status" where
  "status_success dat = \<lparr>gs_data = dat, gs_status = GS_SUCCESS\<rparr>"

definition status_unsupported :: get_set_status where
  "status_unsupported = \<lparr>gs_data = [], gs_status = GS_ERR_UNSUPPORTED_REQUEST\<rparr>"

text \<open>The methods of a delegate whose state is of type \<open>'d\<close>, and the trait's default methods.\<close>

record 'd device_delegate =
  dd_get_report :: "u8 \<Rightarrow> u8 \<Rightarrow> u16 option \<Rightarrow> 'd \<Rightarrow> get_set_status \<times> 'd"
  dd_set_report :: "u8 \<Rightarrow> u8 \<Rightarrow> nat \<Rightarrow> bytes \<Rightarrow> 'd \<Rightarrow> get_set_status \<times> 'd"
  dd_get_protocol :: "'d \<Rightarrow> get_set_status \<times> 'd"
  dd_set_protocol :: "u8 \<Rightarrow> 'd \<Rightarrow> get_set_status \<times> 'd"

definition default_delegate :: "'d device_delegate" where
  "default_delegate = \<lparr>dd_get_report = (\<lambda>_ _ _ d. (status_unsupported, d)),
     dd_set_report = (\<lambda>_ _ _ _ d. (status_unsupported, d)),
     dd_get_protocol = (\<lambda>d. (status_unsupported, d)),
     dd_set_protocol = (\<lambda>_ d. (status_unsupported, d))\<rparr>"

datatype device_event =
    SendControl hidp_message
  | ControlData u8 bytes
  | InterruptData u8 bytes
  | Suspend
  | ExitSuspend
  | VirtualCableUnplug
  | Unsupported hidp_message

record 'd device_runtime =
  rt_delegate :: 'd
  rt_control_peer_mtu :: nat

type_synonym ('d, 'a) runtime_action = "('d device_runtime, 'a, hidp_error) action"

definition runtime_new :: "'d \<Rightarrow> nat \<Rightarrow> 'd device_runtime" where
  "runtime_new delegate control_peer_mtu =
     \<lparr>rt_delegate = delegate, rt_control_peer_mtu = control_peer_mtu\<rparr>"

definition get_report_response :: "nat \<Rightarrow> u8 \<Rightarrow> u8 \<Rightarrow> get_set_status \<Rightarrow> hidp_message" where
  "get_report_response mtu rt rid res =
     (if gs_status res = GS_SUCCESS then
        let dat = [rid] @ gs_data res in
        if length dat < mtu then Data rt dat else Handshake HS_ERR_INVALID_PARAMETER
      else if gs_status res = GS_REPORT_ID_NOT_FOUND then Handshake HS_ERR_INVALID_REPORT_ID
      else if gs_status res = GS_ERR_INVALID_PARAMETER then Handshake HS_ERR_INVALID_PARAMETER
      else if gs_status res = GS_ERR_UNSUPPORTED_REQUEST then Handshake HS_ERR_UNSUPPORTED_REQUEST
      else Handshake HS_ERR_UNKNOWN)"

definition set_report_handshake :: "get_set_status \<Rightarrow> u8" where
  "set_report_handshake res =
     (if gs_status res = GS_SUCCESS then HS_SUCCESSFUL
      else if gs_status res = GS_ERR_INVALID_PARAMETER then HS_ERR_INVALID_PARAMETER
      else if gs_status res = GS_REPORT_ID_NOT_FOUND then HS_ERR_INVALID_REPORT_ID
      else HS_ERR_UNSUPPORTED_REQUEST)"

fun dispatch_control ::
  "'d device_delegate \<Rightarrow> hidp_message \<Rightarrow> ('d, device_event list) runtime_action" where
  "dispatch_control dd (GetReport rt rid sz) r =
     (let (res, d) = dd_get_report dd rid rt sz (rt_delegate r) in
      (Inr [SendControl (get_report_response (rt_control_peer_mtu r) rt rid res)], r\<lparr>rt_delegate := d\<rparr>))"
| "dispatch_control dd (SetReport rt dat) r =
     (case dat of
        [] \<Rightarrow> (Inl (HidpTruncated ''HIDP set-report ID''), r)
      | rid # report_data \<Rightarrow>
          let (res, d) = dd_set_report dd rid rt (length report_data + 1) report_data (rt_delegate r) in
          (Inr [SendControl (Handshake (set_report_handshake res))], r\<lparr>rt_delegate := d\<rparr>))"
| "dispatch_control dd GetProtocol r =
     (let (res, d) = dd_get_protocol dd (rt_delegate r) in
      (Inr [SendControl (if gs_status res = GS_SUCCESS then Data OTHER_REPORT (gs_data res)
         else Handshake HS_ERR_UNSUPPORTED_REQUEST)], r\<lparr>rt_delegate := d\<rparr>))"
| "dispatch_control dd (SetProtocol mode) r =
     (let (res, d) = dd_set_protocol dd mode (rt_delegate r) in
      (Inr [SendControl (Handshake (if gs_status res = GS_SUCCESS then HS_SUCCESSFUL
         else HS_ERR_UNSUPPORTED_REQUEST))], r\<lparr>rt_delegate := d\<rparr>))"
| "dispatch_control dd (Data rt dat) r = (Inr [ControlData rt dat], r)"
| "dispatch_control dd (Control command) r =
     (Inr [if command = CC_SUSPEND then Suspend
           else if command = CC_EXIT_SUSPEND then ExitSuspend
           else if command = CC_VIRTUAL_CABLE_UNPLUG then VirtualCableUnplug
           else Unsupported (Control command)], r)"
| "dispatch_control dd message r =
     (Inr [Unsupported message, SendControl (Handshake HS_ERR_UNSUPPORTED_REQUEST)], r)"

definition device_handle_control ::
  "'d device_delegate \<Rightarrow> bytes \<Rightarrow> ('d, device_event list) runtime_action" where
  "device_handle_control dd b =
     act_bind (act_lift (message_from_bytes b)) (\<lambda>message. dispatch_control dd message)"

definition device_handle_interrupt :: "bytes \<Rightarrow> (device_event, hidp_error) result" where
  "device_handle_interrupt b =
     res_bind (message_from_bytes b) (\<lambda>message. Inr (case message of
       Data rt dat \<Rightarrow> InterruptData rt dat | _ \<Rightarrow> Unsupported message))"

definition device_data :: "bytes \<Rightarrow> hidp_message" where
  "device_data dat = Data INPUT_REPORT dat"

section \<open>The host side\<close>

datatype hidp_host_event =
    HostHandshake u8
  | HostControlData u8 bytes
  | HostInterruptData u8 bytes
  | HostVirtualCableUnplug
  | HostUnsupported hidp_message

definition host_send_data :: "bytes \<Rightarrow> hidp_message" where
  "host_send_data dat = Data OUTPUT_REPORT dat"

definition host_get_report :: "u8 \<Rightarrow> u8 \<Rightarrow> u16 option \<Rightarrow> hidp_message" where
  "host_get_report rt rid sz = GetReport rt rid sz"

definition host_set_report :: "u8 \<Rightarrow> bytes \<Rightarrow> hidp_message" where
  "host_set_report rt dat = SetReport rt dat"

definition host_get_protocol :: hidp_message where "host_get_protocol = GetProtocol"

definition host_set_protocol :: "u8 \<Rightarrow> hidp_message" where
  "host_set_protocol mode = SetProtocol mode"

definition host_suspend :: hidp_message where "host_suspend = Control CC_SUSPEND"
definition host_exit_suspend :: hidp_message where "host_exit_suspend = Control CC_EXIT_SUSPEND"
definition host_virtual_cable_unplug :: hidp_message where
  "host_virtual_cable_unplug = Control CC_VIRTUAL_CABLE_UNPLUG"

definition host_handle_control :: "bytes \<Rightarrow> (hidp_host_event, hidp_error) result" where
  "host_handle_control b =
     res_bind (message_from_bytes b) (\<lambda>message. Inr (case message of
       Handshake h \<Rightarrow> HostHandshake h
     | Data rt dat \<Rightarrow> HostControlData rt dat
     | Control command \<Rightarrow> if command = CC_VIRTUAL_CABLE_UNPLUG then HostVirtualCableUnplug
         else HostUnsupported message
     | _ \<Rightarrow> HostUnsupported message))"

definition host_handle_interrupt :: "bytes \<Rightarrow> (hidp_host_event, hidp_error) result" where
  "host_handle_interrupt b =
     res_bind (message_from_bytes b) (\<lambda>message. Inr (case message of
       Data rt dat \<Rightarrow> HostInterruptData rt dat | _ \<Rightarrow> HostUnsupported message))"

section \<open>Well-formed messages\<close>

fun message_wf :: "hidp_message \<Rightarrow> bool" where
  "message_wf (Handshake h) \<longleftrightarrow> h \<le> 15"
| "message_wf (Control c) \<longleftrightarrow> c \<le> 15"
| "message_wf (GetReport rt _ _) \<longleftrightarrow> rt \<le> 3"
| "message_wf (SetReport rt _) \<longleftrightarrow> rt \<le> 3"
| "message_wf GetProtocol \<longleftrightarrow> True"
| "message_wf (SetProtocol mode) \<longleftrightarrow> mode \<le> 1"
| "message_wf (Data rt _) \<longleftrightarrow> rt \<le> 3"
| "message_wf (UnknownMessage t p _) \<longleftrightarrow> t \<le> 15 \<and> p \<le> 15 \<and> t \<notin> {0, 1, 4, 5, 6, 7, 0x0A}"

definition header_byte :: "u8 \<Rightarrow> u8 \<Rightarrow> u8" where
  "header_byte t p = push_bit 4 t OR p"

lemma nibble_masks: "(0x0F :: u8) = mask 4" "(3 :: u8) = mask 2" "(1 :: u8) = mask 1" "(8 :: u8) = push_bit 3 1"
  by (simp_all add: mask_eq_exp_minus_1 push_bit_eq_mult)

lemma header_fields:
  assumes "t \<le> 15" "p \<le> 15"
  shows "drop_bit 4 (header_byte t p) = t" "header_byte t p AND 0x0F = p"
proof -
  from assms have t: "bit t n \<Longrightarrow> n < 4" and p: "bit p n \<Longrightarrow> n < 4" for n
    by (auto simp: word_le_nat_alt intro: small_word_bits [of t 4] small_word_bits [of p 4])
  show "drop_bit 4 (header_byte t p) = t" "header_byte t p AND 0x0F = p"
    unfolding nibble_masks header_byte_def
    by (rule bit_word_eqI, force simp: bit_simps dest: t p)+
qed

lemma nibble_bounds: "(w :: u8) AND 0x0F \<le> 15" "w AND 3 \<le> 3" "w AND 1 \<le> 1" "drop_bit 4 w \<le> 15"
proof -
  show "drop_bit 4 w \<le> 15"
    using unat_u8_less [of w] by (simp add: word_le_nat_alt drop_bit_eq_div unat_div)
qed (simp_all add: word_and_le1)

lemma le3_cases: "(x :: u8) \<le> 3 \<longleftrightarrow> x = 0 \<or> x = 1 \<or> x = 2 \<or> x = 3"
  by (auto simp: word_le_nat_alt word_unat_eq_iff)

lemma le1_cases: "(x :: u8) \<le> 1 \<longleftrightarrow> x = 0 \<or> x = 1"
  by (auto simp: word_le_nat_alt word_unat_eq_iff)

lemma message_to_bytes_header:
  "message_to_bytes m = (let (p, dat) = message_fields m in
     if message_type m > 0x0F \<or> p > 0x0F then Inl (HidpInvalid ''HIDP header field'')
     else Inr (header_byte (message_type m) p # dat))"
  by (simp add: message_to_bytes_def header_byte_def split_beta)

lemma message_type_fits: "message_wf m \<Longrightarrow> message_type m \<le> 15 \<and> fst (message_fields m) \<le> 15"
  by (cases m rule: message_fields.cases) (auto simp: le3_cases le1_cases)

lemma message_encodes:
  "message_wf m \<Longrightarrow> message_to_bytes m
     = Inr (header_byte (message_type m) (fst (message_fields m)) # snd (message_fields m))"
  using message_type_fits [of m] by (auto simp: message_to_bytes_header split_beta not_less)

lemma message_dec_enc:
  assumes "message_wf m" "message_to_bytes m = Inr b"
  shows "message_from_bytes b = Inr m"
proof -
  note fits = message_type_fits [OF assms(1)]
  have b: "b = header_byte (message_type m) (fst (message_fields m)) # snd (message_fields m)"
    using assms by (simp add: message_encodes)
  have "drop_bit 4 (hd b) = message_type m" "hd b AND 0x0F = fst (message_fields m)"
    using header_fields [of "message_type m" "fst (message_fields m)"] fits by (simp_all add: b)
  with assms(1) show ?thesis
    by (cases m rule: message_fields.cases)
      (auto simp: b message_from_bytes_def exact_empty_def parse_get_report_def le3_cases le1_cases
        le16_bytes_def)
qed

lemma message_from_bytes_wf: "message_from_bytes b = Inr m \<Longrightarrow> message_wf m"
  by (cases b) (auto simp: message_from_bytes_def exact_empty_def parse_get_report_def Let_def
      res_bind_eq_Inr nibble_bounds split: if_splits list.splits)

definition is_answer :: "device_event \<Rightarrow> bool" where
  "is_answer ev = (case ev of SendControl _ \<Rightarrow> True | _ \<Rightarrow> False)"

lemma is_answer_simps [simp]:
  "is_answer (SendControl m)" "\<not> is_answer (ControlData rt dat)" "\<not> is_answer (InterruptData rt dat)"
  "\<not> is_answer Suspend" "\<not> is_answer ExitSuspend" "\<not> is_answer VirtualCableUnplug"
  "\<not> is_answer (Unsupported m)"
  by (simp_all add: is_answer_def)

fun unanswered :: "hidp_message \<Rightarrow> bool" where
  "unanswered (Data _ _) \<longleftrightarrow> True"
| "unanswered (Control _) \<longleftrightarrow> True"
| "unanswered _ \<longleftrightarrow> False"

definition message_bytes :: "hidp_message \<Rightarrow> bytes" where
  "message_bytes m = (case message_to_bytes m of Inr b \<Rightarrow> b | Inl _ \<Rightarrow> [])"

interpretation hidp_messages: wire_codec message_bytes message_from_bytes message_wf
  by unfold_locales (simp add: message_bytes_def message_encodes message_dec_enc)

lemma message_decodes_iff: "(\<exists>b. message_from_bytes b = Inr m) \<longleftrightarrow> message_wf m"
  using hidp_messages.dec_enc message_from_bytes_wf by blast

section \<open>Properties\<close>

text \<open>
  HIDP messages survive the wire. The messages some byte string decodes to are exactly the
  well-formed ones (report types below 4, protocol modes below 2, other fields within their nibble,
  unknown types outside the seven known ones), and each of them encodes to bytes that decode to it,
  although the decoder ignores reserved parameter bits.
\<close>

theorem hidp_roundtrip:
  "((\<exists>b. message_from_bytes b = Inr m) \<longleftrightarrow> message_wf m)
   \<and> (message_wf m \<longrightarrow> (case message_to_bytes m of Inr b \<Rightarrow> message_from_bytes b = Inr m | Inl _ \<Rightarrow> False))"
  using message_decodes_iff message_encodes message_dec_enc by (auto split: sum.split)

theorem hidp_roundtrip_witness:
  "case message_to_bytes (GetReport 3 7 (Some 0x0201)) of
     Inr b \<Rightarrow> message_from_bytes b = Inr (GetReport 3 7 (Some 0x0201)) | Inl _ \<Rightarrow> False"
  using hidp_roundtrip [of "GetReport 3 7 (Some 0x0201)"] by simp

text \<open>
  A device answers every control request exactly once. Whatever the delegate does, bytes that are no
  message change nothing; of the messages, only a set-report request without a report identifier is
  rejected, output data and control commands are not answered, and every other message is answered
  with exactly one message.
\<close>

theorem control_answered:
  "case message_from_bytes b of
     Inl err \<Rightarrow> device_handle_control dd b r = (Inl err, r)
   | Inr m \<Rightarrow> (case fst (device_handle_control dd b r) of
       Inl _ \<Rightarrow> \<exists>rt. m = SetReport rt []
     | Inr events \<Rightarrow> length (filter is_answer events) = (if unanswered m then 0 else 1)
         \<and> (\<forall>rt. m \<noteq> SetReport rt []))"
proof (cases "message_from_bytes b")
  case (Inr m)
  then show ?thesis
    by (cases m) (auto simp: device_handle_control_def Let_def split_beta split: list.split)
qed (simp add: device_handle_control_def)

text \<open>What a host asks for is what the device runtime handles: the requests the host builds reach its dispatcher as they were built.\<close>

lemma host_requests_dispatched:
  assumes "m \<in> {host_get_report rt rid sz, host_set_report rt dat, host_get_protocol, host_set_protocol mode,
      host_suspend, host_exit_suspend, host_virtual_cable_unplug, host_send_data dat}" "rt \<le> 3" "mode \<le> 1"
  shows "\<exists>b. message_to_bytes m = Inr b \<and> device_handle_control dd b = dispatch_control dd m"
proof -
  have wf: "message_wf m"
    using assms by (auto simp: host_get_report_def host_set_report_def host_get_protocol_def host_set_protocol_def host_suspend_def
        host_exit_suspend_def host_virtual_cable_unplug_def host_send_data_def)
  then obtain b where b: "message_to_bytes m = Inr b" using message_encodes by blast
  with message_dec_enc [OF wf] show ?thesis by (auto simp: device_handle_control_def fun_eq_iff)
qed

text \<open>
  The answer to a get-report request fits the peer's MTU. Of any status the delegate returns, a report
  that fits with its header and identifier is sent whole, and anything else, a report that is too long
  included, becomes a one-byte handshake.
\<close>

theorem get_report_fits:
  assumes "0 < mtu" "rt \<le> 3"
  shows "case message_to_bytes (get_report_response mtu rt rid res) of
      Inr b \<Rightarrow> length b \<le> mtu \<and> (if gs_status res = GS_SUCCESS \<and> length (gs_data res) + 2 \<le> mtu
          then b = header_byte MT_DATA rt # rid # gs_data res
          else length b = 1 \<and> message_from_bytes b = Inr (get_report_response mtu rt rid res))
    | Inl _ \<Rightarrow> False"
proof -
  let ?m = "get_report_response mtu rt rid res"
  have wf: "message_wf ?m" using assms(2) by (simp add: get_report_response_def Let_def)
  show ?thesis
    using assms(1) message_encodes [OF wf] message_dec_enc [OF wf]
    by (auto simp: get_report_response_def Let_def split: if_splits)
qed

theorem get_report_fits_witness:
  "message_to_bytes (get_report_response 48 1 9 (status_success [5, 6])) = Inr [header_byte MT_DATA 1, 9, 5, 6]"
  using get_report_fits [of 48 1 "status_success [5, 6]" 9]
  by (auto simp: status_success_def split: sum.splits)

end
