(* ===== verification/Api.thy ===== *)
theory Api
  imports Interfaces Values
begin

text \<open>
  The configuration and result types of \<^verbatim>\<open>src/src/api.rs\<close>: the HID service definition, the session
  configuration with its extended inquiry response, the capabilities, the events and the error kinds.
  A \<^verbatim>\<open>str\<close> is the list of its UTF-8 bytes.
\<close>

section \<open>Configuration\<close>

abbreviation (input) EXTENDED_INQUIRY_RESPONSE_LEN :: nat where "EXTENDED_INQUIRY_RESPONSE_LEN \<equiv> 240"
abbreviation (input) COMPLETE_LOCAL_NAME_DATA_TYPE :: u8 where "COMPLETE_LOCAL_NAME_DATA_TYPE \<equiv> 0x09"
abbreviation (input) MAX_COMPLETE_LOCAL_NAME_LEN :: nat where
  "MAX_COMPLETE_LOCAL_NAME_LEN \<equiv> EXTENDED_INQUIRY_RESPONSE_LEN - 2"

datatype local_identity = AdapterDefault | Explicit bluetooth_address

record hid_sdp_policy =
  hp_service_name :: bytes
  hp_service_description :: "bytes option"
  hp_provider_name :: "bytes option"
  hp_device_release_number :: "u16 option"
  hp_bluetooth_profile_version :: u16
  hp_parser_version :: u16
  hp_device_subclass :: u8
  hp_country_code :: u8
  hp_virtual_cable :: bool
  hp_reconnect_initiate :: bool
  hp_remote_wake :: "bool option"
  hp_profile_version :: u16
  hp_supervision_timeout :: u16
  hp_normally_connectable :: bool
  hp_boot_device :: bool
  hp_ssr_host_max_latency :: u16
  hp_ssr_host_min_timeout :: u16

record hid_service_config =
  hc_report_descriptor :: bytes
  hc_sdp_policy :: hid_sdp_policy

section \<open>Errors\<close>

datatype error_kind =
    InvalidConfiguration
  | OpenFailed
  | InvalidControllerIdentity
  | IdentityMismatch
  | AdapterIdentityRecoveryRequired
  | UnsupportedController
  | InvalidBondStore
  | NoBond
  | SessionClosed
  | SendRejected
  | DrainTimedOut
  | EventQueueOverflow
  | SourceTerminated
  | CloseFailed
  | ProtocolViolation

record session_config =
  sc_local_name :: bytes
  sc_class_of_device :: u32
  sc_extended_inquiry_response :: bytes
  sc_complete_local_name_eir_len :: nat
  sc_hid_service :: hid_service_config

definition session_config_new ::
  "bytes \<Rightarrow> u32 \<Rightarrow> hid_service_config \<Rightarrow> (session_config, error_kind) result" where
  "session_config_new local_name class_of_device hid_service =
     (if local_name = [] \<or> length local_name > MAX_COMPLETE_LOCAL_NAME_LEN \<or> class_of_device > 0x00FFFFFF
      then Inl InvalidConfiguration
      else let eir0 = replicate EXTENDED_INQUIRY_RESPONSE_LEN 0;
               eir1 = eir0[0 := of_nat (length local_name + 1), 1 := COMPLETE_LOCAL_NAME_DATA_TYPE];
               eir2 = take 2 eir1 @ local_name @ drop (2 + length local_name) eir1 in
        Inr \<lparr>sc_local_name = local_name, sc_class_of_device = class_of_device,
          sc_extended_inquiry_response = eir2,
          sc_complete_local_name_eir_len = length local_name + 2, sc_hid_service = hid_service\<rparr>)"

definition complete_local_name_eir :: "session_config \<Rightarrow> bytes" where
  "complete_local_name_eir cfg = take (sc_complete_local_name_eir_len cfg) (sc_extended_inquiry_response cfg)"

section \<open>What a session reports\<close>

record controller_version =
  cv_hci_version :: u8
  cv_hci_subversion :: u16
  cv_lmp_version :: u8
  cv_company_identifier :: u16
  cv_lmp_subversion :: u16

record usb_adapter_metadata =
  um_vendor_id :: u16
  um_product_id :: u16
  um_bus :: u8
  um_device_address :: u8
  um_ports :: bytes

record capabilities =
  cap_local_address :: bluetooth_address
  cap_controller_version :: controller_version
  cap_usb :: usb_adapter_metadata

datatype hid_channel = ControlChannel | InterruptChannel

datatype api_event =
    EvConnected bluetooth_address
  | EvChannelOpened hid_channel
  | EvHidOutput hid_channel bytes
  | EvDisconnected "u8 option"

section \<open>Lemmas\<close>

text \<open>
  A configuration that was accepted: its inquiry response is one length-prefixed complete-local-name
  field followed by zeros, and it fits the controller command that carries it.
\<close>

definition config_ok :: "session_config \<Rightarrow> bool" where
  "config_ok cfg \<longleftrightarrow> sc_local_name cfg \<noteq> [] \<and> length (sc_local_name cfg) \<le> 238
     \<and> sc_class_of_device cfg \<le> 0xFFFFFF
     \<and> length (sc_extended_inquiry_response cfg) = 240
     \<and> complete_local_name_eir cfg = of_nat (length (sc_local_name cfg) + 1) # 9 # sc_local_name cfg
     \<and> set (drop (sc_complete_local_name_eir_len cfg) (sc_extended_inquiry_response cfg)) \<subseteq> {0}"

lemma eir_header: "(replicate 240 0)[0 := a, 1 := b] = a # b # replicate 238 (0 :: u8)"
proof -
  have "replicate 240 (0 :: u8) = 0 # 0 # replicate 238 0"
    using replicate_Suc [of 239 "0 :: u8"] replicate_Suc [of 238 "0 :: u8"] by simp
  then show ?thesis by simp
qed

lemma session_config_ok:
  assumes "session_config_new local_name class_of_device hid_service = Inr cfg"
  shows "config_ok cfg"
proof -
  from assms have n: "local_name \<noteq> []" "length local_name \<le> 238" "class_of_device \<le> 0xFFFFFF"
    and cfg: "cfg = \<lparr>sc_local_name = local_name, sc_class_of_device = class_of_device,
      sc_extended_inquiry_response = of_nat (length local_name + 1) # 9 # local_name @ replicate (238 - length local_name) 0,
      sc_complete_local_name_eir_len = length local_name + 2, sc_hid_service = hid_service\<rparr>"
    by (auto simp: session_config_new_def Let_def eir_header [unfolded One_nat_def] numeral_2_eq_2 simp del: replicate.simps split: if_splits)
  then show ?thesis
    by (auto simp: config_ok_def complete_local_name_eir_def numeral_2_eq_2)
qed

text \<open>A gamepad with a short report descriptor.\<close>

definition sample_config :: hid_service_config where
  "sample_config = \<lparr>hc_report_descriptor = [0x05, 0x01, 0x09, 0x05, 0xA1, 0x01, 0xC0],
     hc_sdp_policy = \<lparr>hp_service_name = [0x50, 0x61, 0x64], hp_service_description = None,
       hp_provider_name = Some [0x4E], hp_device_release_number = Some 0x0100,
       hp_bluetooth_profile_version = 0x0101, hp_parser_version = 0x0111, hp_device_subclass = 8,
       hp_country_code = 0, hp_virtual_cable = True, hp_reconnect_initiate = True, hp_remote_wake = None,
       hp_profile_version = 0x0101, hp_supervision_timeout = 0x0C80, hp_normally_connectable = False,
       hp_boot_device = False, hp_ssr_host_max_latency = 0, hp_ssr_host_min_timeout = 0\<rparr>\<rparr>"

definition sample_session_config :: session_config where
  "sample_session_config = \<lparr>sc_local_name = [0x50], sc_class_of_device = 0x2508,
     sc_extended_inquiry_response = [2, 9, 0x50] @ replicate 237 0, sc_complete_local_name_eir_len = 3,
     sc_hid_service = sample_config\<rparr>"

lemma sample_session_config_new: "session_config_new [0x50] 0x2508 sample_config = Inr sample_session_config"
  by (simp add: session_config_new_def sample_session_config_def Let_def eir_header [unfolded One_nat_def]
      del: replicate.simps)

lemmas sample_session_config_ok = session_config_ok [OF sample_session_config_new]

end
