(* ===== verification/Hid_Service.thy ===== *)
theory Hid_Service
  imports Hidp Api
begin

text \<open>
  The HIDP bridge of \<^verbatim>\<open>src/src/hid_service.rs\<close>: the session's view of the HID channels, which runs the
  device runtime with a delegate that supports nothing, turns its events into session events, and
  encodes input reports within the peer's MTU.
\<close>

section \<open>The bridge\<close>

datatype hidp_bridge_event =
    Output hid_channel bytes
  | ControlResponse bytes
  | BridgeSuspend
  | BridgeResume
  | BridgeVirtualCableUnplug
  | BridgeUnsupported hid_channel

datatype hidp_bridge_error =
    Malformed hid_channel
  | EncodeFailed hid_channel
  | PeerMtuExceeded hid_channel nat nat

definition unsupported_delegate :: "unit device_delegate" where
  "unsupported_delegate = default_delegate"

record hidp_bridge =
  br_runtime :: "unit device_runtime"
  br_control_peer_mtu :: nat
  br_interrupt_peer_mtu :: nat

definition bridge_new :: "nat \<Rightarrow> nat \<Rightarrow> hidp_bridge" where
  "bridge_new control_peer_mtu interrupt_peer_mtu =
     \<lparr>br_runtime = runtime_new () control_peer_mtu, br_control_peer_mtu = control_peer_mtu,
      br_interrupt_peer_mtu = interrupt_peer_mtu\<rparr>"

definition check_peer_mtu :: "hid_channel \<Rightarrow> bytes \<Rightarrow> nat \<Rightarrow> (bytes, hidp_bridge_error) result" where
  "check_peer_mtu ch encoded peer_mtu =
     (if length encoded > peer_mtu then Inl (PeerMtuExceeded ch (length encoded) peer_mtu)
      else Inr encoded)"

definition encode_control :: "hidp_bridge \<Rightarrow> hidp_message \<Rightarrow> (bytes, hidp_bridge_error) result" where
  "encode_control br message =
     res_bind (map_err (\<lambda>_. EncodeFailed ControlChannel) (message_to_bytes message)) (\<lambda>encoded.
     check_peer_mtu ControlChannel encoded (br_control_peer_mtu br))"

fun translate_event ::
  "hidp_bridge \<Rightarrow> hid_channel \<Rightarrow> device_event \<Rightarrow> (hidp_bridge_event, hidp_bridge_error) result" where
  "translate_event br ch (SendControl message) =
     res_bind (encode_control br message) (\<lambda>b. Inr (ControlResponse b))"
| "translate_event br ch (ControlData rt dat) =
     Inr (if rt = OUTPUT_REPORT then Output ch dat else BridgeUnsupported ch)"
| "translate_event br ch (InterruptData rt dat) =
     Inr (if rt = OUTPUT_REPORT then Output ch dat else BridgeUnsupported ch)"
| "translate_event br ch Suspend = Inr BridgeSuspend"
| "translate_event br ch ExitSuspend = Inr BridgeResume"
| "translate_event br ch VirtualCableUnplug = Inr BridgeVirtualCableUnplug"
| "translate_event br ch (Unsupported _) = Inr (BridgeUnsupported ch)"

definition bridge_handle ::
  "hid_channel \<Rightarrow> bytes \<Rightarrow> (hidp_bridge, hidp_bridge_event list, hidp_bridge_error) action" where
  "bridge_handle ch b br =
     (let (device_events, br1) = (case ch of
            ControlChannel \<Rightarrow>
              let (r, rt) = device_handle_control unsupported_delegate b (br_runtime br) in
              (r, br\<lparr>br_runtime := rt\<rparr>)
          | InterruptChannel \<Rightarrow> (res_bind (device_handle_interrupt b) (\<lambda>ev. Inr [ev]), br)) in
      (res_bind (map_err (\<lambda>_. Malformed ch) device_events) (\<lambda>evs.
         collect_results (map (translate_event br1 ch) evs)), br1))"

definition encode_input :: "hidp_bridge \<Rightarrow> bytes \<Rightarrow> (bytes, hidp_bridge_error) result" where
  "encode_input br payload =
     res_bind (map_err (\<lambda>_. EncodeFailed InterruptChannel) (message_to_bytes (device_data payload)))
       (\<lambda>encoded. check_peer_mtu InterruptChannel encoded (br_interrupt_peer_mtu br))"

definition set_peer_mtu :: "hid_channel \<Rightarrow> nat \<Rightarrow> hidp_bridge \<Rightarrow> hidp_bridge" where
  "set_peer_mtu ch peer_mtu br = (case ch of
       ControlChannel \<Rightarrow> br\<lparr>br_control_peer_mtu := peer_mtu\<rparr>
     | InterruptChannel \<Rightarrow> br\<lparr>br_interrupt_peer_mtu := peer_mtu\<rparr>)"

definition invalid_parameter_response :: "hidp_bridge \<Rightarrow> (bytes, hidp_bridge_error) result" where
  "invalid_parameter_response br = encode_control br (Handshake HS_ERR_INVALID_PARAMETER)"

section \<open>Lemmas\<close>

lemma status_unsupported_simps [simp]: "gs_status status_unsupported = 2"
  by (simp add: status_unsupported_def)

lemma unsupported_delegate_simps [simp]:
  "dd_get_report unsupported_delegate rid rt sz d = (status_unsupported, d)"
  "dd_set_report unsupported_delegate rid rt n dat d = (status_unsupported, d)"
  "dd_get_protocol unsupported_delegate d = (status_unsupported, d)"
  "dd_set_protocol unsupported_delegate mode d = (status_unsupported, d)"
  by (simp_all add: unsupported_delegate_def default_delegate_def)

lemma encode_handshake:
  "h \<le> 15 \<Longrightarrow> encode_control br (Handshake h)
     = (if br_control_peer_mtu br = 0 then Inl (PeerMtuExceeded ControlChannel 1 0) else Inr [h])"
  using message_encodes [of "Handshake h"]
  by (simp add: encode_control_def check_peer_mtu_def header_byte_def)

lemma runtime_unchanged [simp]: "r\<lparr>rt_delegate := ()\<rparr> = r" for r :: "unit device_runtime"
  by (cases r) simp

text \<open>What the application and the peer see of one message: the contract of \<^verbatim>\<open>handle\<close>.\<close>

fun bridge_spec :: "hid_channel \<Rightarrow> hidp_message \<Rightarrow> (hidp_bridge_event list, hidp_bridge_error) result" where
  "bridge_spec ch (Data rt dat) = Inr [if rt = OUTPUT_REPORT then Output ch dat else BridgeUnsupported ch]"
| "bridge_spec InterruptChannel m = Inr [BridgeUnsupported InterruptChannel]"
| "bridge_spec ControlChannel (Control c) =
     Inr [if c = CC_SUSPEND then BridgeSuspend else if c = CC_EXIT_SUSPEND then BridgeResume
          else if c = CC_VIRTUAL_CABLE_UNPLUG then BridgeVirtualCableUnplug
          else BridgeUnsupported ControlChannel]"
| "bridge_spec ControlChannel (SetReport rt dat) =
     (if dat = [] then Inl (Malformed ControlChannel) else Inr [ControlResponse [HS_ERR_UNSUPPORTED_REQUEST]])"
| "bridge_spec ControlChannel (Handshake h) =
     Inr [BridgeUnsupported ControlChannel, ControlResponse [HS_ERR_UNSUPPORTED_REQUEST]]"
| "bridge_spec ControlChannel (UnknownMessage t p dat) =
     Inr [BridgeUnsupported ControlChannel, ControlResponse [HS_ERR_UNSUPPORTED_REQUEST]]"
| "bridge_spec ControlChannel m = Inr [ControlResponse [HS_ERR_UNSUPPORTED_REQUEST]]"

lemma bridge_handle_control:
  assumes "message_from_bytes b = Inr m" "0 < br_control_peer_mtu br"
  shows "bridge_handle ControlChannel b br = (bridge_spec ControlChannel m, br)"
  using assms
  by (cases m) (auto simp: bridge_handle_def device_handle_control_def encode_handshake
      get_report_response_def set_report_handshake_def split: list.split)

lemma bridge_handle_interrupt:
  assumes "message_from_bytes b = Inr m"
  shows "bridge_handle InterruptChannel b br = (bridge_spec InterruptChannel m, br)"
  using assms by (cases m) (simp_all add: bridge_handle_def device_handle_interrupt_def)

lemma bridge_handle_malformed:
  "message_from_bytes b = Inl err \<Longrightarrow> bridge_handle ch b br = (Inl (Malformed ch), br)"
  by (cases ch) (simp_all add: bridge_handle_def device_handle_interrupt_def device_handle_control_def)

section \<open>Properties\<close>

text \<open>
  C31: the bridge implements its contract. As long as the control channel can carry one byte, every input
  on either channel has exactly the effect \<open>bridge_spec\<close> gives for the message it decodes to, bytes that
  are no message are reported as malformed on their channel, no answer is ever too long or fails to
  encode, and the bridge itself does not change.
\<close>

theorem bridge_refines_spec:
  assumes "0 < br_control_peer_mtu br"
  shows "bridge_handle ch b br
    = (case message_from_bytes b of Inl _ \<Rightarrow> Inl (Malformed ch) | Inr m \<Rightarrow> bridge_spec ch m, br)"
  using assms
  by (cases "message_from_bytes b"; cases ch)
    (simp_all add: bridge_handle_malformed bridge_handle_control bridge_handle_interrupt)

theorem bridge_refines_spec_witness:
  "bridge_handle ControlChannel [0x71] (bridge_new 48 48) = (Inr [ControlResponse [3]], bridge_new 48 48)"
  using bridge_refines_spec [of "bridge_new 48 48" ControlChannel "[0x71]"]
  by (simp add: bridge_new_def message_from_bytes_def drop_bit_eq_div exact_empty_def)

text \<open>
  reports cross between device and host. An input report that fits the interrupt MTU with its header
  is encoded to bytes that the host side reads as that input report, and is otherwise refused with its
  exact length; output data the host sends reaches the application unchanged from either channel.
\<close>

theorem hid_report_exchange:
  "(case encode_input br payload of
      Inl err \<Rightarrow> br_interrupt_peer_mtu br \<le> length payload
        \<and> err = PeerMtuExceeded InterruptChannel (length payload + 1) (br_interrupt_peer_mtu br)
    | Inr b \<Rightarrow> length b \<le> br_interrupt_peer_mtu br
        \<and> host_handle_interrupt b = Inr (HostInterruptData INPUT_REPORT payload))
   \<and> (case message_to_bytes (host_send_data dat) of
      Inl _ \<Rightarrow> False
    | Inr b \<Rightarrow> bridge_handle ch b br = (Inr [Output ch dat], br))"
proof
  have wf: "message_wf (device_data payload)" "message_wf (host_send_data dat)"
    by (simp_all add: device_data_def host_send_data_def)
  note enc = message_encodes [OF wf(1)] message_encodes [OF wf(2)]
  note dec = message_dec_enc [OF wf(1) enc(1)] message_dec_enc [OF wf(2) enc(2)]
  show "case encode_input br payload of
      Inl err \<Rightarrow> br_interrupt_peer_mtu br \<le> length payload
        \<and> err = PeerMtuExceeded InterruptChannel (length payload + 1) (br_interrupt_peer_mtu br)
    | Inr b \<Rightarrow> length b \<le> br_interrupt_peer_mtu br
        \<and> host_handle_interrupt b = Inr (HostInterruptData INPUT_REPORT payload)"
    unfolding encode_input_def enc check_peer_mtu_def
    using dec(1) by (auto simp: device_data_def host_handle_interrupt_def)
  have "bridge_handle ch (header_byte (message_type (host_send_data dat))
      (fst (message_fields (host_send_data dat))) # snd (message_fields (host_send_data dat))) br
    = (Inr [Output ch dat], br)"
    using dec(2) by (cases ch) (simp_all add: bridge_handle_def device_handle_interrupt_def
        device_handle_control_def host_send_data_def)
  then show "case message_to_bytes (host_send_data dat) of
      Inl _ \<Rightarrow> False | Inr b \<Rightarrow> bridge_handle ch b br = (Inr [Output ch dat], br)"
    by (simp add: enc)
qed

end
