(* ===== verification/Sdp_Data.thy ===== *)
theory Sdp_Data
  imports Interfaces Values
begin

text \<open>
  The data elements of \<^verbatim>\<open>src/src/sdp/mod.rs\<close>: the self-describing type-length-value format of service
  records, its encoder, the recursive-descent parser with its nesting limit, and service attributes.

  A Rust \<^verbatim>\<open>u128\<close> is a 128-bit word, an \<^verbatim>\<open>i128\<close> an \<open>int\<close> in its range, a \<^verbatim>\<open>String\<close> the list of its UTF-8 bytes.
\<close>

section \<open>Elements and their encoding\<close>

type_synonym u128 = "128 word"

text \<open>
  The messages carry their template and the numbers they print. The last constructor is not a value of
  the code: it stands for a parser that does not advance, which the code would loop on.
\<close>

datatype sdp_error =
    SdpInvalidPacket string "int list"
  | SdpInvalidArgument string "int list"
  | SdpStuck

abbreviation (input) SDP_MAX_NESTING :: nat where "SDP_MAX_NESTING \<equiv> 32"
abbreviation (input) TC_NIL :: u8 where "TC_NIL \<equiv> 0"
abbreviation (input) TC_UNSIGNED_INTEGER :: u8 where "TC_UNSIGNED_INTEGER \<equiv> 1"
abbreviation (input) TC_SIGNED_INTEGER :: u8 where "TC_SIGNED_INTEGER \<equiv> 2"
abbreviation (input) TC_UUID :: u8 where "TC_UUID \<equiv> 3"
abbreviation (input) TC_TEXT_STRING :: u8 where "TC_TEXT_STRING \<equiv> 4"
abbreviation (input) TC_BOOLEAN :: u8 where "TC_BOOLEAN \<equiv> 5"
abbreviation (input) TC_SEQUENCE :: u8 where "TC_SEQUENCE \<equiv> 6"
abbreviation (input) TC_ALTERNATIVE :: u8 where "TC_ALTERNATIVE \<equiv> 7"
abbreviation (input) TC_URL :: u8 where "TC_URL \<equiv> 8"

datatype data_element =
    NilElement
  | UnsignedInteger u128 u8
  | SignedInteger int u8
  | UuidElement bluetooth_uuid
  | TextString bytes
  | BooleanElement bool
  | Sequence "data_element list"
  | Alternative "data_element list"
  | UrlElement bytes

fun type_code :: "data_element \<Rightarrow> u8" where
  "type_code NilElement = TC_NIL"
| "type_code (UnsignedInteger _ _) = TC_UNSIGNED_INTEGER"
| "type_code (SignedInteger _ _) = TC_SIGNED_INTEGER"
| "type_code (UuidElement _) = TC_UUID"
| "type_code (TextString _) = TC_TEXT_STRING"
| "type_code (BooleanElement _) = TC_BOOLEAN"
| "type_code (Sequence _) = TC_SEQUENCE"
| "type_code (Alternative _) = TC_ALTERNATIVE"
| "type_code (UrlElement _) = TC_URL"

definition unsigned_integer_8 :: "u8 \<Rightarrow> data_element" where
  "unsigned_integer_8 v = UnsignedInteger (ucast v) 1"

definition unsigned_integer_16 :: "u16 \<Rightarrow> data_element" where
  "unsigned_integer_16 v = UnsignedInteger (ucast v) 2"

definition unsigned_integer_32 :: "u32 \<Rightarrow> data_element" where
  "unsigned_integer_32 v = UnsignedInteger (ucast v) 4"

definition signed_integer_8 :: "8 word \<Rightarrow> data_element" where
  "signed_integer_8 v = SignedInteger (sint v) 1"

definition signed_integer_16 :: "16 word \<Rightarrow> data_element" where
  "signed_integer_16 v = SignedInteger (sint v) 2"

definition signed_integer_32 :: "32 word \<Rightarrow> data_element" where
  "signed_integer_32 v = SignedInteger (sint v) 4"

definition fixed_size_index :: "nat \<Rightarrow> (u8, sdp_error) result" where
  "fixed_size_index n =
     (if n \<le> 1 then Inr 0 else if n = 2 then Inr 1 else if n = 4 then Inr 2
      else if n = 8 then Inr 3 else if n = 16 then Inr 4
      else Inl (SdpInvalidArgument ''invalid data size {size}'' [int n]))"

definition variable_size_header :: "nat \<Rightarrow> (u8 \<times> bytes, sdp_error) result" where
  "variable_size_header n =
     (if n \<le> 0xFF then Inr (5, [of_nat n])
      else if n \<le> 0xFFFF then Inr (6, to_be_bytes 2 (of_nat n :: u16))
      else if n \<le> 0xFFFFFFFF then Inr (7, to_be_bytes 4 (of_nat n :: u32))
      else Inl (SdpInvalidArgument ''invalid data size {size}'' [int n]))"

definition valid_integer_size :: "u8 \<Rightarrow> bool" where
  "valid_integer_size n \<longleftrightarrow> n \<in> {1, 2, 4, 8, 16}"

definition unsigned_to_bytes :: "u128 \<Rightarrow> u8 \<Rightarrow> (bytes, sdp_error) result" where
  "unsigned_to_bytes v n =
     (if \<not> valid_integer_size n then Inl (SdpInvalidArgument ''invalid value_size {other}'' [uint n])
      else let start = 16 - unat n; whole = to_be_bytes 16 v in
        if list_ex (\<lambda>b. b \<noteq> 0) (take start whole)
        then Inl (SdpInvalidArgument ''value {value} does not fit in {size} bytes'' [uint v, uint n])
        else Inr (drop start whole))"

definition signed_to_bytes :: "int \<Rightarrow> u8 \<Rightarrow> (bytes, sdp_error) result" where
  "signed_to_bytes v n =
     (if \<not> valid_integer_size n then Inl (SdpInvalidArgument ''invalid value_size {other}'' [uint n])
      else let bits = unat n * 8 in
        if bits < 128 \<and> (v < - (2 ^ (bits - 1)) \<or> v > 2 ^ (bits - 1) - 1)
        then Inl (SdpInvalidArgument ''value {value} does not fit in {size} bytes'' [v, uint n])
        else Inr (drop (16 - unat n) (to_be_bytes 16 (word_of_int v :: u128))))"

text \<open>Header, explicit size and value of an element whose value bytes are known.\<close>

definition frame_element :: "data_element \<Rightarrow> bytes \<Rightarrow> (bytes, sdp_error) result" where
  "frame_element e dat =
     res_bind (case e of
         NilElement \<Rightarrow> Inr (0, [])
       | BooleanElement _ \<Rightarrow> Inr (0, [])
       | UnsignedInteger _ _ \<Rightarrow> res_bind (fixed_size_index (length dat)) (\<lambda>i. Inr (i, []))
       | SignedInteger _ _ \<Rightarrow> res_bind (fixed_size_index (length dat)) (\<lambda>i. Inr (i, []))
       | UuidElement _ \<Rightarrow> res_bind (fixed_size_index (length dat)) (\<lambda>i. Inr (i, []))
       | _ \<Rightarrow> variable_size_header (length dat))
     (\<lambda>(size_index, size_bytes).
       Inr ((push_bit 3 (type_code e) OR size_index) # size_bytes @ dat))"

fun value_bytes :: "data_element \<Rightarrow> (bytes, sdp_error) result"
  and elements_to_bytes :: "data_element list \<Rightarrow> (bytes, sdp_error) result" where
  "value_bytes NilElement = Inr []"
| "value_bytes (UnsignedInteger v n) = unsigned_to_bytes v n"
| "value_bytes (SignedInteger v n) = signed_to_bytes v n"
| "value_bytes (UuidElement u) = Inr (rev (uuid_to_bytes u False))"
| "value_bytes (TextString b) = Inr b"
| "value_bytes (BooleanElement b) = Inr [if b then 1 else 0]"
| "value_bytes (Sequence es) = elements_to_bytes es"
| "value_bytes (Alternative es) = elements_to_bytes es"
| "value_bytes (UrlElement b) = Inr b"
| "elements_to_bytes [] = Inr []"
| "elements_to_bytes (e # es) =
     res_bind (res_bind (value_bytes e) (frame_element e)) (\<lambda>b.
     res_bind (elements_to_bytes es) (\<lambda>bs. Inr (b @ bs)))"

definition element_to_bytes :: "data_element \<Rightarrow> (bytes, sdp_error) result" where
  "element_to_bytes e = res_bind (value_bytes e) (frame_element e)"

section \<open>The parser\<close>

text \<open>\<^verbatim>\<open>String::from_utf8\<close>: the well-formed UTF-8 byte sequences.\<close>

definition utf8_tail :: "u8 \<Rightarrow> bool" where
  "utf8_tail b \<longleftrightarrow> 0x80 \<le> b \<and> b \<le> 0xBF"

fun utf8_valid :: "bytes \<Rightarrow> bool" where
  "utf8_valid [] \<longleftrightarrow> True"
| "utf8_valid (a # rest) \<longleftrightarrow>
     (if a \<le> 0x7F then utf8_valid rest
      else case rest of
        b # rest2 \<Rightarrow>
          if 0xC2 \<le> a \<and> a \<le> 0xDF then utf8_tail b \<and> utf8_valid rest2
          else (case rest2 of
            c # rest3 \<Rightarrow>
              if 0xE0 \<le> a \<and> a \<le> 0xEF
              then utf8_tail b \<and> utf8_tail c \<and> (a = 0xE0 \<longrightarrow> 0xA0 \<le> b) \<and> (a = 0xED \<longrightarrow> b \<le> 0x9F)
                \<and> utf8_valid rest3
              else (case rest3 of
                d # rest4 \<Rightarrow> 0xF0 \<le> a \<and> a \<le> 0xF4 \<and> utf8_tail b \<and> utf8_tail c \<and> utf8_tail d
                  \<and> (a = 0xF0 \<longrightarrow> 0x90 \<le> b) \<and> (a = 0xF4 \<longrightarrow> b \<le> 0x8F) \<and> utf8_valid rest4
              | [] \<Rightarrow> False)
          | [] \<Rightarrow> False)
      | [] \<Rightarrow> False)"

definition be_to_u128 :: "bytes \<Rightarrow> u128" where
  "be_to_u128 b = foldl (\<lambda>acc x. push_bit 8 acc OR ucast x) 0 b"

definition be_to_i128 :: "bytes \<Rightarrow> int" where
  "be_to_i128 b =
     (case b of [] \<Rightarrow> 0
      | x # _ \<Rightarrow> sint (foldl (\<lambda>acc y. push_bit 8 acc OR ucast y)
          (if x AND 0x80 \<noteq> 0 then - 1 else 0 :: u128) b))"

definition read_be_u16 :: "bytes \<Rightarrow> nat \<Rightarrow> (u16, sdp_error) result" where
  "read_be_u16 dat offset =
     (if offset + 2 \<le> length dat then Inr (from_be_bytes (take 2 (drop offset dat)))
      else Inl (SdpInvalidPacket ''truncated 2-byte size'' []))"

definition read_be_u32 :: "bytes \<Rightarrow> nat \<Rightarrow> (u32, sdp_error) result" where
  "read_be_u32 dat offset =
     (if offset + 4 \<le> length dat then Inr (from_be_bytes (take 4 (drop offset dat)))
      else Inl (SdpInvalidPacket ''truncated 4-byte size'' []))"

text \<open>The size of the value and the position of its first byte.\<close>

definition parse_size :: "bytes \<Rightarrow> u8 \<Rightarrow> u8 \<Rightarrow> nat \<Rightarrow> (nat \<times> nat, sdp_error) result" where
  "parse_size dat element_type size_index pos =
     (if size_index = 0 then Inr (if element_type = TC_NIL then 0 else 1, pos)
      else if size_index = 1 then Inr (2, pos)
      else if size_index = 2 then Inr (4, pos)
      else if size_index = 3 then Inr (8, pos)
      else if size_index = 4 then Inr (16, pos)
      else if size_index = 5 then
        if pos < length dat then Inr (unat (dat ! pos), pos + 1)
        else Inl (SdpInvalidPacket ''truncated 1-byte size'' [])
      else if size_index = 6 then res_bind (read_be_u16 dat pos) (\<lambda>s. Inr (unat s, pos + 2))
      else res_bind (read_be_u32 dat pos) (\<lambda>s. Inr (unat s, pos + 4)))"

text \<open>
  The loop over the children of a container. The code's child parser always advances; the branch that
  reports \<open>SdpStuck\<close> is the case in which it would not, and makes the recursion well founded.
\<close>

function parse_children ::
  "(nat \<Rightarrow> (nat \<times> data_element, sdp_error) result) \<Rightarrow> nat \<Rightarrow> nat \<Rightarrow> (data_element list, sdp_error) result"
where
  "parse_children child inner fin =
     (if inner < fin then
        (case child inner of
           Inl err \<Rightarrow> Inl err
         | Inr (nxt, e) \<Rightarrow>
             if nxt \<le> inner then Inl SdpStuck
             else res_bind (parse_children child nxt fin) (\<lambda>es. Inr (e # es)))
      else if inner \<noteq> fin then Inl (SdpInvalidPacket ''container elements overran their length'' [])
      else Inr [])"
  by pat_completeness auto
termination
  by (relation "measure (\<lambda>(child, inner, fin). fin - inner)") auto

declare parse_children.simps [simp del]

definition parse_container ::
  "(nat \<Rightarrow> (nat \<times> data_element, sdp_error) result) option \<Rightarrow> nat \<Rightarrow> nat \<Rightarrow> (data_element list, sdp_error) result"
where
  "parse_container child value_start value_end = (case child of
     None \<Rightarrow> Inl (SdpInvalidPacket ''nesting exceeds max depth ({MAX_NESTING})'' [32])
   | Some parse \<Rightarrow> parse_children parse value_start value_end)"

definition parse_value ::
  "(nat \<Rightarrow> (nat \<times> data_element, sdp_error) result) option \<Rightarrow> bytes \<Rightarrow> u8 \<Rightarrow> nat \<Rightarrow> nat \<Rightarrow>
   (data_element, sdp_error) result" where
  "parse_value child dat element_type value_start value_size =
     (let v = take value_size (drop value_start dat); value_end = value_start + value_size in
      if element_type = TC_NIL then Inr NilElement
      else if element_type = TC_UNSIGNED_INTEGER
        then Inr (UnsignedInteger (be_to_u128 v) (of_nat value_size))
      else if element_type = TC_SIGNED_INTEGER
        then Inr (SignedInteger (be_to_i128 v) (of_nat value_size))
      else if element_type = TC_UUID then
        (case uuid_from_le_bytes (rev v) of
           Inl _ \<Rightarrow> Inl (SdpInvalidPacket ''bad UUID: expected 2, 4, or 16 bytes, got {length}'' [int (length v)])
         | Inr u \<Rightarrow> Inr (UuidElement u))
      else if element_type = TC_TEXT_STRING then Inr (TextString v)
      else if element_type = TC_BOOLEAN then Inr (BooleanElement (case v of x # _ \<Rightarrow> x = 1 | [] \<Rightarrow> False))
      else if element_type = TC_SEQUENCE
        then res_bind (parse_container child value_start value_end) (\<lambda>es. Inr (Sequence es))
      else if element_type = TC_ALTERNATIVE
        then res_bind (parse_container child value_start value_end) (\<lambda>es. Inr (Alternative es))
      else if element_type = TC_URL then
        if utf8_valid v then Inr (UrlElement v) else Inl (SdpInvalidPacket ''bad URL utf-8'' [])
      else Inl (SdpInvalidPacket ''unsupported data element type {other}'' [uint element_type]))"

definition parse_element ::
  "(nat \<Rightarrow> (nat \<times> data_element, sdp_error) result) option \<Rightarrow> bytes \<Rightarrow> nat \<Rightarrow>
   (nat \<times> data_element, sdp_error) result" where
  "parse_element child dat offset =
     (if offset \<ge> length dat
      then Inl (SdpInvalidPacket ''offset {offset} exceeds len {}'' [int offset, int (length dat)])
      else let header = dat ! offset; element_type = drop_bit 3 header; size_index = header AND 7 in
        res_bind (parse_size dat element_type size_index (offset + 1)) (\<lambda>(value_size, value_start).
        if value_start + value_size > length dat
        then Inl (SdpInvalidPacket ''element value ({value_size} bytes at {value_start}) runs past end''
          [int value_size, int value_start])
        else res_bind (parse_value child dat element_type value_start value_size) (\<lambda>e.
          Inr (value_start + value_size, e))))"

text \<open>\<^verbatim>\<open>parse_at(offset, depth)\<close> with \<open>MAX_NESTING - depth\<close> levels left for containers.\<close>

primrec parse_at :: "nat \<Rightarrow> bytes \<Rightarrow> nat \<Rightarrow> (nat \<times> data_element, sdp_error) result" where
  "parse_at 0 dat = parse_element None dat"
| "parse_at (Suc levels) dat = parse_element (Some (parse_at levels dat)) dat"

definition parse_from_bytes :: "bytes \<Rightarrow> nat \<Rightarrow> (nat \<times> data_element, sdp_error) result" where
  "parse_from_bytes dat offset = parse_at SDP_MAX_NESTING dat offset"

definition element_from_bytes :: "bytes \<Rightarrow> (data_element, sdp_error) result" where
  "element_from_bytes dat = res_bind (parse_from_bytes dat 0) (\<lambda>r. Inr (snd r))"

section \<open>Service attributes\<close>

record service_attribute =
  sa_id :: u16
  sa_value :: data_element

definition list_to_data_element :: "service_attribute list \<Rightarrow> data_element" where
  "list_to_data_element attributes =
     Sequence (concat (map (\<lambda>a. [unsigned_integer_16 (sa_id a), sa_value a]) attributes))"

fun list_from_data_elements :: "data_element list \<Rightarrow> service_attribute list" where
  "list_from_data_elements (k # v # es) =
     (case k of UnsignedInteger n _ \<Rightarrow> [\<lparr>sa_id = ucast n, sa_value = v\<rparr>] | _ \<Rightarrow> [])
       @ list_from_data_elements es"
| "list_from_data_elements _ = []"

definition find_attribute :: "service_attribute list \<Rightarrow> u16 \<Rightarrow> data_element option" where
  "find_attribute attributes i = map_option sa_value (find (\<lambda>a. sa_id a = i) attributes)"

fun is_uuid_in_value :: "bluetooth_uuid \<Rightarrow> data_element \<Rightarrow> bool" where
  "is_uuid_in_value u (UuidElement candidate) \<longleftrightarrow> uuid_eq candidate u"
| "is_uuid_in_value u (Sequence es) \<longleftrightarrow> list_ex (is_uuid_in_value u) es"
| "is_uuid_in_value u _ \<longleftrightarrow> False"

section \<open>Lemmas: integers\<close>

lemma from_le_bytes_zeros: "from_le_bytes (bs @ replicate k 0) = from_le_bytes bs"
proof (induction bs)
  case Nil
  show ?case by (induction k) simp_all
qed simp

lemma take_to_le_bytes: "k \<le> n \<Longrightarrow> take k (to_le_bytes n w) = to_le_bytes k w"
  by (simp add: to_le_bytes_def take_map)

lemma drop_to_be_bytes: "k \<le> n \<Longrightarrow> drop (n - k) (to_be_bytes n w) = to_be_bytes k w"
  by (simp add: to_be_bytes_def drop_rev take_to_le_bytes)

lemma fold_be:
  "foldl (\<lambda>acc x. push_bit 8 acc OR ucast x) a bs = push_bit (8 * length bs) a OR from_be_bytes bs"
proof (induction bs rule: rev_induct)
  case (snoc x bs)
  then show ?case
    by (simp add: from_be_bytes_def) (intro bit_word_eqI, auto simp: bit_simps algebra_simps)
qed (simp add: from_be_bytes_def)

lemma be_to_u128_eq: "be_to_u128 bs = from_be_bytes bs"
  by (simp add: be_to_u128_def fold_be)

lemma valid_size_nat: "valid_integer_size n \<Longrightarrow> unat n \<in> {1, 2, 4, 8, 16} \<and> of_nat (unat n) = n"
  by (auto simp: valid_integer_size_def)

lemma unsigned_decodes:
  assumes "unsigned_to_bytes v n = Inr b"
  shows "be_to_u128 b = v" "length b = unat n" "valid_integer_size n"
proof -
  let ?k = "16 - unat n"
  from assms have n: "valid_integer_size n" and b: "b = drop ?k (to_be_bytes 16 v)"
    and zero: "\<forall>x \<in> set (take ?k (to_be_bytes 16 v)). x = 0"
    by (auto simp: unsigned_to_bytes_def Let_def list_ex_iff split: if_splits)
  then show "length b = unat n" "valid_integer_size n" using valid_size_nat [OF n] by auto
  have "take ?k (to_be_bytes 16 v) = replicate ?k 0"
    using zero by (intro replicate_eqI) simp_all
  then have "to_be_bytes 16 v = replicate ?k 0 @ b"
    using append_take_drop_id [of ?k "to_be_bytes 16 v"] b by simp
  then have "(from_be_bytes (to_be_bytes 16 v) :: u128) = from_be_bytes b"
    by (simp add: from_be_bytes_def from_le_bytes_zeros)
  then show "be_to_u128 b = v" by (simp add: be_to_u128_eq)
qed

lemma top_byte: "0 < k \<Longrightarrow> hd (to_be_bytes k w) = ucast (drop_bit (8 * (k - 1)) w)"
  by (simp add: to_be_bytes_def hd_rev to_le_bytes_def last_map)

lemma sign_bit_byte: "(x :: u8) AND 0x80 \<noteq> 0 \<longleftrightarrow> bit x 7"
  using bit_iff_and_push_bit_not_eq_0 [of x 7] by (simp add: push_bit_eq_mult)

lemma sign_extended:
  assumes "0 < k" "k \<le> 16" "- (2 ^ (8 * k - 1)) \<le> v" "v < 2 ^ (8 * k - 1)"
  shows "be_to_i128 (to_be_bytes k (word_of_int v :: u128)) = v"
proof -
  let ?w = "word_of_int v :: u128" and ?m = "8 * k - 1"
  have v: "signed_take_bit ?m v = v" using assms by (simp add: signed_take_bit_int_eq_self)
  have vbit: "bit v i \<longleftrightarrow> bit v (min ?m i)" for i
    using bit_signed_take_bit_iff [of ?m v i] v by simp
  obtain x xs where x: "to_be_bytes k ?w = x # xs" "x = ucast (drop_bit (8 * (k - 1)) ?w)"
    using assms(1) top_byte [of k ?w] by (cases "to_be_bytes k ?w") (auto dest: arg_cong [of _ _ length])
  have pos: "8 * (k - 1) + 7 = ?m" and lt: "?m < LENGTH(128)" using assms(1,2) by simp_all
  have "bit (ucast (drop_bit (8 * (k - 1)) ?w) :: u8) 7 = bit ?w (8 * (k - 1) + 7)"
    by (simp add: bit_ucast_iff bit_drop_bit_eq)
  also have "\<dots> = bit v ?m" unfolding pos using lt by (simp only: bit_word_of_int_iff) simp
  finally have neg: "x AND 0x80 \<noteq> 0 \<longleftrightarrow> bit v ?m" unfolding sign_bit_byte x(2) .
  have ext: "push_bit (8 * k) (if x AND 0x80 \<noteq> 0 then - 1 else 0 :: u128) OR take_bit (8 * k) ?w = ?w"
  proof (rule bit_word_eqI)
    fix i assume "i < LENGTH(128)"
    then show "bit (push_bit (8 * k) (if x AND 0x80 \<noteq> 0 then - 1 else 0 :: u128) OR take_bit (8 * k) ?w) i = bit ?w i"
      using neg vbit [of i] by (cases "i < 8 * k") (auto simp: bit_simps min_def)
  qed
  have low: "from_be_bytes (to_be_bytes k ?w) = take_bit (8 * k) ?w"
    by (simp add: from_be_bytes_def to_be_bytes_def from_le_to_le_take)
  have "(2 :: int) ^ ?m \<le> 2 ^ 127" using assms(2) by (intro power_increasing) simp_all
  then have full: "signed_take_bit 127 v = v"
    using assms(3,4) by (intro signed_take_bit_int_eq_self) linarith+
  have "be_to_i128 (to_be_bytes k ?w) = sint (foldl (\<lambda>acc y. push_bit 8 acc OR ucast y)
      (if x AND 0x80 \<noteq> 0 then - 1 else 0 :: u128) (to_be_bytes k ?w))"
    by (simp only: be_to_i128_def x(1) list.case)
  also have "\<dots> = sint ?w" by (simp only: fold_be low length_to_be_bytes ext)
  also have "\<dots> = v" using full by (simp add: signed_of_int)
  finally show ?thesis .
qed

lemma signed_decodes:
  assumes "signed_to_bytes v n = Inr b" "- (2 ^ 127) \<le> v" "v < 2 ^ 127"
  shows "be_to_i128 b = v" "length b = unat n" "valid_integer_size n"
proof -
  from assms(1) have n: "valid_integer_size n"
    and b: "b = drop (16 - unat n) (to_be_bytes 16 (word_of_int v :: u128))"
    and range: "unat n * 8 < 128 \<Longrightarrow> - (2 ^ (unat n * 8 - 1)) \<le> v \<and> v \<le> 2 ^ (unat n * 8 - 1) - 1"
    by (auto simp: signed_to_bytes_def Let_def not_less split: if_splits)
  from valid_size_nat [OF n] have k: "unat n \<in> {1, 2, 4, 8, 16}" by simp
  then have le: "unat n \<le> 16" "0 < unat n" by auto
  then have b': "b = to_be_bytes (unat n) (word_of_int v :: u128)"
    by (simp add: b drop_to_be_bytes)
  then show "length b = unat n" "valid_integer_size n" using n by simp_all
  have "- (2 ^ (8 * unat n - 1)) \<le> v \<and> v < 2 ^ (8 * unat n - 1)"
    using k range assms(2,3) by (auto simp: mult.commute)
  then show "be_to_i128 b = v" unfolding b' using le by (intro sign_extended) simp_all
qed

section \<open>Lemmas: sizes and headers\<close>

lemma element_header:
  assumes "t \<le> 31" "i \<le> 7"
  shows "drop_bit 3 (push_bit 3 t OR i :: u8) = t" "(push_bit 3 t OR i :: u8) AND 7 = i"
proof -
  from assms have t: "bit t n \<Longrightarrow> n < 5" and i: "bit i n \<Longrightarrow> n < 3" for n
    by (auto simp: word_le_nat_alt intro: small_word_bits [of t 5] small_word_bits [of i 3])
  have seven: "(7 :: u8) = mask 3" by (simp add: mask_eq_exp_minus_1)
  show "drop_bit 3 (push_bit 3 t OR i :: u8) = t" "(push_bit 3 t OR i :: u8) AND 7 = i"
    unfolding seven by (rule bit_word_eqI, force simp: bit_simps dest: t i)+
qed

lemma type_code_le: "type_code e \<le> 31"
  by (cases e) simp_all

lemma fixed_size:
  assumes "fixed_size_index n = Inr i" "0 < n"
  shows "i \<le> 4" "t \<noteq> 0 \<Longrightarrow> parse_size dat t i pos = Inr (n, pos)"
  using assms by (auto simp: fixed_size_index_def parse_size_def split: if_splits)

lemma from_be_of_nat:
  "n < 2 ^ LENGTH('a) \<Longrightarrow> LENGTH('a) \<le> 8 * k \<Longrightarrow>
   unat (from_be_bytes (to_be_bytes k (of_nat n :: 'a::len word)) :: 'a word) = n"
  by (simp add: unat_of_nat take_bit_nat_eq_self)

lemma variable_size:
  assumes "variable_size_header n = Inr (i, sb)"
  shows "5 \<le> i" "i \<le> 7"
    "parse_size (pre @ sb @ post) t i (length pre) = Inr (n, length pre + length sb)"
proof -
  consider (one) "n \<le> 0xFF" "i = 5" "sb = [of_nat n]"
    | (two) "n \<le> 0xFFFF" "i = 6" "sb = to_be_bytes 2 (of_nat n :: u16)"
    | (four) "n \<le> 0xFFFFFFFF" "i = 7" "sb = to_be_bytes 4 (of_nat n :: u32)"
    using assms by (auto simp: variable_size_header_def split: if_splits)
  then have "5 \<le> i \<and> i \<le> 7
    \<and> parse_size (pre @ sb @ post) t i (length pre) = Inr (n, length pre + length sb)"
  proof cases
    case one
    then show ?thesis by (simp add: parse_size_def nth_append)
  next
    case two
    have "read_be_u16 (pre @ sb @ post) (length pre) = Inr (from_be_bytes sb)"
      by (simp add: read_be_u16_def two(3))
    moreover have "unat (from_be_bytes sb :: u16) = n"
      unfolding two(3) using two(1) by (intro from_be_of_nat) simp_all
    ultimately show ?thesis using two(2,3) by (simp add: parse_size_def)
  next
    case four
    have "read_be_u32 (pre @ sb @ post) (length pre) = Inr (from_be_bytes sb)"
      by (simp add: read_be_u32_def four(3))
    moreover have "unat (from_be_bytes sb :: u32) = n"
      unfolding four(3) using four(1) by (intro from_be_of_nat) simp_all
    ultimately show ?thesis using four(2,3) by (simp add: parse_size_def)
  qed
  then show "5 \<le> i" "i \<le> 7"
    "parse_size (pre @ sb @ post) t i (length pre) = Inr (n, length pre + length sb)" by simp_all
qed

definition sized :: "data_element \<Rightarrow> bool" where
  "sized e = (case e of UnsignedInteger _ _ \<Rightarrow> True | SignedInteger _ _ \<Rightarrow> True | UuidElement _ \<Rightarrow> True | _ \<Rightarrow> False)"

text \<open>What the parser reads of the header an encoded element starts with.\<close>

definition header_reads :: "data_element \<Rightarrow> bytes \<Rightarrow> bytes \<Rightarrow> u8 \<Rightarrow> bytes \<Rightarrow> bool" where
  "header_reads e dat b i sb \<longleftrightarrow> b = (push_bit 3 (type_code e) OR i) # sb @ dat \<and> i \<le> 7
     \<and> (\<forall>pre post. parse_size (pre @ b @ post) (type_code e) i (length pre + 1)
          = Inr (length dat, length pre + 1 + length sb))"

lemma header_reads_variable:
  assumes "variable_size_header (length dat) = Inr (i, sb)" "b = (push_bit 3 (type_code e) OR i) # sb @ dat"
  shows "header_reads e dat b i sb"
proof -
  have "parse_size (pre @ b @ post) (type_code e) i (length pre + 1) = Inr (length dat, length pre + 1 + length sb)"
    for pre post
    using variable_size(3) [OF assms(1), of "pre @ [push_bit 3 (type_code e) OR i]" "dat @ post" "type_code e"]
    by (simp add: assms(2))
  then show ?thesis using variable_size(2) [OF assms(1)] assms(2) by (simp add: header_reads_def)
qed

lemma header_reads_fixed:
  assumes "fixed_size_index (length dat) = Inr i" "b = (push_bit 3 (type_code e) OR i) # dat"
    and "sized e" "0 < length dat"
  shows "header_reads e dat b i []"
proof -
  have "type_code e \<noteq> 0" using assms(3) by (cases e) (simp_all add: sized_def)
  moreover have "i \<le> 7" using fixed_size(1) [OF assms(1,4)] by (simp add: word_le_nat_alt)
  ultimately show ?thesis using fixed_size(2) [OF assms(1,4)] assms(2) by (simp add: header_reads_def)
qed

lemma framed_header:
  assumes "frame_element e dat = Inr b"
    and "sized e \<Longrightarrow> 0 < length dat" "e = NilElement \<Longrightarrow> dat = []" "\<And>x. e = BooleanElement x \<Longrightarrow> length dat = 1"
  shows "\<exists>i sb. header_reads e dat b i sb"
proof -
  consider "sized e" | "e = NilElement" | x where "e = BooleanElement x"
    | "\<not> sized e" "e \<noteq> NilElement" "\<forall>x. e \<noteq> BooleanElement x" by blast
  then show ?thesis
  proof cases
    case 1
    then obtain i where "fixed_size_index (length dat) = Inr i" "b = (push_bit 3 (type_code e) OR i) # dat"
      using assms(1) by (cases e) (auto simp: frame_element_def sized_def res_bind_eq_Inr)
    with 1 assms(2) show ?thesis using header_reads_fixed by blast
  next
    case 4
    then obtain i sb where "variable_size_header (length dat) = Inr (i, sb)"
      "b = (push_bit 3 (type_code e) OR i) # sb @ dat"
      using assms(1) by (cases e) (auto simp: frame_element_def sized_def res_bind_eq_Inr)
    then show ?thesis using header_reads_variable by blast
  qed (use assms in \<open>auto simp: frame_element_def header_reads_def parse_size_def
      intro!: exI [of _ 0] exI [of _ "[]"]\<close>)
qed

section \<open>Lemmas: the round trip\<close>

text \<open>The invariants of the Rust types an element is made of, and the nesting of its containers.\<close>

fun element_typed :: "data_element \<Rightarrow> bool" where
  "element_typed (SignedInteger v n) \<longleftrightarrow> - (2 ^ 127) \<le> v \<and> v < 2 ^ 127"
| "element_typed (UuidElement u) \<longleftrightarrow> uuid_wf u"
| "element_typed (UrlElement b) \<longleftrightarrow> utf8_valid b"
| "element_typed (Sequence es) \<longleftrightarrow> list_all element_typed es"
| "element_typed (Alternative es) \<longleftrightarrow> list_all element_typed es"
| "element_typed _ \<longleftrightarrow> True"

fun element_depth :: "data_element \<Rightarrow> nat" where
  "element_depth (Sequence es) = Suc (foldr max (map element_depth es) 0)"
| "element_depth (Alternative es) = Suc (foldr max (map element_depth es) 0)"
| "element_depth _ = 0"

lemma foldr_max_le: "foldr max xs 0 \<le> (n :: nat) \<longleftrightarrow> (\<forall>x \<in> set xs. x \<le> n)"
  by (induction xs) auto

lemma value_bytes_lengths:
  assumes "value_bytes e = Inr dat" "element_typed e"
  shows "sized e \<Longrightarrow> 0 < length dat" "e = NilElement \<Longrightarrow> dat = []" "e = BooleanElement x \<Longrightarrow> length dat = 1"
  using assms unsigned_decodes(2,3) signed_decodes(2,3) valid_size_nat
  by (cases e; fastforce simp: sized_def uuid_to_bytes_def uuid_wf_def)+

definition reads_back :: "nat \<Rightarrow> data_element \<Rightarrow> bool" where
  "reads_back levels e \<longleftrightarrow> (\<forall>b pre post. element_to_bytes e = Inr b \<longrightarrow>
     parse_at levels (pre @ b @ post) (length pre) = Inr (length pre + length b, e))"

lemma element_to_bytes_nonempty: "element_to_bytes e = Inr b \<Longrightarrow> b \<noteq> []"
  by (auto simp: element_to_bytes_def frame_element_def res_bind_eq_Inr)

lemma children_read_back:
  assumes "\<And>e. e \<in> set es \<Longrightarrow> reads_back levels e" "elements_to_bytes es = Inr bs"
  shows "parse_children (parse_at levels (pre @ bs @ post)) (length pre) (length pre + length bs) = Inr es"
  using assms
proof (induction es arbitrary: pre bs)
  case Nil
  then show ?case by (simp add: parse_children.simps)
next
  case (Cons e es)
  then obtain b rest where b: "element_to_bytes e = Inr b" "elements_to_bytes es = Inr rest" "bs = b @ rest"
    by (auto simp: res_bind_eq_Inr element_to_bytes_def)
  then have "parse_children (parse_at levels ((pre @ b) @ rest @ post)) (length (pre @ b))
      (length (pre @ b) + length rest) = Inr es"
    using Cons by (intro Cons.IH) simp_all
  moreover have "parse_at levels (pre @ b @ rest @ post) (length pre) = Inr (length pre + length b, e)"
    using Cons.prems(1) b(1) by (simp add: reads_back_def)
  ultimately show ?case
    using b element_to_bytes_nonempty [OF b(1)]
    by (subst parse_children.simps) (simp add: add.assoc)
qed

definition child_parser :: "nat \<Rightarrow> bytes \<Rightarrow> (nat \<Rightarrow> (nat \<times> data_element, sdp_error) result) option" where
  "child_parser levels dat = (case levels of 0 \<Rightarrow> None | Suc l \<Rightarrow> Some (parse_at l dat))"

lemma parse_at_child: "parse_at levels dat offset = parse_element (child_parser levels dat) dat offset"
  by (cases levels) (simp_all add: child_parser_def)

lemma parse_framed:
  assumes "header_reads e d b i sb"
  shows "parse_at levels (pre @ b @ post) (length pre) =
    res_bind (parse_value (child_parser levels (pre @ b @ post)) (pre @ b @ post) (type_code e)
      (length pre + 1 + length sb) (length d)) (\<lambda>x. Inr (length pre + length b, x))"
proof -
  from assms have b: "b = (push_bit 3 (type_code e) OR i) # sb @ d" "i \<le> 7"
    and size: "parse_size (pre @ b @ post) (type_code e) i (length pre + 1)
      = Inr (length d, length pre + 1 + length sb)"
    unfolding header_reads_def by blast+
  have at: "(pre @ b @ post) ! length pre = push_bit 3 (type_code e) OR i" by (simp add: b(1))
  show ?thesis
    unfolding parse_at_child parse_element_def Let_def at element_header [OF type_code_le b(2)] size
    by (simp add: b(1) add.assoc)
qed

lemma reads_backI:
  assumes "element_typed e"
    and "\<And>d b i sb pre post. value_bytes e = Inr d \<Longrightarrow> header_reads e d b i sb \<Longrightarrow>
      take (length d) (drop (length pre + 1 + length sb) (pre @ b @ post)) = d \<Longrightarrow>
      parse_value (child_parser levels (pre @ b @ post)) (pre @ b @ post) (type_code e)
        (length pre + 1 + length sb) (length d) = Inr e"
  shows "reads_back levels e"
  unfolding reads_back_def
proof (intro allI impI)
  fix b pre post assume "element_to_bytes e = Inr b"
  then obtain d where d: "value_bytes e = Inr d" "frame_element e d = Inr b"
    by (auto simp: element_to_bytes_def res_bind_eq_Inr)
  then obtain i sb where h: "header_reads e d b i sb"
    using framed_header [OF d(2)] value_bytes_lengths [OF d(1) assms(1)] by blast
  then have "b = (push_bit 3 (type_code e) OR i) # sb @ d" by (simp add: header_reads_def)
  then have "take (length d) (drop (length pre + 1 + length sb) (pre @ b @ post)) = d" by simp
  with assms(2) [OF d(1) h] show "parse_at levels (pre @ b @ post) (length pre) = Inr (length pre + length b, e)"
    by (simp add: parse_framed [OF h])
qed

lemma container_reads_back:
  assumes "\<And>e. e \<in> set es \<Longrightarrow> reads_back levels e" "elements_to_bytes es = Inr d"
    and "header_reads c d b i sb"
  shows "parse_container (child_parser (Suc levels) (pre @ b @ post)) (length pre + 1 + length sb)
    (length pre + 1 + length sb + length d) = Inr es"
proof -
  have "pre @ b @ post = (pre @ (push_bit 3 (type_code c) OR i) # sb) @ d @ post"
    using assms(3) by (simp add: header_reads_def)
  then show ?thesis
    using children_read_back [OF assms(1,2), of "pre @ (push_bit 3 (type_code c) OR i) # sb" post]
    by (simp add: parse_container_def child_parser_def add.assoc)
qed

lemma element_reads_back: "element_typed e \<Longrightarrow> element_depth e \<le> levels \<Longrightarrow> reads_back levels e"
proof (induction e arbitrary: levels)
  case (UnsignedInteger v n)
  show ?case
    by (rule reads_backI) (use unsigned_decodes valid_size_nat in \<open>auto simp: parse_value_def\<close>)
next
  case (SignedInteger v n)
  show ?case
    by (rule reads_backI) (use SignedInteger signed_decodes valid_size_nat in \<open>auto simp: parse_value_def\<close>)
next
  case (Sequence es)
  then obtain l where l: "levels = Suc l" "\<And>e. e \<in> set es \<Longrightarrow> reads_back l e"
    by (cases levels) (auto simp: foldr_max_le list_all_iff)
  show ?case
    by (rule reads_backI [OF Sequence.prems(1)])
      (use container_reads_back [OF l(2)] in \<open>simp add: parse_value_def l(1)\<close>)
next
  case (Alternative es)
  then obtain l where l: "levels = Suc l" "\<And>e. e \<in> set es \<Longrightarrow> reads_back l e"
    by (cases levels) (auto simp: foldr_max_le list_all_iff)
  show ?case
    by (rule reads_backI [OF Alternative.prems(1)])
      (use container_reads_back [OF l(2)] in \<open>simp add: parse_value_def l(1)\<close>)
next
  case (UuidElement u)
  show ?case
    by (rule reads_backI) (use UuidElement in \<open>auto simp: parse_value_def uuid_to_bytes_def
        uuid_from_le_bytes_def uuid_wf_def\<close>)
qed (rule reads_backI; auto simp: parse_value_def split: if_splits)+

section \<open>Lemmas: what the parser accepts\<close>

lemma parse_size_position: "parse_size dat t i pos = Inr (n, p) \<Longrightarrow> pos \<le> p"
  by (auto simp: parse_size_def read_be_u16_def read_be_u32_def split: if_splits)

lemma parse_size_not_stuck: "parse_size dat t i pos \<noteq> Inl SdpStuck"
  by (simp add: parse_size_def read_be_u16_def read_be_u32_def)

lemma parse_children_all:
  "(\<And>i n e. child i = Inr (n, e) \<Longrightarrow> P e) \<Longrightarrow> parse_children child inner fin = Inr es \<Longrightarrow> list_all P es"
proof (induction child inner fin arbitrary: es rule: parse_children.induct)
  case (1 child inner fin)
  show ?case
  proof (cases "inner < fin")
    case True
    with "1.prems"(2) obtain n e rest where step: "child inner = Inr (n, e)" "\<not> n \<le> inner"
      "parse_children child n fin = Inr rest" "es = e # rest"
      by (subst (asm) parse_children.simps) (auto simp: res_bind_eq_Inr split: sum.splits if_splits)
    have "list_all P rest"
      by (rule "1.IH" [OF True step(1) refl step(2) "1.prems"(1) step(3)])
    with step "1.prems"(1) show ?thesis by auto
  next
    case False
    with "1.prems"(2) show ?thesis by (subst (asm) parse_children.simps) (auto split: if_splits)
  qed
qed

lemma parse_children_not_stuck:
  "(\<And>i n e. child i = Inr (n, e) \<Longrightarrow> i < n) \<Longrightarrow> (\<And>i. child i \<noteq> Inl SdpStuck)
   \<Longrightarrow> parse_children child inner fin \<noteq> Inl SdpStuck"
proof (induction child inner fin rule: parse_children.induct)
  case (1 child inner fin)
  show ?case
  proof (cases "inner < fin \<and> (\<exists>n e. child inner = Inr (n, e))")
    case True
    then obtain n e where step: "inner < fin" "child inner = Inr (n, e)" by blast
    then have n: "\<not> n \<le> inner" using "1.prems"(1) by fastforce
    moreover have "parse_children child n fin \<noteq> Inl SdpStuck"
      by (rule "1.IH" [OF step refl n]) (fact "1.prems")+
    ultimately show ?thesis
      using step by (subst parse_children.simps) (auto simp: res_bind_def split: sum.split)
  next
    case False
    then show ?thesis
      using "1.prems"(2) [of inner] by (subst parse_children.simps) (auto split: sum.split)
  qed
qed

lemma i128_range: "- (2 ^ 127) \<le> be_to_i128 b \<and> be_to_i128 b < 2 ^ 127"
  using sint_greater_eq [of "w :: u128" for w] sint_less [of "w :: u128" for w]
  by (cases b) (simp_all add: be_to_i128_def)

definition element_ok :: "nat \<Rightarrow> data_element \<Rightarrow> bool" where
  "element_ok levels e \<longleftrightarrow> element_typed e \<and> element_depth e \<le> levels"

definition parser_ok :: "nat \<Rightarrow> (nat \<Rightarrow> (nat \<times> data_element, sdp_error) result) \<Rightarrow> bool" where
  "parser_ok levels parse \<longleftrightarrow> (\<forall>i. parse i \<noteq> Inl SdpStuck)
     \<and> (\<forall>i n e. parse i = Inr (n, e) \<longrightarrow> i < n \<and> element_ok levels e)"

lemma container_ok:
  assumes "list_all (element_ok (levels - 1)) es" "0 < levels"
  shows "element_ok levels (Sequence es)" "element_ok levels (Alternative es)"
proof -
  have "foldr max (map element_depth es) 0 \<le> levels - 1"
    using assms(1) by (auto simp: foldr_max_le list_all_iff element_ok_def)
  then show "element_ok levels (Sequence es)" "element_ok levels (Alternative es)"
    using assms by (auto simp: element_ok_def list_all_iff)
qed

lemma leaf_ok [simp]:
  "element_ok levels NilElement" "element_ok levels (UnsignedInteger v n)" "element_ok levels (TextString b)"
  "element_ok levels (BooleanElement c)" "element_ok levels (UuidElement u) \<longleftrightarrow> uuid_wf u"
  "element_ok levels (UrlElement b) \<longleftrightarrow> utf8_valid b"
  "element_ok levels (SignedInteger i n) \<longleftrightarrow> - (2 ^ 127) \<le> i \<and> i < 2 ^ 127"
  by (simp_all add: element_ok_def)

lemma parse_value_ok:
  assumes "\<And>parse. child = Some parse \<Longrightarrow> 0 < levels \<and> parser_ok (levels - 1) parse"
  shows "parse_value child dat t p n \<noteq> Inl SdpStuck"
    and "parse_value child dat t p n = Inr e \<Longrightarrow> element_ok levels e"
proof -
  have ok: "list_all (element_ok (levels - 1)) es \<and> 0 < levels" if "parse_container child p q = Inr es" for q es
  proof (cases child)
    case (Some parse)
    from assms [OF Some] have P: "\<And>i n e. parse i = Inr (n, e) \<Longrightarrow> element_ok (levels - 1) e"
      by (simp add: parser_ok_def)
    from that Some have "parse_children parse p q = Inr es" by (simp add: parse_container_def)
    then have "list_all (element_ok (levels - 1)) es" by (rule parse_children_all [rotated]) (rule P)
    with assms [OF Some] show ?thesis by blast
  qed (use that in \<open>simp add: parse_container_def\<close>)
  have "parse_container child p q \<noteq> Inl SdpStuck" for q
    using assms parse_children_not_stuck
    by (auto simp: parse_container_def parser_ok_def split: option.split)
  then show "parse_value child dat t p n \<noteq> Inl SdpStuck"
    by (auto simp: parse_value_def Let_def res_bind_def split: sum.split)
  show "parse_value child dat t p n = Inr e \<Longrightarrow> element_ok levels e"
    using ok container_ok i128_range
    by (auto simp: parse_value_def Let_def res_bind_eq_Inr uuid_from_le_bytes_def uuid_wf_def
        split: if_splits sum.splits)
qed

lemma parse_at_ok: "parser_ok levels (parse_at levels dat)"
proof (induction levels)
  case 0
  show ?case
    using parse_value_ok [of None 0] parse_size_position parse_size_not_stuck
    by (fastforce simp: parser_ok_def parse_element_def Let_def res_bind_eq_Inr res_bind_def
        split: sum.splits if_splits)
next
  case (Suc levels)
  show ?case
    using parse_value_ok [of "Some (parse_at levels dat)" "Suc levels"] Suc parse_size_position
      parse_size_not_stuck
    by (fastforce simp: parser_ok_def parse_element_def Let_def res_bind_eq_Inr res_bind_def
        split: sum.splits if_splits)
qed

lemma parse_at_within: "parse_at levels dat i = Inr (n, e) \<Longrightarrow> n \<le> length dat"
  by (auto simp: parse_at_child parse_element_def Let_def res_bind_eq_Inr split: if_splits)

section \<open>The codec as an interface\<close>

definition encodable :: "data_element \<Rightarrow> bool" where
  "encodable e \<longleftrightarrow> element_ok SDP_MAX_NESTING e \<and> (case element_to_bytes e of Inl _ \<Rightarrow> False | Inr _ \<Rightarrow> True)"

definition element_bytes :: "data_element \<Rightarrow> bytes" where
  "element_bytes e = (case element_to_bytes e of Inl _ \<Rightarrow> [] | Inr b \<Rightarrow> b)"

definition element_prefix :: "bytes \<Rightarrow> (data_element \<times> bytes, sdp_error) result" where
  "element_prefix b = res_bind (parse_from_bytes b 0) (\<lambda>(n, e). Inr (e, drop n b))"

lemma encodable_bytes: "encodable e \<longleftrightarrow> element_ok SDP_MAX_NESTING e \<and> element_to_bytes e = Inr (element_bytes e)"
  by (auto simp: encodable_def element_bytes_def split: sum.splits)

lemma parse_encoded:
  "encodable e \<Longrightarrow> parse_from_bytes (pre @ element_bytes e @ post) (length pre)
     = Inr (length pre + length (element_bytes e), e)"
  using element_reads_back [of e 32]
  by (auto simp: encodable_bytes element_ok_def reads_back_def parse_from_bytes_def)

lemma parse_encoded_front:
  "encodable e \<Longrightarrow> parse_from_bytes (element_bytes e @ post) 0 = Inr (length (element_bytes e), e)"
  using parse_encoded [of e "[]"] by simp

interpretation data_elements: stream_codec element_bytes element_prefix encodable
  by unfold_locales (simp add: element_prefix_def parse_encoded_front)

lemma element_from_encoded: "encodable e \<Longrightarrow> element_from_bytes (element_bytes e @ post) = Inr e"
  by (simp add: element_from_bytes_def parse_encoded_front)

text \<open>The signed constructors of fixed width build elements that the encoder accepts and the parser gives back.\<close>

lemma signed_integers_encodable:
  "encodable (signed_integer_8 v8)" "encodable (signed_integer_16 v16)" "encodable (signed_integer_32 v32)"
  using sint_ge [of v8] sint_lt [of v8] sint_ge [of v16] sint_lt [of v16] sint_ge [of v32] sint_lt [of v32]
  by (simp_all add: encodable_def element_ok_def element_to_bytes_def signed_to_bytes_def valid_integer_size_def frame_element_def
      fixed_size_index_def signed_integer_8_def signed_integer_16_def signed_integer_32_def)

lemma signed_integers_read_back:
  "element_from_bytes (element_bytes (signed_integer_8 v8) @ post) = Inr (SignedInteger (sint v8) 1)"
  "element_from_bytes (element_bytes (signed_integer_16 v16) @ post) = Inr (SignedInteger (sint v16) 2)"
  "element_from_bytes (element_bytes (signed_integer_32 v32) @ post) = Inr (SignedInteger (sint v32) 4)"
  using element_from_encoded [OF signed_integers_encodable(1)] element_from_encoded [OF signed_integers_encodable(2)]
    element_from_encoded [OF signed_integers_encodable(3)]
  by (simp_all add: signed_integer_8_def signed_integer_16_def signed_integer_32_def)

lemma attributes_roundtrip:
  "list_from_data_elements (concat (map (\<lambda>a. [unsigned_integer_16 (sa_id a), sa_value a]) attributes)) = attributes"
proof (induction attributes)
  case (Cons a attributes)
  have "(ucast (ucast (sa_id a) :: u128) :: u16) = sa_id a"
    by (rule bit_word_eqI) (simp add: bit_simps)
  with Cons show ?case by (cases a) (simp add: unsigned_integer_16_def)
qed simp

section \<open>Properties\<close>

text \<open>
  C33: data elements survive the wire. Any element the encoder accepts and whose containers nest at most
  32 deep is read back from its bytes wherever they stand in a buffer, with the position just past
  them, for all nine element types, all integer widths and all three explicit size encodings.
\<close>

theorem data_element_roundtrip:
  assumes "element_typed e" "element_depth e \<le> 32" "element_to_bytes e = Inr b"
  shows "parse_from_bytes (pre @ b @ post) (length pre) = Inr (length pre + length b, e)"
  using assms parse_encoded [of e pre post] by (simp add: encodable_bytes element_ok_def element_bytes_def)

theorem data_element_roundtrip_witness:
  "parse_from_bytes ([0xEE] @ [0x35, 7, 0x10, 0xFE, 0x19, 0x11, 0x24, 0x28, 1] @ [0xFF]) (length [0xEE :: u8])
     = Inr (length [0xEE :: u8] + length [0x35, 7, 0x10, 0xFE, 0x19, 0x11, 0x24, 0x28, 1 :: u8],
         Sequence [SignedInteger (- 2) 1, UuidElement (uuid_from_u16 0x1124), BooleanElement True])"
  by (rule data_element_roundtrip)
    (simp_all add: uuid_wf_def uuid_from_u16_def element_to_bytes_def frame_element_def signed_to_bytes_def
      valid_integer_size_def to_be_bytes_def to_le_bytes_def upt_rec [of _ 16] fixed_size_index_def uuid_to_bytes_def
      le16_bytes_def variable_size_header_def drop_bit_eq_div)

text \<open>
  C32: the parser is total and stays inside its buffer. On any bytes and from any offset it ends with an
  error or with an element and a position strictly past the offset and not past the end; no container
  loop ever fails to advance; the element respects the nesting limit and the invariants of its types
  (UUID widths, the range of \<^verbatim>\<open>i128\<close>, UTF-8 in URLs).
\<close>

theorem sdp_parser_sound:
  "case parse_from_bytes dat offset of
     Inl err \<Rightarrow> err \<noteq> SdpStuck
   | Inr (n, e) \<Rightarrow> offset < n \<and> n \<le> length dat \<and> element_typed e \<and> element_depth e \<le> 32"
  using parse_at_ok [of 32 dat] parse_at_within [of 32 dat offset]
  by (auto simp: parse_from_bytes_def parser_ok_def element_ok_def split: sum.split)

end
