(* ===== verification/Sdp_Pdu.thy ===== *)
theory Sdp_Pdu
  imports Sdp_Data
begin

text \<open>
  The seven protocol data units of \<^verbatim>\<open>src/src/sdp/pdu.rs\<close>: their framing, their parameters, and the
  forward-only cursor that reads them back.
\<close>

section \<open>PDUs and their encoding\<close>

abbreviation (input) SDP_ERROR_RESPONSE :: u8 where "SDP_ERROR_RESPONSE \<equiv> 1"
abbreviation (input) SDP_SERVICE_SEARCH_REQUEST :: u8 where "SDP_SERVICE_SEARCH_REQUEST \<equiv> 2"
abbreviation (input) SDP_SERVICE_SEARCH_RESPONSE :: u8 where "SDP_SERVICE_SEARCH_RESPONSE \<equiv> 3"
abbreviation (input) SDP_SERVICE_ATTRIBUTE_REQUEST :: u8 where "SDP_SERVICE_ATTRIBUTE_REQUEST \<equiv> 4"
abbreviation (input) SDP_SERVICE_ATTRIBUTE_RESPONSE :: u8 where "SDP_SERVICE_ATTRIBUTE_RESPONSE \<equiv> 5"
abbreviation (input) SDP_SERVICE_SEARCH_ATTRIBUTE_REQUEST :: u8
  where "SDP_SERVICE_SEARCH_ATTRIBUTE_REQUEST \<equiv> 6"
abbreviation (input) SDP_SERVICE_SEARCH_ATTRIBUTE_RESPONSE :: u8
  where "SDP_SERVICE_SEARCH_ATTRIBUTE_RESPONSE \<equiv> 7"

definition sdp_truncated :: "string \<Rightarrow> sdp_error" where
  "sdp_truncated what = SdpInvalidPacket (''truncated: expected more bytes for '' @ what) []"

datatype sdp_pdu =
    ErrorResponse (transaction_id: u16) (error_code: u16)
  | ServiceSearchRequest (transaction_id: u16) data_element u16 bytes
  | ServiceSearchResponse (transaction_id: u16) u16 "u32 list" bytes
  | ServiceAttributeRequest (transaction_id: u16) u32 u16 data_element bytes
  | ServiceAttributeResponse (transaction_id: u16) bytes bytes
  | ServiceSearchAttributeRequest (transaction_id: u16) data_element u16 data_element bytes
  | ServiceSearchAttributeResponse (transaction_id: u16) bytes bytes

fun pdu_id :: "sdp_pdu \<Rightarrow> u8" where
  "pdu_id (ErrorResponse _ _) = SDP_ERROR_RESPONSE"
| "pdu_id (ServiceSearchRequest _ _ _ _) = SDP_SERVICE_SEARCH_REQUEST"
| "pdu_id (ServiceSearchResponse _ _ _ _) = SDP_SERVICE_SEARCH_RESPONSE"
| "pdu_id (ServiceAttributeRequest _ _ _ _ _) = SDP_SERVICE_ATTRIBUTE_REQUEST"
| "pdu_id (ServiceAttributeResponse _ _ _) = SDP_SERVICE_ATTRIBUTE_RESPONSE"
| "pdu_id (ServiceSearchAttributeRequest _ _ _ _ _) = SDP_SERVICE_SEARCH_ATTRIBUTE_REQUEST"
| "pdu_id (ServiceSearchAttributeResponse _ _ _) = SDP_SERVICE_SEARCH_ATTRIBUTE_RESPONSE"

definition be16 :: "u16 \<Rightarrow> bytes" where "be16 w = to_be_bytes 2 w"
definition be32 :: "u32 \<Rightarrow> bytes" where "be32 w = to_be_bytes 4 w"

fun pdu_parameters :: "sdp_pdu \<Rightarrow> (bytes, sdp_error) result" where
  "pdu_parameters (ErrorResponse _ code) = Inr (le16_bytes code)"
| "pdu_parameters (ServiceSearchRequest _ pattern count cont) =
     res_bind (element_to_bytes pattern) (\<lambda>p. Inr (p @ be16 count @ cont))"
| "pdu_parameters (ServiceSearchResponse _ total_count handles cont) =
     Inr (be16 total_count @ be16 (of_nat (length handles)) @ concat (map be32 handles) @ cont)"
| "pdu_parameters (ServiceAttributeRequest _ handle count ids cont) =
     res_bind (element_to_bytes ids) (\<lambda>i. Inr (be32 handle @ be16 count @ i @ cont))"
| "pdu_parameters (ServiceAttributeResponse _ attrs cont) =
     Inr (be16 (of_nat (length attrs)) @ attrs @ cont)"
| "pdu_parameters (ServiceSearchAttributeRequest _ pattern count ids cont) =
     res_bind (element_to_bytes pattern) (\<lambda>p.
     res_bind (element_to_bytes ids) (\<lambda>i. Inr (p @ be16 count @ i @ cont)))"
| "pdu_parameters (ServiceSearchAttributeResponse _ attrs cont) =
     Inr (be16 (of_nat (length attrs)) @ attrs @ cont)"

definition sdp_pdu_to_bytes :: "sdp_pdu \<Rightarrow> (bytes, sdp_error) result" where
  "sdp_pdu_to_bytes p =
     res_bind (pdu_parameters p) (\<lambda>parameters.
     Inr ([pdu_id p] @ be16 (transaction_id p) @ be16 (of_nat (length parameters)) @ parameters))"

section \<open>The cursor and the decoder\<close>

record cursor =
  cur_data :: bytes
  cur_pos :: nat

type_synonym 'a cursor_action = "(cursor, 'a, sdp_error) action"

definition cursor_new :: "bytes \<Rightarrow> cursor" where
  "cursor_new dat = \<lparr>cur_data = dat, cur_pos = 0\<rparr>"

text \<open>\<^verbatim>\<open>data.get(pos..pos + n)\<close> followed by the advance of the position.\<close>

definition cursor_take :: "nat \<Rightarrow> string \<Rightarrow> bytes cursor_action" where
  "cursor_take n what c =
     (if cur_pos c + n \<le> length (cur_data c)
      then (Inr (take n (drop (cur_pos c) (cur_data c))), c\<lparr>cur_pos := cur_pos c + n\<rparr>)
      else (Inl (sdp_truncated what), c))"

definition cursor_u16 :: "u16 cursor_action" where
  "cursor_u16 = act_bind (cursor_take 2 ''u16'') (\<lambda>s. act_ok (from_be_bytes s))"

definition cursor_u16_le :: "u16 cursor_action" where
  "cursor_u16_le = act_bind (cursor_take 2 ''u16'') (\<lambda>s. act_ok (from_le_bytes s))"

definition cursor_u32 :: "u32 cursor_action" where
  "cursor_u32 = act_bind (cursor_take 4 ''u32'') (\<lambda>s. act_ok (from_be_bytes s))"

definition cursor_data_element :: "data_element cursor_action" where
  "cursor_data_element c = (case parse_from_bytes (cur_data c) (cur_pos c) of
       Inl err \<Rightarrow> (Inl err, c)
     | Inr (nxt, e) \<Rightarrow> (Inr e, c\<lparr>cur_pos := nxt\<rparr>))"

definition cursor_length_prefixed :: "bytes cursor_action" where
  "cursor_length_prefixed =
     act_bind cursor_u16 (\<lambda>n. cursor_take (unat n) ''length-prefixed bytes'')"

definition cursor_rest :: "bytes cursor_action" where
  "cursor_rest c = (Inr (drop (cur_pos c) (cur_data c)), c\<lparr>cur_pos := length (cur_data c)\<rparr>)"

fun cursor_handles :: "nat \<Rightarrow> u32 list cursor_action" where
  "cursor_handles 0 = act_ok []"
| "cursor_handles (Suc n) =
     act_bind cursor_u32 (\<lambda>h. act_bind (cursor_handles n) (\<lambda>hs. act_ok (h # hs)))"

definition decode_parameters :: "u8 \<Rightarrow> u16 \<Rightarrow> sdp_pdu cursor_action" where
  "decode_parameters i tid =
     (if i = SDP_ERROR_RESPONSE then
        act_bind cursor_u16_le (\<lambda>code. act_ok (ErrorResponse tid code))
      else if i = SDP_SERVICE_SEARCH_REQUEST then
        act_bind cursor_data_element (\<lambda>pattern. act_bind cursor_u16 (\<lambda>count.
        act_bind cursor_rest (\<lambda>cont. act_ok (ServiceSearchRequest tid pattern count cont))))
      else if i = SDP_SERVICE_SEARCH_RESPONSE then
        act_bind cursor_u16 (\<lambda>total_count. act_bind cursor_u16 (\<lambda>count.
        act_bind (cursor_handles (unat count)) (\<lambda>handles. act_bind cursor_rest (\<lambda>cont.
        act_ok (ServiceSearchResponse tid total_count handles cont)))))
      else if i = SDP_SERVICE_ATTRIBUTE_REQUEST then
        act_bind cursor_u32 (\<lambda>handle. act_bind cursor_u16 (\<lambda>count.
        act_bind cursor_data_element (\<lambda>ids. act_bind cursor_rest (\<lambda>cont.
        act_ok (ServiceAttributeRequest tid handle count ids cont)))))
      else if i = SDP_SERVICE_ATTRIBUTE_RESPONSE then
        act_bind cursor_length_prefixed (\<lambda>attrs. act_bind cursor_rest (\<lambda>cont.
        act_ok (ServiceAttributeResponse tid attrs cont)))
      else if i = SDP_SERVICE_SEARCH_ATTRIBUTE_REQUEST then
        act_bind cursor_data_element (\<lambda>pattern. act_bind cursor_u16 (\<lambda>count.
        act_bind cursor_data_element (\<lambda>ids. act_bind cursor_rest (\<lambda>cont.
        act_ok (ServiceSearchAttributeRequest tid pattern count ids cont)))))
      else if i = SDP_SERVICE_SEARCH_ATTRIBUTE_RESPONSE then
        act_bind cursor_length_prefixed (\<lambda>attrs. act_bind cursor_rest (\<lambda>cont.
        act_ok (ServiceSearchAttributeResponse tid attrs cont)))
      else act_err (SdpInvalidPacket ''unknown SDP PDU id {other:#04x}'' [uint i]))"

definition sdp_pdu_from_bytes :: "bytes \<Rightarrow> (sdp_pdu, sdp_error) result" where
  "sdp_pdu_from_bytes pdu =
     (if length pdu < 5 then Inl (sdp_truncated ''SDP PDU header'')
      else let tid = from_be_bytes [pdu ! 1, pdu ! 2];
               parameter_length = unat (from_be_bytes [pdu ! 3, pdu ! 4] :: u16) in
        if 5 + parameter_length \<le> length pdu
        then fst (decode_parameters (pdu ! 0) tid
          (cursor_new (take parameter_length (drop 5 pdu))))
        else Inl (sdp_truncated ''SDP PDU parameters''))"

section \<open>Lemmas: what the cursor reads back\<close>

text \<open>A cursor whose unread bytes start with \<open>b\<close> and continue with \<open>r\<close>.\<close>

definition reads :: "'a cursor_action \<Rightarrow> bytes \<Rightarrow> 'a \<Rightarrow> bool" where
  "reads m b x \<longleftrightarrow> (\<forall>pre r. m \<lparr>cur_data = pre @ b @ r, cur_pos = length pre\<rparr>
     = (Inr x, \<lparr>cur_data = pre @ b @ r, cur_pos = length pre + length b\<rparr>))"

lemma reads_bind: "reads m b x \<Longrightarrow> reads (f x) c y \<Longrightarrow> reads (act_bind m f) (b @ c) y"
  unfolding reads_def act_bind_def
proof (intro allI)
  fix pre r
  assume m: "\<forall>pre r. m \<lparr>cur_data = pre @ b @ r, cur_pos = length pre\<rparr>
      = (Inr x, \<lparr>cur_data = pre @ b @ r, cur_pos = length pre + length b\<rparr>)"
    and f: "\<forall>pre r. f x \<lparr>cur_data = pre @ c @ r, cur_pos = length pre\<rparr>
      = (Inr y, \<lparr>cur_data = pre @ c @ r, cur_pos = length pre + length c\<rparr>)"
  show "(case m \<lparr>cur_data = pre @ (b @ c) @ r, cur_pos = length pre\<rparr> of
      (Inl e, s') \<Rightarrow> (Inl e, s') | (Inr x, s') \<Rightarrow> f x s')
    = (Inr y, \<lparr>cur_data = pre @ (b @ c) @ r, cur_pos = length pre + length (b @ c)\<rparr>)"
    using m [rule_format, of pre "c @ r"] f [rule_format, of "pre @ b" r] by (simp add: add.assoc)
qed

lemma reads_ok: "reads (act_ok x) [] x"
  by (simp add: reads_def)

lemma reads_map: "reads m b x \<Longrightarrow> reads (act_bind m (\<lambda>x. act_ok (g x))) b (g x)"
  using reads_bind [of m b x "\<lambda>x. act_ok (g x)" "[]" "g x"] reads_ok [of "g x"] by simp

lemma reads_take: "reads (cursor_take (length b) what) b b"
  by (simp add: reads_def cursor_take_def)

lemma reads_u16: "reads cursor_u16 (be16 w) w"
  using reads_map [OF reads_take [of "be16 w" "''u16''"], of "from_be_bytes :: bytes \<Rightarrow> u16"]
  by (simp add: cursor_u16_def be16_def)

lemma reads_u16_le: "reads cursor_u16_le (le16_bytes w) w"
  using reads_map [OF reads_take [of "le16_bytes w" "''u16''"], of "from_le_bytes :: bytes \<Rightarrow> u16"]
  by (simp add: cursor_u16_le_def le16_bytes_conv)

lemma reads_u32: "reads cursor_u32 (be32 w) w"
  using reads_map [OF reads_take [of "be32 w" "''u32''"], of "from_be_bytes :: bytes \<Rightarrow> u32"]
  by (simp add: cursor_u32_def be32_def)

lemma reads_element: "encodable e \<Longrightarrow> reads cursor_data_element (element_bytes e) e"
  by (simp add: reads_def cursor_data_element_def parse_encoded)

lemma reads_length_prefixed:
  "length b \<le> 65535 \<Longrightarrow> reads cursor_length_prefixed (be16 (of_nat (length b)) @ b) b"
  unfolding cursor_length_prefixed_def
  by (rule reads_bind [OF reads_u16]) (use reads_take [of b] in simp)

lemma reads_handles: "reads (cursor_handles (length hs)) (concat (map be32 hs)) hs"
proof (induction hs)
  case (Cons h hs)
  show ?case
    using reads_bind [of cursor_u32 "be32 h" h "\<lambda>h. act_bind (cursor_handles (length hs)) (\<lambda>hs. act_ok (h # hs))"]
      reads_u32 reads_map [OF Cons, of "\<lambda>hs. h # hs"] by simp
qed (simp only: cursor_handles.simps list.size list.map concat.simps reads_ok)

text \<open>A whole reader over the bytes that are left.\<close>

definition runs_to :: "'a cursor_action \<Rightarrow> bytes \<Rightarrow> 'a \<Rightarrow> bool" where
  "runs_to m b y \<longleftrightarrow> (\<forall>pre. fst (m \<lparr>cur_data = pre @ b, cur_pos = length pre\<rparr>) = Inr y)"

lemma runs_bind: "reads m b x \<Longrightarrow> runs_to (f x) c y \<Longrightarrow> runs_to (act_bind m f) (b @ c) y"
  unfolding runs_to_def
proof
  fix pre assume m: "reads m b x" and f: "\<forall>pre. fst (f x \<lparr>cur_data = pre @ c, cur_pos = length pre\<rparr>) = Inr y"
  show "fst (act_bind m f \<lparr>cur_data = pre @ b @ c, cur_pos = length pre\<rparr>) = Inr y"
    using m [unfolded reads_def, rule_format, of pre c] f [rule_format, of "pre @ b"]
    by (simp add: act_bind_def)
qed

lemma runs_rest: "runs_to (act_bind cursor_rest (\<lambda>c. act_ok (g c))) r (g r)"
  by (simp add: runs_to_def act_bind_def cursor_rest_def)

lemma reads_runs: "reads m b x \<Longrightarrow> runs_to m b x"
  unfolding runs_to_def
proof
  fix pre assume "reads m b x"
  from this [unfolded reads_def, rule_format, of pre "[]"]
  show "fst (m \<lparr>cur_data = pre @ b, cur_pos = length pre\<rparr>) = Inr x" by simp
qed

lemma runs_last: "reads m b x \<Longrightarrow> runs_to (act_bind m (\<lambda>x. act_ok (g x))) b (g x)"
  by (rule reads_runs [OF reads_map])

lemmas reads_fields = reads_u16 reads_u32 reads_element reads_handles reads_length_prefixed

section \<open>Lemmas: PDUs\<close>

fun sdp_pdu_ok :: "sdp_pdu \<Rightarrow> bool" where
  "sdp_pdu_ok (ServiceSearchRequest _ pattern _ _) \<longleftrightarrow> encodable pattern"
| "sdp_pdu_ok (ServiceAttributeRequest _ _ _ ids _) \<longleftrightarrow> encodable ids"
| "sdp_pdu_ok (ServiceSearchAttributeRequest _ pattern _ ids _) \<longleftrightarrow> encodable pattern \<and> encodable ids"
| "sdp_pdu_ok _ \<longleftrightarrow> True"

lemma length_be [simp]: "length (be16 w) = 2" "length (be32 v) = 4"
  by (simp_all add: be16_def be32_def)

lemma length_handles [simp]: "length (concat (map be32 hs)) = 4 * length hs"
  by (induction hs) simp_all

lemma runs_attributes:
  assumes "length attrs \<le> 65535"
  shows "runs_to (act_bind cursor_length_prefixed (\<lambda>a. act_bind cursor_rest (\<lambda>c. act_ok (f a c))))
    (be16 (of_nat (length attrs)) @ attrs @ cont) (f attrs cont)"
  using runs_bind [OF reads_length_prefixed [OF assms], of "\<lambda>a. act_bind cursor_rest (\<lambda>c. act_ok (f a c))" cont
      "f attrs cont"] runs_rest [of "f attrs" cont] by (simp del: act_simps)

lemma parameters_decode:
  assumes "sdp_pdu_ok p" "pdu_parameters p = Inr b" "length b \<le> 65535"
  shows "runs_to (decode_parameters (pdu_id p) (transaction_id p)) b p"
proof (cases p)
  case (ErrorResponse tid code)
  then have "b = le16_bytes code" using assms by simp
  with ErrorResponse show ?thesis
    using runs_last [OF reads_u16_le, of "ErrorResponse tid" code] by (simp add: decode_parameters_def)
next
  case (ServiceSearchRequest tid pattern count cont)
  then have "b = element_bytes pattern @ be16 count @ cont" "encodable pattern"
    using assms by (simp_all add: encodable_bytes)
  then show ?thesis
    by (simp add: ServiceSearchRequest decode_parameters_def runs_bind [OF reads_element]
        runs_bind [OF reads_u16] runs_rest)
next
  case (ServiceSearchResponse tid total_count handles cont)
  have "length handles < 65536" using assms by (auto simp: ServiceSearchResponse)
  then have handles: "reads (cursor_handles (unat (of_nat (length handles) :: u16))) (concat (map be32 handles)) handles"
    using reads_handles [of handles] by simp
  from assms have "b = be16 total_count @ be16 (of_nat (length handles)) @ concat (map be32 handles) @ cont"
    by (simp add: ServiceSearchResponse)
  then show ?thesis
    by (simp add: ServiceSearchResponse decode_parameters_def runs_bind [OF reads_u16] runs_bind [OF handles]
        runs_rest)
next
  case (ServiceAttributeRequest tid handle count ids cont)
  then have "b = be32 handle @ be16 count @ element_bytes ids @ cont" "encodable ids"
    using assms by (simp_all add: encodable_bytes)
  then show ?thesis
    by (simp add: ServiceAttributeRequest decode_parameters_def runs_bind [OF reads_element]
        runs_bind [OF reads_u16] runs_bind [OF reads_u32] runs_rest)
next
  case (ServiceAttributeResponse tid attrs cont)
  with assms show ?thesis
    using runs_attributes [of attrs "ServiceAttributeResponse tid" cont] by (auto simp: decode_parameters_def simp del: act_simps)
next
  case (ServiceSearchAttributeRequest tid pattern count ids cont)
  then have "b = element_bytes pattern @ be16 count @ element_bytes ids @ cont" "encodable ids" "encodable pattern"
    using assms by (simp_all add: encodable_bytes)
  then show ?thesis
    by (simp add: ServiceSearchAttributeRequest decode_parameters_def runs_bind [OF reads_element]
        runs_bind [OF reads_u16] runs_rest)
next
  case (ServiceSearchAttributeResponse tid attrs cont)
  with assms show ?thesis
    using runs_attributes [of attrs "ServiceSearchAttributeResponse tid" cont] by (auto simp: decode_parameters_def simp del: act_simps)
qed

lemma be16_bytes: "be16 w = [ucast (drop_bit 8 w), ucast w]"
  by (simp add: be16_def to_be_bytes_def to_le_bytes_Suc numeral_2_eq_2)

lemma be16_read: "from_be_bytes [ucast (drop_bit 8 w), ucast w] = (w :: u16)"
  using from_be_to_be [of 2 w] by (simp flip: be16_def add: be16_bytes)

lemma sdp_pdu_reads_back:
  assumes "sdp_pdu_ok p" "sdp_pdu_to_bytes p = Inr b" "length b \<le> 65540"
  shows "sdp_pdu_from_bytes (b @ r) = Inr p"
proof -
  from assms(2) obtain ps where ps: "pdu_parameters p = Inr ps"
    and b: "b = [pdu_id p] @ be16 (transaction_id p) @ be16 (of_nat (length ps)) @ ps"
    by (auto simp: sdp_pdu_to_bytes_def res_bind_eq_Inr)
  with assms(3) have len: "length ps \<le> 65535" by simp
  have "runs_to (decode_parameters (pdu_id p) (transaction_id p)) ps p"
    using assms(1) ps len by (rule parameters_decode)
  then have "fst (decode_parameters (pdu_id p) (transaction_id p) (cursor_new ps)) = Inr p"
    unfolding runs_to_def cursor_new_def by (auto dest: spec [of _ "[]"])
  with len show ?thesis
    by (simp add: b sdp_pdu_from_bytes_def be16_bytes be16_read Let_def)
qed

section \<open>Properties\<close>

text \<open>
  SDP PDUs survive the wire. Every PDU whose data elements are encodable and whose encoding fits the
  16-bit parameter length is decoded to itself, whatever bytes follow it in the buffer.
\<close>

theorem sdp_pdu_roundtrip:
  assumes "sdp_pdu_ok p" "sdp_pdu_to_bytes p = Inr b" "length b \<le> 65540"
  shows "sdp_pdu_from_bytes (b @ r) = Inr p"
  using assms by (rule sdp_pdu_reads_back)

theorem sdp_pdu_roundtrip_witness:
  "sdp_pdu_from_bytes ([4, 0, 1, 0, 12, 0, 1, 0, 1, 0xFF, 0xFF, 0x35, 3, 9, 0, 1, 0] @ [9])
     = Inr (ServiceAttributeRequest 1 0x00010001 0xFFFF (Sequence [unsigned_integer_16 1]) [0])"
  by (rule sdp_pdu_roundtrip)
    (simp_all add: encodable_def element_ok_def sdp_pdu_to_bytes_def element_to_bytes_def frame_element_def
      unsigned_integer_16_def unsigned_to_bytes_def valid_integer_size_def to_be_bytes_def to_le_bytes_def
      upt_rec [of _ 16] upt_rec [of _ 4] upt_rec [of _ 2] fixed_size_index_def variable_size_header_def drop_bit_eq_div
      be16_def be32_def)

end
