(* ===== verification/Sdp_Service.thy ===== *)
theory Sdp_Service
  imports Sdp_Pdu
begin

text \<open>
  The service runtime of \<^verbatim>\<open>src/src/sdp/service.rs\<close>: the server that answers queries against its records
  and hands out long answers in chunks, and the client that drives a transport and puts the chunks
  together again.
\<close>

section \<open>The server\<close>

abbreviation (input) INVALID_SERVICE_RECORD_HANDLE :: u16 where "INVALID_SERVICE_RECORD_HANDLE \<equiv> 2"
abbreviation (input) INVALID_REQUEST_SYNTAX :: u16 where "INVALID_REQUEST_SYNTAX \<equiv> 3"
abbreviation (input) INVALID_CONTINUATION_STATE :: u16 where "INVALID_CONTINUATION_STATE \<equiv> 5"
abbreviation (input) SERVER_CONTINUATION_STATE :: bytes where "SERVER_CONTINUATION_STATE \<equiv> [1, 0]"
abbreviation (input) CONTINUATION_WATCHDOG :: nat where "CONTINUATION_WATCHDOG \<equiv> 64"

datatype attribute_id = AttributeId u16 | AttributeRange u16 u16

fun attribute_id_element :: "attribute_id \<Rightarrow> data_element" where
  "attribute_id_element (AttributeId i) = unsigned_integer_16 i"
| "attribute_id_element (AttributeRange start fin) =
     unsigned_integer_32 (push_bit 16 (ucast start) OR ucast fin)"

definition search_pattern :: "bluetooth_uuid list \<Rightarrow> data_element" where
  "search_pattern uuids = Sequence (map UuidElement uuids)"

definition attribute_id_list :: "attribute_id list \<Rightarrow> data_element" where
  "attribute_id_list ids = Sequence (map attribute_id_element ids)"

record service_record =
  sr_handle :: u32
  sr_attributes :: "service_attribute list"

datatype current_response = CurBytes bytes | CurHandles u16 "u32 list"

datatype continuation_check = ContError u16 | ContContinue | ContFresh

record sdp_server =
  sv_records :: "service_record list"
  sv_current :: "current_response option"
  sv_mtu :: u16

definition server_new :: "u16 \<Rightarrow> sdp_server" where
  "server_new mtu = \<lparr>sv_records = [], sv_current = None, sv_mtu = mtu\<rparr>"

definition add_service :: "u32 \<Rightarrow> service_attribute list \<Rightarrow> sdp_server \<Rightarrow> sdp_server" where
  "add_service handle attributes sv =
     sv\<lparr>sv_records := sv_records sv @ [\<lparr>sr_handle = handle, sr_attributes = attributes\<rparr>]\<rparr>"

definition sequence_elements :: "data_element \<Rightarrow> data_element list" where
  "sequence_elements e = (case e of Sequence es \<Rightarrow> es | _ \<Rightarrow> [])"

fun uuids_of :: "data_element list \<Rightarrow> bluetooth_uuid list" where
  "uuids_of [] = []"
| "uuids_of (e # es) = (case e of UuidElement u \<Rightarrow> [u] | _ \<Rightarrow> []) @ uuids_of es"

definition match_services :: "sdp_server \<Rightarrow> data_element \<Rightarrow> (u32 \<times> service_attribute list) list" where
  "match_services sv pattern =
     (let uuids = uuids_of (sequence_elements pattern) in
      map (\<lambda>r. (sr_handle r, sr_attributes r))
        (filter (\<lambda>r. list_ex (\<lambda>u. list_ex (\<lambda>a. is_uuid_in_value u (sa_value a)) (sr_attributes r)) uuids)
          (sv_records sv)))"

definition selected_by :: "service_attribute list \<Rightarrow> data_element \<Rightarrow> service_attribute list" where
  "selected_by service selector = (case selector of
     UnsignedInteger v n \<Rightarrow>
       let (start, fin) = (if n = 4 then (ucast (drop_bit 16 v), ucast (v AND 0xFFFF))
             else (ucast v, ucast v) :: u16 \<times> u16) in
       filter (\<lambda>a. start \<le> sa_id a \<and> sa_id a \<le> fin) service
   | _ \<Rightarrow> [])"

definition get_service_attributes :: "service_attribute list \<Rightarrow> data_element list \<Rightarrow> data_element" where
  "get_service_attributes service attribute_ids =
     Sequence (concat (map (\<lambda>a. [unsigned_integer_16 (sa_id a), sa_value a])
       (sort_key sa_id (concat (map (selected_by service) attribute_ids)))))"

definition check_continuation :: "bytes \<Rightarrow> sdp_server \<Rightarrow> continuation_check \<times> sdp_server" where
  "check_continuation cont sv =
     (if length cont > 1 then
        if sv_current sv = None \<or> cont \<noteq> SERVER_CONTINUATION_STATE
        then (ContError INVALID_CONTINUATION_STATE, sv)
        else (ContContinue, sv)
      else (ContFresh, sv\<lparr>sv_current := None\<rparr>))"

definition next_byte_payload :: "nat \<Rightarrow> sdp_server \<Rightarrow> (bytes \<times> bytes) \<times> sdp_server" where
  "next_byte_payload maximum_size sv = (case sv_current sv of
     Some (CurBytes buffer) \<Rightarrow>
       if length buffer > maximum_size
       then ((take maximum_size buffer, SERVER_CONTINUATION_STATE),
         sv\<lparr>sv_current := Some (CurBytes (drop maximum_size buffer))\<rparr>)
       else ((buffer, [0]), sv\<lparr>sv_current := None\<rparr>)
   | _ \<Rightarrow> (([], [0]), sv))"

definition attribute_byte_cap :: "sdp_server \<Rightarrow> u16 \<Rightarrow> nat" where
  "attribute_byte_cap sv requested = min (unat (sv_mtu sv) - 9) (unat requested)"

text \<open>\<^verbatim>\<open>to_bytes().unwrap_or_default()\<close>.\<close>

definition bytes_or_default :: "data_element \<Rightarrow> bytes" where
  "bytes_or_default e = (case element_to_bytes e of Inl _ \<Rightarrow> [] | Inr b \<Rightarrow> b)"

definition search_attribute_answer :: "sdp_server \<Rightarrow> data_element \<Rightarrow> data_element \<Rightarrow> bytes" where
  "search_attribute_answer sv pattern attribute_ids =
     bytes_or_default (Sequence (filter (\<lambda>l. sequence_elements l \<noteq> [])
       (map (\<lambda>(_, attributes). get_service_attributes attributes (sequence_elements attribute_ids))
         (match_services sv pattern))))"

definition on_service_search_attribute ::
  "u16 \<Rightarrow> data_element \<Rightarrow> u16 \<Rightarrow> data_element \<Rightarrow> bytes \<Rightarrow> sdp_server \<Rightarrow> sdp_pdu \<times> sdp_server" where
  "on_service_search_attribute tid pattern maximum attribute_ids cont sv =
     (let (check, sv1) = check_continuation cont sv in
      case check of
        ContError code \<Rightarrow> (ErrorResponse tid code, sv1)
      | _ \<Rightarrow>
        let sv2 = (if check = ContFresh
              then sv1\<lparr>sv_current := Some (CurBytes (search_attribute_answer sv1 pattern attribute_ids))\<rparr>
              else sv1);
            ((attr_lists, cs), sv3) = next_byte_payload (attribute_byte_cap sv2 maximum) sv2 in
        (ServiceSearchAttributeResponse tid attr_lists cs, sv3))"

definition on_service_attribute ::
  "u16 \<Rightarrow> u32 \<Rightarrow> u16 \<Rightarrow> data_element \<Rightarrow> bytes \<Rightarrow> sdp_server \<Rightarrow> sdp_pdu \<times> sdp_server" where
  "on_service_attribute tid handle maximum attribute_ids cont sv =
     (let (check, sv1) = check_continuation cont sv;
          respond = (\<lambda>sv2. let ((attrs, cs), sv3) = next_byte_payload (attribute_byte_cap sv2 maximum) sv2 in
            (ServiceAttributeResponse tid attrs cs, sv3)) in
      case check of
        ContError code \<Rightarrow> (ErrorResponse tid code, sv1)
      | ContContinue \<Rightarrow> respond sv1
      | ContFresh \<Rightarrow>
          (case find (\<lambda>r. sr_handle r = handle) (sv_records sv1) of
             None \<Rightarrow> (ErrorResponse tid INVALID_SERVICE_RECORD_HANDLE, sv1)
           | Some r \<Rightarrow> respond (sv1\<lparr>sv_current := Some (CurBytes (bytes_or_default
               (get_service_attributes (sr_attributes r) (sequence_elements attribute_ids))))\<rparr>)))"

definition on_service_search ::
  "u16 \<Rightarrow> data_element \<Rightarrow> u16 \<Rightarrow> bytes \<Rightarrow> sdp_server \<Rightarrow> sdp_pdu \<times> sdp_server" where
  "on_service_search tid pattern maximum cont sv =
     (let (check, sv1) = check_continuation cont sv in
      case check of
        ContError code \<Rightarrow> (ErrorResponse tid code, sv1)
      | _ \<Rightarrow>
        let handles = map fst (match_services sv1 pattern);
            sv2 = (if check = ContFresh
              then sv1\<lparr>sv_current := Some (CurHandles (of_nat (length handles)) (take (unat maximum) handles))\<rparr>
              else sv1) in
        (case sv_current sv2 of
           Some (CurHandles total_count remaining) \<Rightarrow>
             let max_count = (unat (sv_mtu sv2) - 11) div 4;
                 remaining_after = drop max_count remaining in
             (ServiceSearchResponse tid total_count (take max_count remaining)
                (if remaining_after = [] then [0] else SERVER_CONTINUATION_STATE),
              sv2\<lparr>sv_current := Some (CurHandles total_count remaining_after)\<rparr>)
         | _ \<Rightarrow> (ErrorResponse tid INVALID_CONTINUATION_STATE, sv2)))"

fun handle_request :: "sdp_pdu \<Rightarrow> sdp_server \<Rightarrow> sdp_pdu \<times> sdp_server" where
  "handle_request (ServiceSearchAttributeRequest tid pattern maximum ids cont) sv =
     on_service_search_attribute tid pattern maximum ids cont sv"
| "handle_request (ServiceAttributeRequest tid handle maximum ids cont) sv =
     on_service_attribute tid handle maximum ids cont sv"
| "handle_request (ServiceSearchRequest tid pattern maximum cont) sv =
     on_service_search tid pattern maximum cont sv"
| "handle_request other sv = (ErrorResponse (transaction_id other) INVALID_REQUEST_SYNTAX, sv)"

section \<open>The client\<close>

datatype client_error =
    ProtocolError u16
  | UnexpectedPdu
  | ParseError sdp_error
  | TransportFailed string

text \<open>
  A transport is a state of type \<open>'t\<close> with a request function; the client keeps the transport and the next
  transaction identifier.
\<close>

type_synonym 't transport = "sdp_pdu \<Rightarrow> ('t, sdp_pdu, string) action"

record 't sdp_client =
  cl_transport :: 't
  cl_next_transaction_id :: u16

definition client_new :: "'t \<Rightarrow> 't sdp_client" where
  "client_new transport = \<lparr>cl_transport = transport, cl_next_transaction_id = 0\<rparr>"

definition make_transaction_id :: "'t sdp_client \<Rightarrow> u16 \<times> 't sdp_client" where
  [simp]: "make_transaction_id c = (cl_next_transaction_id c, c\<lparr>cl_next_transaction_id := cl_next_transaction_id c + 1\<rparr>)"

text \<open>The blanket implementation: every request handler is a transport.\<close>

definition server_transport :: "sdp_server transport" where
  "server_transport request sv = (let (response, sv') = handle_request request sv in (Inr response, sv'))"

definition is_terminal :: "bytes \<Rightarrow> bool" where
  "is_terminal cont \<longleftrightarrow> length cont = 1 \<and> cont ! 0 = 0"

text \<open>
  The request loop the three queries share: \<open>mk\<close> builds the request of one round, \<open>expected\<close> the payload
  and continuation of the response it waits for.
\<close>

fun client_loop ::
  "'t transport \<Rightarrow> (u16 \<Rightarrow> bytes \<Rightarrow> sdp_pdu) \<Rightarrow> (sdp_pdu \<Rightarrow> ('a list \<times> bytes) option) \<Rightarrow> nat \<Rightarrow> 'a list
   \<Rightarrow> bytes \<Rightarrow> ('t sdp_client, 'a list, client_error) action" where
  "client_loop request mk expected 0 acc cont c = (Inr acc, c)"
| "client_loop request mk expected (Suc n) acc cont c =
     (let (tid, c0) = make_transaction_id c;
          (r, t) = request (mk tid cont) (cl_transport c0);
          c1 = c0\<lparr>cl_transport := t\<rparr> in
      case r of
        Inl err \<Rightarrow> (Inl (TransportFailed err), c1)
      | Inr response \<Rightarrow>
          (case expected response of
             Some (payload, cs) \<Rightarrow>
               if is_terminal cs then (Inr (acc @ payload), c1)
               else client_loop request mk expected n (acc @ payload) cs c1
           | None \<Rightarrow> (case response of
               ErrorResponse _ code \<Rightarrow> (Inl (ProtocolError code), c1)
             | _ \<Rightarrow> (Inl UnexpectedPdu, c1))))"

definition parse_attribute_lists :: "bytes \<Rightarrow> (service_attribute list list, sdp_error) result" where
  "parse_attribute_lists b =
     (if b = [] then Inr []
      else res_bind (element_from_bytes b) (\<lambda>outer. Inr (concat (map (\<lambda>service. case service of
          Sequence es \<Rightarrow> [list_from_data_elements es] | _ \<Rightarrow> []) (sequence_elements outer)))))"

definition parse_attribute_list :: "bytes \<Rightarrow> (service_attribute list, sdp_error) result" where
  "parse_attribute_list b =
     (if b = [] then Inr []
      else res_bind (element_from_bytes b) (\<lambda>e. Inr (list_from_data_elements (sequence_elements e))))"

fun expect_search_attribute :: "sdp_pdu \<Rightarrow> (bytes \<times> bytes) option" where
  "expect_search_attribute (ServiceSearchAttributeResponse _ attr_lists cs) = Some (attr_lists, cs)"
| "expect_search_attribute _ = None"

fun expect_attribute :: "sdp_pdu \<Rightarrow> (bytes \<times> bytes) option" where
  "expect_attribute (ServiceAttributeResponse _ attrs cs) = Some (attrs, cs)"
| "expect_attribute _ = None"

fun expect_search :: "sdp_pdu \<Rightarrow> (u32 list \<times> bytes) option" where
  "expect_search (ServiceSearchResponse _ _ handles cs) = Some (handles, cs)"
| "expect_search _ = None"

definition service_search_attribute ::
  "'t transport \<Rightarrow> bluetooth_uuid list \<Rightarrow> attribute_id list
   \<Rightarrow> ('t sdp_client, service_attribute list list, client_error) action" where
  "service_search_attribute request uuids ids =
     act_bind (client_loop request
       (\<lambda>tid cont. ServiceSearchAttributeRequest tid (search_pattern uuids) 0xFFFF (attribute_id_list ids) cont)
       expect_search_attribute CONTINUATION_WATCHDOG [] [0])
     (\<lambda>acc. act_lift (map_err ParseError (parse_attribute_lists acc)))"

definition get_attributes ::
  "'t transport \<Rightarrow> u32 \<Rightarrow> attribute_id list \<Rightarrow> ('t sdp_client, service_attribute list, client_error) action" where
  "get_attributes request handle ids =
     act_bind (client_loop request
       (\<lambda>tid cont. ServiceAttributeRequest tid handle 0xFFFF (attribute_id_list ids) cont)
       expect_attribute CONTINUATION_WATCHDOG [] [0])
     (\<lambda>acc. act_lift (map_err ParseError (parse_attribute_list acc)))"

definition search_services ::
  "'t transport \<Rightarrow> bluetooth_uuid list \<Rightarrow> ('t sdp_client, u32 list, client_error) action" where
  "search_services request uuids =
     client_loop request (\<lambda>tid cont. ServiceSearchRequest tid (search_pattern uuids) 0xFFFF cont)
       expect_search CONTINUATION_WATCHDOG [] [0]"

section \<open>Chunked answers\<close>

text \<open>
  The contract between a handler that drains an answer and the client loop: the first request starts an
  answer, every continuation request takes the next \<open>k\<close> items off what is left, and the response says
  whether anything remains.
\<close>

definition chunk_of :: "nat \<Rightarrow> 'a list \<Rightarrow> 'a list \<times> bytes" where
  "chunk_of k rest = (take k rest, if length rest > k then SERVER_CONTINUATION_STATE else [0])"

definition chunk_step ::
  "(sdp_pdu \<Rightarrow> ('a list \<times> bytes) option) \<Rightarrow> nat \<Rightarrow> (sdp_server \<Rightarrow> 'a list \<Rightarrow> bool) \<Rightarrow> 'a list
   \<Rightarrow> sdp_pdu \<times> sdp_server \<Rightarrow> bool" where
  "chunk_step expected k holds rest r \<longleftrightarrow> expected (fst r) = Some (chunk_of k rest)
     \<and> (length rest > k \<longrightarrow> holds (snd r) (drop k rest))"

locale chunked_answer =
  fixes mk :: "u16 \<Rightarrow> bytes \<Rightarrow> sdp_pdu"
    and expected :: "sdp_pdu \<Rightarrow> ('a list \<times> bytes) option"
    and k :: nat
    and holds :: "sdp_server \<Rightarrow> 'a list \<Rightarrow> bool"
    and begins :: "sdp_server \<Rightarrow> bool"
    and answer :: "sdp_server \<Rightarrow> 'a list"
  assumes fresh: "begins sv \<Longrightarrow> chunk_step expected k holds (answer sv) (handle_request (mk tid [0]) sv)"
    and continues: "holds sv rest \<Longrightarrow>
      chunk_step expected k holds rest (handle_request (mk tid SERVER_CONTINUATION_STATE) sv)"
begin

lemma loop_round:
  assumes "chunk_step expected k holds rest (handle_request (mk (cl_next_transaction_id c) cont) (cl_transport c))"
    and "\<And>c' acc. holds (cl_transport c') (drop k rest) \<Longrightarrow>
      fst (client_loop server_transport mk expected n acc SERVER_CONTINUATION_STATE c')
        = Inr (acc @ take (n * k) (drop k rest))"
  shows "fst (client_loop server_transport mk expected (Suc n) acc cont c) = Inr (acc @ take (Suc n * k) rest)"
  using assms
  by (auto simp: server_transport_def split_beta chunk_step_def chunk_of_def is_terminal_def Let_def take_add
      dest: order.trans)

lemma drain:
  "holds (cl_transport c) rest \<Longrightarrow>
   fst (client_loop server_transport mk expected n acc SERVER_CONTINUATION_STATE c) = Inr (acc @ take (n * k) rest)"
proof (induction n arbitrary: acc rest c)
  case (Suc n)
  show ?case by (rule loop_round [OF continues [OF Suc.prems] Suc.IH])
qed simp

lemma whole_answer:
  assumes "begins (cl_transport c)"
  shows "fst (client_loop server_transport mk expected (Suc n) [] [0] c)
    = Inr (take (Suc n * k) (answer (cl_transport c)))"
  using loop_round [of "answer (cl_transport c)" c "[0]" n "[]"] fresh [OF assms] drain by simp

end

definition holds_bytes :: "nat \<Rightarrow> sdp_server \<Rightarrow> bytes \<Rightarrow> bool" where
  "holds_bytes k sv rest \<longleftrightarrow> sv_current sv = Some (CurBytes rest) \<and> attribute_byte_cap sv 0xFFFF = k"

definition holds_handles :: "nat \<Rightarrow> sdp_server \<Rightarrow> u32 list \<Rightarrow> bool" where
  "holds_handles k sv rest \<longleftrightarrow> (\<exists>n. sv_current sv = Some (CurHandles n rest)) \<and> (unat (sv_mtu sv) - 11) div 4 = k"

lemma next_payload_step:
  assumes "sv_current sv = Some (CurBytes rest)" "attribute_byte_cap sv 0xFFFF = k"
  shows "fst (next_byte_payload k sv) = chunk_of k rest"
    "length rest > k \<Longrightarrow> holds_bytes k (snd (next_byte_payload k sv)) (drop k rest)"
  using assms by (auto simp: next_byte_payload_def chunk_of_def holds_bytes_def attribute_byte_cap_def)

lemma cap_update [simp]: "attribute_byte_cap (sv\<lparr>sv_current := x\<rparr>) n = attribute_byte_cap sv n"
  by (simp add: attribute_byte_cap_def)

definition search_request :: "bluetooth_uuid list \<Rightarrow> attribute_id list \<Rightarrow> u16 \<Rightarrow> bytes \<Rightarrow> sdp_pdu" where
  "search_request uuids ids tid cont =
     ServiceSearchAttributeRequest tid (search_pattern uuids) 0xFFFF (attribute_id_list ids) cont"

definition attribute_request :: "u32 \<Rightarrow> attribute_id list \<Rightarrow> u16 \<Rightarrow> bytes \<Rightarrow> sdp_pdu" where
  "attribute_request handle ids tid cont = ServiceAttributeRequest tid handle 0xFFFF (attribute_id_list ids) cont"

definition handle_search_request :: "bluetooth_uuid list \<Rightarrow> u16 \<Rightarrow> bytes \<Rightarrow> sdp_pdu" where
  "handle_search_request uuids tid cont = ServiceSearchRequest tid (search_pattern uuids) 0xFFFF cont"

lemma answer_ignores_current [simp]:
  "search_attribute_answer (sv\<lparr>sv_current := x\<rparr>) p i = search_attribute_answer sv p i"
  "match_services (sv\<lparr>sv_current := x\<rparr>) p = match_services sv p"
  by (simp_all add: search_attribute_answer_def match_services_def)

interpretation search_chunks: chunked_answer "search_request uuids ids" expect_search_attribute
  k "holds_bytes k" "\<lambda>sv. attribute_byte_cap sv 0xFFFF = k"
  "\<lambda>sv. search_attribute_answer sv (search_pattern uuids) (attribute_id_list ids)" for uuids ids k
proof unfold_locales
  show "chunk_step expect_search_attribute k (holds_bytes k)
      (search_attribute_answer sv (search_pattern uuids) (attribute_id_list ids))
      (handle_request (search_request uuids ids tid [0]) sv)" if "attribute_byte_cap sv 0xFFFF = k" for sv tid
    using that next_payload_step [of "sv\<lparr>sv_current := Some (CurBytes
        (search_attribute_answer sv (search_pattern uuids) (attribute_id_list ids)))\<rparr>" _ k]
    by (simp add: search_request_def on_service_search_attribute_def check_continuation_def chunk_step_def
        split_beta Let_def)
  show "chunk_step expect_search_attribute k (holds_bytes k) rest (handle_request (search_request uuids ids tid [1, 0]) sv)"
    if "holds_bytes k sv rest" for sv rest tid
    using that next_payload_step [of sv rest k]
    by (simp add: search_request_def on_service_search_attribute_def check_continuation_def chunk_step_def
        split_beta Let_def holds_bytes_def)
qed

text \<open>An attribute query of one record, and a search for handles.\<close>

definition record_for :: "u32 \<Rightarrow> sdp_server \<Rightarrow> service_record option" where
  "record_for handle sv = find (\<lambda>r. sr_handle r = handle) (sv_records sv)"

definition attribute_answer :: "u32 \<Rightarrow> attribute_id list \<Rightarrow> sdp_server \<Rightarrow> bytes" where
  "attribute_answer handle ids sv = (case record_for handle sv of
     None \<Rightarrow> [] | Some r \<Rightarrow> bytes_or_default
       (get_service_attributes (sr_attributes r) (sequence_elements (attribute_id_list ids))))"

interpretation attribute_chunks: chunked_answer "attribute_request handle ids" expect_attribute
  k "holds_bytes k" "\<lambda>sv. attribute_byte_cap sv 0xFFFF = k \<and> record_for handle sv \<noteq> None"
  "attribute_answer handle ids" for handle ids k
proof unfold_locales
  show "chunk_step expect_attribute k (holds_bytes k) (attribute_answer handle ids sv)
      (handle_request (attribute_request handle ids tid [0]) sv)"
    if "attribute_byte_cap sv 0xFFFF = k \<and> record_for handle sv \<noteq> None" for sv tid
    using that next_payload_step [of "sv\<lparr>sv_current := Some (CurBytes (attribute_answer handle ids sv))\<rparr>" _ k]
    by (auto simp: attribute_request_def on_service_attribute_def check_continuation_def chunk_step_def
        split_beta Let_def attribute_answer_def record_for_def)
  show "chunk_step expect_attribute k (holds_bytes k) rest (handle_request (attribute_request handle ids tid [1, 0]) sv)"
    if "holds_bytes k sv rest" for sv rest tid
    using that next_payload_step [of sv rest k]
    by (simp add: attribute_request_def on_service_attribute_def check_continuation_def chunk_step_def
        split_beta Let_def holds_bytes_def)
qed

interpretation handle_chunks: chunked_answer "handle_search_request uuids" expect_search
  k "holds_handles k" "\<lambda>sv. (unat (sv_mtu sv) - 11) div 4 = k"
  "\<lambda>sv. take 65535 (map fst (match_services sv (search_pattern uuids)))" for uuids k
proof unfold_locales
  show "chunk_step expect_search k (holds_handles k) (take 65535 (map fst (match_services sv (search_pattern uuids))))
      (handle_request (handle_search_request uuids tid [0]) sv)" if "(unat (sv_mtu sv) - 11) div 4 = k" for sv tid
    using that by (auto simp: handle_search_request_def on_service_search_def check_continuation_def
        chunk_step_def chunk_of_def Let_def holds_handles_def)
  show "chunk_step expect_search k (holds_handles k) rest (handle_request (handle_search_request uuids tid [1, 0]) sv)"
    if "holds_handles k sv rest" for sv rest tid
    using that by (auto simp: handle_search_request_def on_service_search_def check_continuation_def
        chunk_step_def chunk_of_def Let_def holds_handles_def)
qed

section \<open>The query specification\<close>

text \<open>What a query means, without transport, encoding or chunks.\<close>

fun selects :: "attribute_id \<Rightarrow> u16 \<Rightarrow> bool" where
  "selects (AttributeId i) a \<longleftrightarrow> a = i"
| "selects (AttributeRange start fin) a \<longleftrightarrow> start \<le> a \<and> a \<le> fin"

definition spec_attributes :: "attribute_id list \<Rightarrow> service_attribute list \<Rightarrow> service_attribute list" where
  "spec_attributes ids service =
     sort_key sa_id (concat (map (\<lambda>i. filter (\<lambda>a. selects i (sa_id a)) service) ids))"

definition mentions :: "bluetooth_uuid list \<Rightarrow> service_record \<Rightarrow> bool" where
  "mentions uuids r \<longleftrightarrow> (\<exists>u \<in> set uuids. \<exists>a \<in> set (sr_attributes r). is_uuid_in_value u (sa_value a))"

definition spec_query :: "service_record list \<Rightarrow> bluetooth_uuid list \<Rightarrow> attribute_id list \<Rightarrow> service_attribute list list"
where
  "spec_query records uuids ids =
     filter (\<lambda>l. l \<noteq> []) (map (\<lambda>r. spec_attributes ids (sr_attributes r)) (filter (mentions uuids) records))"

lemma selected_by_element: "selected_by service (attribute_id_element i) = filter (\<lambda>a. selects i (sa_id a)) service"
proof (cases i)
  case (AttributeId n)
  have "(ucast (ucast n :: u128) :: u16) = n" by (rule bit_word_eqI) (simp add: bit_simps)
  then show ?thesis
    by (simp add: AttributeId selected_by_def unsigned_integer_16_def) (rule filter_cong, auto)
next
  case (AttributeRange start fin)
  let ?w = "ucast (push_bit 16 (ucast start) OR ucast fin :: u32) :: u128"
  have "(ucast (drop_bit 16 ?w) :: u16) = start" "(ucast (?w AND 0xFFFF) :: u16) = fin"
  proof -
    have m: "(0xFFFF :: u128) = mask 16" by (simp add: mask_eq_exp_minus_1)
    show "(ucast (drop_bit 16 ?w) :: u16) = start" "(ucast (?w AND 0xFFFF) :: u16) = fin"
      unfolding m by (rule bit_word_eqI, auto simp: bit_simps dest: bit_imp_le_length)+
  qed
  then show ?thesis by (simp add: AttributeRange selected_by_def unsigned_integer_32_def)
qed

lemma get_attributes_spec:
  "get_service_attributes service (sequence_elements (attribute_id_list ids))
     = list_to_data_element (spec_attributes ids service)"
  by (simp add: get_service_attributes_def sequence_elements_def attribute_id_list_def list_to_data_element_def
      spec_attributes_def comp_def selected_by_element)

lemma uuids_of_pattern: "uuids_of (map UuidElement uuids) = uuids"
  by (induction uuids) simp_all

lemma match_services_spec:
  "match_services sv (search_pattern uuids)
     = map (\<lambda>r. (sr_handle r, sr_attributes r)) (filter (mentions uuids) (sv_records sv))"
  by (simp add: match_services_def search_pattern_def sequence_elements_def uuids_of_pattern
      mentions_def [abs_def] list_ex_iff)

lemma search_answer_spec:
  "search_attribute_answer sv (search_pattern uuids) (attribute_id_list ids)
     = bytes_or_default (Sequence (map list_to_data_element (spec_query (sv_records sv) uuids ids)))"
proof -
  have "sequence_elements (list_to_data_element l) \<noteq> [] \<longleftrightarrow> l \<noteq> []" for l
    by (cases l) (simp_all add: sequence_elements_def list_to_data_element_def)
  then show ?thesis
    by (simp add: search_attribute_answer_def match_services_spec get_attributes_spec spec_query_def
        filter_map comp_def)
qed

lemma parse_lists_encoded:
  assumes "encodable (Sequence (map list_to_data_element ls))"
  shows "parse_attribute_lists (bytes_or_default (Sequence (map list_to_data_element ls))) = Inr ls"
proof -
  let ?e = "Sequence (map list_to_data_element ls)"
  have b: "bytes_or_default ?e = element_bytes ?e" by (simp add: bytes_or_default_def element_bytes_def)
  have ne: "element_bytes ?e \<noteq> []"
    using assms element_to_bytes_nonempty unfolding encodable_bytes by blast
  have "concat (map (\<lambda>s. case s of Sequence es \<Rightarrow> [list_from_data_elements es] | _ \<Rightarrow> []) (map list_to_data_element ls)) = ls"
    by (induction ls) (simp_all add: list_to_data_element_def attributes_roundtrip)
  with ne show ?thesis
    using element_from_encoded [OF assms, of "[]"] by (simp add: b parse_attribute_lists_def sequence_elements_def)
qed

lemma parse_list_encoded:
  assumes "encodable (list_to_data_element l)"
  shows "parse_attribute_list (bytes_or_default (list_to_data_element l)) = Inr l"
proof -
  let ?e = "list_to_data_element l"
  have b: "bytes_or_default ?e = element_bytes ?e" by (simp add: bytes_or_default_def element_bytes_def)
  have ne: "element_bytes ?e \<noteq> []"
    using assms element_to_bytes_nonempty unfolding encodable_bytes by blast
  then show ?thesis
    using element_from_encoded [OF assms, of "[]"]
    by (simp add: b parse_attribute_list_def sequence_elements_def)
      (simp add: list_to_data_element_def attributes_roundtrip)
qed

lemma client_loop_bind:
  "fst (act_bind m (\<lambda>acc. act_lift (g acc)) c) = (case fst (m c) of Inl e \<Rightarrow> Inl e | Inr acc \<Rightarrow> g acc)"
  by (simp add: act_bind_def split: prod.split sum.split)

lemma search_exchange:
  "fst (service_search_attribute server_transport uuids ids c)
     = map_err ParseError (parse_attribute_lists (take (64 * attribute_byte_cap (cl_transport c) 0xFFFF)
         (search_attribute_answer (cl_transport c) (search_pattern uuids) (attribute_id_list ids))))"
  using search_chunks.whole_answer [of c "attribute_byte_cap (cl_transport c) 0xFFFF" uuids ids 63]
  by (simp add: service_search_attribute_def client_loop_bind search_request_def [abs_def])

lemma attribute_exchange:
  assumes "record_for handle (cl_transport c) \<noteq> None"
  shows "fst (get_attributes server_transport handle ids c)
     = map_err ParseError (parse_attribute_list (take (64 * attribute_byte_cap (cl_transport c) 0xFFFF)
         (attribute_answer handle ids (cl_transport c))))"
  using attribute_chunks.whole_answer [of c "attribute_byte_cap (cl_transport c) 0xFFFF" handle ids 63] assms
  by (simp add: get_attributes_def client_loop_bind attribute_request_def [abs_def])

lemma attribute_missing:
  assumes "record_for handle (cl_transport c) = None"
  shows "fst (get_attributes server_transport handle ids c) = Inl (ProtocolError INVALID_SERVICE_RECORD_HANDLE)"
  using assms
  by (simp add: get_attributes_def client_loop_bind server_transport_def on_service_attribute_def
      check_continuation_def record_for_def numeral_eq_Suc Let_def split_beta)

section \<open>Lemmas: the size of responses\<close>

lemma payload_sizes:
  "length (fst (fst (next_byte_payload k sv))) \<le> k \<and> length (snd (fst (next_byte_payload k sv))) \<le> 2"
  by (auto simp: next_byte_payload_def split: option.split current_response.split)

text \<open>A response that is small, decodable and belongs to its request.\<close>

definition response_fits :: "sdp_pdu \<Rightarrow> sdp_pdu \<Rightarrow> nat \<Rightarrow> bool" where
  "response_fits request response mtu \<longleftrightarrow> transaction_id response = transaction_id request
     \<and> (case sdp_pdu_to_bytes response of Inl _ \<Rightarrow> False
        | Inr b \<Rightarrow> length b \<le> mtu \<and> sdp_pdu_from_bytes b = Inr response)"

lemma response_fitsI:
  assumes "transaction_id response = transaction_id request" "sdp_pdu_ok response"
    and "pdu_parameters response = Inr ps" "length ps + 5 \<le> mtu" "mtu \<le> 65535"
  shows "response_fits request response mtu"
proof -
  have b: "sdp_pdu_to_bytes response
      = Inr ([pdu_id response] @ be16 (transaction_id response) @ be16 (of_nat (length ps)) @ ps)"
    using assms(3) by (simp add: sdp_pdu_to_bytes_def)
  from sdp_pdu_reads_back [OF assms(2) b, of "[]"] b assms show ?thesis
    by (simp add: response_fits_def)
qed

lemma cap_bound: "attribute_byte_cap sv n \<le> unat (sv_mtu sv) - 9"
  by (simp add: attribute_byte_cap_def)

lemma error_fits:
  "11 \<le> mtu \<Longrightarrow> mtu \<le> 65535 \<Longrightarrow> transaction_id request = tid \<Longrightarrow> response_fits request (ErrorResponse tid code) mtu"
  by (rule response_fitsI) auto

lemma payload_fits:
  assumes "length attrs \<le> mtu - 9" "length cs \<le> 2" "11 \<le> mtu" "mtu \<le> 65535" "transaction_id request = tid"
  shows "response_fits request (ServiceAttributeResponse tid attrs cs) mtu"
    "response_fits request (ServiceSearchAttributeResponse tid attrs cs) mtu"
  using assms by (auto intro!: response_fitsI)

lemma handles_fit:
  assumes "11 \<le> mtu" "mtu \<le> 65535" "transaction_id request = tid" "length handles \<le> (mtu - 11) div 4" "length cs \<le> 2"
  shows "response_fits request (ServiceSearchResponse tid n handles cs) mtu"
  using assms by (auto intro!: response_fitsI)

lemma check_continuation_mtu: "sv_mtu (snd (check_continuation cont sv)) = sv_mtu sv"
  by (simp add: check_continuation_def)

lemma responses_fit:
  assumes "11 \<le> unat (sv_mtu sv)"
  shows "response_fits request (fst (handle_request request sv)) (unat (sv_mtu sv))"
proof -
  let ?mtu = "unat (sv_mtu sv)"
  have mtu: "?mtu \<le> 65535" using unat_u16_less [of "sv_mtu sv"] by simp
  have pay: "length (fst (fst (next_byte_payload (attribute_byte_cap sv'' m) sv'))) \<le> ?mtu - 9
      \<and> length (snd (fst (next_byte_payload (attribute_byte_cap sv'' m) sv'))) \<le> 2"
    if "sv_mtu sv'' = sv_mtu sv" for sv' sv'' m
    using payload_sizes [of "attribute_byte_cap sv'' m" sv'] cap_bound [of sv'' m] that by simp
  note fits = payload_fits [OF _ _ assms mtu] handles_fit [OF assms mtu] error_fits [OF assms mtu]
  show ?thesis
  proof (cases request)
    case (ServiceSearchAttributeRequest tid pattern maximum ids cont)
    then show ?thesis
      using pay check_continuation_mtu [of cont sv]
      by (auto simp: on_service_search_attribute_def split_beta Let_def intro!: fits
          split: continuation_check.split)
  next
    case (ServiceAttributeRequest tid handle maximum ids cont)
    then show ?thesis
      using pay check_continuation_mtu [of cont sv]
      by (auto simp: on_service_attribute_def split_beta Let_def intro!: fits
          split: continuation_check.split option.split)
  next
    case (ServiceSearchRequest tid pattern maximum cont)
    then show ?thesis
      using check_continuation_mtu [of cont sv]
      by (auto simp: on_service_search_def split_beta Let_def min_le_iff_disj intro!: fits
          split: continuation_check.split option.split current_response.split)
  qed (auto intro!: fits)
qed

text \<open>A record of the HID class with two attributes, at a server whose responses carry three attribute bytes each.\<close>

definition sample_server :: sdp_server where
  "sample_server = add_service 0x00010001
     [\<lparr>sa_id = 5, sa_value = BooleanElement True\<rparr>, \<lparr>sa_id = 1, sa_value = Sequence [UuidElement (uuid_from_u16 0x1124)]\<rparr>]
     (server_new 12)"

lemmas sample_eval = sample_server_def add_service_def server_new_def client_new_def spec_query_def mentions_def
  spec_attributes_def list_to_data_element_def encodable_def element_ok_def element_to_bytes_def frame_element_def
  bytes_or_default_def unsigned_integer_16_def unsigned_to_bytes_def valid_integer_size_def to_be_bytes_def
  to_le_bytes_def fixed_size_index_def variable_size_header_def uuid_from_u16_def uuid_to_bytes_def uuid_wf_def
  le16_bytes_def uuid_eq_def drop_bit_eq_div record_for_def

section \<open>Properties\<close>

text \<open>C23: a client that runs a search-attribute query against a server gets exactly what the specification of the
  query says: for every record that mentions one of the UUIDs, its selected attributes in identifier order, with
  records that have none left out. The answer may span many continuation rounds; it only has to be encodable
  and to fit the 64 rounds of the client's watchdog at the server's response size.\<close>

theorem sdp_query_refines:
  assumes "encodable (Sequence (map list_to_data_element (spec_query (sv_records (cl_transport c)) uuids ids)))"
    and "length (bytes_or_default (Sequence (map list_to_data_element (spec_query (sv_records (cl_transport c)) uuids ids))))
      \<le> 64 * (unat (sv_mtu (cl_transport c)) - 9)"
  shows "fst (service_search_attribute server_transport uuids ids c)
    = Inr (spec_query (sv_records (cl_transport c)) uuids ids)"
  using assms unat_u16_less [of "sv_mtu (cl_transport c)"]
  by (simp add: search_exchange search_answer_spec attribute_byte_cap_def parse_lists_encoded min_absorb1)

theorem sdp_query_refines_witness:
  "fst (service_search_attribute server_transport [uuid_from_u16 0x1124] [AttributeRange 0 4] (client_new sample_server))
     = Inr (spec_query (sv_records (cl_transport (client_new sample_server))) [uuid_from_u16 0x1124] [AttributeRange 0 4])"
  by (rule sdp_query_refines) (simp_all add: sample_eval upt_rec [of _ 16])

text \<open>a query of one record's attributes answers with the selected attributes of the first record that has
  the handle, and with the protocol error for an invalid record handle when there is none.\<close>

theorem sdp_record_query:
  "case record_for handle (cl_transport c) of
     None \<Rightarrow> fst (get_attributes server_transport handle ids c) = Inl (ProtocolError 2)
   | Some r \<Rightarrow>
       encodable (list_to_data_element (spec_attributes ids (sr_attributes r)))
       \<longrightarrow> length (bytes_or_default (list_to_data_element (spec_attributes ids (sr_attributes r))))
         \<le> 64 * (unat (sv_mtu (cl_transport c)) - 9)
       \<longrightarrow> fst (get_attributes server_transport handle ids c) = Inr (spec_attributes ids (sr_attributes r))"
  using unat_u16_less [of "sv_mtu (cl_transport c)"]
  by (auto simp: attribute_missing attribute_exchange attribute_answer_def get_attributes_spec parse_list_encoded
      attribute_byte_cap_def min_absorb1 split: option.split)

theorem sdp_record_query_witness:
  "fst (get_attributes server_transport 0x00010001 [AttributeId 1, AttributeId 5] (client_new sample_server))
     = Inr (spec_attributes [AttributeId 1, AttributeId 5] (sr_attributes (hd (sv_records sample_server))))
   \<and> fst (get_attributes server_transport 7 [] (client_new sample_server)) = Inl (ProtocolError 2)"
  using sdp_record_query [where handle = "0x00010001" and c = "client_new sample_server"
      and ids = "[AttributeId 1, AttributeId 5]"]
    sdp_record_query [where handle = 7 and c = "client_new sample_server" and ids = "[]"]
  by (simp add: sample_eval upt_rec [of _ 16])

text \<open>a search for handles returns the handles of the matching records in the order they were added, as many
  of them as 64 responses of the server's size can carry.\<close>

theorem sdp_handle_search:
  "fst (search_services server_transport uuids c)
     = Inr (take (64 * ((unat (sv_mtu (cl_transport c)) - 11) div 4))
         (take 65535 (map sr_handle (filter (mentions uuids) (sv_records (cl_transport c))))))"
  using handle_chunks.whole_answer [of c "(unat (sv_mtu (cl_transport c)) - 11) div 4" uuids 63]
  by (simp add: search_services_def handle_search_request_def [abs_def] match_services_spec comp_def)

text \<open>whatever PDU arrives, in whatever state of an answer in progress, a server with room for eleven bytes
  replies with a PDU of the same transaction that encodes, fits its MTU and decodes back to the reply.\<close>

theorem sdp_responses_fit:
  "11 \<le> unat (sv_mtu sv) \<Longrightarrow> response_fits request (fst (handle_request request sv)) (unat (sv_mtu sv))"
  by (rule responses_fit)

theorem sdp_responses_fit_witness:
  "response_fits (ServiceSearchRequest 9 (search_pattern [uuid_from_u16 0x1124]) 1 [0])
     (fst (handle_request (ServiceSearchRequest 9 (search_pattern [uuid_from_u16 0x1124]) 1 [0]) sample_server))
     (unat (sv_mtu sample_server))"
  by (rule sdp_responses_fit) (simp add: sample_server_def add_service_def server_new_def)

end
