(* ===== verification/Hid_Sdp.thy ===== *)
theory Hid_Sdp
  imports Hid_Service Sdp_Service "HOL-Library.Multiset"
begin

text \<open>
  The SDP side of \<^verbatim>\<open>src/src/hid_service.rs\<close>: the service record a HID configuration is advertised
  with, and the channel that answers SDP requests against it.
\<close>

section \<open>The service record\<close>

abbreviation (input) SDP_PSM :: u32 where "SDP_PSM \<equiv> 0x0001"
abbreviation (input) HID_CONTROL_PSM :: u32 where "HID_CONTROL_PSM \<equiv> 0x0011"
abbreviation (input) HID_INTERRUPT_PSM :: u32 where "HID_INTERRUPT_PSM \<equiv> 0x0013"
abbreviation (input) HID_SERVICE_RECORD_HANDLE :: u32 where "HID_SERVICE_RECORD_HANDLE \<equiv> 0x00010001"
abbreviation (input) HID_SERVICE_CLASS_UUID :: u16 where "HID_SERVICE_CLASS_UUID \<equiv> 0x1124"
abbreviation (input) L2CAP_PROTOCOL_UUID :: u16 where "L2CAP_PROTOCOL_UUID \<equiv> 0x0100"
abbreviation (input) HIDP_PROTOCOL_UUID :: u16 where "HIDP_PROTOCOL_UUID \<equiv> 0x0011"
abbreviation (input) PUBLIC_BROWSE_ROOT_UUID :: u16 where "PUBLIC_BROWSE_ROOT_UUID \<equiv> 0x1002"

definition attribute :: "u16 \<Rightarrow> data_element \<Rightarrow> service_attribute" where
  "attribute i v = \<lparr>sa_id = i, sa_value = v\<rparr>"

definition uuid16 :: "u16 \<Rightarrow> data_element" where
  "uuid16 v = UuidElement (uuid_from_u16 v)"

definition optional_attribute :: "u16 \<Rightarrow> ('a \<Rightarrow> data_element) \<Rightarrow> 'a option \<Rightarrow> service_attribute list" where
  "optional_attribute i f v = (case v of None \<Rightarrow> [] | Some x \<Rightarrow> [attribute i (f x)])"

definition build_hid_service_record :: "hid_service_config \<Rightarrow> service_attribute list" where
  "build_hid_service_record configuration =
     (let policy = hc_sdp_policy configuration in
      [attribute 0x0000 (unsigned_integer_32 HID_SERVICE_RECORD_HANDLE),
       attribute 0x0001 (Sequence [uuid16 HID_SERVICE_CLASS_UUID]),
       attribute 0x0004 (Sequence [
         Sequence [uuid16 L2CAP_PROTOCOL_UUID, unsigned_integer_16 (ucast HID_CONTROL_PSM)],
         Sequence [uuid16 HIDP_PROTOCOL_UUID]]),
       attribute 0x0005 (Sequence [uuid16 PUBLIC_BROWSE_ROOT_UUID]),
       attribute 0x0006 (Sequence [unsigned_integer_16 0x656E, unsigned_integer_16 0x006A,
         unsigned_integer_16 0x0100]),
       attribute 0x0100 (TextString (hp_service_name policy))]
      @ optional_attribute 0x0101 TextString (hp_service_description policy)
      @ optional_attribute 0x0102 TextString (hp_provider_name policy)
      @ [attribute 0x0009 (Sequence [Sequence [uuid16 HID_SERVICE_CLASS_UUID,
           unsigned_integer_16 (hp_bluetooth_profile_version policy)]]),
         attribute 0x000D (Sequence [Sequence [
           Sequence [uuid16 L2CAP_PROTOCOL_UUID, unsigned_integer_16 (ucast HID_INTERRUPT_PSM)],
           Sequence [uuid16 HIDP_PROTOCOL_UUID]]])]
      @ optional_attribute 0x0200 unsigned_integer_16 (hp_device_release_number policy)
      @ [attribute 0x0201 (unsigned_integer_16 (hp_parser_version policy)),
         attribute 0x0202 (unsigned_integer_8 (hp_device_subclass policy)),
         attribute 0x0203 (unsigned_integer_8 (hp_country_code policy)),
         attribute 0x0204 (BooleanElement (hp_virtual_cable policy)),
         attribute 0x0205 (BooleanElement (hp_reconnect_initiate policy)),
         attribute 0x0206 (Sequence [Sequence [unsigned_integer_8 0x22,
           TextString (hc_report_descriptor configuration)]]),
         attribute 0x0207 (Sequence [Sequence [unsigned_integer_16 0x0409, unsigned_integer_16 0x0100]])]
      @ optional_attribute 0x020A BooleanElement (hp_remote_wake policy)
      @ [attribute 0x020B (unsigned_integer_16 (hp_profile_version policy)),
         attribute 0x020C (unsigned_integer_16 (hp_supervision_timeout policy)),
         attribute 0x020D (BooleanElement (hp_normally_connectable policy)),
         attribute 0x020E (BooleanElement (hp_boot_device policy)),
         attribute 0x020F (unsigned_integer_16 (hp_ssr_host_max_latency policy)),
         attribute 0x0210 (unsigned_integer_16 (hp_ssr_host_min_timeout policy))])"

section \<open>The channel\<close>

record hid_sdp_channel =
  hs_server :: sdp_server

definition sdp_channel_new :: "hid_service_config \<Rightarrow> u16 \<Rightarrow> hid_sdp_channel" where
  "sdp_channel_new configuration peer_mtu =
     \<lparr>hs_server = add_service HID_SERVICE_RECORD_HANDLE (build_hid_service_record configuration)
        (server_new peer_mtu)\<rparr>"

definition parse_complete_pdu :: "bytes \<Rightarrow> sdp_pdu option" where
  "parse_complete_pdu sdu =
     (if length sdu < 5 then None
      else if length sdu \<noteq> 5 + unat (from_be_bytes [sdu ! 3, sdu ! 4] :: u16) then None
      else case sdp_pdu_from_bytes sdu of Inl _ \<Rightarrow> None | Inr request \<Rightarrow> Some request)"

definition sdp_handle_sdu :: "bytes \<Rightarrow> hid_sdp_channel \<Rightarrow> bytes option \<times> hid_sdp_channel" where
  "sdp_handle_sdu sdu ch =
     (if length sdu < 3 then (None, ch)
      else let tid = from_be_bytes [sdu ! 1, sdu ! 2];
               (response, ch') = (case parse_complete_pdu sdu of
                   Some request \<Rightarrow>
                     let (r, sv) = handle_request request (hs_server ch) in (r, ch\<lparr>hs_server := sv\<rparr>)
                 | None \<Rightarrow> (ErrorResponse tid INVALID_REQUEST_SYNTAX, ch)) in
        (case sdp_pdu_to_bytes response of Inl _ \<Rightarrow> None | Inr b \<Rightarrow> Some b, ch'))"

section \<open>Lemmas: the channel answers\<close>

lemma cursor_result_keeps_tid:
  assumes "fst (decode_parameters i tid c) = Inr p"
  shows "transaction_id p = tid"
  using assms
  by (auto simp: decode_parameters_def act_bind_def act_ok_def act_err_def split: if_splits prod.splits sum.splits)

lemma decoded_tid:
  "sdp_pdu_from_bytes b = Inr p \<Longrightarrow> transaction_id p = from_be_bytes [b ! 1, b ! 2]"
  using cursor_result_keeps_tid by (auto simp: sdp_pdu_from_bytes_def Let_def split: if_splits)

lemma server_keeps_mtu: "sv_mtu (snd (handle_request request sv)) = sv_mtu sv"
proof -
  have pay: "sv_mtu (snd (next_byte_payload k sv')) = sv_mtu sv'" for k sv'
    by (simp add: next_byte_payload_def split: option.split current_response.split)
  show ?thesis
    by (cases request)
      (auto simp: on_service_search_attribute_def on_service_attribute_def on_service_search_def split_beta Let_def
        pay check_continuation_mtu split: continuation_check.split option.split current_response.split)
qed

lemma handle_sdu_answers:
  assumes "11 \<le> unat (sv_mtu (hs_server ch))" "3 \<le> length sdu"
  shows "\<exists>p b. fst (sdp_handle_sdu sdu ch) = Some b \<and> sdp_pdu_from_bytes b = Inr p
    \<and> length b \<le> unat (sv_mtu (hs_server ch)) \<and> transaction_id p = from_be_bytes [sdu ! 1, sdu ! 2]"
proof (cases "parse_complete_pdu sdu")
  case None
  have "response_fits (ErrorResponse (from_be_bytes [sdu ! 1, sdu ! 2]) 3)
      (ErrorResponse (from_be_bytes [sdu ! 1, sdu ! 2]) 3) (unat (sv_mtu (hs_server ch)))"
    using assms unat_u16_less [of "sv_mtu (hs_server ch)"] by (intro error_fits) simp_all
  with None assms show ?thesis
    by (auto simp: sdp_handle_sdu_def Let_def response_fits_def split: sum.splits)
next
  case (Some request)
  then have tid: "transaction_id request = from_be_bytes [sdu ! 1, sdu ! 2]"
    by (auto simp: parse_complete_pdu_def dest!: decoded_tid split: if_splits sum.splits)
  from responses_fit [OF assms(1), of request] Some assms tid show ?thesis
    by (auto simp: sdp_handle_sdu_def Let_def split_beta response_fits_def split: sum.splits)
qed

section \<open>Lemmas: the size of the record\<close>

text \<open>Elements the service record is made of, and a bound on the bytes they are encoded to.\<close>

fun plain :: "data_element \<Rightarrow> bool" where
  "plain (UnsignedInteger v n) \<longleftrightarrow> (case unsigned_to_bytes v n of Inl _ \<Rightarrow> False | Inr _ \<Rightarrow> True)"
| "plain (UuidElement u) \<longleftrightarrow> uuid_wf u"
| "plain (TextString _) \<longleftrightarrow> True"
| "plain (BooleanElement _) \<longleftrightarrow> True"
| "plain (Sequence es) \<longleftrightarrow> list_all plain es"
| "plain _ \<longleftrightarrow> False"

fun encoded_bound :: "data_element \<Rightarrow> nat" where
  "encoded_bound (TextString b) = 5 + length b"
| "encoded_bound (Sequence es) = 5 + sum_list (map encoded_bound es)"
| "encoded_bound (UnsignedInteger _ n) = 1 + unat n"
| "encoded_bound (UuidElement u) = 1 + length (uuid_bytes_le u)"
| "encoded_bound _ = 2"

lemma variable_framed:
  assumes "\<not> sized e" "e \<noteq> NilElement" "\<forall>x. e \<noteq> BooleanElement x" "length dat < 2 ^ 32"
  shows "\<exists>b. frame_element e dat = Inr b \<and> length b \<le> 5 + length dat"
  using assms by (cases e) (auto simp: frame_element_def variable_size_header_def sized_def)

lemma fixed_framed:
  assumes "sized e" "length dat \<in> {1, 2, 4, 8, 16}"
  shows "\<exists>b. frame_element e dat = Inr b \<and> length b = 1 + length dat"
  using assms by (cases e) (auto simp: frame_element_def fixed_size_index_def sized_def)

definition encodes_within :: "data_element \<Rightarrow> bool" where
  "encodes_within e \<longleftrightarrow> (\<exists>b. element_to_bytes e = Inr b \<and> length b \<le> encoded_bound e)"

lemma elements_within:
  "list_all encodes_within es \<Longrightarrow>
   \<exists>b. elements_to_bytes es = Inr b \<and> length b \<le> sum_list (map encoded_bound es)"
  by (induction es) (fastforce simp: encodes_within_def element_to_bytes_def res_bind_eq_Inr)+

lemma plain_encodes: "plain e \<Longrightarrow> encoded_bound e < 2 ^ 32 \<Longrightarrow> encodes_within e"
proof (induction e)
  case (UnsignedInteger v n)
  then obtain b where b: "unsigned_to_bytes v n = Inr b" by (auto split: sum.splits)
  then have "length b \<in> {1, 2, 4, 8, 16}" using unsigned_decodes [OF b] valid_size_nat by auto
  with b fixed_framed [of "UnsignedInteger v n" b] show ?case
    using unsigned_decodes(2) [OF b] by (auto simp: encodes_within_def element_to_bytes_def sized_def)
next
  case (UuidElement u)
  then show ?case using fixed_framed [of "UuidElement u" "rev (uuid_bytes_le u)"]
    by (auto simp: encodes_within_def element_to_bytes_def sized_def uuid_wf_def uuid_to_bytes_def)
next
  case (TextString b)
  then show ?case using variable_framed [of "TextString b" b]
    by (auto simp: encodes_within_def element_to_bytes_def sized_def)
next
  case (Sequence es)
  have small: "encoded_bound e < 2 ^ 32" if "e \<in> set es" for e
    using member_le_sum_list [of "encoded_bound e" "map encoded_bound es"] that Sequence.prems(2) by auto
  then have "list_all encodes_within es"
    using Sequence by (auto simp: list_all_iff)
  then obtain b where "elements_to_bytes es = Inr b" "length b \<le> sum_list (map encoded_bound es)"
    using elements_within by blast
  then show ?case using variable_framed [of "Sequence es" b] Sequence.prems(2)
    by (fastforce simp: encodes_within_def element_to_bytes_def sized_def)
qed (auto simp: encodes_within_def element_to_bytes_def frame_element_def)

lemma integer_plain [simp]:
  "plain (unsigned_integer_8 v8)" "plain (unsigned_integer_16 v16)" "plain (unsigned_integer_32 v32)"
proof -
  have zero: "take (16 - k) (to_be_bytes 16 (ucast (v :: 'a::len word) :: u128)) = replicate (16 - k) 0"
    if "LENGTH('a) = 8 * k" "k \<le> 16" for k and v :: "'a::len word"
  proof (rule nth_equalityI)
    fix i assume "i < length (take (16 - k) (to_be_bytes 16 (ucast v :: u128)))"
    then have i: "i < 16 - k" by simp
    then have "take (16 - k) (to_be_bytes 16 (ucast v :: u128)) ! i = ucast (drop_bit (8 * (15 - i)) (ucast v :: u128))"
      using nth_upt [of 0 "15 - i" 16] by (simp add: to_be_bytes_def rev_nth to_le_bytes_def)
    also have "\<dots> = 0"
      by (rule bit_word_eqI) (use i that in \<open>auto simp: bit_simps dest: bit_imp_le_length\<close>)
    finally show "take (16 - k) (to_be_bytes 16 (ucast v :: u128)) ! i = replicate (16 - k) 0 ! i"
      using i by simp
  qed (use that in simp)
  show "plain (unsigned_integer_8 v8)" "plain (unsigned_integer_16 v16)" "plain (unsigned_integer_32 v32)"
    using zero [of 1 v8] zero [of 2 v16] zero [of 4 v32]
    by (auto simp: unsigned_integer_8_def unsigned_integer_16_def unsigned_integer_32_def unsigned_to_bytes_def
        valid_integer_size_def Let_def list_ex_iff)
qed

lemma uuid16_plain [simp]: "plain (uuid16 v)" "encoded_bound (uuid16 v) = 3" "element_ok n (uuid16 v)"
  by (simp_all add: uuid16_def uuid_wf_def uuid_from_u16_def)

lemma integer_bounds [simp]:
  "encoded_bound (unsigned_integer_8 v8) = 2" "encoded_bound (unsigned_integer_16 v16) = 3"
  "encoded_bound (unsigned_integer_32 v32) = 5" "element_ok n (unsigned_integer_8 v8)"
  "element_ok n (unsigned_integer_16 v16)" "element_ok n (unsigned_integer_32 v32)"
  by (simp_all add: unsigned_integer_8_def unsigned_integer_16_def unsigned_integer_32_def)

text \<open>The bytes of the configuration that end up in the record.\<close>

definition config_text :: "hid_service_config \<Rightarrow> nat" where
  "config_text cfg = length (hc_report_descriptor cfg) + length (hp_service_name (hc_sdp_policy cfg))
     + (case hp_service_description (hc_sdp_policy cfg) of None \<Rightarrow> 0 | Some d \<Rightarrow> length d)
     + (case hp_provider_name (hc_sdp_policy cfg) of None \<Rightarrow> 0 | Some d \<Rightarrow> length d)"

lemma attribute_sel [simp]: "sa_id (attribute i v) = i" "sa_value (attribute i v) = v"
  by (simp_all add: attribute_def)

lemma element_ok_sequence: "element_ok n (Sequence es) \<longleftrightarrow> 0 < n \<and> list_all (element_ok (n - 1)) es"
  by (cases n) (auto simp: element_ok_def foldr_max_le list_all_iff)

lemma record_plain: "list_all (\<lambda>a. plain (sa_value a) \<and> element_ok 4 (sa_value a)) (build_hid_service_record cfg)"
  by (simp add: build_hid_service_record_def Let_def optional_attribute_def element_ok_sequence split: option.split)

lemma record_bound:
  "sum_list (map (\<lambda>a. 3 + encoded_bound (sa_value a)) (build_hid_service_record cfg)) \<le> config_text cfg + 300"
  by (simp add: build_hid_service_record_def Let_def optional_attribute_def config_text_def split: option.split)

lemma sum_list_sort_key: "sum_list (map f (sort_key k xs)) = sum_list (map f xs)" for f :: "'a \<Rightarrow> nat"
  by (metis mset_map mset_sort sum_mset_sum_list)

lemma list_element_bound:
  "encoded_bound (list_to_data_element l) = 5 + sum_list (map (\<lambda>a. 3 + encoded_bound (sa_value a)) l)"
  by (induction l) (simp_all add: list_to_data_element_def)

lemma list_element_plain:
  "plain (list_to_data_element l) \<longleftrightarrow> list_all (\<lambda>a. plain (sa_value a)) l"
  "element_ok (Suc n) (list_to_data_element l) \<longleftrightarrow> list_all (\<lambda>a. element_ok n (sa_value a)) l"
  by (induction l) (simp_all add: list_to_data_element_def element_ok_sequence)

definition served_record :: "hid_service_config \<Rightarrow> service_attribute list" where
  "served_record cfg = sort_key sa_id (build_hid_service_record cfg)"

lemma served_record_encodes:
  assumes "config_text cfg + 310 \<le> n" "n < 2 ^ 32"
  shows "encodable (Sequence [list_to_data_element (served_record cfg)])"
    "length (bytes_or_default (Sequence [list_to_data_element (served_record cfg)])) \<le> n"
proof -
  let ?e = "Sequence [list_to_data_element (served_record cfg)]"
  have bound: "encoded_bound ?e \<le> n"
    using assms(1) record_bound [of cfg]
    by (simp add: list_element_bound served_record_def sum_list_sort_key)
  have "plain ?e" "element_ok 32 ?e"
  proof -
    have a: "list_all (\<lambda>a. plain (sa_value a) \<and> element_ok 4 (sa_value a)) (served_record cfg)"
      using record_plain [of cfg] by (simp add: served_record_def list_all_iff)
    have mono: "element_ok 30 e" if "element_ok 4 e" for e
      using that by (simp add: element_ok_def)
    have "element_ok (Suc 30) (list_to_data_element (served_record cfg))"
      unfolding list_element_plain(2) using a mono by (simp add: list_all_iff)
    then show "element_ok 32 ?e" by (simp add: element_ok_sequence)
    show "plain ?e" using a by (simp add: list_element_plain list_all_iff)
  qed
  then have "encodes_within ?e" using plain_encodes [of ?e] bound assms(2) by simp
  then obtain b where b: "element_to_bytes ?e = Inr b" "length b \<le> encoded_bound ?e"
    unfolding encodes_within_def by blast
  then show "encodable ?e" using \<open>element_ok 32 ?e\<close> by (simp add: encodable_def)
  from b bound show "length (bytes_or_default ?e) \<le> n" by (simp add: bytes_or_default_def)
qed

lemma record_mentions_hid:
  "mentions [uuid_from_u16 0x1124] \<lparr>sr_handle = h, sr_attributes = build_hid_service_record cfg\<rparr>"
proof -
  have "attribute 1 (Sequence [uuid16 0x1124]) \<in> set (build_hid_service_record cfg)"
    by (simp add: build_hid_service_record_def Let_def)
  then show ?thesis unfolding mentions_def by (force simp: uuid16_def uuid_eq_def)
qed

lemma spec_query_hid:
  "spec_query (sv_records (hs_server (sdp_channel_new cfg mtu))) [uuid_from_u16 0x1124] [AttributeRange 0 0xFFFF]
     = [served_record cfg]"
proof -
  have "build_hid_service_record cfg \<noteq> []" by (simp add: build_hid_service_record_def Let_def)
  then have "served_record cfg \<noteq> []"
    unfolding served_record_def by (metis length_0_conv length_sort)
  moreover have "(a :: u16) \<le> 0xFFFF" for a
    using unat_u16_less [of a] by (simp add: word_le_nat_alt)
  ultimately show ?thesis
    using record_mentions_hid [of "0x00010001" cfg]
    by (simp add: spec_query_def sdp_channel_new_def add_service_def server_new_def spec_attributes_def served_record_def)
qed

section \<open>Lemmas: queries over the wire\<close>

text \<open>The peer's transport: requests and responses travel as the SDUs of the channel.\<close>

definition sdu_transport :: "hid_sdp_channel transport" where
  "sdu_transport request ch = (case sdp_pdu_to_bytes request of
     Inl _ \<Rightarrow> (Inl ''request not encodable'', ch)
   | Inr b \<Rightarrow> (case sdp_handle_sdu b ch of
       (None, ch') \<Rightarrow> (Inl ''no response'', ch')
     | (Some r, ch') \<Rightarrow> (case sdp_pdu_from_bytes r of
         Inl _ \<Rightarrow> (Inl ''response not decodable'', ch') | Inr p \<Rightarrow> (Inr p, ch'))))"

definition over_wire :: "sdp_pdu \<Rightarrow> bool" where
  "over_wire request \<longleftrightarrow> sdp_pdu_ok request
     \<and> (case sdp_pdu_to_bytes request of Inl _ \<Rightarrow> False | Inr b \<Rightarrow> length b \<le> 65540)"

lemma sdu_transport_server:
  assumes "over_wire request" "11 \<le> unat (sv_mtu (hs_server ch))"
  shows "sdu_transport request ch = (Inr (fst (handle_request request (hs_server ch))),
    ch\<lparr>hs_server := snd (handle_request request (hs_server ch))\<rparr>)"
proof -
  from assms(1) obtain b where
    b: "sdp_pdu_to_bytes request = Inr b" "length b \<le> 65540" "sdp_pdu_ok request"
    by (auto simp: over_wire_def split: sum.splits)
  then obtain ps where ps: "b = [pdu_id request] @ be16 (transaction_id request) @ be16 (of_nat (length ps)) @ ps"
    by (auto simp: sdp_pdu_to_bytes_def res_bind_eq_Inr)
  have dec: "sdp_pdu_from_bytes b = Inr request" using sdp_pdu_reads_back [OF b(3,1,2), of "[]"] by simp
  have len: "length b = 5 + unat (from_be_bytes [b ! 3, b ! 4] :: u16)"
    using b(2) by (simp add: ps be16_bytes be16_read)
  then have "parse_complete_pdu b = Some request"
    using dec by (simp add: parse_complete_pdu_def)
  moreover have "3 \<le> length b" using len by simp
  ultimately show ?thesis
    using responses_fit [OF assms(2), of request] b(1)
    by (auto simp: sdu_transport_def sdp_handle_sdu_def Let_def split_beta response_fits_def split: sum.splits)
qed

text \<open>The client cannot tell the channel from the server behind it.\<close>

lemma client_loop_over_wire:
  assumes "\<And>tid cs. length cs \<le> 2 \<Longrightarrow> over_wire (mk tid cs)"
    and "\<And>sv tid cs' p cs. expected (fst (handle_request (mk tid cs') sv)) = Some (p, cs) \<Longrightarrow> length cs \<le> 2"
    and "11 \<le> unat (sv_mtu (hs_server (cl_transport c)))" "length cont \<le> 2"
  shows "fst (client_loop sdu_transport mk expected n acc cont c)
    = fst (client_loop server_transport mk expected n acc cont
        \<lparr>cl_transport = hs_server (cl_transport c), cl_next_transaction_id = cl_next_transaction_id c\<rparr>)"
  using assms(3,4)
proof (induction n arbitrary: acc cont c)
  case (Suc n)
  have "over_wire (mk (cl_next_transaction_id c) cont)" using assms(1) Suc.prems(2) by simp
  note t = sdu_transport_server [OF this Suc.prems(1)]
  show ?case
    using Suc.IH assms(2) Suc.prems
    by (auto simp: t server_transport_def Let_def split_beta server_keeps_mtu split: option.split sdp_pdu.split)
qed simp

lemma search_request_over_wire:
  assumes "length cs \<le> 2"
  shows "over_wire (search_request [uuid_from_u16 u] [AttributeRange a b] tid cs)"
proof -
  have e: "encodable (search_pattern [uuid_from_u16 u])" "encodable (attribute_id_list [AttributeRange a b])"
    and l: "length (element_bytes (search_pattern [uuid_from_u16 u])) \<le> 8"
      "length (element_bytes (attribute_id_list [AttributeRange a b])) \<le> 10"
  proof -
    have p: "plain (search_pattern [uuid_from_u16 u])" "encoded_bound (search_pattern [uuid_from_u16 u]) = 8"
      "element_ok 32 (search_pattern [uuid_from_u16 u])"
      using uuid16_plain [unfolded uuid16_def, where v = u] by (simp_all add: search_pattern_def element_ok_sequence)
    have q: "plain (attribute_id_list [AttributeRange a b])" "encoded_bound (attribute_id_list [AttributeRange a b]) = 10"
      "element_ok 32 (attribute_id_list [AttributeRange a b])"
      by (simp_all add: attribute_id_list_def element_ok_sequence)
    from plain_encodes [OF p(1)] plain_encodes [OF q(1)] p q
    show "encodable (search_pattern [uuid_from_u16 u])" "encodable (attribute_id_list [AttributeRange a b])"
      "length (element_bytes (search_pattern [uuid_from_u16 u])) \<le> 8"
      "length (element_bytes (attribute_id_list [AttributeRange a b])) \<le> 10"
      by (auto simp: encodes_within_def encodable_def element_bytes_def)
  qed
  then show ?thesis
    using assms by (simp add: over_wire_def search_request_def encodable_bytes sdp_pdu_to_bytes_def)
qed

lemma payload_continuation: "fst (next_byte_payload k sv) = (p, cs) \<Longrightarrow> length cs \<le> 2"
  using payload_sizes [of k sv] by simp

lemma search_response_continuation:
  "expect_search_attribute (fst (handle_request (search_request uuids ids tid cs') sv)) = Some (p, cs) \<Longrightarrow> length cs \<le> 2"
  by (auto simp: search_request_def on_service_search_attribute_def Let_def split_beta
      split: continuation_check.splits dest: payload_continuation)

section \<open>Properties\<close>

text \<open>C25: a HID device can be discovered. For every service configuration and every peer MTU with room for its
  texts, a client that searches the SDP channel for the HID service class over the wire, request by
  request and continuation by continuation, gets exactly one record: all attributes of the
  configured HID record in identifier order, with the report descriptor and both PSMs.\<close>

theorem hid_record_discovered:
  assumes "config_text cfg + 310 \<le> 64 * (unat mtu - 9)"
  shows "fst (service_search_attribute sdu_transport [uuid_from_u16 0x1124] [AttributeRange 0 0xFFFF]
      (client_new (sdp_channel_new cfg mtu))) = Inr [sort_key sa_id (build_hid_service_record cfg)]"
proof -
  let ?ch = "sdp_channel_new cfg mtu"
  have [simp]: "sv_mtu (hs_server ?ch) = mtu" by (simp add: sdp_channel_new_def add_service_def server_new_def)
  have small: "64 * (unat mtu - 9) < 2 ^ 32" using unat_u16_less [of mtu] by simp
  note enc = served_record_encodes [OF assms small]
  let ?mk = "search_request [uuid_from_u16 0x1124] [AttributeRange 0 0xFFFF]"
  have "fst (client_loop sdu_transport ?mk expect_search_attribute 64 [] [0] (client_new ?ch))
      = fst (client_loop server_transport ?mk expect_search_attribute 64 [] [0] (client_new (hs_server ?ch)))"
    using assms
    by (subst client_loop_over_wire)
      (auto simp: client_new_def intro: search_request_over_wire search_response_continuation)
  then have "fst (service_search_attribute sdu_transport [uuid_from_u16 0x1124] [AttributeRange 0 0xFFFF] (client_new ?ch))
      = fst (service_search_attribute server_transport [uuid_from_u16 0x1124] [AttributeRange 0 0xFFFF]
          (client_new (hs_server ?ch)))"
    by (simp add: service_search_attribute_def client_loop_bind search_request_def [abs_def])
  also have "\<dots> = Inr [served_record cfg]"
    using enc unat_u16_less [of mtu]
    by (simp add: search_exchange search_answer_spec client_new_def spec_query_hid attribute_byte_cap_def
        parse_lists_encoded [of "[served_record cfg]", simplified] min_absorb1)
  finally show ?thesis by (simp add: served_record_def)
qed

theorem hid_record_discovered_witness:
  "fst (service_search_attribute sdu_transport [uuid_from_u16 0x1124] [AttributeRange 0 0xFFFF]
     (client_new (sdp_channel_new sample_config 48))) = Inr [sort_key sa_id (build_hid_service_record sample_config)]"
  by (rule hid_record_discovered) (simp add: config_text_def sample_config_def)

text \<open>the SDP channel answers everything that has a transaction identifier. Whatever bytes arrive, well
  formed or not, a channel with an MTU of at least eleven bytes answers every SDU of three bytes or
  more with a decodable PDU of the same transaction that fits the MTU, and it keeps its MTU.\<close>

theorem sdp_channel_answers:
  assumes "11 \<le> unat (sv_mtu (hs_server ch))" "3 \<le> length sdu"
  shows "(\<exists>p b. fst (sdp_handle_sdu sdu ch) = Some b \<and> sdp_pdu_from_bytes b = Inr p
      \<and> length b \<le> unat (sv_mtu (hs_server ch)) \<and> transaction_id p = from_be_bytes [sdu ! 1, sdu ! 2])
    \<and> sv_mtu (hs_server (snd (sdp_handle_sdu sdu ch))) = sv_mtu (hs_server ch)"
  using handle_sdu_answers [OF assms]
  by (simp add: sdp_handle_sdu_def Let_def split_beta server_keeps_mtu split: option.split)

theorem sdp_channel_answers_witness:
  "(\<exists>p b. fst (sdp_handle_sdu [6, 0, 7] (sdp_channel_new sample_config 48)) = Some b \<and> sdp_pdu_from_bytes b = Inr p
      \<and> length b \<le> unat (sv_mtu (hs_server (sdp_channel_new sample_config 48)))
      \<and> transaction_id p = from_be_bytes [[6, 0, 7] ! 1, [6, 0, 7] ! 2])
    \<and> sv_mtu (hs_server (snd (sdp_handle_sdu [6, 0, 7] (sdp_channel_new sample_config 48))))
      = sv_mtu (hs_server (sdp_channel_new sample_config 48))"
  by (rule sdp_channel_answers) (simp_all add: sdp_channel_new_def add_service_def server_new_def)

end
