(* ===== verification/Csr.thy ===== *)
theory Csr
  imports Prelude
begin

text \<open>
  The vendor commands of \<^verbatim>\<open>src/src/csr.rs\<close> that rewrite the volatile address of a CSR controller: the
  layout of the commands, the match of a response to its command, and the response parsers.
  A \<^verbatim>\<open>[u8; 6]\<close> is a list of six bytes.
\<close>

section \<open>Commands\<close>

abbreviation (input) CSR_VENDOR_OPCODE :: u16 where "CSR_VENDOR_OPCODE \<equiv> 0xFC00"
abbreviation (input) CSR_BCCMD_CHANNEL :: u8 where "CSR_BCCMD_CHANNEL \<equiv> 0xC2"
abbreviation (input) CSR_GETREQ :: u16 where "CSR_GETREQ \<equiv> 0x0000"
abbreviation (input) CSR_GETRESP :: u16 where "CSR_GETRESP \<equiv> 0x0001"
abbreviation (input) CSR_SETREQ :: u16 where "CSR_SETREQ \<equiv> 0x0002"
abbreviation (input) CSR_PSKEY_BDADDR :: u16 where "CSR_PSKEY_BDADDR \<equiv> 0x0001"
abbreviation (input) CSR_VARID_PS :: u16 where "CSR_VARID_PS \<equiv> 0x7003"
abbreviation (input) CSR_VOLATILE_STORE :: u16 where "CSR_VOLATILE_STORE \<equiv> 0x0008"
abbreviation (input) BD_ADDR_VALUE_LENGTH :: nat where "BD_ADDR_VALUE_LENGTH \<equiv> 8"

record csr_vendor_command =
  cc_op_code :: u16
  cc_parameters :: bytes

record csr_rewrite_plan =
  rp_write :: csr_vendor_command
  rp_reset :: csr_vendor_command

record csr_read_response =
  rr_address :: bytes
  rr_status :: u16

datatype csr_codec_error = MalformedResponse | NotCsrBccmd | FailedResponse

definition vendor_command :: "bytes \<Rightarrow> csr_vendor_command" where
  "vendor_command payload = \<lparr>cc_op_code = CSR_VENDOR_OPCODE, cc_parameters = CSR_BCCMD_CHANNEL # payload\<rparr>"

text \<open>\<^verbatim>\<open>xs[i..i + 2].copy_from_slice(&w.to_le_bytes())\<close>.\<close>

definition put_le16 :: "nat \<Rightarrow> u16 \<Rightarrow> bytes \<Rightarrow> bytes" where
  "put_le16 i w xs = xs[i := le16_bytes w ! 0, i + 1 := le16_bytes w ! 1]"

definition build_csr_bd_addr_read_command :: "u16 \<Rightarrow> csr_vendor_command" where
  "build_csr_bd_addr_read_command sequence_number =
     (let value_words = of_nat (BD_ADDR_VALUE_LENGTH div 2) :: u16;
          payload_words = value_words + 8 in
      vendor_command (put_le16 12 value_words (put_le16 10 CSR_PSKEY_BDADDR (put_le16 6 CSR_VARID_PS
        (put_le16 4 sequence_number (put_le16 2 payload_words (put_le16 0 CSR_GETREQ (replicate 24 0))))))))"

definition build_csr_bd_addr_volatile_rewrite_plan :: "bytes \<Rightarrow> u16 \<Rightarrow> csr_rewrite_plan" where
  "build_csr_bd_addr_volatile_rewrite_plan address sequence_number =
     (let value_words = of_nat (BD_ADDR_VALUE_LENGTH div 2) :: u16;
          payload_words = value_words + 8;
          header = put_le16 14 CSR_VOLATILE_STORE (put_le16 12 value_words (put_le16 10 CSR_PSKEY_BDADDR
            (put_le16 6 CSR_VARID_PS (put_le16 4 sequence_number (put_le16 2 payload_words
            (put_le16 0 CSR_SETREQ (replicate 24 0)))))));
          reversed = [address ! 5, address ! 4, address ! 3, address ! 2, address ! 1, address ! 0];
          write = header[16 := reversed ! 2, 18 := reversed ! 0, 19 := reversed ! 1, 20 := reversed ! 3,
            22 := reversed ! 4, 23 := reversed ! 5];
          reset = (put_le16 2 9 (put_le16 0 CSR_SETREQ (replicate 18 0)))[6 := 0x02, 7 := 0x40] in
      \<lparr>rp_write = vendor_command write, rp_reset = vendor_command reset\<rparr>)"

section \<open>Responses\<close>

definition matches_csr_vendor_response :: "csr_vendor_command \<Rightarrow> bytes \<Rightarrow> bool" where
  "matches_csr_vendor_response command event_parameters =
     (let parameters = cc_parameters command in
      if length parameters < 9 \<or> length event_parameters < 9 then False
      else let request_type = le16_of (parameters ! 1) (parameters ! 2) in
        request_type \<in> {CSR_GETREQ, CSR_SETREQ}
        \<and> event_parameters ! 0 = CSR_BCCMD_CHANNEL
        \<and> le16_of (event_parameters ! 1) (event_parameters ! 2) = CSR_GETRESP
        \<and> take 2 (drop 5 event_parameters) = take 2 (drop 5 parameters)
        \<and> take 2 (drop 7 event_parameters) = take 2 (drop 7 parameters))"

definition parse_csr_bccmd_response :: "bytes \<Rightarrow> (u16, csr_codec_error) result" where
  "parse_csr_bccmd_response event_parameters =
     (if length event_parameters < 11 then Inl MalformedResponse
      else if event_parameters ! 0 \<noteq> CSR_BCCMD_CHANNEL then Inl NotCsrBccmd
      else Inr (le16_of (event_parameters ! 9) (event_parameters ! 10)))"

definition parse_csr_bd_addr_read_response :: "bytes \<Rightarrow> (csr_read_response, csr_codec_error) result" where
  "parse_csr_bd_addr_read_response event_parameters =
     (let minimum_length = 17 + BD_ADDR_VALUE_LENGTH in
      if length event_parameters < minimum_length then Inl MalformedResponse
      else res_bind (parse_csr_bccmd_response event_parameters) (\<lambda>status.
        if status \<noteq> 0 then Inl FailedResponse
        else let raw = take (minimum_length - 17) (drop 17 event_parameters) in
          Inr \<lparr>rr_address = [raw ! 7, raw ! 6, raw ! 4, raw ! 0, raw ! 3, raw ! 2], rr_status = status\<rparr>))"

section \<open>Lemmas\<close>

lemma list_update_Cons_numeral: "(x # xs)[numeral k := y] = x # xs[pred_numeral k := y]"
  by (simp add: numeral_eq_Suc)

lemma replicate_numeral_Cons: "replicate (numeral k) x = x # replicate (pred_numeral k) x"
  by (simp add: numeral_eq_Suc)

lemmas csr_eval = replicate_numeral_Cons put_le16_def vendor_command_def Let_def list_update_Cons_numeral le16_bytes_def

lemma rewrite_parameters:
  "cc_parameters (rp_write (build_csr_bd_addr_volatile_rewrite_plan address sequence_number))
     = [0xC2, 2, 0, 12, 0] @ le16_bytes sequence_number @ [0x03, 0x70, 0, 0, 1, 0, 4, 0, 8, 0,
        address ! 3, 0, address ! 5, address ! 4, address ! 2, 0, address ! 1, address ! 0]"
  by (simp add: build_csr_bd_addr_volatile_rewrite_plan_def csr_eval)

lemma reset_parameters:
  "cc_parameters (rp_reset (build_csr_bd_addr_volatile_rewrite_plan address sequence_number))
     = [0xC2, 2, 0, 9, 0, 0, 0, 0x02, 0x40] @ replicate 10 0"
  by (simp add: build_csr_bd_addr_volatile_rewrite_plan_def csr_eval)

lemma vendor_op_codes:
  "cc_op_code (rp_write (build_csr_bd_addr_volatile_rewrite_plan address sequence_number)) = 0xFC00"
  "cc_op_code (rp_reset (build_csr_bd_addr_volatile_rewrite_plan address sequence_number)) = 0xFC00"
  by (simp_all add: build_csr_bd_addr_volatile_rewrite_plan_def vendor_command_def Let_def)

text \<open>What a controller answers to a request when it echoes the header and the value.\<close>

definition csr_echo :: "u16 \<Rightarrow> bytes \<Rightarrow> bytes" where
  "csr_echo status parameters = take 1 parameters @ le16_bytes CSR_GETRESP @ take 6 (drop 3 parameters)
     @ le16_bytes status @ drop 11 parameters"

section \<open>Properties\<close>

text \<open>the address survives the CSR layout. The write command for a six-byte address carries it in the shuffled
  word order of the persistent-store key; when the controller answers with those words and status
  zero, the answer matches the command, is recognised as a success, and the read parser recovers the
  address.\<close>

theorem csr_rewrite_readback:
  assumes "length address = 6"
  shows "let write = rp_write (build_csr_bd_addr_volatile_rewrite_plan address sequence_number);
             answer = csr_echo 0 (cc_parameters write) in
    matches_csr_vendor_response write answer
    \<and> parse_csr_bccmd_response answer = Inr 0
    \<and> parse_csr_bd_addr_read_response answer = Inr \<lparr>rr_address = address, rr_status = 0\<rparr>"
proof -
  obtain a b c d e f where "address = [a, b, c, d, e, f]"
    using assms by (auto simp: numeral_eq_Suc length_Suc_conv)
  then show ?thesis
    by (simp add: rewrite_parameters csr_echo_def matches_csr_vendor_response_def parse_csr_bccmd_response_def
        parse_csr_bd_addr_read_response_def le16_bytes_def le16_of_def Let_def)
qed

theorem csr_rewrite_readback_witness:
  "let write = rp_write (build_csr_bd_addr_volatile_rewrite_plan [0x02, 0x12, 0x34, 0x56, 0x78, 0x9A] 0x4711);
       answer = csr_echo 0 (cc_parameters write) in
    matches_csr_vendor_response write answer
    \<and> parse_csr_bccmd_response answer = Inr 0
    \<and> parse_csr_bd_addr_read_response answer
      = Inr \<lparr>rr_address = [0x02, 0x12, 0x34, 0x56, 0x78, 0x9A], rr_status = 0\<rparr>"
  by (rule csr_rewrite_readback) simp

end
