(* ===== verification/Identity.thy ===== *)
theory Identity
  imports Csr
begin

text \<open>
  The fail-closed address preparation of \<^verbatim>\<open>src/src/identity.rs\<close>: open the adapter, compare its address
  with the requested one, rewrite it when they differ, wait for the adapter to come back after the
  warm reset, and read the address again.

  The adapter is behind two traits. Their operations are the fields of a record over a world \<open>'w\<close> in which
  a session is a handle \<open>'h\<close>; times are natural numbers of a fixed unit.
\<close>

section \<open>The interface to the adapter\<close>

abbreviation (input) CSR_COMPANY_IDENTIFIER :: u16 where "CSR_COMPANY_IDENTIFIER \<equiv> 10"

record ('h, 'w, 'e) identity_backend =
  ib_open :: "('w, 'h, 'e) action"
  ib_now :: "'w \<Rightarrow> nat"
  ib_sleep :: "nat \<Rightarrow> 'w \<Rightarrow> 'w"
  is_initialize :: "'h \<Rightarrow> nat \<Rightarrow> ('w, u16, 'e) action"
  is_read_address :: "'h \<Rightarrow> nat \<Rightarrow> ('w, bytes, 'e) action"
  is_send_vendor_command :: "'h \<Rightarrow> csr_vendor_command \<Rightarrow> nat \<Rightarrow> ('w, bytes, 'e) action"
  is_send_command_without_response :: "'h \<Rightarrow> csr_vendor_command \<Rightarrow> ('w, unit, 'e) action"
  is_close :: "'h \<Rightarrow> ('w, unit, 'e) action"

record identity_options =
  io_response_timeout :: nat
  io_reenumeration_timeout :: nat
  io_reenumeration_poll_interval :: nat

datatype identity_preparation = AlreadyActive | Rewritten

datatype identity_error_kind = UnsupportedAdapter | FailedBeforeWrite | RecoveryRequired

datatype identity_stage = StOpen | StInitialize | StReadCurrent | StWrite | StClose | StReenumeration | StReadback

record identity_error =
  ie_kind :: identity_error_kind
  ie_stage :: identity_stage

definition identity_failure :: "identity_error_kind \<Rightarrow> identity_stage \<Rightarrow> identity_error" where
  "identity_failure kind stage = \<lparr>ie_kind = kind, ie_stage = stage\<rparr>"

definition recovery :: "identity_stage \<Rightarrow> identity_error" where
  "recovery stage = identity_failure RecoveryRequired stage"

section \<open>The preparation\<close>

text \<open>
  The loop that waits for the adapter ends when it is found or when the deadline passes; with an arbitrary
  clock it may run forever, which is the value \<open>None\<close>. \<open>MILLISECOND\<close> is the shortest poll interval.
\<close>

abbreviation (input) MILLISECOND :: nat where "MILLISECOND \<equiv> 1"
abbreviation (input) DURATION_MAX :: nat where "DURATION_MAX \<equiv> 2 ^ 64 * 1000 - 1"

definition saturating_duration_add :: "nat \<Rightarrow> nat \<Rightarrow> nat" where
  "saturating_duration_add a b = min DURATION_MAX (a + b)"

partial_function (option) reenumeration_loop ::
  "('h, 'w, 'e) identity_backend \<Rightarrow> nat \<Rightarrow> nat \<Rightarrow> 'w \<Rightarrow> (('h, identity_error) result \<times> 'w) option" where
  "reenumeration_loop B deadline poll_interval w =
     (case ib_open B (ib_sleep B poll_interval w) of
        (Inr session, w1) \<Rightarrow> Some (Inr session, w1)
      | (Inl _, w1) \<Rightarrow>
          if ib_now B w1 < deadline then reenumeration_loop B deadline poll_interval w1
          else Some (Inl (recovery StReenumeration), w1))"

definition open_reenumerated_session ::
  "('h, 'w, 'e) identity_backend \<Rightarrow> identity_options \<Rightarrow> 'w \<Rightarrow> (('h, identity_error) result \<times> 'w) option" where
  "open_reenumerated_session B options w =
     reenumeration_loop B (saturating_duration_add (ib_now B w) (io_reenumeration_timeout options))
       (max (io_reenumeration_poll_interval options) MILLISECOND) w"

text \<open>\<^verbatim>\<open>let _ = session.close(); return Err(error);\<close>\<close>

definition close_and_fail ::
  "('h, 'w, 'e) identity_backend \<Rightarrow> 'h \<Rightarrow> identity_error \<Rightarrow> 'w \<Rightarrow> ('a, identity_error) result \<times> 'w" where
  "close_and_fail B session err w = (Inl err, snd (is_close B session w))"

text \<open>What follows the warm reset: the adapter is opened again and has to report the target.\<close>

definition verify_readback ::
  "('h, 'w, 'e) identity_backend \<Rightarrow> bytes \<Rightarrow> identity_options \<Rightarrow> 'h \<Rightarrow> 'w
   \<Rightarrow> (identity_preparation, identity_error) result \<times> 'w" where
  "verify_readback B target options readback w =
     (case is_initialize B readback (io_response_timeout options) w of
        (Inl _, w1) \<Rightarrow> close_and_fail B readback (recovery StReadback) w1
      | (Inr company, w1) \<Rightarrow>
          if company \<noteq> CSR_COMPANY_IDENTIFIER then close_and_fail B readback (recovery StReadback) w1
          else (case is_read_address B readback (io_response_timeout options) w1 of
             (Inl _, w2) \<Rightarrow> close_and_fail B readback (recovery StReadback) w2
           | (Inr address, w2) \<Rightarrow>
               (case is_close B readback w2 of
                  (Inl _, w3) \<Rightarrow> (Inl (recovery StClose), w3)
                | (Inr _, w3) \<Rightarrow>
                    (if address \<noteq> target then Inl (recovery StReadback) else Inr Rewritten, w3))))"

definition write_accepted :: "bytes \<Rightarrow> bool" where
  "write_accepted response =
     (case res_bind (parse_csr_bccmd_response response) (\<lambda>status.
        if status = 0 then Inr () else Inl FailedResponse) of Inl _ \<Rightarrow> False | Inr _ \<Rightarrow> True)"

definition rewrite_identity ::
  "('h, 'w, 'e) identity_backend \<Rightarrow> bytes \<Rightarrow> identity_options \<Rightarrow> 'h \<Rightarrow> 'w
   \<Rightarrow> ((identity_preparation, identity_error) result \<times> 'w) option" where
  "rewrite_identity B target options session w =
     (let rewrite = build_csr_bd_addr_volatile_rewrite_plan target 0x4711 in
      case is_send_vendor_command B session (rp_write rewrite) (io_response_timeout options) w of
        (Inl _, w1) \<Rightarrow> Some (close_and_fail B session (recovery StWrite) w1)
      | (Inr response, w1) \<Rightarrow>
          if \<not> write_accepted response then Some (close_and_fail B session (recovery StWrite) w1)
          else let w2 = snd (is_send_command_without_response B session (rp_reset rewrite) w1);
                   w3 = snd (is_close B session w2) in
            (case open_reenumerated_session B options w3 of
               None \<Rightarrow> None
             | Some (Inl err, w4) \<Rightarrow> Some (Inl err, w4)
             | Some (Inr readback, w4) \<Rightarrow> Some (verify_readback B target options readback w4)))"

definition prepare_adapter_identity ::
  "('h, 'w, 'e) identity_backend \<Rightarrow> bytes \<Rightarrow> identity_options \<Rightarrow> 'w
   \<Rightarrow> ((identity_preparation, identity_error) result \<times> 'w) option" where
  "prepare_adapter_identity B target options w =
     (case ib_open B w of
        (Inl _, w1) \<Rightarrow> Some (Inl (identity_failure FailedBeforeWrite StOpen), w1)
      | (Inr session, w1) \<Rightarrow>
          (case is_initialize B session (io_response_timeout options) w1 of
             (Inl _, w2) \<Rightarrow> Some (close_and_fail B session (identity_failure FailedBeforeWrite StInitialize) w2)
           | (Inr company, w2) \<Rightarrow>
               if company \<noteq> CSR_COMPANY_IDENTIFIER
               then Some (close_and_fail B session (identity_failure UnsupportedAdapter StInitialize) w2)
               else (case is_read_address B session (io_response_timeout options) w2 of
                  (Inl _, w3) \<Rightarrow>
                    Some (close_and_fail B session (identity_failure FailedBeforeWrite StReadCurrent) w3)
                | (Inr current, w3) \<Rightarrow>
                    if current = target then
                      (case is_close B session w3 of
                         (Inl _, w4) \<Rightarrow> Some (Inl (identity_failure FailedBeforeWrite StClose), w4)
                       | (Inr _, w4) \<Rightarrow> Some (Inr AlreadyActive, w4))
                    else rewrite_identity B target options session w3)))"

section \<open>Traces\<close>

text \<open>
  A backend that behaves as the one it wraps and records what is done to the adapter: which sessions are
  opened and closed, which addresses are read, and which vendor commands are sent, accepted or not.
\<close>

datatype adapter_event = Opened | ReadAs bytes | Sent csr_vendor_command | Closed_Session

type_synonym 'w traced_world = "'w \<times> adapter_event list"

definition log_as :: "(('a, 'e) result \<Rightarrow> adapter_event list) \<Rightarrow> ('w, 'a, 'e) action \<Rightarrow> ('w traced_world, 'a, 'e) action" where
  "log_as f m s = (let (r, w) = m (fst s) in (r, (w, snd s @ f r)))"

definition traced :: "('h, 'w, 'e) identity_backend \<Rightarrow> ('h, 'w traced_world, 'e) identity_backend" where
  "traced B =
     \<lparr>ib_open = log_as (case_sum (\<lambda>_. []) (\<lambda>_. [Opened])) (ib_open B),
      ib_now = (\<lambda>s. ib_now B (fst s)),
      ib_sleep = (\<lambda>d s. (ib_sleep B d (fst s), snd s)),
      is_initialize = (\<lambda>h t. log_as (\<lambda>_. []) (is_initialize B h t)),
      is_read_address = (\<lambda>h t. log_as (case_sum (\<lambda>_. []) (\<lambda>a. [ReadAs a])) (is_read_address B h t)),
      is_send_vendor_command = (\<lambda>h c t. log_as (\<lambda>_. [Sent c]) (is_send_vendor_command B h c t)),
      is_send_command_without_response = (\<lambda>h c. log_as (\<lambda>_. [Sent c]) (is_send_command_without_response B h c)),
      is_close = (\<lambda>h. log_as (\<lambda>_. [Closed_Session]) (is_close B h))\<rparr>"

text \<open>
  The traces an outcome may have. Nothing is sent before the write; an error whose kind is not
  \<open>RecoveryRequired\<close> means that nothing was sent at all, and every session that was opened was closed.
\<close>

definition rewrite_trace :: "bytes \<Rightarrow> bytes \<Rightarrow> adapter_event list" where
  "rewrite_trace current target =
     (let plan = build_csr_bd_addr_volatile_rewrite_plan target 0x4711 in
      [Opened, ReadAs current, Sent (rp_write plan), Sent (rp_reset plan), Closed_Session])"

fun allowed_trace :: "bytes \<Rightarrow> (identity_preparation, identity_error) result \<Rightarrow> adapter_event list \<Rightarrow> bool" where
  "allowed_trace target (Inr AlreadyActive) l \<longleftrightarrow> l = [Opened, ReadAs target, Closed_Session]"
| "allowed_trace target (Inr Rewritten) l \<longleftrightarrow>
     (\<exists>current. current \<noteq> target \<and> l = rewrite_trace current target @ [Opened, ReadAs target, Closed_Session])"
| "allowed_trace target (Inl err) l \<longleftrightarrow>
     (if ie_kind err = RecoveryRequired then
        (\<exists>current rest. current \<noteq> target
           \<and> (l = [Opened, ReadAs current, Sent (rp_write (build_csr_bd_addr_volatile_rewrite_plan target 0x4711)), Closed_Session]
              \<or> l = rewrite_trace current target @ rest
                \<and> (rest = [] \<or> rest = [Opened, Closed_Session] \<or> (\<exists>a. rest = [Opened, ReadAs a, Closed_Session]))))
      else l = [] \<or> l = [Opened, Closed_Session] \<or> l = [Opened, ReadAs target, Closed_Session])"

lemma traced_sel [simp]:
  "ib_open (traced B) s = log_as (case_sum (\<lambda>_. []) (\<lambda>_. [Opened])) (ib_open B) s"
  "ib_now (traced B) s = ib_now B (fst s)"
  "ib_sleep (traced B) d s = (ib_sleep B d (fst s), snd s)"
  "is_initialize (traced B) h t s = log_as (\<lambda>_. []) (is_initialize B h t) s"
  "is_read_address (traced B) h t s = log_as (case_sum (\<lambda>_. []) (\<lambda>a. [ReadAs a])) (is_read_address B h t) s"
  "is_send_vendor_command (traced B) h c t s = log_as (\<lambda>_. [Sent c]) (is_send_vendor_command B h c t) s"
  "is_send_command_without_response (traced B) h c s = log_as (\<lambda>_. [Sent c]) (is_send_command_without_response B h c) s"
  "is_close (traced B) h s = log_as (\<lambda>_. [Closed_Session]) (is_close B h) s"
  by (simp_all add: traced_def)

lemma log_as_eq [simp]:
  "log_as f m s = (r, s') \<longleftrightarrow> (\<exists>w. m (fst s) = (r, w) \<and> s' = (w, snd s @ f r))"
  by (auto simp: log_as_def split: prod.split)

lemma snd_log_as: "snd (snd (log_as f m s)) = snd s @ f (fst (m (fst s)))"
  by (simp add: log_as_def split_beta)

lemma fst_log_as: "fst (log_as f m s) = fst (m (fst s))"
  by (simp add: log_as_def split_beta)

lemma reenumeration_trace:
  "reenumeration_loop T deadline interval s = Some y \<Longrightarrow> T = traced B \<Longrightarrow>
   (case fst y of Inl err \<Rightarrow> err = recovery StReenumeration \<and> snd (snd y) = snd s
    | Inr _ \<Rightarrow> snd (snd y) = snd s @ [Opened])"
proof (induction rule: reenumeration_loop.raw_induct [rotated, consumes 1, case_names step])
  case (step loop T deadline interval s y)
  obtain r w where o: "ib_open B (ib_sleep B interval (fst s)) = (r, w)" by fastforce
  show ?case
  proof (cases "(\<exists>e. r = Inl e) \<and> ib_now B w < deadline")
    case True
    then have "loop T deadline interval (w, snd s) = Some y" using step.hyps step.prems o by (auto simp: log_as_def)
    from step.IH [OF this step.prems] show ?thesis by (cases "fst y") simp_all
  next
    case False
    then have "y = (if \<exists>h. r = Inr h then (map_err (\<lambda>_. recovery StReenumeration) r, w, snd s @ [Opened])
        else (Inl (recovery StReenumeration), w, snd s))"
      using step.hyps step.prems o by (cases r) (auto simp: log_as_def)
    with False show ?thesis by (cases r) auto
  qed
qed

lemma verify_trace:
  "\<exists>r w tail. verify_readback (traced B) target options h (w0, l) = (r, (w, l @ tail))
     \<and> (case r of Inl err \<Rightarrow> ie_kind err = RecoveryRequired
            \<and> (tail = [Closed_Session] \<or> (\<exists>a. tail = [ReadAs a, Closed_Session]))
        | Inr p \<Rightarrow> p = Rewritten \<and> tail = [ReadAs target, Closed_Session])"
  by (auto simp: verify_readback_def close_and_fail_def recovery_def identity_failure_def log_as_def
      split: prod.split sum.split)

lemma readback_traced:
  assumes q: "open_reenumerated_session (traced B) options s3 = Some (q, s4)"
    and out: "(r, s) = (case q of Inl err \<Rightarrow> (Inl err, s4) | Inr h' \<Rightarrow> verify_readback (traced B) target options h' s4)"
    and l3: "snd s3 = rewrite_trace current target" and "current \<noteq> target"
  shows "allowed_trace target r (snd s)"
proof -
  note opened = reenumeration_trace [OF q [unfolded open_reenumerated_session_def] refl]
  show ?thesis
  proof (cases q)
    case (Inl err)
    then show ?thesis
      using opened out l3 assms(4) by (auto simp: recovery_def identity_failure_def)
  next
    case (Inr h')
    then have "s4 = (fst s4, rewrite_trace current target @ [Opened])"
      using opened l3 by (simp add: prod_eq_iff)
    then show ?thesis
      using verify_trace [of B target options h' "fst s4" "rewrite_trace current target @ [Opened]"] out Inr assms(4)
      by (cases r) auto
  qed
qed

lemma rewrite_traced:
  assumes "rewrite_identity (traced B) target options h (w0, [Opened, ReadAs current]) = Some (r, s)"
    and "current \<noteq> target"
  shows "allowed_trace target r (snd s)"
proof -
  let ?plan = "build_csr_bd_addr_volatile_rewrite_plan target 0x4711"
  obtain answer w1 where send: "is_send_vendor_command B h (rp_write ?plan) (io_response_timeout options) w0 = (answer, w1)"
    by fastforce
  define accepted where "accepted = (case answer of Inl _ \<Rightarrow> False | Inr b \<Rightarrow> write_accepted b)"
  show ?thesis
  proof (cases accepted)
    case False
    then have "(r, s) = close_and_fail (traced B) h (recovery StWrite) (w1, [Opened, ReadAs current, Sent (rp_write ?plan)])"
      using assms(1) send
      by (auto simp: rewrite_identity_def Let_def log_as_def accepted_def split: sum.splits)
    then show ?thesis
      using assms(2) by (auto simp: close_and_fail_def recovery_def identity_failure_def snd_log_as)
  next
    case True
    define s3 where "s3 = snd (is_close (traced B) h (snd (is_send_command_without_response (traced B) h (rp_reset ?plan)
      (w1, [Opened, ReadAs current, Sent (rp_write ?plan)]))))"
    have l3: "snd s3 = rewrite_trace current target"
      by (simp add: s3_def snd_log_as rewrite_trace_def Let_def)
    have "Some (r, s) = (case open_reenumerated_session (traced B) options s3 of None \<Rightarrow> None
        | Some (Inl err, w4) \<Rightarrow> Some (Inl err, w4)
        | Some (Inr readback, w4) \<Rightarrow> Some (verify_readback (traced B) target options readback w4))"
      using True assms(1) send
      by (auto simp: rewrite_identity_def Let_def log_as_def accepted_def s3_def split: sum.splits)
    then obtain q s4 where q: "open_reenumerated_session (traced B) options s3 = Some (q, s4)"
      and out: "(r, s) = (case q of Inl err \<Rightarrow> (Inl err, s4) | Inr h' \<Rightarrow> verify_readback (traced B) target options h' s4)"
      by (auto split: option.splits prod.splits sum.splits)
    show ?thesis by (rule readback_traced [OF q out l3 assms(2)])
  qed
qed

lemma prepare_traced:
  assumes "prepare_adapter_identity (traced B) target options (w0, []) = Some (r, s)"
  shows "allowed_trace target r (snd s)"
  using assms
  by (auto simp: prepare_adapter_identity_def close_and_fail_def identity_failure_def log_as_def
      split: prod.splits sum.splits if_splits dest!: rewrite_traced)

section \<open>Lemmas: the wait ends\<close>

text \<open>
  What the code relies on of the clock: sleeping lasts at least as long as asked for and time does not
  run backwards while an open is attempted (\<^verbatim>\<open>std::thread::sleep\<close>, \<^verbatim>\<open>std::time::Instant\<close>).
\<close>

definition steady_clock :: "('h, 'w, 'e) identity_backend \<Rightarrow> bool" where
  "steady_clock B \<longleftrightarrow> (\<forall>d w. ib_now B w + d \<le> ib_now B (ib_sleep B d w))
     \<and> (\<forall>w. ib_now B w \<le> ib_now B (snd (ib_open B w)))"

lemma reenumeration_ends:
  assumes "steady_clock B" "0 < interval"
  shows "\<exists>y. reenumeration_loop B deadline interval w = Some y"
proof (induction "deadline - ib_now B w" arbitrary: w rule: less_induct)
  case less
  obtain r w1 where o: "ib_open B (ib_sleep B interval w) = (r, w1)" by fastforce
  have later: "ib_now B w < ib_now B w1"
  proof -
    have "ib_now B w + interval \<le> ib_now B (ib_sleep B interval w)"
      using assms(1) by (simp add: steady_clock_def)
    moreover have "ib_now B (ib_sleep B interval w) \<le> ib_now B w1"
      using assms(1) o by (auto simp: steady_clock_def dest: spec [of _ "ib_sleep B interval w"])
    ultimately show ?thesis using assms(2) by simp
  qed
  show ?case
  proof (cases "(\<exists>e. r = Inl e) \<and> ib_now B w1 < deadline")
    case True
    then have "\<exists>y. reenumeration_loop B deadline interval w1 = Some y" using later by (intro less) linarith
    with True o show ?thesis by (subst reenumeration_loop.simps) auto
  next
    case False
    with o show ?thesis by (subst reenumeration_loop.simps) (auto split: sum.split)
  qed
qed

lemma prepare_ends:
  assumes "steady_clock B"
  shows "\<exists>y. prepare_adapter_identity B target options w = Some y"
proof -
  have "\<exists>y. open_reenumerated_session B options s = Some y" for s
    using reenumeration_ends [OF assms] by (simp add: open_reenumerated_session_def)
  then have "rewrite_identity B target options h s \<noteq> None" for h s
    by (auto simp: rewrite_identity_def Let_def split: prod.split sum.split option.split) (metis option.distinct(1))
  then show ?thesis
    by (auto simp: prepare_adapter_identity_def split: prod.split sum.split)
qed

section \<open>Interface: what every adapter call keeps\<close>

text \<open>What every call of the two traits keeps of the world, the preparation keeps.\<close>

locale identity_invariant =
  fixes B :: "('h, 'w, 'e) identity_backend" and I :: "'w \<Rightarrow> bool"
  assumes open_keeps: "preserves I (ib_open B)"
    and sleep_keeps: "I w \<Longrightarrow> I (ib_sleep B d w)"
    and initialize_keeps: "preserves I (is_initialize B h t)"
    and read_keeps: "preserves I (is_read_address B h t)"
    and vendor_keeps: "preserves I (is_send_vendor_command B h c t)"
    and command_keeps: "preserves I (is_send_command_without_response B h c)"
    and close_keeps: "preserves I (is_close B h)"
begin

lemmas keeps = open_keeps [THEN preservesD] initialize_keeps [THEN preservesD] read_keeps [THEN preservesD]
  vendor_keeps [THEN preservesD] command_keeps [THEN preservesD] close_keeps [THEN preservesD]

lemma keeps_result:
  "ib_open B w = (r1, w') \<Longrightarrow> I w \<Longrightarrow> I w'"
  "is_initialize B h t w = (r2, w') \<Longrightarrow> I w \<Longrightarrow> I w'"
  "is_read_address B h t w = (r3, w') \<Longrightarrow> I w \<Longrightarrow> I w'"
  "is_send_vendor_command B h c t w = (r4, w') \<Longrightarrow> I w \<Longrightarrow> I w'"
  "is_close B h w = (r5, w') \<Longrightarrow> I w \<Longrightarrow> I w'"
  by (metis keeps snd_conv)+

lemma reenumeration_keeps:
  "reenumeration_loop B' deadline interval w = Some y \<Longrightarrow> B' = B \<Longrightarrow> I w \<Longrightarrow> I (snd y)"
proof (induction rule: reenumeration_loop.raw_induct [rotated, consumes 1, case_names step])
  case (step loop B' deadline interval w y)
  obtain r w1 where o: "ib_open B (ib_sleep B interval w) = (r, w1)" by fastforce
  have "I w1" using keeps_result(1) [OF o] sleep_keeps [OF step.prems(2)] .
  with step.hyps step.IH [of B deadline interval w1 y] step.prems(1) o show ?case
    by (auto split: sum.splits if_splits)
qed

lemma verify_keeps: "I w \<Longrightarrow> I (snd (verify_readback B target options h w))"
  by (auto simp: verify_readback_def close_and_fail_def split: prod.split sum.split intro: keeps dest!: keeps_result)

lemma rewrite_keeps:
  assumes "rewrite_identity B target options h w = Some (r, w')" "I w"
  shows "I w'"
proof -
  have reopened: "open_reenumerated_session B options w3 = Some (q, w4) \<Longrightarrow> I w3 \<Longrightarrow> I w4" for w3 q w4
    unfolding open_reenumerated_session_def using reenumeration_keeps [of B _ _ w3 "(q, w4)"] by simp
  show ?thesis
    using assms verify_keeps [of _ target options]
    by (auto simp: rewrite_identity_def Let_def close_and_fail_def split: prod.splits sum.splits option.splits if_splits
        intro: keeps dest!: keeps_result reopened) (metis keeps snd_conv)+
qed

lemma prepare_keeps:
  assumes "prepare_adapter_identity B target options w = Some (r, w')" "I w"
  shows "I w'"
  using assms rewrite_keeps
  by (auto simp: prepare_adapter_identity_def close_and_fail_def split: prod.splits sum.splits if_splits
      intro: keeps dest!: keeps_result)

end

section \<open>Lemmas: tracing\<close>

text \<open>Tracing changes nothing of what the preparation does.\<close>

definition untraced :: "(('a \<times> 'w traced_world) option) \<Rightarrow> ('a \<times> 'w) option" where
  "untraced = map_option (\<lambda>(r, s). (r, fst s))"

lemma untraced_simps [simp]: "untraced None = None" "untraced (Some (r, s)) = Some (r, fst s)"
  by (simp_all add: untraced_def)

lemma steady_traced: "steady_clock B \<Longrightarrow> steady_clock (traced B)"
  by (simp add: steady_clock_def log_as_def split_beta)

lemma reenumeration_untraced:
  assumes "steady_clock B" "0 < interval"
  shows "untraced (reenumeration_loop (traced B) deadline interval s) = reenumeration_loop B deadline interval (fst s)"
proof -
  obtain r s' where loop: "reenumeration_loop (traced B) deadline interval s = Some (r, s')"
    using reenumeration_ends [OF steady_traced [OF assms(1)] assms(2), of deadline s] by auto
  have "T = traced B \<Longrightarrow> reenumeration_loop B deadline interval (fst s) = Some (fst y, fst (snd y))"
    if "reenumeration_loop T deadline interval s = Some y" for T y s deadline interval
    using that
  proof (induction rule: reenumeration_loop.raw_induct [rotated, consumes 1, case_names step])
    case (step loop T deadline interval s y)
    obtain r w l where "y = (r, (w, l))" by (cases y) auto
    with step show ?case
      by (subst reenumeration_loop.simps)
        (auto simp: log_as_def split_beta split: sum.splits if_splits)
  qed
  from this [OF loop refl] loop show ?thesis by simp
qed

lemma prepare_untraced:
  assumes "steady_clock B"
  shows "untraced (prepare_adapter_identity (traced B) target options s) = prepare_adapter_identity B target options (fst s)"
proof -
  have reopen: "untraced (open_reenumerated_session (traced B) options s) = open_reenumerated_session B options (fst s)" for s
    using reenumeration_untraced [OF assms] by (simp add: open_reenumerated_session_def)
  have verify: "untraced (Some (verify_readback (traced B) target options h s))
      = Some (verify_readback B target options h (fst s))" for h s
    by (auto simp: verify_readback_def close_and_fail_def log_as_def split_beta split: sum.split)
  have "untraced (rewrite_identity (traced B) target options h s) = rewrite_identity B target options h (fst s)" for h s
  proof -
    have out: "untraced (case x of None \<Rightarrow> None | Some (Inl err, s') \<Rightarrow> Some (Inl err, s')
          | Some (Inr h', s') \<Rightarrow> Some (verify_readback (traced B) target options h' s'))
        = (case untraced x of None \<Rightarrow> None | Some (Inl err, w') \<Rightarrow> Some (Inl err, w')
          | Some (Inr h', w') \<Rightarrow> Some (verify_readback B target options h' w'))" for x
      by (auto simp: verify split: option.split sum.split)
    show ?thesis
      by (simp add: rewrite_identity_def Let_def log_as_def split_beta out reopen close_and_fail_def split: sum.split)
  qed
  then show ?thesis
    by (simp add: prepare_adapter_identity_def log_as_def split_beta close_and_fail_def split: sum.split)
qed

text \<open>
  An adapter of the CSR kind: a clock, its address, the address its store holds, and whether it is on the
  bus. A write goes to the store, the warm reset takes it off the bus, sleeping brings it back with the
  stored address.
\<close>

record csr_adapter =
  ad_now :: nat
  ad_address :: bytes
  ad_store :: bytes
  ad_present :: bool

definition csr_adapter_backend :: "(unit, csr_adapter, unit) identity_backend" where
  "csr_adapter_backend =
     \<lparr>ib_open = (\<lambda>a. (if ad_present a then Inr () else Inl (), a)),
      ib_now = ad_now,
      ib_sleep = (\<lambda>d a. a\<lparr>ad_now := ad_now a + d, ad_present := True,
        ad_address := (if ad_present a then ad_address a else ad_store a)\<rparr>),
      is_initialize = (\<lambda>_ _ a. (Inr 10, a)),
      is_read_address = (\<lambda>_ _ a. (Inr (ad_address a), a)),
      is_send_vendor_command = (\<lambda>_ c _ a. let answer = csr_echo 0 (cc_parameters c) in
        (Inr answer, a\<lparr>ad_store := (case parse_csr_bd_addr_read_response answer of
           Inl _ \<Rightarrow> ad_store a | Inr r \<Rightarrow> rr_address r)\<rparr>)),
      is_send_command_without_response = (\<lambda>_ _ a. (Inr (), a\<lparr>ad_present := False\<rparr>)),
      is_close = (\<lambda>_ a. (Inr (), a))\<rparr>"

section \<open>Properties\<close>

text \<open>C24: address preparation is fail-closed, whatever the adapter does. Given a clock that advances and
  an adapter whose calls return, it always ends.
  \<^verbatim>\<open>AlreadyActive\<close> means the adapter reported the target and nothing was sent to it; \<^verbatim>\<open>Rewritten\<close> means the
  write and the warm reset for exactly the target were sent and the reopened adapter reported the
  target; an error asks for recovery exactly when the write command was sent; and every session that
  was opened was closed, on every path.\<close>

theorem identity_fail_closed:
  assumes "steady_clock B"
  shows "\<exists>r w' events. prepare_adapter_identity B target options w = Some (r, w')
    \<and> prepare_adapter_identity (traced B) target options (w, []) = Some (r, (w', events))
    \<and> allowed_trace target r events"
proof -
  obtain r s where traced: "prepare_adapter_identity (traced B) target options (w, []) = Some (r, s)"
    using prepare_ends [OF steady_traced [OF assms]] by fastforce
  with prepare_untraced [OF assms, of target options "(w, [])"] prepare_traced [OF traced] show ?thesis
    by (cases s) simp
qed

theorem identity_fail_closed_witness:
  "\<exists>r w' events. prepare_adapter_identity csr_adapter_backend [2, 0x12, 0x34, 0x56, 0x78, 0x9A]
      \<lparr>io_response_timeout = 5000, io_reenumeration_timeout = 10000, io_reenumeration_poll_interval = 100\<rparr>
      \<lparr>ad_now = 0, ad_address = [0, 0x1B, 0xDC, 0xF9, 0x9F, 0x7D], ad_store = [], ad_present = True\<rparr> = Some (r, w')
    \<and> prepare_adapter_identity (traced csr_adapter_backend) [2, 0x12, 0x34, 0x56, 0x78, 0x9A]
      \<lparr>io_response_timeout = 5000, io_reenumeration_timeout = 10000, io_reenumeration_poll_interval = 100\<rparr>
      (\<lparr>ad_now = 0, ad_address = [0, 0x1B, 0xDC, 0xF9, 0x9F, 0x7D], ad_store = [], ad_present = True\<rparr>, [])
      = Some (r, (w', events))
    \<and> allowed_trace [2, 0x12, 0x34, 0x56, 0x78, 0x9A] r events"
  by (rule identity_fail_closed) (simp add: steady_clock_def csr_adapter_backend_def)

text \<open>on an adapter that stores what it is told and comes back after a reset, preparation succeeds and leaves the
  adapter with the target address: it reports \<^verbatim>\<open>AlreadyActive\<close> when the address was already the
  target and \<^verbatim>\<open>Rewritten\<close> otherwise.\<close>

theorem identity_rewrites_adapter:
  assumes "length target = 6" "ad_present a"
  shows "\<exists>a'. prepare_adapter_identity csr_adapter_backend target options a
      = Some (Inr (if ad_address a = target then AlreadyActive else Rewritten), a') \<and> ad_address a' = target"
proof -
  let ?answer = "csr_echo 0 (cc_parameters (rp_write (build_csr_bd_addr_volatile_rewrite_plan target 0x4711)))"
  obtain x0 x1 x2 x3 x4 x5 where t: "target = [x0, x1, x2, x3, x4, x5]"
    using assms(1) by (auto simp: numeral_eq_Suc length_Suc_conv)
  have "parse_csr_bccmd_response ?answer = Inr 0"
    and "parse_csr_bd_addr_read_response ?answer = Inr \<lparr>rr_address = target, rr_status = 0\<rparr>"
    by (simp_all add: t rewrite_parameters csr_echo_def parse_csr_bccmd_response_def
        parse_csr_bd_addr_read_response_def le16_bytes_def le16_of_def Let_def)
  then show ?thesis
    using assms(2)
    by (auto simp: prepare_adapter_identity_def csr_adapter_backend_def rewrite_identity_def write_accepted_def Let_def
        open_reenumerated_session_def verify_readback_def reenumeration_loop.simps)
qed

theorem identity_rewrites_adapter_witness:
  "\<exists>a'. prepare_adapter_identity csr_adapter_backend [2, 0x12, 0x34, 0x56, 0x78, 0x9A]
      \<lparr>io_response_timeout = 5000, io_reenumeration_timeout = 10000, io_reenumeration_poll_interval = 100\<rparr>
      \<lparr>ad_now = 0, ad_address = [0, 0x1B, 0xDC, 0xF9, 0x9F, 0x7D], ad_store = [], ad_present = True\<rparr>
      = Some (Inr Rewritten, a') \<and> ad_address a' = [2, 0x12, 0x34, 0x56, 0x78, 0x9A]"
  using identity_rewrites_adapter [of "[2, 0x12, 0x34, 0x56, 0x78, 0x9A]"
      "\<lparr>ad_now = 0, ad_address = [0, 0x1B, 0xDC, 0xF9, 0x9F, 0x7D], ad_store = [], ad_present = True\<rparr>"
      "\<lparr>io_response_timeout = 5000, io_reenumeration_timeout = 10000, io_reenumeration_poll_interval = 100\<rparr>"]
  by simp

end
