(* ===== verification/Usb.thy ===== *)
theory Usb
  imports Hci Values
begin

text \<open>
  The USB transport of \<^verbatim>\<open>src/src/usb.rs\<close>: selectors and the choice of a device and of an HCI interface,
  the framing of transfers into HCI packets, the polling of the two input endpoints, the writing of
  packets, and the division into the half of the reader thread and that of the writer.

  The library \<^verbatim>\<open>rusb\<close> is a parameter: its answers about devices are data, its transfers the fields of a
  record of functions over a state \<open>'b\<close>. Of its errors the code tells four apart; an error is which of
  them it is, if any, with its text. A \<^verbatim>\<open>str\<close> is the list of its bytes, one \<open>char\<close> per byte.
\<close>

section \<open>Selectors\<close>

datatype transfer_error = UsbTimeout | UsbDisconnected | UsbAccess | UsbOther string

datatype rusb_kind = RusbTimeout | RusbNoDevice | RusbAccess | RusbNotSupported | RusbOther

datatype rusb_error = RusbError (rusb_kind: rusb_kind) (rusb_text: string)

datatype usb_error =
    InvalidSelector
  | DeviceNotFound
  | NoHciInterface
  | Transfer transfer_error
  | Codec codec_error
  | PartialWrite nat nat
  | PacketTooLarge nat nat
  | UsbClosed
  | Rusb rusb_error
  | ReaderPanicked

datatype usb_selector =
    Index nat
  | VidPid u16 u16 "string option" nat
  | Path u8 "u8 list"

text \<open>\<^verbatim>\<open>str::strip_prefix\<close>, \<^verbatim>\<open>str::split_once\<close> on one character, and \<^verbatim>\<open>from_str_radix\<close> of the unsigned types,
  which accept one leading plus sign.\<close>

definition strip_prefix :: "string \<Rightarrow> string \<Rightarrow> string option" where
  "strip_prefix pre s = (if take (length pre) s = pre then Some (drop (length pre) s) else None)"

fun split_once :: "char \<Rightarrow> string \<Rightarrow> (string \<times> string) option" where
  "split_once d [] = None"
| "split_once d (c # cs) =
     (if c = d then Some ([], cs) else map_option (\<lambda>(a, b). (c # a, b)) (split_once d cs))"

fun radix_digits :: "nat \<Rightarrow> nat \<Rightarrow> string \<Rightarrow> nat option" where
  "radix_digits radix acc [] = Some acc"
| "radix_digits radix acc (c # cs) = (case hex_digit c of
     None \<Rightarrow> None
   | Some d \<Rightarrow> if d < radix then radix_digits radix (radix * acc + d) cs else None)"

definition parse_radix :: "nat \<Rightarrow> nat \<Rightarrow> string \<Rightarrow> nat option" where
  "parse_radix radix width s =
     (let digits = (case s of c # cs \<Rightarrow> if c = CHR ''+'' then cs else s | [] \<Rightarrow> []) in
      if digits = [] then None
      else case radix_digits radix 0 digits of
          Some n \<Rightarrow> if n < 2 ^ width then Some n else None
        | None \<Rightarrow> None)"

definition parse_hex_id :: "string \<Rightarrow> (u16, usb_error) result" where
  "parse_hex_id v = map_err (\<lambda>_. InvalidSelector) (ok_or () (map_option of_nat (parse_radix 16 16 v)))"

definition parse_u8 :: "string \<Rightarrow> (u8, usb_error) result" where
  "parse_u8 v = map_err (\<lambda>_. InvalidSelector) (ok_or () (map_option of_nat (parse_radix 10 8 v)))"

definition parse_usize :: "string \<Rightarrow> (nat, usb_error) result" where
  "parse_usize v = map_err (\<lambda>_. InvalidSelector) (ok_or () (parse_radix 10 64 v))"

text \<open>The part of a vendor and product selector after the vendor: product, serial number and occurrence.\<close>

definition split_product :: "string \<Rightarrow> (string \<times> string option \<times> nat, usb_error) result" where
  "split_product product = (case split_once (CHR ''/'') product of
       Some (p, serial) \<Rightarrow> if serial = [] then Inl InvalidSelector else Inr (p, Some serial, 0)
     | None \<Rightarrow> (case split_once (CHR ''#'') product of
         Some (p, occurrence) \<Rightarrow> res_bind (parse_usize occurrence) (\<lambda>n. Inr (p, None, n))
       | None \<Rightarrow> Inr (product, None, 0)))"

definition selector_parse :: "string \<Rightarrow> (usb_selector, usb_error) result" where
  "selector_parse input =
     (let v = (case strip_prefix ''usb:'' input of None \<Rightarrow> input | Some rest \<Rightarrow> rest) in
      if v = [] then Inl InvalidSelector
      else case split_once (CHR '':'') v of
          Some (vendor, product) \<Rightarrow>
            res_bind (parse_hex_id vendor) (\<lambda>vendor_id.
            res_bind (split_product product) (\<lambda>(product, serial_number, occurrence).
            res_bind (parse_hex_id product) (\<lambda>product_id.
            Inr (VidPid vendor_id product_id serial_number occurrence))))
        | None \<Rightarrow> (case split_once (CHR ''-'') v of
            Some (bus, ports) \<Rightarrow>
              res_bind (parse_u8 bus) (\<lambda>bus.
              res_bind (collect_results (map parse_u8 (split_on (CHR ''.'') ports))) (\<lambda>ports.
              if ports = [] then Inl InvalidSelector else Inr (Path bus ports)))
          | None \<Rightarrow> res_bind (parse_usize v) (\<lambda>i. Inr (Index i))))"

section \<open>Interfaces and devices\<close>

datatype usb_direction = DirIn | DirOut
datatype transfer_type = TControl | TIsochronous | TBulk | TInterrupt

record usb_endpoint_info =
  ue_address :: u8
  ue_direction :: usb_direction
  ue_transfer_type :: transfer_type

record usb_interface_info =
  ui_configuration :: u8
  ui_interface :: u8
  ui_alternate :: u8
  ui_class :: u8
  ui_subclass :: u8
  ui_protocol :: u8
  ui_endpoints :: "usb_endpoint_info list"

record usb_layout =
  ul_configuration :: u8
  ul_interface :: u8
  ul_alternate :: u8
  ul_interrupt_in :: u8
  ul_bulk_in :: u8
  ul_bulk_out :: u8

abbreviation (input) USB_DEVICE_CLASS_DEVICE :: u8 where "USB_DEVICE_CLASS_DEVICE \<equiv> 0x00"
abbreviation (input) HCI_CLASS :: "u8 \<times> u8 \<times> u8" where "HCI_CLASS \<equiv> (0xE0, 0x01, 0x01)"

definition find_endpoint :: "usb_interface_info \<Rightarrow> usb_direction \<Rightarrow> transfer_type \<Rightarrow> u8 option" where
  "find_endpoint interface direction transfer_type =
     map_option ue_address (find (\<lambda>e. ue_direction e = direction \<and> ue_transfer_type e = transfer_type)
       (ui_endpoints interface))"

definition interface_layout :: "usb_interface_info \<Rightarrow> usb_layout option" where
  "interface_layout interface =
     (if (ui_class interface, ui_subclass interface, ui_protocol interface) \<noteq> HCI_CLASS then None
      else case find_endpoint interface DirIn TInterrupt of None \<Rightarrow> None
        | Some interrupt_in \<Rightarrow> (case find_endpoint interface DirIn TBulk of None \<Rightarrow> None
        | Some bulk_in \<Rightarrow> (case find_endpoint interface DirOut TBulk of None \<Rightarrow> None
        | Some bulk_out \<Rightarrow> Some \<lparr>ul_configuration = ui_configuration interface,
            ul_interface = ui_interface interface, ul_alternate = ui_alternate interface,
            ul_interrupt_in = interrupt_in, ul_bulk_in = bulk_in, ul_bulk_out = bulk_out\<rparr>)))"

fun select_layout :: "usb_interface_info list \<Rightarrow> usb_layout option" where
  "select_layout [] = None"
| "select_layout (i # is) = (case interface_layout i of Some l \<Rightarrow> Some l | None \<Rightarrow> select_layout is)"

text \<open>A device as \<^verbatim>\<open>rusb\<close> reports it: the outcome of each query the code makes.\<close>

record usb_descriptor =
  ud_vendor_id :: u16
  ud_product_id :: u16
  ud_class :: "u8 \<times> u8 \<times> u8"
  ud_configurations :: "(usb_interface_info list, rusb_error) result list"

record usb_device =
  dv_descriptor :: "(usb_descriptor, rusb_error) result"
  dv_bus :: u8
  dv_address :: u8
  dv_port_numbers :: "(u8 list, rusb_error) result"
  dv_serial_number :: "(string, rusb_error) result"

definition interface_infos :: "usb_device \<Rightarrow> (usb_interface_info list, usb_error) result" where
  "interface_infos device =
     map_err Rusb (res_bind (dv_descriptor device) (\<lambda>descriptor.
       res_bind (collect_results (ud_configurations descriptor)) (\<lambda>configs. Inr (concat configs))))"

definition device_is_bluetooth_hci :: "usb_device \<Rightarrow> (bool, usb_error) result" where
  "device_is_bluetooth_hci device =
     res_bind (map_err Rusb (dv_descriptor device)) (\<lambda>descriptor.
     if ud_class descriptor = HCI_CLASS then Inr True
     else if fst (ud_class descriptor) \<noteq> USB_DEVICE_CLASS_DEVICE then Inr False
     else res_bind (interface_infos device) (\<lambda>infos.
       Inr (list_ex (\<lambda>i. (ui_class i, ui_subclass i, ui_protocol i) = HCI_CLASS) infos)))"

fun select_vid_pid :: "u16 \<Rightarrow> u16 \<Rightarrow> string option \<Rightarrow> nat \<Rightarrow> usb_device list \<Rightarrow> (usb_device, usb_error) result" where
  "select_vid_pid vendor_id product_id serial_number left [] = Inl DeviceNotFound"
| "select_vid_pid vendor_id product_id serial_number left (device # devices) =
     (let continue_with = (\<lambda>left. select_vid_pid vendor_id product_id serial_number left devices);
          accept = (if left = 0 then Inr device else continue_with (left - 1)) in
      case dv_descriptor device of
        Inl _ \<Rightarrow> continue_with left
      | Inr descriptor \<Rightarrow>
          if ud_vendor_id descriptor \<noteq> vendor_id \<or> ud_product_id descriptor \<noteq> product_id then continue_with left
          else (case serial_number of
             None \<Rightarrow> accept
           | Some expected \<Rightarrow> (case dv_serial_number device of
               Inl err \<Rightarrow> Inl (Rusb err)
             | Inr actual \<Rightarrow> if actual \<noteq> expected then continue_with left else accept)))"

fun select_device :: "usb_device list \<Rightarrow> usb_selector \<Rightarrow> (usb_device, usb_error) result" where
  "select_device devices (Index index) =
     (let hci = filter (\<lambda>d. case device_is_bluetooth_hci d of Inl _ \<Rightarrow> False | Inr b \<Rightarrow> b) devices in
      if index < length hci then Inr (hci ! index) else Inl DeviceNotFound)"
| "select_device devices (Path bus ports) =
     ok_or DeviceNotFound (find (\<lambda>d. dv_bus d = bus
       \<and> (case dv_port_numbers d of Inl _ \<Rightarrow> False | Inr p \<Rightarrow> p = ports)) devices)"
| "select_device devices (VidPid vendor_id product_id serial_number occurrence) =
     select_vid_pid vendor_id product_id serial_number occurrence devices"

section \<open>Framing\<close>

abbreviation (input) MAX_HCI_PACKET_SIZE :: nat where "MAX_HCI_PACKET_SIZE \<equiv> 4096"

text \<open>The length of the packet at the front of a buffer: its header says so once it is complete.\<close>

definition raw_length :: "u8 \<Rightarrow> bytes \<Rightarrow> (nat option, codec_error) result" where
  "raw_length packet_type buffered =
     (if packet_type = EVENT_PACKET_TYPE \<and> length buffered \<ge> 2 then Inr (Some (2 + unat (buffered ! 1)))
      else if packet_type = ACL_PACKET_TYPE \<and> length buffered \<ge> 4
        then Inr (Some (4 + unat (le16_of (buffered ! 2) (buffered ! 3))))
      else if packet_type = EVENT_PACKET_TYPE \<or> packet_type = ACL_PACKET_TYPE then Inr None
      else Inl (UnsupportedPacketType packet_type))"

lemma raw_length_positive: "raw_length t b = Inr (Some n) \<Longrightarrow> 0 < n"
  by (auto simp: raw_length_def split: if_splits)

function frame_loop :: "u8 \<Rightarrow> packet list \<Rightarrow> (bytes, packet list, usb_error) action" where
  "frame_loop packet_type packets buffered =
     (case raw_length packet_type buffered of
        Inl err \<Rightarrow> (Inl (Codec err), buffered)
      | Inr None \<Rightarrow> (Inr packets, buffered)
      | Inr (Some n) \<Rightarrow>
          if n + 1 > MAX_HCI_PACKET_SIZE then (Inl (PacketTooLarge (n + 1) MAX_HCI_PACKET_SIZE), [])
          else if length buffered < n then (Inr packets, buffered)
          else (case packet_from_bytes (packet_type # take n buffered) of
              Inl err \<Rightarrow> (Inl (Codec err), drop n buffered)
            | Inr packet \<Rightarrow> frame_loop packet_type (packets @ [packet]) (drop n buffered)))"
  by pat_completeness auto
termination
  by (relation "measure (\<lambda>(t, ps, b). length b)") (auto dest: raw_length_positive)

declare frame_loop.simps [simp del]

definition frame_packets :: "u8 \<Rightarrow> (bytes, packet list, usb_error) action" where
  "frame_packets packet_type = frame_loop packet_type []"

section \<open>The transport\<close>

text \<open>A read returns the count it reports and the buffer it was given, as the transfer left it.\<close>

record 'b usb_io =
  ub_read_interrupt :: "u8 \<Rightarrow> bytes \<Rightarrow> ('b, nat \<times> bytes, transfer_error) action"
  ub_read_bulk :: "u8 \<Rightarrow> bytes \<Rightarrow> ('b, nat \<times> bytes, transfer_error) action"
  ub_write_control :: "u8 \<Rightarrow> bytes \<Rightarrow> ('b, nat, transfer_error) action"
  ub_write_bulk :: "u8 \<Rightarrow> bytes \<Rightarrow> ('b, nat, transfer_error) action"

record adapter_metadata =
  am_vendor_id :: u16
  am_product_id :: u16
  am_bus :: u8
  am_address :: u8
  am_ports :: "u8 list"

record 'b usb_transport =
  us_backend :: 'b
  us_layout :: usb_layout
  us_metadata :: adapter_metadata
  us_next_endpoint :: bool
  us_event_bytes :: bytes
  us_acl_bytes :: bytes
  us_pending :: "packet list"
  us_shutdown :: bool

definition transport_new :: "'b \<Rightarrow> usb_layout \<Rightarrow> adapter_metadata \<Rightarrow> 'b usb_transport" where
  "transport_new backend layout metadata = \<lparr>us_backend = backend, us_layout = layout, us_metadata = metadata, us_next_endpoint = False,
     us_event_bytes = [], us_acl_bytes = [], us_pending = [], us_shutdown = False\<rparr>"

definition pop_pending :: "'b usb_transport \<Rightarrow> packet option \<times> 'b usb_transport" where
  "pop_pending t = (case us_pending t of [] \<Rightarrow> (None, t) | p # ps \<Rightarrow> (Some p, t\<lparr>us_pending := ps\<rparr>))"

text \<open>What one successful read of \<open>chunk\<close> from an endpoint does to the buffers.\<close>

definition absorb_transfer :: "bool \<Rightarrow> bytes \<Rightarrow> ('b usb_transport, packet option, usb_error) action" where
  "absorb_transfer events chunk t =
     (let (framed, buffered) = (if events then frame_packets EVENT_PACKET_TYPE (us_event_bytes t @ chunk)
            else frame_packets ACL_PACKET_TYPE (us_acl_bytes t @ chunk));
          t1 = (if events then t\<lparr>us_event_bytes := buffered\<rparr> else t\<lparr>us_acl_bytes := buffered\<rparr>) in
      case framed of
        Inl err \<Rightarrow> (Inl err, t1)
      | Inr packets \<Rightarrow> (let (p, t2) = pop_pending (t1\<lparr>us_pending := us_pending t1 @ packets\<rparr>) in (Inr p, t2)))"

definition poll_packet :: "'b usb_io \<Rightarrow> ('b usb_transport, packet option, usb_error) action" where
  "poll_packet io t =
     (if us_shutdown t then (Inr None, t)
      else case pop_pending t of
        (Some packet, t1) \<Rightarrow> (Inr (Some packet), t1)
      | (None, _) \<Rightarrow>
          let events = (\<not> us_next_endpoint t);
              t1 = t\<lparr>us_next_endpoint := events\<rparr>;
              scratch = replicate (MAX_HCI_PACKET_SIZE - 1) 0;
              (read, b) = (if events then ub_read_interrupt io (ul_interrupt_in (us_layout t)) scratch (us_backend t)
                else ub_read_bulk io (ul_bulk_in (us_layout t)) scratch (us_backend t));
              t2 = t1\<lparr>us_backend := b\<rparr> in
          (case read of
             Inl UsbTimeout \<Rightarrow> (Inr None, t2)
           | Inl err \<Rightarrow> (Inl (Transfer err), t2)
           | Inr (count, buffer) \<Rightarrow>
               if count = 0 then (Inr None, t2)
               else if count > length scratch
               then (Inl (Transfer (UsbOther ''USB backend returned a count larger than its buffer'')), t2)
               else absorb_transfer events (take count buffer) t2))"

abbreviation (input) CLASS_REQUEST_OUT :: u8 where "CLASS_REQUEST_OUT \<equiv> 0x20"

definition write_packet :: "'b usb_io \<Rightarrow> packet \<Rightarrow> ('b usb_transport, unit, usb_error) action" where
  "write_packet io packet t =
     (if us_shutdown t then (Inl UsbClosed, t)
      else case packet_to_bytes packet of
        [] \<Rightarrow> (Inl (Codec EmptyPacket), t)
      | packet_type # payload \<Rightarrow>
          if packet_type \<noteq> 0x01 \<and> packet_type \<noteq> 0x02
          then (Inl (Codec (UnsupportedPacketType packet_type)), t)
          else let (written, b) = (if packet_type = 0x01
                then ub_write_control io CLASS_REQUEST_OUT payload (us_backend t)
                else ub_write_bulk io (ul_bulk_out (us_layout t)) payload (us_backend t));
              t1 = t\<lparr>us_backend := b\<rparr> in
            (case written of
               Inl err \<Rightarrow> (Inl (Transfer err), t1)
             | Inr actual \<Rightarrow>
                 if actual \<noteq> length payload then (Inl (PartialWrite (length payload) actual), t1)
                 else (Inr (), t1)))"

section \<open>The two halves\<close>

datatype reader_event = ReaderPacket packet | ReaderFailed "usb_error" | ReaderEnded

text \<open>\<^verbatim>\<open>split_transport\<close>: the reader gets a fresh state over the same device, the writer keeps the transport.\<close>

definition reader_transport :: "'b usb_transport \<Rightarrow> 'b usb_transport" where
  "reader_transport t = \<lparr>us_backend = us_backend t, us_layout = us_layout t, us_metadata = us_metadata t, us_next_endpoint = False,
     us_event_bytes = [], us_acl_bytes = [], us_pending = [], us_shutdown = us_shutdown t\<rparr>"

section \<open>Lemmas: framing\<close>

text \<open>The bytes of a packet on its endpoint, without the packet type.\<close>

definition payload_of :: "packet \<Rightarrow> bytes" where
  "payload_of p = tl (packet_to_bytes p)"

text \<open>A packet that the endpoint of type \<open>t\<close> carries and that is not too large for the transport.\<close>

definition on_endpoint :: "u8 \<Rightarrow> packet \<Rightarrow> bool" where
  "on_endpoint t p \<longleftrightarrow> (t = EVENT_PACKET_TYPE \<or> t = ACL_PACKET_TYPE) \<and> hd (packet_to_bytes p) = t
     \<and> packet_from_bytes (packet_to_bytes p) = Inr p \<and> length (packet_to_bytes p) \<le> MAX_HCI_PACKET_SIZE"

lemma on_endpoint_wf: "on_endpoint t p \<Longrightarrow> packet_wf p"
  by (simp add: on_endpoint_def hci_packets.dec_iff)

lemma on_endpoint_bytes:
  assumes "on_endpoint t p"
  shows "packet_to_bytes p = t # payload_of p" "length (payload_of p) < MAX_HCI_PACKET_SIZE"
proof -
  have "packet_to_bytes p \<noteq> []"
    by (cases p) (simp_all add: command_to_bytes_def event_to_bytes_def acl_to_bytes_def Let_def)
  then show "packet_to_bytes p = t # payload_of p" "length (payload_of p) < MAX_HCI_PACKET_SIZE"
    using assms by (auto simp: on_endpoint_def payload_of_def neq_Nil_conv)
qed

lemma endpoint_cases:
  assumes "on_endpoint t p"
  obtains (event) e where "p = Event e" "t = EVENT_PACKET_TYPE" "length (ev_parameters e) < 256"
      "payload_of p = [ev_event_code e, of_nat (length (ev_parameters e))] @ ev_parameters e"
    | (acl) a h0 h1 where "p = Acl a" "t = ACL_PACKET_TYPE" "length (acl_data a) < 65536"
      "payload_of p = [h0, h1] @ le16_bytes (of_nat (length (acl_data a))) @ acl_data a"
proof (cases p)
  case (Command c)
  then show ?thesis using assms by (auto simp: on_endpoint_def command_to_bytes_def)
next
  case (Event e)
  then show ?thesis
    using assms on_endpoint_wf [OF assms] that(1) by (simp add: on_endpoint_def event_to_bytes_def payload_of_def event_wf_def)
next
  case (Acl a)
  then show ?thesis
    using assms on_endpoint_wf [OF assms] that(2)
    by (simp add: on_endpoint_def acl_to_bytes_def payload_of_def acl_wf_def Let_def le16_bytes_def)
qed

lemma raw_length_payload:
  assumes "on_endpoint t p"
  shows "raw_length t (payload_of p @ rest) = Inr (Some (length (payload_of p)))"
  using assms by (cases rule: endpoint_cases)
    (simp_all add: raw_length_def le16_bytes_def)

lemma raw_length_prefix:
  assumes "on_endpoint t p" "payload_of p = x @ y"
  shows "raw_length t x = Inr None \<or> raw_length t x = Inr (Some (length (payload_of p)))"
proof (cases "length x < (if t = EVENT_PACKET_TYPE then 2 else 4)")
  case True
  then show ?thesis using assms(1) by (auto simp: raw_length_def on_endpoint_def split: if_splits)
next
  case False
  then have "raw_length t x = raw_length t (x @ y)"
    using assms(1) by (auto simp: raw_length_def on_endpoint_def nth_append split: if_splits)
  then show ?thesis using raw_length_payload [OF assms(1), of "[]"] assms(2) by simp
qed

lemma frame_loop_packet:
  assumes "on_endpoint t p"
  shows "frame_loop t acc (payload_of p @ rest) = frame_loop t (acc @ [p]) rest"
  using on_endpoint_bytes [OF assms] assms
  by (subst frame_loop.simps) (simp add: raw_length_payload [OF assms] on_endpoint_def)

lemma frame_loop_partial:
  assumes "on_endpoint t p" "payload_of p = x @ y" "y \<noteq> []"
  shows "frame_loop t acc x = (Inr acc, x)"
  using raw_length_prefix [OF assms(1,2)] on_endpoint_bytes(2) [OF assms(1)] assms
  by (subst frame_loop.simps) auto

lemma frame_loop_empty: "t = EVENT_PACKET_TYPE \<or> t = ACL_PACKET_TYPE \<Longrightarrow> frame_loop t acc [] = (Inr acc, [])"
  by (subst frame_loop.simps) (auto simp: raw_length_def)

text \<open>A buffer that holds the front of a stream of packets gives up those that are complete.\<close>

lemma frame_loop_stream:
  assumes "list_all (on_endpoint t) ps" "buf @ later = concat (map payload_of ps)"
    and "t = EVENT_PACKET_TYPE \<or> t = ACL_PACKET_TYPE"
  shows "\<exists>qs ps' buf'. frame_loop t acc buf = (Inr (acc @ qs), buf') \<and> ps = qs @ ps'
    \<and> buf' @ later = concat (map payload_of ps') \<and> (ps' = [] \<or> length buf' < length (payload_of (hd ps')))"
  using assms(1,2)
proof (induction ps arbitrary: acc buf)
  case Nil
  then show ?case using frame_loop_empty [OF assms(3), of acc] by simp
next
  case (Cons p ps)
  then have p: "on_endpoint t p" by simp
  show ?case
  proof (cases "length (payload_of p) \<le> length buf")
    case True
    define buf1 where "buf1 = drop (length (payload_of p)) buf"
    have "take (length (payload_of p)) buf = take (length (payload_of p)) (buf @ later)" using True by simp
    also have "\<dots> = payload_of p" unfolding Cons.prems(2) by simp
    finally have "take (length (payload_of p)) buf = payload_of p" .
    moreover have "drop (length (payload_of p)) (buf @ later) = concat (map payload_of ps)"
      unfolding Cons.prems(2) by simp
    ultimately have buf: "buf = payload_of p @ buf1" "buf1 @ later = concat (map payload_of ps)"
      using True append_take_drop_id [of "length (payload_of p)" buf] by (simp_all add: buf1_def)
    have "list_all (on_endpoint t) ps" using Cons.prems(1) by simp
    from Cons.IH [OF this buf(2), of "acc @ [p]"] obtain qs ps' buf'
      where "frame_loop t (acc @ [p]) buf1 = (Inr ((acc @ [p]) @ qs), buf')" "ps = qs @ ps'"
        "buf' @ later = concat (map payload_of ps')" "ps' = [] \<or> length buf' < length (payload_of (hd ps'))" by blast
    then show ?thesis
      using buf(1)
      by - (rule exI [of _ "p # qs"], rule exI [of _ ps'], rule exI [of _ buf'], simp add: frame_loop_packet [OF p])
  next
    case False
    have "take (length buf) (payload_of p) = take (length buf) (payload_of p @ concat (map payload_of ps))"
      using False by simp
    also have "\<dots> = buf" using Cons.prems(2) [symmetric] by simp
    finally obtain y where "payload_of p = buf @ y" "y \<noteq> []"
      using False append_take_drop_id [of "length buf" "payload_of p"] by (metis append_Nil2 order_refl)
    from frame_loop_partial [OF p this] show ?thesis
      using Cons.prems(2) False
      by - (rule exI [of _ "[]"], rule exI [of _ "p # ps"], rule exI [of _ buf], simp add: frame_loop_partial [OF p])
  qed
qed

text \<open>The packets framed from a sequence of transfers on one endpoint.\<close>

fun frame_transfers :: "u8 \<Rightarrow> bytes list \<Rightarrow> (bytes, packet list, usb_error) action" where
  "frame_transfers t [] buffered = (Inr [], buffered)"
| "frame_transfers t (transfer # transfers) buffered = (case frame_packets t (buffered @ transfer) of
     (Inl err, b) \<Rightarrow> (Inl err, b)
   | (Inr ps, b) \<Rightarrow> (case frame_transfers t transfers b of
       (Inl err, b') \<Rightarrow> (Inl err, b') | (Inr qs, b') \<Rightarrow> (Inr (ps @ qs), b')))"

lemma frame_transfers_stream:
  assumes "list_all (on_endpoint t) ps" "buf @ concat transfers = concat (map payload_of ps)"
    and "t = EVENT_PACKET_TYPE \<or> t = ACL_PACKET_TYPE"
    and "ps = [] \<or> length buf < length (payload_of (hd ps))"
  shows "frame_transfers t transfers buf = (Inr ps, [])"
  using assms(1,2,4)
proof (induction transfers arbitrary: ps buf)
  case Nil
  then show ?case by (cases ps) auto
next
  case (Cons transfer transfers)
  obtain qs ps' buf' where f: "frame_packets t (buf @ transfer) = (Inr qs, buf')" "ps = qs @ ps'"
    "buf' @ concat transfers = concat (map payload_of ps')" "ps' = [] \<or> length buf' < length (payload_of (hd ps'))"
    using frame_loop_stream [OF Cons.prems(1) _ assms(3), of "buf @ transfer" "concat transfers" "[]"] Cons.prems(2)
    by (auto simp: frame_packets_def)
  then have "list_all (on_endpoint t) ps'" using Cons.prems(1) by simp
  with f Cons.IH [of ps' buf'] show ?case by simp
qed

section \<open>Lemmas: nothing is lost between the endpoints and the reader\<close>

definition is_event :: "packet \<Rightarrow> bool" where
  "is_event p \<longleftrightarrow> (case p of Event _ \<Rightarrow> True | _ \<Rightarrow> False)"

definition is_acl :: "packet \<Rightarrow> bool" where
  "is_acl p \<longleftrightarrow> (case p of Acl _ \<Rightarrow> True | _ \<Rightarrow> False)"

lemma decoded_payload:
  assumes "packet_from_bytes (t # b) = Inr p"
  shows "payload_of p = b" "t = EVENT_PACKET_TYPE \<Longrightarrow> is_event p \<and> \<not> is_acl p"
    "t = ACL_PACKET_TYPE \<Longrightarrow> is_acl p \<and> \<not> is_event p"
proof -
  have "packet_to_bytes p = t # b" using assms by (simp add: hci_packets.dec_iff)
  then show "payload_of p = b" "t = EVENT_PACKET_TYPE \<Longrightarrow> is_event p \<and> \<not> is_acl p"
    "t = ACL_PACKET_TYPE \<Longrightarrow> is_acl p \<and> \<not> is_event p"
    by (cases p; auto simp: payload_of_def is_event_def is_acl_def command_to_bytes_def event_to_bytes_def
        acl_to_bytes_def Let_def)+
qed

lemma frame_loop_conserves:
  assumes "frame_loop t acc buf = (Inr ps, rest)"
  shows "\<exists>qs. ps = acc @ qs \<and> concat (map payload_of qs) @ rest = buf
    \<and> (t = EVENT_PACKET_TYPE \<longrightarrow> list_all (\<lambda>p. is_event p \<and> \<not> is_acl p) qs)
    \<and> (t = ACL_PACKET_TYPE \<longrightarrow> list_all (\<lambda>p. is_acl p \<and> \<not> is_event p) qs)"
  using assms
proof (induction t acc buf rule: frame_loop.induct)
  case (1 t acc buf)
  show ?case
  proof (cases "\<exists>n p. raw_length t buf = Inr (Some n) \<and> n + 1 \<le> MAX_HCI_PACKET_SIZE \<and> n \<le> length buf
      \<and> packet_from_bytes (t # take n buf) = Inr p")
    case True
    then obtain n p where n: "raw_length t buf = Inr (Some n)" "n + 1 \<le> MAX_HCI_PACKET_SIZE" "n \<le> length buf"
      "packet_from_bytes (t # take n buf) = Inr p" by blast
    then have "frame_loop t (acc @ [p]) (drop n buf) = (Inr ps, rest)"
      using 1(2) by (subst (asm) frame_loop.simps) simp
    with 1(1) n obtain qs where "ps = (acc @ [p]) @ qs" "concat (map payload_of qs) @ rest = drop n buf"
      "t = EVENT_PACKET_TYPE \<longrightarrow> list_all (\<lambda>p. is_event p \<and> \<not> is_acl p) qs"
      "t = ACL_PACKET_TYPE \<longrightarrow> list_all (\<lambda>p. is_acl p \<and> \<not> is_event p) qs" by fastforce
    then show ?thesis
      using decoded_payload [OF n(4)] append_take_drop_id [of n buf] by (intro exI [of _ "p # qs"]) auto
  next
    case False
    then have "ps = acc" "rest = buf"
      using 1(2) by (subst (asm) (1) frame_loop.simps; auto split: sum.splits option.splits if_splits)+
    then show ?thesis by simp
  qed
qed

text \<open>A backend that behaves as the one it wraps and keeps every byte it received on each endpoint.\<close>

definition received :: "bytes \<Rightarrow> (nat \<times> bytes, transfer_error) result \<Rightarrow> bytes" where
  "received scratch r = (case r of Inl _ \<Rightarrow> [] | Inr (count, buffer) \<Rightarrow>
     if count \<le> length scratch then take count buffer else [])"

definition recording_io :: "'b usb_io \<Rightarrow> ('b \<times> bytes \<times> bytes) usb_io" where
  "recording_io io =
     \<lparr>ub_read_interrupt = (\<lambda>ep scratch s. let (r, b) = ub_read_interrupt io ep scratch (fst s) in
        (r, (b, fst (snd s) @ received scratch r, snd (snd s)))),
      ub_read_bulk = (\<lambda>ep scratch s. let (r, b) = ub_read_bulk io ep scratch (fst s) in
        (r, (b, fst (snd s), snd (snd s) @ received scratch r))),
      ub_write_control = (\<lambda>rt payload s. let (r, b) = ub_write_control io rt payload (fst s) in (r, (b, snd s))),
      ub_write_bulk = (\<lambda>ep payload s. let (r, b) = ub_write_bulk io ep payload (fst s) in (r, (b, snd s)))\<rparr>"

fun polls :: "'b usb_io \<Rightarrow> nat \<Rightarrow> ('b usb_transport, packet list, usb_error) action" where
  "polls io 0 t = (Inr [], t)"
| "polls io (Suc n) t = (case poll_packet io t of
     (Inl err, t1) \<Rightarrow> (Inl err, t1)
   | (Inr p, t1) \<Rightarrow> (case polls io n t1 of
       (Inl err, t2) \<Rightarrow> (Inl err, t2)
     | (Inr ps, t2) \<Rightarrow> (Inr ((case p of None \<Rightarrow> [] | Some q \<Rightarrow> [q]) @ ps), t2)))"

definition balanced :: "packet list \<Rightarrow> ('b \<times> bytes \<times> bytes) usb_transport \<Rightarrow> bool" where
  "balanced done_packets t \<longleftrightarrow>
     concat (map payload_of (filter is_event (done_packets @ us_pending t))) @ us_event_bytes t = fst (snd (us_backend t))
     \<and> concat (map payload_of (filter is_acl (done_packets @ us_pending t))) @ us_acl_bytes t = snd (snd (us_backend t))"

lemma filter_none: "list_all (\<lambda>p. P p \<and> \<not> Q p) xs \<Longrightarrow> filter P xs = xs \<and> filter Q xs = []"
  by (induction xs) auto

lemma pop_pending_balanced:
  assumes "balanced done_packets t" "pop_pending t = (p, t')"
  shows "balanced (done_packets @ (case p of None \<Rightarrow> [] | Some q \<Rightarrow> [q])) t'"
  using assms by (auto simp: pop_pending_def balanced_def split: list.splits)

lemma absorb_balanced:
  assumes "absorb_transfer events chunk t = (Inr p, t')"
    and "if events then balanced done_packets (t\<lparr>us_event_bytes := us_event_bytes t @ chunk\<rparr>)
      else balanced done_packets (t\<lparr>us_acl_bytes := us_acl_bytes t @ chunk\<rparr>)"
  shows "balanced (done_packets @ (case p of None \<Rightarrow> [] | Some q \<Rightarrow> [q])) t'"
proof -
  let ?ty = "if events then EVENT_PACKET_TYPE else ACL_PACKET_TYPE"
  let ?buf = "(if events then us_event_bytes t else us_acl_bytes t) @ chunk"
  obtain ps rest where f: "frame_loop ?ty [] ?buf = (Inr ps, rest)"
    and pop: "pop_pending ((if events then t\<lparr>us_event_bytes := rest\<rparr> else t\<lparr>us_acl_bytes := rest\<rparr>)
      \<lparr>us_pending := us_pending t @ ps\<rparr>) = (p, t')"
    using assms(1)
    by (auto simp: absorb_transfer_def frame_packets_def Let_def split: prod.splits sum.splits if_splits)
  from frame_loop_conserves [OF f] have c: "concat (map payload_of ps) @ rest = ?buf"
    "events \<Longrightarrow> list_all (\<lambda>p. is_event p \<and> \<not> is_acl p) ps"
    "\<not> events \<Longrightarrow> list_all (\<lambda>p. is_acl p \<and> \<not> is_event p) ps"
    by (auto split: if_splits)
  have "balanced done_packets ((if events then t\<lparr>us_event_bytes := rest\<rparr> else t\<lparr>us_acl_bytes := rest\<rparr>)
      \<lparr>us_pending := us_pending t @ ps\<rparr>)"
    using assms(2) c filter_none [of is_event is_acl ps] filter_none [of is_acl is_event ps]
    by (auto simp: balanced_def split: if_splits)
  from pop_pending_balanced [OF this pop] show ?thesis .
qed

lemma poll_balanced:
  assumes "poll_packet (recording_io io) t = (Inr p, t')" "balanced done_packets t"
  shows "balanced (done_packets @ (case p of None \<Rightarrow> [] | Some q \<Rightarrow> [q])) t'"
proof (cases "us_shutdown t \<or> us_pending t \<noteq> []")
  case True
  then show ?thesis
    using assms pop_pending_balanced [OF assms(2)]
    by (auto simp: poll_packet_def pop_pending_def split: list.splits if_splits)
next
  case False
  let ?scratch = "replicate 4095 0 :: bytes"
  define read where "read = (if us_next_endpoint t then ub_read_bulk io (ul_bulk_in (us_layout t)) ?scratch (fst (us_backend t))
    else ub_read_interrupt io (ul_interrupt_in (us_layout t)) ?scratch (fst (us_backend t)))"
  obtain r b where rb: "read = (r, b)" by fastforce
  define t2 where "t2 = t\<lparr>us_next_endpoint := \<not> us_next_endpoint t,
    us_backend := (b, fst (snd (us_backend t)) @ (if us_next_endpoint t then [] else received ?scratch r),
      snd (snd (us_backend t)) @ (if us_next_endpoint t then received ?scratch r else []))\<rparr>"
  have poll: "poll_packet (recording_io io) t = (case r of Inl UsbTimeout \<Rightarrow> (Inr None, t2)
      | Inl err \<Rightarrow> (Inl (Transfer err), t2)
      | Inr (count, buffer) \<Rightarrow> if count = 0 then (Inr None, t2)
        else if count > 4095 then (Inl (Transfer (UsbOther ''USB backend returned a count larger than its buffer'')), t2)
        else absorb_transfer (\<not> us_next_endpoint t) (take count buffer) t2)"
    using False rb
    by (cases "us_next_endpoint t"; cases r)
      (auto simp: poll_packet_def pop_pending_def recording_io_def Let_def read_def t2_def split: transfer_error.splits)
  show ?thesis
  proof (cases "\<exists>count buffer. r = Inr (count, buffer) \<and> count \<noteq> 0 \<and> count \<le> 4095")
    case True
    then obtain count buffer where c: "r = Inr (count, buffer)" "count \<noteq> 0" "count \<le> 4095" by blast
    then have "absorb_transfer (\<not> us_next_endpoint t) (take count buffer) t2 = (Inr p, t')" using poll assms(1) by simp
    moreover have "if \<not> us_next_endpoint t then balanced done_packets (t2\<lparr>us_event_bytes := us_event_bytes t2 @ take count buffer\<rparr>)
        else balanced done_packets (t2\<lparr>us_acl_bytes := us_acl_bytes t2 @ take count buffer\<rparr>)"
      using assms(2) c by (auto simp: balanced_def t2_def received_def)
    ultimately show ?thesis by (rule absorb_balanced)
  next
    case False
    then have "p = None \<and> t' = t2 \<and> received ?scratch r = []"
      using poll assms(1)
      by (cases r) (auto simp: received_def split: transfer_error.splits if_splits prod.splits)
    then show ?thesis using assms(2) by (simp add: balanced_def t2_def)
  qed
qed

lemma polls_balanced:
  "polls (recording_io io) n t = (Inr ps, t') \<Longrightarrow> balanced done_packets t \<Longrightarrow> balanced (done_packets @ ps) t'"
proof (induction n arbitrary: t ps done_packets)
  case (Suc n)
  obtain p t1 qs where p: "poll_packet (recording_io io) t = (Inr p, t1)" "polls (recording_io io) n t1 = (Inr qs, t')"
    "ps = (case p of None \<Rightarrow> [] | Some q \<Rightarrow> [q]) @ qs"
    using Suc.prems(1) by (auto split: prod.splits sum.splits)
  from Suc.IH [OF p(2) poll_balanced [OF p(1) Suc.prems(2)]] p(3) show ?case by simp
qed simp

section \<open>Lemmas: the choice of a device\<close>

definition vid_pid_matches :: "u16 \<Rightarrow> u16 \<Rightarrow> usb_device \<Rightarrow> bool" where
  "vid_pid_matches vendor_id product_id d = (case dv_descriptor d of
     Inl _ \<Rightarrow> False | Inr desc \<Rightarrow> ud_vendor_id desc = vendor_id \<and> ud_product_id desc = product_id)"

text \<open>Without a serial number the loop is the choice of one occurrence among the matching devices.\<close>

lemma select_occurrence:
  "select_vid_pid vendor_id product_id None n devices
     = (let ds = filter (vid_pid_matches vendor_id product_id) devices in
        if n < length ds then Inr (ds ! n) else Inl DeviceNotFound)"
proof (induction devices arbitrary: n)
  case (Cons d devices)
  then show ?case
    by (cases n) (auto simp: vid_pid_matches_def Let_def split: sum.splits)
qed simp

lemma select_layout_member: "select_layout is = Some l \<Longrightarrow> \<exists>i \<in> set is. interface_layout i = Some l"
  by (induction "is") (auto split: option.splits)

section \<open>Properties\<close>

text \<open>USB transfers need not respect packet boundaries. If what an endpoint delivers over any number of transfers
  is the concatenation of a sequence of HCI packets of that endpoint, cut anywhere, then framing the
  transfers one after the other yields exactly those packets, in order, and leaves nothing buffered.\<close>

theorem usb_stream_reassembled:
  assumes "t = EVENT_PACKET_TYPE \<or> t = ACL_PACKET_TYPE" "list_all (on_endpoint t) ps"
    and "concat transfers = concat (map payload_of ps)"
  shows "frame_transfers t transfers [] = (Inr ps, [])"
proof (rule frame_transfers_stream [OF assms(2) _ assms(1)])
  show "ps = [] \<or> length ([] :: bytes) < length (payload_of (hd ps))"
    using assms(2) by (cases ps) (auto elim!: endpoint_cases)
qed (simp add: assms(3))

theorem usb_stream_reassembled_witness:
  "frame_transfers EVENT_PACKET_TYPE [[0x0E], [4, 1, 3, 12], [0, 0x13], [1, 0]] []
     = (Inr [Event \<lparr>ev_event_code = 0x0E, ev_parameters = [1, 3, 12, 0]\<rparr>,
             Event \<lparr>ev_event_code = 0x13, ev_parameters = [0]\<rparr>], [])"
  by (rule usb_stream_reassembled)
    (simp_all add: on_endpoint_def payload_of_def event_to_bytes_def hci_packets.dec_iff event_wf_def)

text \<open>polling loses, duplicates and reorders nothing. After any number of successful polls over any backend, the
  event packets delivered so far, those still pending and the partial bytes buffered are together
  exactly the bytes the interrupt endpoint delivered, and the same holds of ACL packets and the bulk
  endpoint, however the two were interleaved.\<close>

theorem usb_polls_conserve:
  assumes "polls (recording_io io) n (transport_new (b, [], []) layout metadata) = (Inr ps, t)"
  shows "concat (map payload_of (filter is_event (ps @ us_pending t))) @ us_event_bytes t = fst (snd (us_backend t))
    \<and> concat (map payload_of (filter is_acl (ps @ us_pending t))) @ us_acl_bytes t = snd (snd (us_backend t))"
  using polls_balanced [OF assms, of "[]"] by (simp add: balanced_def transport_new_def)

text \<open>Two transfers, the second of which completes an event, on an adapter without ACL data.\<close>

definition scripted_io :: "bytes list usb_io" where
  "scripted_io =
     \<lparr>ub_read_interrupt = (\<lambda>_ _ script. case script of [] \<Rightarrow> (Inl UsbTimeout, []) | c # cs \<Rightarrow> (Inr (length c, c), cs)),
      ub_read_bulk = (\<lambda>_ _ script. (Inl UsbTimeout, script)),
      ub_write_control = (\<lambda>_ payload script. (Inr (length payload), script)),
      ub_write_bulk = (\<lambda>_ payload script. (Inr (length payload), script))\<rparr>"

definition sample_layout :: usb_layout where
  "sample_layout = \<lparr>ul_configuration = 1, ul_interface = 0, ul_alternate = 0, ul_interrupt_in = 0x81,
     ul_bulk_in = 0x82, ul_bulk_out = 2\<rparr>"

definition sample_metadata :: adapter_metadata where
  "sample_metadata = \<lparr>am_vendor_id = 0x0A12, am_product_id = 1, am_bus = 1, am_address = 4, am_ports = [2, 1]\<rparr>"

theorem usb_polls_conserve_witness:
  "\<exists>ps t. polls (recording_io scripted_io) 3 (transport_new ([[0x13, 2], [7, 8, 0x0E]], [], [])
      sample_layout sample_metadata) = (Inr ps, t)
    \<and> ps = [Event \<lparr>ev_event_code = 0x13, ev_parameters = [7, 8]\<rparr>]
    \<and> concat (map payload_of (filter is_event (ps @ us_pending t))) @ us_event_bytes t = fst (snd (us_backend t))
    \<and> concat (map payload_of (filter is_acl (ps @ us_pending t))) @ us_acl_bytes t = snd (snd (us_backend t))"
proof -
  have event: "packet_from_bytes [4, 0x13, 2, 7, 8] = Inr (Event \<lparr>ev_event_code = 0x13, ev_parameters = [7, 8]\<rparr>)"
    by (simp add: hci_packets.dec_iff event_wf_def event_to_bytes_def)
  have "\<exists>t. polls (recording_io scripted_io) 3 (transport_new ([[0x13, 2], [7, 8, 0x0E]], [], []) sample_layout sample_metadata)
      = (Inr [Event \<lparr>ev_event_code = 0x13, ev_parameters = [7, 8]\<rparr>], t)"
    by (simp add: numeral_3_eq_3 poll_packet_def pop_pending_def transport_new_def recording_io_def scripted_io_def
        received_def absorb_transfer_def frame_packets_def Let_def frame_loop.simps raw_length_def event)
  then obtain t where "polls (recording_io scripted_io) 3 (transport_new ([[0x13, 2], [7, 8, 0x0E]], [], []) sample_layout sample_metadata)
      = (Inr [Event \<lparr>ev_event_code = 0x13, ev_parameters = [7, 8]\<rparr>], t)" ..
  with usb_polls_conserve [OF this] show ?thesis by blast
qed

end
