(* ===== verification/Usb_Reader.thy ===== *)
theory Usb_Reader
  imports Usb Interfaces
begin

text \<open>
  The reader thread of \<^verbatim>\<open>src/src/usb.rs\<close> and the thread that owns the opened transport, interleaved. \<^verbatim>\<open>PacketReader::spawn\<close>
  starts the reader; the owner holds the \<^verbatim>\<open>PacketReader\<close> and the \<^verbatim>\<open>PacketSink\<close>. They share the device, the shutdown
  flag, the channel from the reader to the owner and the notifier of the application.

  A step is a stretch of one thread that touches shared state once: a read of the flag, a poll of the device,
  a send on the channel, a call of the notifier, a receive, a write, the store to the flag, the return of the
  join. A step relation interleaves the two threads in every order. Whether a call of the notifier returns is
  up to the application: a call that panics unwinds the reader.
\<close>

section \<open>State\<close>

text \<open>The control points of the reader, in the order of the loop body, then those of the owner: between operations, in
  the join of \<^verbatim>\<open>close\<close>, in the join of \<^verbatim>\<open>drop\<close>, and after it.\<close>

datatype reader_pc =
    LoopHead
  | Polling
  | SendPacket packet
  | NotifyPacket
  | SendFailed usb_error
  | NotifyFailed
  | SendEnded
  | NotifyEnded
  | Returned
  | Unwound

datatype owner_pc = Idle | Closing | Dropping | Gone

text \<open>\<open>rs_activity\<close> is the optional notifier: whether its \<open>n\<close>-th call returns. \<open>rs_join\<close> says that the join handle is still
  there, \<open>rs_connected\<close> that the receiving end is. The last two fields record the history of the channel.\<close>

record 'b reader_system =
  rs_pc :: reader_pc
  rs_source :: "'b usb_transport"
  rs_sink :: "'b usb_transport"
  rs_device :: 'b
  rs_shutdown :: bool
  rs_queue :: "reader_event list"
  rs_connected :: bool
  rs_activity :: "(nat \<Rightarrow> bool) option"
  rs_notified :: nat
  rs_owner :: owner_pc
  rs_join :: bool
  rs_sent :: "reader_event list"
  rs_received :: "reader_event list"

definition split_transport_with_activity ::
  "'b usb_transport \<Rightarrow> (nat \<Rightarrow> bool) option \<Rightarrow> 'b reader_system" where
  "split_transport_with_activity t activity =
     \<lparr>rs_pc = LoopHead, rs_source = reader_transport t, rs_sink = t, rs_device = us_backend t,
      rs_shutdown = us_shutdown t, rs_queue = [], rs_connected = True, rs_activity = activity, rs_notified = 0,
      rs_owner = Idle, rs_join = True, rs_sent = [], rs_received = []\<rparr>"

section \<open>The reader\<close>

text \<open>\<^verbatim>\<open>Sender::send\<close> delivers while the receiving end exists. A notifier call goes on at \<open>k\<close> if it returns.\<close>

definition sender_send :: "reader_event \<Rightarrow> 'b reader_system \<Rightarrow> 'b reader_system" where
  "sender_send e s =
     (if rs_connected s then s\<lparr>rs_queue := rs_queue s @ [e], rs_sent := rs_sent s @ [e]\<rparr> else s)"

definition reader_notify :: "reader_pc \<Rightarrow> 'b reader_system \<Rightarrow> 'b reader_system" where
  "reader_notify k s = (case rs_activity s of
       None \<Rightarrow> s\<lparr>rs_pc := k\<rparr>
     | Some returns \<Rightarrow> s\<lparr>rs_notified := rs_notified s + 1,
         rs_pc := if returns (rs_notified s) then k else Unwound\<rparr>)"

definition reader_poll :: "'b usb_io \<Rightarrow> 'b reader_system \<Rightarrow> 'b reader_system" where
  "reader_poll io s =
     (let (polled, t) = poll_packet io ((rs_source s)\<lparr>us_backend := rs_device s, us_shutdown := rs_shutdown s\<rparr>);
          s1 = s\<lparr>rs_source := t, rs_device := us_backend t\<rparr> in
      s1\<lparr>rs_pc := (case polled of
          Inr (Some packet) \<Rightarrow> SendPacket packet | Inr None \<Rightarrow> LoopHead | Inl err \<Rightarrow> SendFailed err)\<rparr>)"

text \<open>One step of the reader; \<open>None\<close> when the thread is over.\<close>

definition reader_next :: "'b usb_io \<Rightarrow> 'b reader_system \<Rightarrow> 'b reader_system option" where
  "reader_next io s = (case rs_pc s of
       LoopHead \<Rightarrow> Some (s\<lparr>rs_pc := if rs_shutdown s then SendEnded else Polling\<rparr>)
     | Polling \<Rightarrow> Some (reader_poll io s)
     | SendPacket packet \<Rightarrow>
         Some ((sender_send (ReaderPacket packet) s)\<lparr>rs_pc := if rs_connected s then NotifyPacket else SendEnded\<rparr>)
     | NotifyPacket \<Rightarrow> Some (reader_notify LoopHead s)
     | SendFailed err \<Rightarrow> Some ((sender_send (ReaderFailed err) s)\<lparr>rs_pc := NotifyFailed\<rparr>)
     | NotifyFailed \<Rightarrow> Some (reader_notify SendEnded s)
     | SendEnded \<Rightarrow> Some ((sender_send ReaderEnded s)\<lparr>rs_pc := NotifyEnded\<rparr>)
     | NotifyEnded \<Rightarrow> Some (reader_notify Returned s)
     | Returned \<Rightarrow> None
     | Unwound \<Rightarrow> None)"

section \<open>The owner\<close>

datatype recv_timeout_error = RecvTimeout | RecvDisconnected

definition thread_over :: "'b reader_system \<Rightarrow> bool" where
  "thread_over s \<longleftrightarrow> rs_pc s = Returned \<or> rs_pc s = Unwound"

text \<open>\<^verbatim>\<open>recv_timeout\<close> when its time runs out at once; a longer wait is a later receive.\<close>

definition reader_recv :: "('b reader_system, reader_event, recv_timeout_error) action" where
  "reader_recv s = (case rs_queue s of
       e # es \<Rightarrow> (Inr e, s\<lparr>rs_queue := es, rs_received := rs_received s @ [e]\<rparr>)
     | [] \<Rightarrow> (Inl (if thread_over s then RecvDisconnected else RecvTimeout), s))"

definition sink_send :: "'b usb_io \<Rightarrow> packet \<Rightarrow> ('b reader_system, unit, usb_error) action" where
  "sink_send io packet s =
     (let (r, t) = write_packet io packet ((rs_sink s)\<lparr>us_backend := rs_device s, us_shutdown := rs_shutdown s\<rparr>) in
      (r, s\<lparr>rs_sink := t, rs_device := us_backend t\<rparr>))"

definition sink_metadata :: "'b reader_system \<Rightarrow> adapter_metadata" where
  "sink_metadata s = us_metadata (rs_sink s)"

text \<open>\<^verbatim>\<open>close\<close> and \<^verbatim>\<open>drop\<close> store the flag and then wait for the thread, if its handle is still there. \<open>None\<close>: the join waits.\<close>

definition shut_down :: "owner_pc \<Rightarrow> 'b reader_system \<Rightarrow> 'b reader_system" where
  "shut_down k s = s\<lparr>rs_shutdown := True, rs_owner := k\<rparr>"

definition join_reader :: "'b reader_system \<Rightarrow> ((unit, usb_error) result \<times> 'b reader_system) option" where
  "join_reader s =
     (if \<not> rs_join s then Some (Inr (), s)
      else case rs_pc s of
        Returned \<Rightarrow> Some (Inr (), s\<lparr>rs_join := False\<rparr>)
      | Unwound \<Rightarrow> Some (Inl ReaderPanicked, s\<lparr>rs_join := False\<rparr>)
      | _ \<Rightarrow> None)"

section \<open>Interleaving\<close>

inductive thread_step :: "'b usb_io \<Rightarrow> 'b reader_system \<Rightarrow> 'b reader_system \<Rightarrow> bool" for io where
  reader_runs: "reader_next io s = Some s' \<Longrightarrow> thread_step io s s'"
| owner_receives: "rs_owner s = Idle \<Longrightarrow> thread_step io s (snd (reader_recv s))"
| owner_sends: "rs_owner s = Idle \<Longrightarrow> thread_step io s (snd (sink_send io packet s))"
| owner_closes: "rs_owner s = Idle \<Longrightarrow> thread_step io s (shut_down Closing s)"
| close_returns: "rs_owner s = Closing \<Longrightarrow> join_reader s = Some (r, s') \<Longrightarrow> thread_step io s (s'\<lparr>rs_owner := Idle\<rparr>)"
| owner_drops: "rs_owner s = Idle \<Longrightarrow> thread_step io s (shut_down Dropping s)"
| drop_returns: "rs_owner s = Dropping \<Longrightarrow> join_reader s = Some (r, s')
    \<Longrightarrow> thread_step io s (s'\<lparr>rs_owner := Gone, rs_connected := False\<rparr>)"

inductive_cases thread_stepE: "thread_step io s s'"

abbreviation interleaving :: "'b usb_io \<Rightarrow> 'b reader_system \<Rightarrow> 'b reader_system \<Rightarrow> bool" where
  "interleaving io \<equiv> (thread_step io)\<^sup>*\<^sup>*"

lemma join_reader_some:
  "join_reader s = Some (r, s') \<Longrightarrow>
     s' = s\<lparr>rs_join := False\<rparr> \<and> (rs_join s \<longrightarrow> thread_over s)
     \<and> (r = Inl ReaderPanicked \<longleftrightarrow> rs_join s \<and> rs_pc s = Unwound) \<and> (r = Inr () \<or> r = Inl ReaderPanicked)"
  by (cases "rs_pc s") (auto simp: join_reader_def thread_over_def split: if_splits)

section \<open>Lemmas: the channel and the notifier\<close>

text \<open>What may follow the packets on the channel when the reader is at a control point.\<close>

fun stream_tail :: "reader_pc \<Rightarrow> reader_event list \<Rightarrow> bool" where
  "stream_tail NotifyFailed tail \<longleftrightarrow> (\<exists>err. tail = [ReaderFailed err])"
| "stream_tail SendEnded tail \<longleftrightarrow> tail = [] \<or> (\<exists>err. tail = [ReaderFailed err])"
| "stream_tail NotifyEnded tail \<longleftrightarrow> tail = [ReaderEnded] \<or> (\<exists>err. tail = [ReaderFailed err, ReaderEnded])"
| "stream_tail Returned tail \<longleftrightarrow> tail = [ReaderEnded] \<or> (\<exists>err. tail = [ReaderFailed err, ReaderEnded])"
| "stream_tail Unwound tail \<longleftrightarrow>
     tail = [] \<or> tail = [ReaderEnded] \<or> (\<exists>err. tail = [ReaderFailed err] \<or> tail = [ReaderFailed err, ReaderEnded])"
| "stream_tail _ tail \<longleftrightarrow> tail = []"

definition stream_ok :: "'b reader_system \<Rightarrow> bool" where
  "stream_ok s \<longleftrightarrow> (\<exists>ps tail. rs_sent s = map ReaderPacket ps @ tail \<and> stream_tail (rs_pc s) tail)"

definition before_notify :: "'b reader_system \<Rightarrow> bool" where
  "before_notify s \<longleftrightarrow> rs_pc s \<in> {NotifyPacket, NotifyFailed, NotifyEnded}"

definition notified_ok :: "'b reader_system \<Rightarrow> bool" where
  "notified_ok s \<longleftrightarrow> (case rs_activity s of
       None \<Rightarrow> rs_pc s \<noteq> Unwound
     | Some returns \<Rightarrow>
         rs_notified s + (if before_notify s then 1 else 0) = length (rs_sent s)
         \<and> (rs_pc s = Unwound \<longrightarrow> (\<exists>n. rs_notified s = Suc n \<and> \<not> returns n)))"

definition owner_ok :: "'b reader_system \<Rightarrow> bool" where
  "owner_ok s \<longleftrightarrow>
     (rs_connected s \<longleftrightarrow> rs_owner s \<noteq> Gone) \<and> (rs_owner s = Gone \<longrightarrow> \<not> rs_join s)
     \<and> (\<not> rs_join s \<longrightarrow> thread_over s) \<and> (rs_owner s \<noteq> Idle \<or> \<not> rs_join s \<longrightarrow> rs_shutdown s)"

definition reader_inv :: "'b reader_system \<Rightarrow> bool" where
  "reader_inv s \<longleftrightarrow> rs_sent s = rs_received s @ rs_queue s \<and> stream_ok s \<and> notified_ok s \<and> owner_ok s"

lemma owner_ok_connected: "owner_ok s \<Longrightarrow> \<not> thread_over s \<Longrightarrow> rs_connected s"
  by (auto simp: owner_ok_def)

lemma stream_ok_push:
  assumes "rs_sent s = map ReaderPacket ps @ tail" "stream_tail k (tail @ [e]) \<or> (tail = [] \<and> e = ReaderPacket p \<and> k = NotifyPacket)"
  shows "stream_ok ((s\<lparr>rs_queue := q, rs_sent := rs_sent s @ [e]\<rparr>)\<lparr>rs_pc := k\<rparr>)"
proof (cases "e = ReaderPacket p \<and> tail = [] \<and> k = NotifyPacket")
  case True
  with assms(1) show ?thesis
    by (auto simp: stream_ok_def intro!: exI [of _ "ps @ [p]"])
next
  case False
  with assms show ?thesis by (auto simp: stream_ok_def)
qed

text \<open>A step of the reader, on the branches that a connected channel leaves.\<close>

lemma reader_next_cases:
  assumes "reader_next io s = Some s'" "rs_connected s"
  obtains (head) "rs_pc s = LoopHead" "s' = s\<lparr>rs_pc := if rs_shutdown s then SendEnded else Polling\<rparr>"
  | (poll) "rs_pc s = Polling" "s' = reader_poll io s"
  | (send) e k where "(\<exists>p. rs_pc s = SendPacket p \<and> e = ReaderPacket p \<and> k = NotifyPacket)
        \<or> (\<exists>err. rs_pc s = SendFailed err \<and> e = ReaderFailed err \<and> k = NotifyFailed)
        \<or> (rs_pc s = SendEnded \<and> e = ReaderEnded \<and> k = NotifyEnded)"
      "s' = (s\<lparr>rs_queue := rs_queue s @ [e], rs_sent := rs_sent s @ [e]\<rparr>)\<lparr>rs_pc := k\<rparr>"
  | (notify) k where "(rs_pc s, k) \<in> {(NotifyPacket, LoopHead), (NotifyFailed, SendEnded), (NotifyEnded, Returned)}"
      "s' = reader_notify k s"
  using assms by (cases "rs_pc s") (auto simp: reader_next_def sender_send_def)

lemma reader_poll_fields:
  "rs_sent (reader_poll io s) = rs_sent s" "rs_queue (reader_poll io s) = rs_queue s"
  "rs_received (reader_poll io s) = rs_received s" "rs_notified (reader_poll io s) = rs_notified s"
  "rs_activity (reader_poll io s) = rs_activity s" "rs_connected (reader_poll io s) = rs_connected s"
  "rs_owner (reader_poll io s) = rs_owner s" "rs_join (reader_poll io s) = rs_join s"
  "rs_shutdown (reader_poll io s) = rs_shutdown s"
  by (simp_all add: reader_poll_def Let_def split: prod.split)

lemma reader_poll_pc: "rs_pc (reader_poll io s) = LoopHead \<or> (\<exists>p. rs_pc (reader_poll io s) = SendPacket p)
    \<or> (\<exists>err. rs_pc (reader_poll io s) = SendFailed err)"
  by (auto simp: reader_poll_def Let_def split: prod.split sum.split option.split)

lemma stream_ok_move:
  "stream_ok s \<Longrightarrow> rs_sent s' = rs_sent s \<Longrightarrow> (\<And>tail. stream_tail (rs_pc s) tail \<Longrightarrow> stream_tail (rs_pc s') tail)
   \<Longrightarrow> stream_ok s'"
  unfolding stream_ok_def by metis

lemma reader_inv_move:
  assumes "reader_inv s" "rs_sent s' = rs_sent s" "rs_received s' @ rs_queue s' = rs_received s @ rs_queue s"
    and "\<And>tail. stream_tail (rs_pc s) tail \<Longrightarrow> stream_tail (rs_pc s') tail" "notified_ok s'" "owner_ok s'"
  shows "reader_inv s'"
  using assms stream_ok_move [of s s'] by (simp add: reader_inv_def)

lemmas reader_side_defs = notified_ok_def owner_ok_def thread_over_def before_notify_def

lemma reader_next_inv:
  assumes "reader_next io s = Some s'" "reader_inv s"
  shows "reader_inv s'"
proof -
  have "\<not> thread_over s" using assms(1) by (auto simp: reader_next_def thread_over_def)
  with assms(2) have c: "rs_connected s" "rs_join s" and n: "notified_ok s" and ok: "owner_ok s"
    by (auto simp: reader_inv_def owner_ok_def)
  from assms(1) c(1) show ?thesis
  proof (cases rule: reader_next_cases)
    case head
    with n ok show ?thesis
      by (intro reader_inv_move [OF assms(2)]) (auto simp: reader_side_defs split: option.splits)
  next
    case poll
    with n ok c reader_poll_pc [of io s] show ?thesis
      by (intro reader_inv_move [OF assms(2)]) (auto simp: reader_side_defs reader_poll_fields split: option.splits)
  next
    case (send e k)
    obtain ps tail where t: "rs_sent s = map ReaderPacket ps @ tail" "stream_tail (rs_pc s) tail"
      using assms(2) unfolding reader_inv_def stream_ok_def by blast
    have "stream_ok s'" unfolding send(2) using send(1) t(2)
      by (intro stream_ok_push [OF t(1), where p = "case e of ReaderPacket p \<Rightarrow> p"]) auto
    moreover have "notified_ok s'" "owner_ok s'" "rs_sent s' = rs_received s' @ rs_queue s'"
      using assms(2) n ok send c by (auto simp: reader_inv_def reader_side_defs split: option.splits)
    ultimately show ?thesis by (simp add: reader_inv_def)
  next
    case (notify k)
    with n ok c show ?thesis
      by (intro reader_inv_move [OF assms(2)]) (auto simp: reader_side_defs reader_notify_def split: option.splits)
  qed
qed

text \<open>What the owner does leaves the control point of the reader and what it has sent as they are.\<close>

lemma owner_step_inv:
  assumes "reader_inv s" "rs_pc s' = rs_pc s" "rs_sent s' = rs_sent s" "rs_notified s' = rs_notified s"
    and "rs_activity s' = rs_activity s" "rs_received s' @ rs_queue s' = rs_received s @ rs_queue s" "owner_ok s'"
  shows "reader_inv s'"
proof (rule reader_inv_move [OF assms(1)])
  have "before_notify s' = before_notify s" using assms(2) by (simp add: before_notify_def)
  with assms show "notified_ok s'" by (cases "rs_activity s") (simp_all add: reader_inv_def notified_ok_def)
qed (use assms in simp_all)

lemma thread_step_inv: "thread_step io s s' \<Longrightarrow> reader_inv s \<Longrightarrow> reader_inv s'"
proof (induction rule: thread_step.induct)
  case (reader_runs s s')
  then show ?case by (rule reader_next_inv)
next
  case (owner_receives s)
  then show ?case
    by (intro owner_step_inv [OF owner_receives(2)])
      (auto simp: reader_recv_def reader_inv_def owner_ok_def thread_over_def split: list.split)
next
  case (owner_sends s packet)
  then show ?case
    by (intro owner_step_inv [OF owner_sends(2)])
      (auto simp: sink_send_def Let_def reader_inv_def owner_ok_def thread_over_def split: prod.split)
next
  case (close_returns s r s')
  then show ?case using join_reader_some [OF close_returns(2)]
    by (intro owner_step_inv [OF close_returns(3)]) (auto simp: reader_inv_def owner_ok_def thread_over_def)
next
  case (drop_returns s r s')
  then show ?case using join_reader_some [OF drop_returns(2)]
    by (intro owner_step_inv [OF drop_returns(3)]) (auto simp: reader_inv_def owner_ok_def thread_over_def)
next
  case (owner_closes s)
  then show ?case
    by (intro owner_step_inv [OF owner_closes(2)]) (auto simp: shut_down_def reader_inv_def owner_ok_def thread_over_def)
next
  case (owner_drops s)
  then show ?case
    by (intro owner_step_inv [OF owner_drops(2)]) (auto simp: shut_down_def reader_inv_def owner_ok_def thread_over_def)
qed

lemma reader_start_inv: "reader_inv (split_transport_with_activity t activity)"
  by (auto simp: split_transport_with_activity_def reader_inv_def stream_ok_def reader_side_defs split: option.split)

lemma interleaving_inv: "interleaving io s s' \<Longrightarrow> reader_inv s \<Longrightarrow> reader_inv s'"
  by (induction rule: rtranclp_induct) (auto intro: thread_step_inv)

lemma thread_step_activity: "thread_step io s s' \<Longrightarrow> rs_activity s' = rs_activity s"
proof (induction rule: thread_step.induct)
  case (reader_runs s s')
  then show ?case
    by (auto simp: reader_next_def sender_send_def reader_notify_def reader_poll_fields split: reader_pc.splits option.splits)
next
  case (close_returns s r s')
  then show ?case using join_reader_some [OF close_returns(2)] by simp
next
  case (drop_returns s r s')
  then show ?case using join_reader_some [OF drop_returns(2)] by simp
qed (auto simp: reader_recv_def sink_send_def shut_down_def Let_def split: list.split prod.split)

lemma interleaving_activity: "interleaving io s s' \<Longrightarrow> rs_activity s' = rs_activity s"
  by (induction rule: rtranclp_induct) (auto dest: thread_step_activity)

lemma interleaving_start:
  assumes "interleaving io (split_transport_with_activity t activity) s"
  shows "reader_inv s" "rs_activity s = activity"
  using interleaving_inv [OF assms reader_start_inv] interleaving_activity [OF assms]
  by (simp_all add: split_transport_with_activity_def)

section \<open>Lemmas: conservation of the device's bytes\<close>

fun packets_in :: "reader_event list \<Rightarrow> packet list" where
  "packets_in [] = []"
| "packets_in (ReaderPacket p # es) = p # packets_in es"
| "packets_in (_ # es) = packets_in es"

lemma packets_in_append [simp]: "packets_in (es @ fs) = packets_in es @ packets_in fs"
  by (induction es rule: packets_in.induct) auto

fun in_hand :: "reader_pc \<Rightarrow> packet list" where
  "in_hand (SendPacket p) = [p]"
| "in_hand _ = []"

definition reader_failed :: "'b reader_system \<Rightarrow> bool" where
  "reader_failed s \<longleftrightarrow> (\<exists>err. rs_pc s = SendFailed err \<or> ReaderFailed err \<in> set (rs_sent s))"

definition conserved :: "('b \<times> bytes \<times> bytes) reader_system \<Rightarrow> bool" where
  "conserved s \<longleftrightarrow> reader_failed s
     \<or> balanced (packets_in (rs_sent s) @ in_hand (rs_pc s)) ((rs_source s)\<lparr>us_backend := rs_device s\<rparr>)"

lemma balanced_cong:
  "balanced done_packets t \<Longrightarrow> us_pending t' = us_pending t \<Longrightarrow> us_event_bytes t' = us_event_bytes t
   \<Longrightarrow> us_acl_bytes t' = us_acl_bytes t \<Longrightarrow> snd (us_backend t') = snd (us_backend t) \<Longrightarrow> balanced done_packets t'"
  by (simp add: balanced_def)

lemma reader_poll_conserved:
  assumes "conserved s" "rs_pc s = Polling"
  shows "conserved (reader_poll (recording_io io) s)"
proof -
  let ?t = "(rs_source s)\<lparr>us_backend := rs_device s, us_shutdown := rs_shutdown s\<rparr>"
  obtain r t where p: "poll_packet (recording_io io) ?t = (r, t)" by fastforce
  show ?thesis
  proof (cases "reader_failed s \<or> (\<exists>err. r = Inl err)")
    case True
    then show ?thesis using p assms(2) by (auto simp: conserved_def reader_failed_def reader_poll_def)
  next
    case False
    then obtain q where r: "r = Inr q" by (cases r) auto
    from assms False have "balanced (packets_in (rs_sent s)) ?t"
      by (auto simp: conserved_def balanced_def)
    from poll_balanced [OF p [unfolded r] this] p r show ?thesis
      by (auto simp: conserved_def reader_poll_def split: option.splits)
  qed
qed

lemma sink_send_conserved:
  assumes "conserved s"
  shows "conserved (snd (sink_send (recording_io io) packet s))"
proof -
  obtain r t where w: "write_packet (recording_io io) packet ((rs_sink s)\<lparr>us_backend := rs_device s, us_shutdown := rs_shutdown s\<rparr>)
    = (r, t)" by fastforce
  then have "snd (us_backend t) = snd (rs_device s)"
    by (auto simp: write_packet_def recording_io_def Let_def split: if_splits list.splits prod.splits sum.splits)
  with assms w show ?thesis
    by (auto simp: conserved_def sink_send_def reader_failed_def balanced_def)
qed

lemma conserved_move:
  assumes "conserved s" "rs_sent s' = rs_sent s" "in_hand (rs_pc s) = []" "in_hand (rs_pc s') = []"
    and "\<And>err. rs_pc s \<noteq> SendFailed err" "rs_source s' = rs_source s" "rs_device s' = rs_device s"
  shows "conserved s'"
  using assms by (auto simp: conserved_def reader_failed_def)

lemma reader_next_conserved:
  assumes "reader_next (recording_io io) s = Some s'" "reader_inv s" "conserved s"
  shows "conserved s'"
proof -
  have "\<not> thread_over s" using assms(1) by (auto simp: reader_next_def thread_over_def)
  with assms(2) have "rs_connected s" by (simp add: reader_inv_def owner_ok_connected)
  with assms(1) show ?thesis
  proof (cases rule: reader_next_cases)
    case head
    then show ?thesis by (intro conserved_move [OF assms(3)]) auto
  next
    case poll
    with assms(3) show ?thesis by (simp add: reader_poll_conserved)
  next
    case (send e k)
    with assms(3) show ?thesis by (auto simp: conserved_def reader_failed_def elim!: balanced_cong)
  next
    case (notify k)
    then show ?thesis
      by (intro conserved_move [OF assms(3)]) (auto simp: reader_notify_def split: option.split)
  qed
qed

lemma owner_conserved:
  assumes "conserved s" "rs_pc s' = rs_pc s" "rs_sent s' = rs_sent s" "rs_source s' = rs_source s"
    and "rs_device s' = rs_device s"
  shows "conserved s'"
  using assms by (simp add: conserved_def reader_failed_def)

lemma thread_step_conserved:
  "thread_step (recording_io io) s s' \<Longrightarrow> reader_inv s \<and> conserved s \<Longrightarrow> reader_inv s' \<and> conserved s'"
proof (rule conjI)
  assume step: "thread_step (recording_io io) s s'" and inv: "reader_inv s \<and> conserved s"
  from step inv show "reader_inv s'" by (blast intro: thread_step_inv)
  from step inv show "conserved s'"
  proof (induction rule: thread_step.induct)
    case (reader_runs s s')
    then show ?case by (blast intro: reader_next_conserved)
  next
    case (owner_receives s)
    then show ?case by - (rule owner_conserved [of s], auto simp: reader_recv_def split: list.split)
  next
    case (owner_sends s packet)
    then show ?case by (simp add: sink_send_conserved)
  next
    case (close_returns s r s')
    then show ?case using join_reader_some [OF close_returns(2)] by - (rule owner_conserved [of s], simp_all)
  next
    case (drop_returns s r s')
    then show ?case using join_reader_some [OF drop_returns(2)] by - (rule owner_conserved [of s], simp_all)
  next
    case (owner_closes s)
    then show ?case by - (rule owner_conserved [of s], auto simp: shut_down_def)
  next
    case (owner_drops s)
    then show ?case by - (rule owner_conserved [of s], auto simp: shut_down_def)
  qed
qed

lemma interleaving_conserved:
  "interleaving (recording_io io) s s' \<Longrightarrow> reader_inv s \<and> conserved s \<Longrightarrow> conserved s'"
proof -
  assume "interleaving (recording_io io) s s'" "reader_inv s \<and> conserved s"
  then have "reader_inv s' \<and> conserved s'" by (induction rule: rtranclp_induct) (blast dest: thread_step_conserved)+
  then show ?thesis ..
qed

section \<open>Lemmas: the end of the reader\<close>

text \<open>Once the flag is set the reader has at most five steps left.\<close>

fun steps_left :: "reader_pc \<Rightarrow> nat" where
  "steps_left (SendPacket _) = 5"
| "steps_left NotifyPacket = 4"
| "steps_left Polling = 4"
| "steps_left (SendFailed _) = 4"
| "steps_left NotifyFailed = 3"
| "steps_left LoopHead = 3"
| "steps_left SendEnded = 2"
| "steps_left NotifyEnded = 1"
| "steps_left Returned = 0"
| "steps_left Unwound = 0"

lemma steps_left_over: "steps_left (rs_pc s) = 0 \<longleftrightarrow> thread_over s"
  by (cases "rs_pc s") (auto simp: thread_over_def)

lemma shut_poll: "rs_shutdown s \<Longrightarrow> rs_pc (reader_poll io s) = LoopHead"
  by (simp add: reader_poll_def poll_packet_def)

lemma reader_next_left:
  "reader_next io s = Some s' \<Longrightarrow> rs_shutdown s \<Longrightarrow> steps_left (rs_pc s') < steps_left (rs_pc s) \<and> rs_shutdown s'"
  by (cases "rs_pc s")
    (auto simp: reader_next_def sender_send_def reader_notify_def shut_poll reader_poll_fields split: option.splits)

lemma thread_step_left:
  "thread_step io s s' \<Longrightarrow> rs_shutdown s \<Longrightarrow> rs_shutdown s' \<and> steps_left (rs_pc s') \<le> steps_left (rs_pc s)"
proof (induction rule: thread_step.induct)
  case (reader_runs s s')
  then show ?case by (auto dest: reader_next_left)
next
  case (close_returns s r s')
  then show ?case using join_reader_some [OF close_returns(2)] by simp
next
  case (drop_returns s r s')
  then show ?case using join_reader_some [OF drop_returns(2)] by simp
qed (auto simp: reader_recv_def sink_send_def shut_down_def Let_def split: list.split prod.split)

interpretation reader_end: ranked_progress "thread_step io" "\<lambda>s s'. reader_next io s = Some s'" rs_shutdown
    "\<lambda>s. steps_left (rs_pc s)" for io
  by unfold_locales (auto dest: thread_step_left reader_next_left)

lemma closing_waits:
  assumes "thread_step io s s'" "rs_owner s = Closing" "\<not> thread_over s" "reader_inv s"
  shows "rs_owner s' = Closing"
  using assms(1)
proof (cases rule: thread_step.cases)
  case reader_runs
  with assms(2) show ?thesis
    by (cases "rs_pc s")
      (auto simp: reader_next_def sender_send_def reader_notify_def reader_poll_fields split: option.splits)
next
  case (close_returns r s1)
  then show ?thesis using join_reader_some [OF close_returns(3)] assms(3,4) by (auto simp: reader_inv_def owner_ok_def)
qed (use assms(2) in auto)

lemma join_over:
  "thread_over s \<Longrightarrow> \<exists>r. join_reader s = Some (r, s\<lparr>rs_join := False\<rparr>) \<and> (rs_pc s = Returned \<longrightarrow> r = Inr ())"
  by (auto simp: thread_over_def join_reader_def)

lemma over_returned:
  assumes "thread_over s" "reader_inv s" "\<And>returns n. rs_activity s = Some returns \<Longrightarrow> returns n"
  shows "rs_pc s = Returned"
  using assms by (auto simp: thread_over_def reader_inv_def notified_ok_def split: option.splits)

lemma returned_last:
  assumes "rs_pc s = Returned" "reader_inv s"
  shows "last (rs_sent s) = ReaderEnded"
proof -
  obtain ps tail where "rs_sent s = map ReaderPacket ps @ tail" "stream_tail Returned tail"
    using assms unfolding reader_inv_def stream_ok_def by metis
  then show ?thesis by auto
qed

section \<open>Sample runs\<close>

text \<open>A schedule in which the reader runs alone, and one in which the owner waits in \<^verbatim>\<open>close\<close> for the reader and then
  receives what is left.\<close>

fun run_reader :: "'b usb_io \<Rightarrow> nat \<Rightarrow> 'b reader_system \<Rightarrow> 'b reader_system" where
  "run_reader io 0 s = s"
| "run_reader io (Suc n) s = (case reader_next io s of None \<Rightarrow> s | Some s' \<Rightarrow> run_reader io n s')"

lemma run_reader_interleaving: "interleaving io s (run_reader io n s)"
  by (induction n arbitrary: s)
    (auto split: option.split intro: thread_step.reader_runs converse_rtranclp_into_rtranclp)

definition close_schedule :: "'b usb_io \<Rightarrow> 'b reader_system \<Rightarrow> 'b reader_system" where
  "close_schedule io s =
     (if rs_owner s = Closing then
        case reader_next io s of
          Some s' \<Rightarrow> s'
        | None \<Rightarrow> (case join_reader s of Some (_, s') \<Rightarrow> s'\<lparr>rs_owner := Idle\<rparr> | None \<Rightarrow> s)
      else snd (reader_recv s))"

lemma reader_next_none: "reader_next io s = None \<longleftrightarrow> thread_over s"
  by (cases "rs_pc s") (auto simp: reader_next_def thread_over_def)

lemma close_schedule_step:
  assumes "rs_owner s = Closing \<or> rs_owner s = Idle \<and> thread_over s"
  shows "thread_step io s (close_schedule io s)"
    "rs_owner (close_schedule io s) = Closing \<or> rs_owner (close_schedule io s) = Idle \<and> thread_over (close_schedule io s)"
    "thread_over s \<or> reader_next io s = Some (close_schedule io s)"
proof -
  have "thread_step io s (close_schedule io s) \<and> (thread_over s \<or> reader_next io s = Some (close_schedule io s))
    \<and> (rs_owner (close_schedule io s) = Closing \<or> rs_owner (close_schedule io s) = Idle \<and> thread_over (close_schedule io s))"
  proof (cases "rs_owner s = Closing \<and> \<not> thread_over s")
    case True
    then obtain s' where "reader_next io s = Some s'" using reader_next_none [of io s] by auto
    moreover from this True have "rs_owner s' = Closing"
      by (cases "rs_pc s")
        (auto simp: reader_next_def sender_send_def reader_notify_def reader_poll_fields split: option.splits)
    ultimately show ?thesis using True by (auto simp: close_schedule_def intro: thread_step.reader_runs)
  next
    case False
    with assms have over: "thread_over s" by blast
    then obtain r where "join_reader s = Some (r, s\<lparr>rs_join := False\<rparr>)" using join_over by blast
    with over assms reader_next_none [of io s] thread_step.close_returns [of s r "s\<lparr>rs_join := False\<rparr>" io]
      thread_step.owner_receives [of s io] show ?thesis
      by (auto simp: close_schedule_def thread_over_def reader_recv_def split: list.splits)
  qed
  then show "thread_step io s (close_schedule io s)"
    "rs_owner (close_schedule io s) = Closing \<or> rs_owner (close_schedule io s) = Idle \<and> thread_over (close_schedule io s)"
    "thread_over s \<or> reader_next io s = Some (close_schedule io s)" by blast+
qed

lemma close_schedule_owner:
  "rs_owner s = Closing \<Longrightarrow>
   rs_owner ((close_schedule io ^^ n) s) = Closing
   \<or> rs_owner ((close_schedule io ^^ n) s) = Idle \<and> thread_over ((close_schedule io ^^ n) s)"
  by (induction n) (use close_schedule_step(2) in auto)

lemma close_schedule_fair:
  assumes "rs_owner s = Closing"
  shows "thread_step io ((close_schedule io ^^ n) s) ((close_schedule io ^^ Suc n) s)"
    "thread_over ((close_schedule io ^^ n) s)
     \<or> reader_next io ((close_schedule io ^^ n) s) = Some ((close_schedule io ^^ Suc n) s)"
  using close_schedule_step(1,3) [OF close_schedule_owner [OF assms, where io = io and n = n], of io] by simp_all

text \<open>A reader with one event to read.\<close>

definition sample_reader :: "bytes list reader_system" where
  "sample_reader = split_transport_with_activity
     (transport_new [[0x13, 2, 7, 8]] sample_layout sample_metadata) (Some (\<lambda>_. True))"

lemma sample_frames:
  "frame_loop EVENT_PACKET_TYPE [] [0x13, 2, 7, 8] = (Inr [Event \<lparr>ev_event_code = 0x13, ev_parameters = [7, 8]\<rparr>], [])"
proof -
  have "packet_from_bytes [4, 0x13, 2, 7, 8] = Inr (Event \<lparr>ev_event_code = 0x13, ev_parameters = [7, 8]\<rparr>)"
    by (simp add: hci_packets.dec_iff event_wf_def event_to_bytes_def)
  then show ?thesis by (simp add: frame_loop.simps raw_length_def)
qed

lemmas sample_reader_simps = sample_reader_def split_transport_with_activity_def transport_new_def reader_transport_def
  reader_next_def reader_poll_def poll_packet_def pop_pending_def scripted_io_def absorb_transfer_def frame_packets_def
  sample_frames sender_send_def reader_notify_def

lemma sample_run:
  "rs_pc (run_reader scripted_io 3 sample_reader) = NotifyPacket
   \<and> rs_sent (run_reader scripted_io 3 sample_reader) = [ReaderPacket (Event \<lparr>ev_event_code = 0x13, ev_parameters = [7, 8]\<rparr>)]
   \<and> rs_notified (run_reader scripted_io 3 sample_reader) = 0"
  by (simp add: numeral_3_eq_3 sample_reader_simps)

section \<open>Properties\<close>

text \<open>the channel from the reader to the owner, in every interleaving of the two threads: what the owner has received
  followed by what is queued is what the reader has sent, in order; that is packets, then at most one failure, then at
  most one end, which is the last item; a reader that has returned has sent its end; and while the reader runs the
  receiving end exists, so that no send of it fails.\<close>

theorem reader_stream_order:
  assumes "interleaving io (split_transport_with_activity t activity) s"
  shows "rs_sent s = rs_received s @ rs_queue s
    \<and> (\<exists>ps failure end_mark. rs_sent s = map ReaderPacket ps @ failure @ end_mark
        \<and> (failure = [] \<or> (\<exists>err. failure = [ReaderFailed err])) \<and> (end_mark = [] \<or> end_mark = [ReaderEnded])
        \<and> (rs_pc s = Returned \<longrightarrow> end_mark = [ReaderEnded]))
    \<and> (thread_over s \<or> rs_connected s)"
proof -
  have inv: "reader_inv s" using interleaving_start [OF assms] by simp
  then obtain ps tail where t: "rs_sent s = map ReaderPacket ps @ tail" "stream_tail (rs_pc s) tail"
    unfolding reader_inv_def stream_ok_def by blast
  from t(2) have "tail = [] @ [] \<and> rs_pc s \<noteq> Returned \<or> tail = [] @ [ReaderEnded]
      \<or> (\<exists>err. tail = [ReaderFailed err] @ [] \<and> rs_pc s \<noteq> Returned \<or> tail = [ReaderFailed err] @ [ReaderEnded])"
    by (cases "rs_pc s") auto
  with t(1) have "\<exists>ps failure end_mark. rs_sent s = map ReaderPacket ps @ failure @ end_mark
        \<and> (failure = [] \<or> (\<exists>err. failure = [ReaderFailed err])) \<and> (end_mark = [] \<or> end_mark = [ReaderEnded])
        \<and> (rs_pc s = Returned \<longrightarrow> end_mark = [ReaderEnded])" by blast
  with inv show ?thesis by (auto simp: reader_inv_def intro: owner_ok_connected)
qed

theorem reader_stream_order_witness:
  "rs_sent (run_reader scripted_io 3 sample_reader) = [ReaderPacket (Event \<lparr>ev_event_code = 0x13, ev_parameters = [7, 8]\<rparr>)]
   \<and> rs_received (run_reader scripted_io 3 sample_reader) @ rs_queue (run_reader scripted_io 3 sample_reader)
     = [ReaderPacket (Event \<lparr>ev_event_code = 0x13, ev_parameters = [7, 8]\<rparr>)]"
  using reader_stream_order [OF run_reader_interleaving [of scripted_io sample_reader 3, unfolded sample_reader_def],
      folded sample_reader_def] sample_run
  by simp

text \<open>C11: no wake-up is lost. In every interleaving the application has been notified of every item on the channel, except for the one
  the reader sent last while it has not reached the call of the notifier: the calls are never behind the items by more than
  one, never ahead of them, and level with them whenever the reader is at any other point.\<close>

theorem no_lost_wakeup:
  assumes "interleaving io (split_transport_with_activity t (Some returns)) s"
  shows "rs_notified s \<le> length (rs_sent s) \<and> length (rs_sent s) \<le> rs_notified s + 1
    \<and> (rs_notified s = length (rs_sent s) \<longleftrightarrow> \<not> before_notify s)
    \<and> (before_notify s \<longrightarrow> (\<exists>s'. reader_next io s = Some s' \<and> rs_notified s' = length (rs_sent s')))"
proof -
  have inv: "notified_ok s" "rs_activity s = Some returns"
    using interleaving_start [OF assms] by (simp_all add: reader_inv_def)
  moreover have "\<exists>s'. reader_next io s = Some s' \<and> rs_notified s' = rs_notified s + 1 \<and> rs_sent s' = rs_sent s"
    if "before_notify s"
    using that inv(2) by (auto simp: before_notify_def reader_next_def reader_notify_def)
  ultimately show ?thesis by (auto simp: notified_ok_def split: if_splits)
qed

theorem no_lost_wakeup_witness:
  "before_notify (run_reader scripted_io 3 sample_reader)
   \<and> (\<exists>s'. reader_next scripted_io (run_reader scripted_io 3 sample_reader) = Some s' \<and> rs_notified s' = length (rs_sent s'))"
proof -
  have "before_notify (run_reader scripted_io 3 sample_reader)" using sample_run by (simp add: before_notify_def)
  then show ?thesis
    using no_lost_wakeup [OF run_reader_interleaving [of scripted_io sample_reader 3, unfolded sample_reader_def],
        folded sample_reader_def]
    by blast
qed

text \<open>C10: a close returns. Take any run of the two threads in which the owner is in \<^verbatim>\<open>close\<close>, with every step of the run up to the
  scheduler as long as it does not neglect a reader that could run for ever. Then the join returns, and with success unless
  a call of the notifier panicked.\<close>

theorem close_terminates:
  assumes "interleaving io (split_transport_with_activity t activity) (\<sigma> 0)" "rs_owner (\<sigma> 0) = Closing"
    and steps: "\<And>n. thread_step io (\<sigma> n) (\<sigma> (Suc n))"
    and fair: "\<And>n. \<exists>m \<ge> n. thread_over (\<sigma> m) \<or> reader_next io (\<sigma> m) = Some (\<sigma> (Suc m))"
  shows "\<exists>m r s'. rs_owner (\<sigma> m) = Closing \<and> join_reader (\<sigma> m) = Some (r, s')
    \<and> ((\<forall>returns n. activity = Some returns \<longrightarrow> returns n) \<longrightarrow> r = Inr () \<and> last (rs_sent s') = ReaderEnded)"
proof -
  have "interleaving io (split_transport_with_activity t activity) (\<sigma> n)" for n
    by (induction n) (use assms(1) steps in \<open>auto intro: rtranclp.rtrancl_into_rtrancl\<close>)
  note inv = interleaving_start [OF this]
  have "rs_shutdown (\<sigma> 0)" using inv(1) [of 0] assms(2) by (auto simp: reader_inv_def owner_ok_def)
  from reader_end.run_reaches [OF this steps] fair have "\<exists>m. thread_over (\<sigma> m)" by (simp add: steps_left_over)
  then obtain m where m: "thread_over (\<sigma> m)" "\<And>k. k < m \<Longrightarrow> \<not> thread_over (\<sigma> k)"
    using LeastI_ex [of "\<lambda>m. thread_over (\<sigma> m)"] not_less_Least [of _ "\<lambda>m. thread_over (\<sigma> m)"] by blast
  have closing: "k \<le> m \<Longrightarrow> rs_owner (\<sigma> k) = Closing" for k
  proof (induction k)
    case (Suc k)
    then show ?case using closing_waits [OF steps _ m(2) inv(1), of k] by simp
  qed (simp add: assms(2))
  from m(1) obtain r where r: "join_reader (\<sigma> m) = Some (r, (\<sigma> m)\<lparr>rs_join := False\<rparr>)"
    "rs_pc (\<sigma> m) = Returned \<longrightarrow> r = Inr ()" using join_over by blast
  have "r = Inr () \<and> last (rs_sent (\<sigma> m)) = ReaderEnded" if "\<forall>returns n. activity = Some returns \<longrightarrow> returns n"
  proof -
    have "rs_pc (\<sigma> m) = Returned" using inv [of m] that m(1) by (auto intro: over_returned)
    moreover from this have "last (rs_sent (\<sigma> m)) = ReaderEnded"
      using inv(1) [of m] by (simp add: returned_last)
    ultimately show ?thesis using r(2) by simp
  qed
  with closing [of m] r(1) show ?thesis by auto
qed

text \<open>The owner closes while the reader is about to notify: five more steps, then the join.\<close>

theorem close_terminates_witness:
  "\<exists>m r s'. rs_owner ((close_schedule scripted_io ^^ m) (shut_down Closing (run_reader scripted_io 3 sample_reader))) = Closing
     \<and> join_reader ((close_schedule scripted_io ^^ m) (shut_down Closing (run_reader scripted_io 3 sample_reader))) = Some (r, s')
     \<and> r = Inr () \<and> last (rs_sent s') = ReaderEnded"
proof -
  let ?s = "shut_down Closing (run_reader scripted_io 3 sample_reader)"
  have "rs_owner (run_reader scripted_io 3 sample_reader) = Idle"
    by (simp add: numeral_3_eq_3 sample_reader_simps)
  then have "interleaving scripted_io sample_reader ?s"
    using run_reader_interleaving [of scripted_io sample_reader 3] thread_step.owner_closes
    by (metis rtranclp.rtrancl_into_rtrancl)
  moreover have "rs_owner ?s = Closing" by (simp add: shut_down_def)
  ultimately show ?thesis
    using close_terminates [where io = scripted_io and t = "transport_new [[0x13, 2, 7, 8]] sample_layout sample_metadata"
        and activity = "Some (\<lambda>_. True)" and \<sigma> = "\<lambda>n. (close_schedule scripted_io ^^ n) ?s", folded sample_reader_def]
      close_schedule_fair [where s = ?s and io = scripted_io]
    by simp blast
qed

text \<open>C12: the two threads lose, duplicate and reorder nothing. In every interleaving, and as long as the reader has not met an error, the
  event packets the owner received, those on the channel, the one in the reader's hand, those pending in its transport and its
  partial bytes are together exactly the bytes that the interrupt endpoint delivered, and the same holds of ACL packets and the
  bulk endpoint, whatever the owner writes to the device in between.\<close>

theorem reader_conserves:
  assumes "interleaving (recording_io io) (split_transport_with_activity (transport_new (b, [], []) layout metadata) activity) s"
    and "\<not> reader_failed s"
    and "all = packets_in (rs_received s) @ packets_in (rs_queue s) @ in_hand (rs_pc s) @ us_pending (rs_source s)"
  shows "concat (map payload_of (filter is_event all)) @ us_event_bytes (rs_source s) = fst (snd (rs_device s))
    \<and> concat (map payload_of (filter is_acl all)) @ us_acl_bytes (rs_source s) = snd (snd (rs_device s))"
proof -
  have "conserved s"
    by (rule interleaving_conserved [OF assms(1)], intro conjI reader_start_inv)
      (simp add: conserved_def balanced_def split_transport_with_activity_def transport_new_def reader_transport_def)
  moreover have "rs_sent s = rs_received s @ rs_queue s"
    using interleaving_start(1) [OF assms(1)] by (simp add: reader_inv_def)
  ultimately show ?thesis using assms(2,3) by (simp add: conserved_def balanced_def)
qed

text \<open>The reader has polled one event and not sent it yet.\<close>

theorem reader_conserves_witness:
  "concat (map payload_of [Event \<lparr>ev_event_code = 0x13, ev_parameters = [7, 8]\<rparr>]) = fst (snd (rs_device
     (run_reader (recording_io scripted_io) 2 (split_transport_with_activity
       (transport_new ([[0x13, 2, 7, 8]], [], []) sample_layout sample_metadata) None))))"
proof -
  let ?s = "run_reader (recording_io scripted_io) 2 (split_transport_with_activity
    (transport_new ([[0x13, 2, 7, 8]], [], []) sample_layout sample_metadata) None)"
  have "\<not> reader_failed ?s" "rs_pc ?s = SendPacket (Event \<lparr>ev_event_code = 0x13, ev_parameters = [7, 8]\<rparr>)"
    "us_pending (rs_source ?s) = []" "us_event_bytes (rs_source ?s) = []" "rs_received ?s = []" "rs_queue ?s = []"
    by (simp_all add: numeral_2_eq_2 reader_failed_def sample_reader_simps recording_io_def received_def)
  with reader_conserves [OF run_reader_interleaving [of "recording_io scripted_io" _ 2] _ refl,
      where b = "[[0x13, 2, 7, 8]]" and layout = sample_layout and metadata = sample_metadata and activity = None]
  show ?thesis by (simp add: is_event_def)
qed

end
