(* ===== verification/Usb_Serial.thy ===== *)
theory Usb_Serial
  imports Usb_Reader
begin

text \<open>
  The two threads of \<^verbatim>\<open>src/src/usb.rs\<close> against one sequential program. The specification is a loop that alternates the
  owner's writes with polls of the device, ends at some poll, and otherwise at the first failure. The
  streams that a reader which returns can have sent, over all interleavings, are exactly the streams of that loop.
\<close>

section \<open>The sequential program\<close>

text \<open>The state between polls: the device, and the transports of the owner and of the reader.\<close>

type_synonym 'b serial_state = "'b \<times> 'b usb_transport \<times> 'b usb_transport"

definition serial_write :: "'b usb_io \<Rightarrow> packet \<Rightarrow> 'b serial_state \<Rightarrow> 'b serial_state" where
  "serial_write io packet = (\<lambda>(d, sink, source).
     let sink' = snd (write_packet io packet (sink\<lparr>us_backend := d, us_shutdown := False\<rparr>)) in
     (us_backend sink', sink', source))"

definition serial_poll :: "'b usb_io \<Rightarrow> ('b serial_state, packet option, usb_error) action" where
  "serial_poll io = (\<lambda>(d, sink, source).
     let (r, t) = poll_packet io (source\<lparr>us_backend := d, us_shutdown := False\<rparr>) in (r, us_backend t, sink, t))"

text \<open>Each element of the schedule is what the owner writes before the next poll.\<close>

fun serial_loop :: "'b usb_io \<Rightarrow> packet list list \<Rightarrow> 'b serial_state \<Rightarrow> reader_event list" where
  "serial_loop io [] st = [ReaderEnded]"
| "serial_loop io (ws # wss) st =
     (case serial_poll io (fold (serial_write io) ws st) of
        (Inr (Some packet), st') \<Rightarrow> ReaderPacket packet # serial_loop io wss st'
      | (Inr None, st') \<Rightarrow> serial_loop io wss st'
      | (Inl err, st') \<Rightarrow> [ReaderFailed err, ReaderEnded])"

definition serial_start :: "'b usb_transport \<Rightarrow> 'b serial_state" where
  "serial_start t = (us_backend t, t, reader_transport t)"

text \<open>The rounds of the loop without failure, as far as they go.\<close>

fun serial_rounds :: "'b usb_io \<Rightarrow> packet list list \<Rightarrow> 'b serial_state \<Rightarrow> (packet list \<times> 'b serial_state) option" where
  "serial_rounds io [] st = Some ([], st)"
| "serial_rounds io (ws # wss) st =
     (case serial_poll io (fold (serial_write io) ws st) of
        (Inr p, st') \<Rightarrow> map_option (\<lambda>(ps, st''). ((case p of None \<Rightarrow> [] | Some q \<Rightarrow> [q]) @ ps, st'')) (serial_rounds io wss st')
      | (Inl err, st') \<Rightarrow> None)"

lemma serial_loop_rounds:
  "serial_rounds io wss st = Some (ps, st') \<Longrightarrow> serial_loop io (wss @ vss) st = map ReaderPacket ps @ serial_loop io vss st'"
  by (induction wss arbitrary: st ps)
    (auto split: prod.splits sum.splits option.splits)

lemma serial_rounds_snoc:
  assumes "serial_rounds io wss st = Some (ps, st')" "serial_poll io (fold (serial_write io) ws st') = (Inr p, st'')"
  shows "serial_rounds io (wss @ [ws]) st = Some (ps @ (case p of None \<Rightarrow> [] | Some q \<Rightarrow> [q]), st'')"
  using assms(1)
proof (induction wss arbitrary: st ps)
  case (Cons vs wss)
  then obtain q st1 qs where q: "serial_poll io (fold (serial_write io) vs st) = (Inr q, st1)"
    "serial_rounds io wss st1 = Some (qs, st')" "ps = (case q of None \<Rightarrow> [] | Some q \<Rightarrow> [q]) @ qs"
    by (auto split: prod.splits sum.splits)
  with Cons.IH [OF q(2)] show ?case by simp
qed (simp add: assms(2))

section \<open>Every interleaving is sequential\<close>

text \<open>Transports that differ in the device and the flag, which both threads take from the shared state, at most.\<close>

definition same_transport :: "'b usb_transport \<Rightarrow> 'b usb_transport \<Rightarrow> bool" where
  "same_transport t t' \<longleftrightarrow> (\<forall>b f. t\<lparr>us_backend := b, us_shutdown := f\<rparr> = t'\<lparr>us_backend := b, us_shutdown := f\<rparr>)"

lemma same_transport_set [simp]:
  "same_transport (t\<lparr>us_backend := b, us_shutdown := f\<rparr>) t' \<longleftrightarrow> same_transport t t'"
  "same_transport t (t'\<lparr>us_backend := b, us_shutdown := f\<rparr>) \<longleftrightarrow> same_transport t t'"
  by (simp_all add: same_transport_def)

lemma same_transport_refl [simp]: "same_transport t t"
  by (simp add: same_transport_def)

definition serial_so_far :: "'b usb_io \<Rightarrow> 'b usb_transport \<Rightarrow> 'b reader_system \<Rightarrow> bool" where
  "serial_so_far io t s \<longleftrightarrow> \<not> reader_failed s \<and> (\<exists>wss ws st sink source.
     serial_rounds io wss (serial_start t) = Some (packets_in (rs_sent s) @ in_hand (rs_pc s), st)
     \<and> fold (serial_write io) ws st = (rs_device s, sink, source)
     \<and> same_transport sink (rs_sink s) \<and> same_transport source (rs_source s))"

definition serial_failure :: "'b usb_io \<Rightarrow> 'b usb_transport \<Rightarrow> 'b reader_system \<Rightarrow> bool" where
  "serial_failure io t s \<longleftrightarrow> (\<exists>wss err. (rs_pc s = SendFailed err \<or> ReaderFailed err \<in> set (rs_sent s))
     \<and> serial_loop io wss (serial_start t) = map ReaderPacket (packets_in (rs_sent s)) @ [ReaderFailed err, ReaderEnded])"

definition serial_inv :: "'b usb_io \<Rightarrow> 'b usb_transport \<Rightarrow> 'b reader_system \<Rightarrow> bool" where
  "serial_inv io t s \<longleftrightarrow> serial_so_far io t s \<or> serial_failure io t s \<and> in_hand (rs_pc s) = [] \<and> rs_pc s \<noteq> Polling"

lemma serial_so_far_move:
  assumes "serial_so_far io t s" "\<not> reader_failed s'" "rs_device s' = rs_device s"
    and "packets_in (rs_sent s') @ in_hand (rs_pc s') = packets_in (rs_sent s) @ in_hand (rs_pc s)"
    and "\<And>x. same_transport x (rs_sink s) \<Longrightarrow> same_transport x (rs_sink s')"
    and "\<And>x. same_transport x (rs_source s) \<Longrightarrow> same_transport x (rs_source s')"
  shows "serial_so_far io t s'"
  using assms unfolding serial_so_far_def by metis

lemma serial_so_far_intact: "serial_so_far io t s \<Longrightarrow> \<not> reader_failed s"
  by (simp add: serial_so_far_def)

lemma serial_failure_move:
  assumes "serial_failure io t s" "packets_in (rs_sent s') = packets_in (rs_sent s)"
    and "\<And>err. rs_pc s = SendFailed err \<or> ReaderFailed err \<in> set (rs_sent s)
      \<Longrightarrow> rs_pc s' = SendFailed err \<or> ReaderFailed err \<in> set (rs_sent s')"
  shows "serial_failure io t s'"
  using assms unfolding serial_failure_def by metis

lemma reader_poll_serial:
  assumes "serial_inv io t s" "rs_pc s = Polling"
  shows "serial_inv io t (reader_poll io s)"
proof -
  let ?t = "(rs_source s)\<lparr>us_backend := rs_device s, us_shutdown := rs_shutdown s\<rparr>"
  obtain r t1 where p: "poll_packet io ?t = (r, t1)" by fastforce
  from assms obtain wss ws st sink source where nf: "\<not> reader_failed s"
    and st: "serial_rounds io wss (serial_start t) = Some (packets_in (rs_sent s), st)"
      "fold (serial_write io) ws st = (rs_device s, sink, source)"
    and same: "same_transport sink (rs_sink s)" "same_transport source (rs_source s)"
    by (auto simp: serial_inv_def serial_so_far_def)
  show ?thesis
  proof (cases "rs_shutdown s")
    case True
    then have "reader_poll io s = s\<lparr>rs_source := ?t, rs_pc := LoopHead\<rparr>" by (simp add: reader_poll_def poll_packet_def)
    moreover have "serial_so_far io t s" using assms by (auto simp: serial_inv_def)
    ultimately have "serial_so_far io t (reader_poll io s)"
      using nf assms(2) by - (rule serial_so_far_move, auto simp: reader_failed_def)
    then show ?thesis by (simp add: serial_inv_def)
  next
    case False
    with p same(2) have poll: "serial_poll io (fold (serial_write io) ws st) = (r, us_backend t1, sink, t1)"
      by (simp add: st(2) serial_poll_def same_transport_def)
    show ?thesis
    proof (cases r)
      case (Inl err)
      with serial_loop_rounds [OF st(1), of "[ws]"] poll
      have "serial_loop io (wss @ [ws]) (serial_start t) = map ReaderPacket (packets_in (rs_sent s)) @ [ReaderFailed err, ReaderEnded]"
        by simp
      with Inl p show ?thesis by (auto simp: serial_inv_def serial_failure_def reader_poll_def)
    next
      case (Inr q)
      with serial_rounds_snoc [OF st(1), of ws q] poll
      have "serial_rounds io (wss @ [ws]) (serial_start t)
          = Some (packets_in (rs_sent s) @ (case q of None \<Rightarrow> [] | Some p \<Rightarrow> [p]), (us_backend t1, sink, t1))"
        by simp
      with Inr p nf same(1) have "serial_so_far io t (reader_poll io s)"
        unfolding serial_so_far_def
        by (intro conjI exI [of _ "wss @ [ws]"] exI [of _ "[]"] exI [of _ "(us_backend t1, sink, t1)"] exI [of _ sink] exI [of _ t1])
          (auto simp: reader_poll_def reader_failed_def split: option.splits)
      then show ?thesis by (simp add: serial_inv_def)
    qed
  qed
qed

lemma serial_at_head:
  assumes "rs_pc s = LoopHead" "reader_inv s" "serial_inv io t s"
  shows "serial_so_far io t s"
proof (rule ccontr)
  assume "\<not> serial_so_far io t s"
  with assms(1,3) obtain err where "ReaderFailed err \<in> set (rs_sent s)"
    by (auto simp: serial_inv_def serial_failure_def)
  moreover obtain ps tail where "rs_sent s = map ReaderPacket ps @ tail" "stream_tail (rs_pc s) tail"
    using assms(2) unfolding reader_inv_def stream_ok_def by blast
  ultimately show False using assms(1) by auto
qed

lemma reader_next_serial:
  assumes "reader_next io s = Some s'" "reader_inv s" "serial_inv io t s"
  shows "serial_inv io t s'"
proof -
  have "\<not> thread_over s" using assms(1) by (auto simp: reader_next_def thread_over_def)
  with assms(2) have "rs_connected s" by (simp add: reader_inv_def owner_ok_connected)
  with assms(1) show ?thesis
  proof (cases rule: reader_next_cases)
    case poll
    with assms(3) show ?thesis by (simp add: reader_poll_serial)
  next
    case (send e k)
    from assms(3) consider "serial_so_far io t s" "\<not> reader_failed s" | "serial_failure io t s" "in_hand (rs_pc s) = []"
      using serial_so_far_intact by (auto simp: serial_inv_def)
    then show ?thesis
    proof cases
      case 1
      with send have "serial_so_far io t s'" by - (rule serial_so_far_move, auto simp: reader_failed_def)
      then show ?thesis by (simp add: serial_inv_def)
    next
      case 2
      with send have "serial_failure io t s'" "in_hand (rs_pc s') = []" "rs_pc s' \<noteq> Polling"
        by (auto intro!: serial_failure_move [OF 2(1)])
      then show ?thesis by (simp add: serial_inv_def)
    qed
  next
    case head
    then have "serial_so_far io t s" using serial_at_head assms(2,3) by blast
    with head have "serial_so_far io t s'"
      by - (rule serial_so_far_move, auto simp: reader_failed_def serial_so_far_def)
    then show ?thesis by (simp add: serial_inv_def)
  next
    case (notify k)
    have eq: "rs_sent s' = rs_sent s" "rs_device s' = rs_device s" "rs_sink s' = rs_sink s" "rs_source s' = rs_source s"
      "in_hand (rs_pc s) = []" "in_hand (rs_pc s') = []" "rs_pc s' \<noteq> Polling"
      "\<And>err. rs_pc s \<noteq> SendFailed err" "\<And>err. rs_pc s' \<noteq> SendFailed err"
      using notify by (auto simp: reader_notify_def split: option.splits)
    with assms(3) show ?thesis
      unfolding serial_inv_def serial_so_far_def serial_failure_def reader_failed_def by simp blast
  qed
qed

lemma owner_serial:
  assumes "serial_inv io t s" "rs_pc s' = rs_pc s" "rs_sent s' = rs_sent s" "rs_device s' = rs_device s"
    and "\<And>x. same_transport x (rs_sink s) \<Longrightarrow> same_transport x (rs_sink s')" "rs_source s' = rs_source s"
  shows "serial_inv io t s'"
proof (cases "serial_so_far io t s")
  case True
  with assms have "serial_so_far io t s'"
    by - (rule serial_so_far_move, auto simp: reader_failed_def serial_so_far_def)
  then show ?thesis by (simp add: serial_inv_def)
next
  case False
  with assms show ?thesis by (simp add: serial_inv_def serial_failure_def)
qed

lemma sink_send_serial:
  assumes "serial_inv io t s"
  shows "serial_inv io t (snd (sink_send io packet s))"
proof (cases "rs_shutdown s \<or> \<not> serial_so_far io t s")
  case True
  have closed: "sink_send io packet s = (Inl UsbClosed, s\<lparr>rs_sink := (rs_sink s)\<lparr>us_backend := rs_device s, us_shutdown := True\<rparr>\<rparr>)"
    if "rs_shutdown s" using that by (simp add: sink_send_def write_packet_def)
  show ?thesis
  proof (cases "serial_so_far io t s")
    case False
    with assms show ?thesis
      by (auto simp: serial_inv_def serial_failure_def sink_send_def Let_def split: prod.splits)
  qed (use True closed in \<open>auto intro!: owner_serial [OF assms]\<close>)
next
  case False
  then obtain wss ws st sink source where st: "\<not> reader_failed s"
    "serial_rounds io wss (serial_start t) = Some (packets_in (rs_sent s) @ in_hand (rs_pc s), st)"
    "fold (serial_write io) ws st = (rs_device s, sink, source)"
    "same_transport sink (rs_sink s)" "same_transport source (rs_source s)"
    unfolding serial_so_far_def by blast
  obtain r t1 where w: "write_packet io packet ((rs_sink s)\<lparr>us_backend := rs_device s, us_shutdown := False\<rparr>) = (r, t1)"
    by fastforce
  with st(3,4) have "fold (serial_write io) (ws @ [packet]) st = (us_backend t1, t1, source)"
    by (simp add: serial_write_def same_transport_def)
  with st(1,2,5) w False have "serial_so_far io t (snd (sink_send io packet s))"
    unfolding serial_so_far_def
    by (intro conjI exI [of _ wss] exI [of _ "ws @ [packet]"] exI [of _ st] exI [of _ t1] exI [of _ source])
      (auto simp: sink_send_def reader_failed_def)
  then show ?thesis by (simp add: serial_inv_def)
qed

lemma interleaving_serial:
  assumes "interleaving io (split_transport_with_activity t activity) s"
  shows "serial_inv io t s"
proof -
  have "serial_so_far io t (split_transport_with_activity t activity)"
    unfolding serial_so_far_def
    by (intro conjI exI [of _ "[]"] exI [of _ "serial_start t"] exI [of _ t] exI [of _ "reader_transport t"])
      (simp_all add: reader_failed_def split_transport_with_activity_def serial_start_def)
  then have start: "serial_inv io t (split_transport_with_activity t activity)" by (simp add: serial_inv_def)
  from assms show ?thesis
  proof (induction rule: rtranclp_induct)
    case (step s s')
    note inv = interleaving_start(1) [OF step(1)]
    from step(2) show ?case
    proof (cases rule: thread_step.cases)
      case reader_runs
      then show ?thesis using reader_next_serial inv step.IH by blast
    next
      case owner_receives
      then show ?thesis by - (rule owner_serial [OF step.IH], auto simp: reader_recv_def split: list.split)
    next
      case (owner_sends packet)
      with step.IH show ?thesis by (simp add: sink_send_serial)
    next
      case (close_returns r s1)
      with join_reader_some [OF close_returns(3)] show ?thesis by - (rule owner_serial [OF step.IH], auto)
    next
      case (drop_returns r s1)
      with join_reader_some [OF drop_returns(3)] show ?thesis by - (rule owner_serial [OF step.IH], auto)
    qed (use step.IH in \<open>auto intro: owner_serial [OF step.IH] simp: shut_down_def\<close>)
  qed (rule start)
qed

text \<open>A reader that has returned sent what the sequential loop sends.\<close>

lemma packets_in_packets [simp]: "packets_in (map ReaderPacket ps) = ps"
  by (induction ps) auto

lemma returned_serial:
  assumes "interleaving io (split_transport_with_activity t activity) s" "rs_pc s = Returned"
  shows "\<exists>wss. rs_sent s = serial_loop io wss (serial_start t)"
proof -
  have "reader_inv s" using interleaving_start(1) [OF assms(1)] .
  then obtain ps tail where t: "rs_sent s = map ReaderPacket ps @ tail" "stream_tail (rs_pc s) tail"
    unfolding reader_inv_def stream_ok_def by blast
  from interleaving_serial [OF assms(1)] consider "serial_so_far io t s" | "serial_failure io t s"
    by (auto simp: serial_inv_def)
  then show ?thesis
  proof cases
    case 1
    then have "tail = [ReaderEnded]" using t assms(2) by (auto simp: serial_so_far_def reader_failed_def)
    moreover from this 1 t(1) assms(2) obtain wss st where "serial_rounds io wss (serial_start t) = Some (ps, st)"
      unfolding serial_so_far_def by auto
    ultimately show ?thesis using serial_loop_rounds [of io wss _ ps st "[]"] t(1) by (intro exI [of _ wss]) simp
  next
    case 2
    then obtain wss err where w: "ReaderFailed err \<in> set (rs_sent s)"
      "serial_loop io wss (serial_start t) = map ReaderPacket (packets_in (rs_sent s)) @ [ReaderFailed err, ReaderEnded]"
      using assms(2) by (auto simp: serial_failure_def)
    with t assms(2) have "tail = [ReaderFailed err, ReaderEnded]" by auto
    with w(2) t(1) show ?thesis by (intro exI [of _ wss]) simp
  qed
qed

section \<open>Every sequential run is an interleaving\<close>

text \<open>The reader is at the head of its loop, and the sequential program at the same point.\<close>

definition at_head :: "'b serial_state \<Rightarrow> 'b reader_system \<Rightarrow> bool" where
  "at_head st s \<longleftrightarrow> rs_pc s = LoopHead \<and> rs_owner s = Idle \<and> \<not> rs_shutdown s \<and> rs_connected s
     \<and> (case st of (d, sink, source) \<Rightarrow> rs_device s = d \<and> same_transport (rs_sink s) sink \<and> same_transport (rs_source s) source)
     \<and> (case rs_activity s of None \<Rightarrow> True | Some returns \<Rightarrow> \<forall>n. returns n)"

lemma notify_returns:
  "(case rs_activity s of None \<Rightarrow> True | Some returns \<Rightarrow> \<forall>n. returns n) \<Longrightarrow>
   \<exists>n. reader_notify k s = s\<lparr>rs_notified := n, rs_pc := k\<rparr>"
  by (cases "rs_activity s") (auto simp: reader_notify_def intro: exI [of _ "rs_notified s"])

lemma write_interleaving:
  assumes "at_head st s"
  shows "\<exists>s'. interleaving io s s' \<and> at_head (fold (serial_write io) ws st) s' \<and> rs_sent s' = rs_sent s"
  using assms
proof (induction ws arbitrary: st s)
  case (Cons w ws)
  obtain d sink source where st: "st = (d, sink, source)" by (cases st)
  let ?s = "snd (sink_send io w s)"
  have "at_head (serial_write io w st) ?s \<and> rs_sent ?s = rs_sent s"
    using Cons.prems by (auto simp: at_head_def st serial_write_def sink_send_def same_transport_def Let_def split: prod.split)
  moreover have "thread_step io s ?s" using Cons.prems by (intro thread_step.owner_sends) (simp add: at_head_def)
  ultimately show ?case using Cons.IH [of "serial_write io w st" ?s]
    by (auto intro: converse_rtranclp_into_rtranclp)
qed auto

definition returning :: "'b reader_system \<Rightarrow> bool" where
  "returning s \<longleftrightarrow> rs_connected s \<and> (case rs_activity s of None \<Rightarrow> True | Some returns \<Rightarrow> \<forall>n. returns n)"

text \<open>A reader alone, from the control points from which it does not poll again.\<close>

lemma end_interleaving:
  assumes "rs_pc s = SendEnded" "returning s"
  shows "\<exists>s'. interleaving io s s' \<and> rs_pc s' = Returned \<and> rs_sent s' = rs_sent s @ [ReaderEnded]"
proof (intro exI conjI)
  show "interleaving io s (run_reader io 2 s)" by (rule run_reader_interleaving)
qed (use assms in \<open>auto simp: numeral_2_eq_2 reader_next_def sender_send_def reader_notify_def returning_def split: option.split\<close>)

lemma fail_interleaving:
  assumes "rs_pc s = SendFailed err" "returning s"
  shows "\<exists>s'. interleaving io s s' \<and> rs_pc s' = Returned \<and> rs_sent s' = rs_sent s @ [ReaderFailed err, ReaderEnded]"
proof -
  let ?s = "run_reader io 2 s"
  have "rs_pc ?s = SendEnded" "returning ?s" "rs_sent ?s = rs_sent s @ [ReaderFailed err]"
    using assms
    by (auto simp: numeral_2_eq_2 reader_next_def sender_send_def reader_notify_def returning_def split: option.split)
  with end_interleaving [of ?s io] show ?thesis
    using run_reader_interleaving [of io s 2] by (auto intro: rtranclp_trans)
qed

text \<open>One round: the poll of the sequential program, and what the reader does up to the head of its loop.\<close>

lemma round_interleaving:
  assumes "at_head st s" "serial_poll io st = (r, st')"
  shows "\<exists>s'. interleaving io s s' \<and> (case r of
      Inr p \<Rightarrow> at_head st' s' \<and> rs_sent s' = rs_sent s @ (case p of None \<Rightarrow> [] | Some q \<Rightarrow> [ReaderPacket q])
    | Inl err \<Rightarrow> rs_pc s' = SendFailed err \<and> returning s' \<and> rs_sent s' = rs_sent s)"
proof -
  obtain d sink source where st: "st = (d, sink, source)" by (cases st)
  obtain t where poll: "poll_packet io ((rs_source s)\<lparr>us_backend := rs_device s, us_shutdown := rs_shutdown s\<rparr>) = (r, t)"
    and st': "st' = (us_backend t, sink, t)"
    using assms by (auto simp: st serial_poll_def at_head_def same_transport_def Let_def split: prod.splits)
  define s2 where "s2 = reader_poll io (s\<lparr>rs_pc := Polling\<rparr>)"
  have run2: "run_reader io 2 s = s2" using assms(1) by (simp add: numeral_2_eq_2 reader_next_def at_head_def s2_def)
  show ?thesis
  proof (cases "\<exists>q. r = Inr (Some q)")
    case True
    then obtain q where q: "r = Inr (Some q)" ..
    then have "at_head st' (run_reader io 4 s) \<and> rs_sent (run_reader io 4 s) = rs_sent s @ [ReaderPacket q]"
      using assms(1) poll
      by (auto simp: eval_nat_numeral reader_next_def reader_poll_def at_head_def st st' sender_send_def reader_notify_def
          split: option.splits)
    then show ?thesis using run_reader_interleaving [of io s 4] q by auto
  next
    case False
    then have "case r of Inr p \<Rightarrow> at_head st' s2 \<and> rs_sent s2 = rs_sent s
        | Inl err \<Rightarrow> rs_pc s2 = SendFailed err \<and> returning s2 \<and> rs_sent s2 = rs_sent s"
      using assms(1) poll
      by (auto simp: s2_def reader_poll_def at_head_def returning_def st st' split: option.splits sum.splits)
    with False run_reader_interleaving [of io s 2] show ?thesis unfolding run2
      by (auto split: option.splits sum.splits)
  qed
qed

lemma serial_interleaving:
  assumes "at_head st s"
  shows "\<exists>s'. interleaving io s s' \<and> rs_pc s' = Returned \<and> rs_sent s' = rs_sent s @ serial_loop io wss st"
  using assms
proof (induction wss arbitrary: st s)
  case Nil
  let ?s = "(shut_down Closing s)\<lparr>rs_pc := SendEnded\<rparr>"
  have "thread_step io s (shut_down Closing s)" "thread_step io (shut_down Closing s) ?s" "returning ?s"
    using Nil thread_step.owner_closes [of s io]
    by (auto simp: at_head_def returning_def reader_next_def shut_down_def intro: thread_step.reader_runs)
  with end_interleaving [of ?s io] show ?case
    by (auto simp: shut_down_def intro: converse_rtranclp_into_rtranclp)
next
  case (Cons ws wss)
  obtain s1 where s1: "interleaving io s s1" "at_head (fold (serial_write io) ws st) s1" "rs_sent s1 = rs_sent s"
    using write_interleaving [OF Cons.prems] by blast
  obtain r st' where r: "serial_poll io (fold (serial_write io) ws st) = (r, st')" by (rule prod.exhaust)
  from round_interleaving [OF s1(2) r] obtain s2 where s2: "interleaving io s1 s2" "case r of
      Inr p \<Rightarrow> at_head st' s2 \<and> rs_sent s2 = rs_sent s1 @ (case p of None \<Rightarrow> [] | Some q \<Rightarrow> [ReaderPacket q])
    | Inl err \<Rightarrow> rs_pc s2 = SendFailed err \<and> returning s2 \<and> rs_sent s2 = rs_sent s1" by blast
  have reach: "interleaving io s s2" using s1(1) s2(1) by (rule rtranclp_trans)
  show ?case
  proof (cases r)
    case (Inl err)
    with fail_interleaving [of s2 err io] s2(2) r s1(3) reach show ?thesis by (auto intro: rtranclp_trans)
  next
    case (Inr p)
    with Cons.IH [of st' s2] s2(2) r s1(3) reach show ?thesis
      by (auto split: option.splits intro: rtranclp_trans)
  qed
qed

section \<open>Properties\<close>

text \<open>C9: the concurrent program is the sequential one. For a transport that is not shut down and a notifier that does not panic, whatever the
  scheduler does, the stream that a reader which returns has sent is
  that of a loop which alternates the owner's writes with polls of the device and stops before some poll or at the first
  error; and every such stream is the stream of some interleaving.\<close>

theorem reader_linearizable:
  assumes "\<not> us_shutdown t" "\<forall>returns n. activity = Some returns \<longrightarrow> returns n"
  shows "{rs_sent s | s. interleaving io (split_transport_with_activity t activity) s \<and> rs_pc s = Returned}
    = {serial_loop io wss (serial_start t) | wss. True}"
proof (intro set_eqI iffI)
  fix es
  assume "es \<in> {serial_loop io wss (serial_start t) | wss. True}"
  then obtain wss where es: "es = serial_loop io wss (serial_start t)" by blast
  have "at_head (serial_start t) (split_transport_with_activity t activity)"
    using assms by (auto simp: at_head_def split_transport_with_activity_def serial_start_def split: option.split)
  from serial_interleaving [OF this, of io wss]
  show "es \<in> {rs_sent s | s. interleaving io (split_transport_with_activity t activity) s \<and> rs_pc s = Returned}"
    unfolding es by (force simp: split_transport_with_activity_def)
qed (auto dest: returned_serial)

text \<open>One event read, one command written before the second poll, then the shutdown.\<close>

theorem reader_linearizable_witness:
  "\<exists>s. interleaving scripted_io sample_reader s \<and> rs_pc s = Returned
     \<and> rs_sent s = [ReaderPacket (Event \<lparr>ev_event_code = 0x13, ev_parameters = [7, 8]\<rparr>), ReaderEnded]"
proof -
  let ?t = "transport_new [[0x13, 2, 7, 8]] sample_layout sample_metadata"
  have "serial_loop scripted_io [[], [Command \<lparr>cmd_opcode = 0x0C03, cmd_parameters = []\<rparr>]] (serial_start ?t)
      = [ReaderPacket (Event \<lparr>ev_event_code = 0x13, ev_parameters = [7, 8]\<rparr>), ReaderEnded]"
    by (simp add: serial_start_def serial_poll_def serial_write_def write_packet_def command_to_bytes_def
        sample_reader_simps)
  then have "[ReaderPacket (Event \<lparr>ev_event_code = 0x13, ev_parameters = [7, 8]\<rparr>), ReaderEnded]
      \<in> {serial_loop scripted_io wss (serial_start ?t) | wss. True}" by (metis (mono_tags, lifting) mem_Collect_eq)
  also have "\<dots> = {rs_sent s | s. interleaving scripted_io sample_reader s \<and> rs_pc s = Returned}"
    using reader_linearizable [of ?t "Some (\<lambda>_. True)" scripted_io, folded sample_reader_def]
    by (simp add: transport_new_def)
  finally show ?thesis by auto
qed

end
