(* ===== verification/Controller.thy ===== *)
theory Controller
  imports Classic_Host Api "HOL-Library.Stream"
begin

text \<open>
  The controller side of \<^verbatim>\<open>src/src/session.rs\<close>: the transport under a session, the decoding of HCI events,
  the exchange of one command with its completion, and the initialization of the controller.

  What arrives from the transport is explicit: the exchanges of the initialization take the outcomes of all their
  successive \<^verbatim>\<open>recv_timeout\<close> calls as an infinite stream, since nothing bounds how many packets one of
  them reads. Whether a write succeeds is a sequence as well. All statements hold for every such sequence.
  An \<^verbatim>\<open>Error\<close> is its kind; the source it carries for display is not modelled. Two constructors of the
  error type are not values of the code: \<open>Panicked\<close> stands for the panics of the layers below, which are proved
  unreachable, and \<open>NeverReturns\<close> for a call that waits for ever.
\<close>

section \<open>Errors and the transport\<close>

datatype session_error = Failed error_kind | Panicked string | NeverReturns

datatype arrival = ArrivedPacket packet | ArrivedFailure | ArrivedEnd | ArrivedTimeout

record hci_io =
  io_faults :: "bool list"
  io_sent :: "packet list"
  io_close_fails :: bool
  io_metadata :: usb_adapter_metadata

definition io_send :: "packet \<Rightarrow> (hci_io, unit, session_error) action" where
  "io_send packet io = (case io_faults io of
       True # faults \<Rightarrow> (Inl (Failed SourceTerminated), io\<lparr>io_faults := faults\<rparr>)
     | False # faults \<Rightarrow> (Inr (), io\<lparr>io_faults := faults, io_sent := io_sent io @ [packet]\<rparr>)
     | [] \<Rightarrow> (Inr (), io\<lparr>io_sent := io_sent io @ [packet]\<rparr>))"

fun received_packet :: "arrival \<Rightarrow> (packet option, session_error) result" where
  "received_packet (ArrivedPacket packet) = Inr (Some packet)"
| "received_packet ArrivedFailure = Inl (Failed SourceTerminated)"
| "received_packet ArrivedEnd = Inl (Failed SourceTerminated)"
| "received_packet ArrivedTimeout = Inr None"

definition io_close :: "hci_io \<Rightarrow> (unit, session_error) result" where
  "io_close io = (if io_close_fails io then Inl (Failed CloseFailed) else Inr ())"

section \<open>Events\<close>

abbreviation (input) EVENT_CONNECTION_COMPLETE :: u8 where "EVENT_CONNECTION_COMPLETE \<equiv> 0x03"
abbreviation (input) EVENT_CONNECTION_REQUEST :: u8 where "EVENT_CONNECTION_REQUEST \<equiv> 0x04"
abbreviation (input) EVENT_DISCONNECTION_COMPLETE :: u8 where "EVENT_DISCONNECTION_COMPLETE \<equiv> 0x05"
abbreviation (input) EVENT_AUTHENTICATION_COMPLETE :: u8 where "EVENT_AUTHENTICATION_COMPLETE \<equiv> 0x06"
abbreviation (input) EVENT_ENCRYPTION_CHANGE :: u8 where "EVENT_ENCRYPTION_CHANGE \<equiv> 0x08"
abbreviation (input) EVENT_COMMAND_COMPLETE :: u8 where "EVENT_COMMAND_COMPLETE \<equiv> 0x0E"
abbreviation (input) EVENT_COMMAND_STATUS :: u8 where "EVENT_COMMAND_STATUS \<equiv> 0x0F"
abbreviation (input) EVENT_NUMBER_OF_COMPLETED_PACKETS :: u8 where "EVENT_NUMBER_OF_COMPLETED_PACKETS \<equiv> 0x13"
abbreviation (input) EVENT_LINK_KEY_REQUEST :: u8 where "EVENT_LINK_KEY_REQUEST \<equiv> 0x17"
abbreviation (input) EVENT_LINK_KEY_NOTIFICATION :: u8 where "EVENT_LINK_KEY_NOTIFICATION \<equiv> 0x18"
abbreviation (input) EVENT_IO_CAPABILITY_REQUEST :: u8 where "EVENT_IO_CAPABILITY_REQUEST \<equiv> 0x31"
abbreviation (input) EVENT_USER_CONFIRMATION_REQUEST :: u8 where "EVENT_USER_CONFIRMATION_REQUEST \<equiv> 0x33"

definition require_len :: "bytes \<Rightarrow> nat \<Rightarrow> (unit, session_error) result" where
  "require_len parameters expected =
     (if length parameters = expected then Inr () else Inl (Failed ProtocolViolation))"

definition require_min_len :: "bytes \<Rightarrow> nat \<Rightarrow> (unit, session_error) result" where
  "require_min_len parameters minimum =
     (if minimum \<le> length parameters then Inr () else Inl (Failed ProtocolViolation))"

definition address_at :: "bytes \<Rightarrow> nat \<Rightarrow> (bluetooth_address, session_error) result" where
  "address_at parameters offset =
     (if offset + 6 \<le> length parameters
      then Inr (address_from_le_bytes (take 6 (drop offset parameters)) Public)
      else Inl (Failed ProtocolViolation))"

definition handle_at :: "bytes \<Rightarrow> nat \<Rightarrow> u16" where
  "handle_at parameters i = le16_of (parameters ! i) (parameters ! (i + 1))"

text \<open>\<^verbatim>\<open>chunks_exact(4)\<close>.\<close>

fun completed_entries :: "bytes \<Rightarrow> classic_event list" where
  "completed_entries (a # b # c # d # rest) = NumberOfCompletedPackets (le16_of a b) (le16_of c d) # completed_entries rest"
| "completed_entries _ = []"

definition completed_packet_events :: "bytes \<Rightarrow> (classic_event list, session_error) result" where
  "completed_packet_events parameters = (case parameters of
       [] \<Rightarrow> Inl (Failed ProtocolViolation)
     | count # entries \<Rightarrow> res_bind (require_len entries (unat count * 4)) (\<lambda>_. Inr (completed_entries entries)))"

definition decode_classic_event :: "event_packet \<Rightarrow> (classic_event list, session_error) result" where
  "decode_classic_event event =
     (let ps = ev_parameters event; code = ev_event_code event;
          from_peer = (\<lambda>n f. res_bind (require_len ps n) (\<lambda>_. res_bind (address_at ps 0) (\<lambda>peer. Inr [f peer]))) in
      if code = EVENT_CONNECTION_REQUEST then from_peer 10 ConnectionRequested
      else if code = EVENT_CONNECTION_COMPLETE then
        res_bind (require_len ps 11) (\<lambda>_. res_bind (address_at ps 3) (\<lambda>peer.
          Inr [ConnectionComplete (ps ! 0) (handle_at ps 1) peer]))
      else if code = EVENT_LINK_KEY_REQUEST then from_peer 6 LinkKeyRequest
      else if code = EVENT_LINK_KEY_NOTIFICATION then
        from_peer 23 (\<lambda>peer. LinkKeyNotification peer (take 16 (drop 6 ps)) (ps ! 22))
      else if code = EVENT_IO_CAPABILITY_REQUEST then from_peer 6 IoCapabilityRequest
      else if code = EVENT_USER_CONFIRMATION_REQUEST then from_peer 10 UserConfirmationRequest
      else if code = EVENT_AUTHENTICATION_COMPLETE then
        res_bind (require_len ps 3) (\<lambda>_. Inr [AuthenticationComplete (ps ! 0) (handle_at ps 1)])
      else if code = EVENT_ENCRYPTION_CHANGE then
        res_bind (require_len ps 4) (\<lambda>_. Inr [EncryptionChange (ps ! 0) (handle_at ps 1) (ps ! 3 \<noteq> 0)])
      else if code = EVENT_NUMBER_OF_COMPLETED_PACKETS then completed_packet_events ps
      else if code = EVENT_DISCONNECTION_COMPLETE then
        res_bind (require_len ps 4) (\<lambda>_.
          Inr (if ps ! 0 = 0 then [DisconnectionComplete (handle_at ps 1) (ps ! 3)] else []))
      else Inr [])"

section \<open>Commands and their completion\<close>

abbreviation (input) HCI_RESET :: u16 where "HCI_RESET \<equiv> 0x0C03"
abbreviation (input) HCI_SET_EVENT_MASK :: u16 where "HCI_SET_EVENT_MASK \<equiv> 0x0C01"
abbreviation (input) HCI_WRITE_LOCAL_NAME :: u16 where "HCI_WRITE_LOCAL_NAME \<equiv> 0x0C13"
abbreviation (input) HCI_WRITE_SCAN_ENABLE :: u16 where "HCI_WRITE_SCAN_ENABLE \<equiv> 0x0C1A"
abbreviation (input) HCI_WRITE_CLASS_OF_DEVICE :: u16 where "HCI_WRITE_CLASS_OF_DEVICE \<equiv> 0x0C24"
abbreviation (input) HCI_WRITE_EXTENDED_INQUIRY_RESPONSE :: u16
  where "HCI_WRITE_EXTENDED_INQUIRY_RESPONSE \<equiv> 0x0C52"
abbreviation (input) HCI_WRITE_SIMPLE_PAIRING_MODE :: u16 where "HCI_WRITE_SIMPLE_PAIRING_MODE \<equiv> 0x0C56"
abbreviation (input) HCI_WRITE_DEFAULT_LINK_POLICY_SETTINGS :: u16
  where "HCI_WRITE_DEFAULT_LINK_POLICY_SETTINGS \<equiv> 0x080F"
abbreviation (input) HCI_READ_LOCAL_VERSION_INFORMATION :: u16
  where "HCI_READ_LOCAL_VERSION_INFORMATION \<equiv> 0x1001"
abbreviation (input) HCI_READ_LOCAL_SUPPORTED_COMMANDS :: u16
  where "HCI_READ_LOCAL_SUPPORTED_COMMANDS \<equiv> 0x1002"
abbreviation (input) HCI_READ_LOCAL_EXTENDED_FEATURES :: u16
  where "HCI_READ_LOCAL_EXTENDED_FEATURES \<equiv> 0x1004"
abbreviation (input) HCI_READ_BUFFER_SIZE :: u16 where "HCI_READ_BUFFER_SIZE \<equiv> 0x1005"
abbreviation (input) HCI_READ_BD_ADDR :: u16 where "HCI_READ_BD_ADDR \<equiv> 0x1009"
abbreviation (input) HCI_LE_SET_EVENT_MASK :: u16 where "HCI_LE_SET_EVENT_MASK \<equiv> 0x2001"
abbreviation (input) BR_EDR_NOT_SUPPORTED_MASK :: u8 where "BR_EDR_NOT_SUPPORTED_MASK \<equiv> 0x20"
abbreviation (input) DEFAULT_LINK_POLICY_SETTINGS :: u16 where "DEFAULT_LINK_POLICY_SETTINGS \<equiv> 0x0005"

definition EVENT_MASK :: bytes where "EVENT_MASK = [0xFF, 0x9F, 0xFF, 0xBF, 0x07, 0xF8, 0xBF, 0x3D]"
definition LE_EVENT_MASK :: bytes where "LE_EVENT_MASK = [0xFF, 0xFF, 0xF7, 0xFF, 0x0F, 0xED, 0x7B, 0x00]"
definition LEGACY_LE_EVENT_MASK :: bytes where "LEGACY_LE_EVENT_MASK = [0x1F, 0, 0, 0, 0, 0, 0, 0]"

text \<open>A transport together with what is still to arrive, as the blocking exchanges use it.\<close>

record open_io =
  oi_io :: hci_io
  oi_arrivals :: "arrival stream"

type_synonym 'a open_action = "(open_io, 'a, session_error) action"

definition command :: "u16 \<Rightarrow> bytes \<Rightarrow> (command_packet, session_error) result" where
  "command opcode parameters = map_err (\<lambda>_. Failed InvalidConfiguration) (command_new opcode parameters)"

text \<open>What one received event means to the command that is waited for: nothing, or its result.\<close>

definition completion :: "u16 \<Rightarrow> event_packet \<Rightarrow> (bytes, session_error) result option" where
  "completion opcode event =
     (let ps = ev_parameters event in
      if ev_event_code event = EVENT_COMMAND_COMPLETE then
        if length ps < 4 then Some (Inl (Failed ProtocolViolation))
        else if handle_at ps 1 \<noteq> opcode then None
        else if ps ! 3 \<noteq> 0 then Some (Inl (Failed OpenFailed))
        else Some (Inr (drop 4 ps))
      else if ev_event_code event = EVENT_COMMAND_STATUS then
        if length ps \<noteq> 4 then Some (Inl (Failed ProtocolViolation))
        else if handle_at ps 2 = opcode \<and> ps ! 0 \<noteq> 0 then Some (Inl (Failed OpenFailed))
        else None
      else None)"

text \<open>
  The two receive loops of the source, the one of \<^verbatim>\<open>send_complete\<close> and the one of \<^verbatim>\<open>send_vendor_command\<close>, differ in what
  an event means to them. Each turn waits up to five seconds anew: a timeout, a failure and an answer end the
  loop, any other packet starts the next turn. The value \<open>None\<close> means that the loop never ends.
\<close>

partial_function (option) await_answer ::
  "(event_packet \<Rightarrow> (bytes, session_error) result option) \<Rightarrow> arrival stream
   \<Rightarrow> ((bytes, session_error) result \<times> arrival stream) option" where
  "await_answer answer as = (case received_packet (shd as) of
     Inl err \<Rightarrow> Some (Inl err, stl as)
   | Inr None \<Rightarrow> Some (Inl (Failed OpenFailed), stl as)
   | Inr (Some (Event event)) \<Rightarrow>
       (case answer event of Some r \<Rightarrow> Some (r, stl as) | None \<Rightarrow> await_answer answer (stl as))
   | Inr (Some _) \<Rightarrow> await_answer answer (stl as))"

definition await_completion :: "u16 \<Rightarrow> arrival stream \<Rightarrow> ((bytes, session_error) result \<times> arrival stream) option" where
  "await_completion opcode = await_answer (completion opcode)"

text \<open>The result of a wait as the result of the call that waits.\<close>

definition waiting :: "(arrival stream \<Rightarrow> ((bytes, session_error) result \<times> arrival stream) option) \<Rightarrow> bytes open_action" where
  "waiting wait s = (case wait (oi_arrivals s) of
       None \<Rightarrow> (Inl NeverReturns, s)
     | Some (r, as) \<Rightarrow> (r, s\<lparr>oi_arrivals := as\<rparr>))"

definition send_only :: "command_packet \<Rightarrow> unit open_action" where
  "send_only c s = (let (r, io) = io_send (Command c) (oi_io s) in (r, s\<lparr>oi_io := io\<rparr>))"

definition send_complete :: "command_packet \<Rightarrow> bytes open_action" where
  "send_complete c = act_then (send_only c) (waiting (await_completion (cmd_opcode c)))"

definition request :: "u16 \<Rightarrow> bytes \<Rightarrow> bytes open_action" where
  "request opcode parameters = act_bind (act_lift (command opcode parameters)) send_complete"

definition parse_version :: "bytes \<Rightarrow> (controller_version, session_error) result" where
  "parse_version ps =
     res_bind (require_len ps 8) (\<lambda>_.
     Inr \<lparr>cv_hci_version = ps ! 0, cv_hci_subversion = handle_at ps 1, cv_lmp_version = ps ! 3,
       cv_company_identifier = handle_at ps 4, cv_lmp_subversion = handle_at ps 6\<rparr>)"

text \<open>A configuration that was accepted has a name of at most 238 bytes, so the copy into 248 is in range.\<close>

definition identity_commands :: "session_config \<Rightarrow> (command_packet list, session_error) result" where
  "identity_commands config =
     collect_results
       [command HCI_WRITE_LOCAL_NAME (sc_local_name config @ replicate (248 - length (sc_local_name config)) 0),
        command HCI_WRITE_CLASS_OF_DEVICE (take 3 (to_le_bytes 4 (sc_class_of_device config))),
        command HCI_WRITE_SIMPLE_PAIRING_MODE [1],
        command HCI_WRITE_EXTENDED_INQUIRY_RESPONSE (0 # sc_extended_inquiry_response config),
        command HCI_WRITE_DEFAULT_LINK_POLICY_SETTINGS (le16_bytes DEFAULT_LINK_POLICY_SETTINGS),
        command HCI_WRITE_SCAN_ENABLE [0]]"

record initialized_controller =
  ic_local_address :: bluetooth_address
  ic_version :: controller_version
  ic_acl_packet_length :: u16
  ic_acl_packet_count :: u16

definition check_features :: "bytes \<Rightarrow> (unit, session_error) result" where
  "check_features features =
     res_bind (require_len features 10) (\<lambda>_.
     if features ! 0 \<noteq> 0 \<or> features ! (2 + 4) AND BR_EDR_NOT_SUPPORTED_MASK \<noteq> 0
     then Inl (Failed UnsupportedController) else Inr ())"

definition check_buffer :: "bytes \<Rightarrow> (u16 \<times> u16, session_error) result" where
  "check_buffer buffer =
     res_bind (require_len buffer 7) (\<lambda>_.
     let acl_packet_length = handle_at buffer 0; acl_packet_count = handle_at buffer 3 in
     if acl_packet_length = 0 \<or> acl_packet_count = 0 then Inl (Failed UnsupportedController)
     else Inr (acl_packet_length, acl_packet_count))"

definition check_address :: "bytes \<Rightarrow> (bluetooth_address, session_error) result" where
  "check_address address =
     res_bind (require_len address 6) (\<lambda>_.
     if address = replicate 6 0 then Inl (Failed InvalidControllerIdentity)
     else Inr (address_from_le_bytes address Public))"

definition initialize_controller :: "session_config \<Rightarrow> initialized_controller open_action" where
  "initialize_controller config =
     act_then (request HCI_RESET [])
     (act_bind (request HCI_READ_LOCAL_SUPPORTED_COMMANDS []) (\<lambda>supported.
     act_then (act_lift (require_len supported 64))
     (act_bind (request HCI_READ_LOCAL_VERSION_INFORMATION []) (\<lambda>v.
     act_bind (act_lift (parse_version v)) (\<lambda>version.
     act_bind (request HCI_READ_LOCAL_EXTENDED_FEATURES [0]) (\<lambda>features.
     act_then (act_lift (check_features features))
     (act_then (request HCI_SET_EVENT_MASK EVENT_MASK)
     (act_then (request HCI_LE_SET_EVENT_MASK
        (if cv_hci_version version \<le> 6 then LEGACY_LE_EVENT_MASK else LE_EVENT_MASK))
     (act_bind (request HCI_READ_BUFFER_SIZE []) (\<lambda>buffer.
     act_bind (act_lift (check_buffer buffer)) (\<lambda>(acl_packet_length, acl_packet_count).
     act_bind (request HCI_READ_BD_ADDR []) (\<lambda>address.
     act_bind (act_lift (check_address address)) (\<lambda>local_address.
     act_bind (act_lift (identity_commands config)) (\<lambda>commands.
     act_then (act_each (\<lambda>c. act_then (send_complete c) (act_ok ())) commands)
     (act_ok \<lparr>ic_local_address = local_address, ic_version = version,
        ic_acl_packet_length = acl_packet_length, ic_acl_packet_count = acl_packet_count\<rparr>)))))))))))))))"

section \<open>Lemmas: when an exchange returns\<close>

text \<open>What one outcome of \<^verbatim>\<open>recv_timeout\<close> makes of a wait: nothing, or its result.\<close>

fun reaction :: "(event_packet \<Rightarrow> (bytes, session_error) result option) \<Rightarrow> arrival \<Rightarrow> (bytes, session_error) result option" where
  "reaction answer (ArrivedPacket (Event event)) = answer event"
| "reaction answer (ArrivedPacket _) = None"
| "reaction answer ArrivedTimeout = Some (Inl (Failed OpenFailed))"
| "reaction answer _ = Some (Inl (Failed SourceTerminated))"

lemma await_unfold:
  "await_answer answer as = (case reaction answer (shd as) of
     Some r \<Rightarrow> Some (r, stl as) | None \<Rightarrow> await_answer answer (stl as))"
proof (cases "shd as")
  case (ArrivedPacket p)
  then show ?thesis by (subst await_answer.simps) (cases p; simp)
qed (subst await_answer.simps, simp)+

lemma await_answer_SCons [simp]:
  "await_answer answer (a ## as) = (case reaction answer a of Some r \<Rightarrow> Some (r, as) | None \<Rightarrow> await_answer answer as)"
  by (subst await_unfold) (simp split: option.split)

lemma await_result:
  assumes "\<And>m. m < n \<Longrightarrow> reaction answer (as !! m) = None" "reaction answer (as !! n) = Some r"
  shows "await_answer answer as = Some (r, sdrop (Suc n) as)"
  using assms
proof (induction n arbitrary: as)
  case 0
  then show ?case by (subst await_unfold) simp
next
  case (Suc n)
  have "await_answer answer (stl as) = Some (r, sdrop (Suc n) (stl as))"
    using Suc.prems Suc.prems(1) [of "Suc _"] by (intro Suc.IH) simp_all
  with Suc.prems(1) [of 0] show ?case by (subst await_unfold) simp
qed

lemma await_heard: "await_answer answer as = Some y \<Longrightarrow> \<exists>n. reaction answer (as !! n) \<noteq> None"
proof (induction rule: await_answer.raw_induct [rotated, consumes 1, case_names step])
  case (step loop answer as y)
  show ?case
  proof (cases "reaction answer (shd as)")
    case None
    with step.hyps have "loop answer (stl as) = Some y"
      by (cases "shd as") (auto split: packet.splits option.splits)
    from step.IH [OF this] obtain n where "reaction answer (stl as !! n) \<noteq> None" by blast
    then show ?thesis by (intro exI [of _ "Suc n"]) simp
  qed (auto intro: exI [of _ 0])
qed

lemma first_reaction:
  assumes "reaction answer (as !! n) \<noteq> None"
  obtains k r where "\<And>m. m < k \<Longrightarrow> reaction answer (as !! m) = None" "reaction answer (as !! k) = Some r"
proof -
  define k where "k = (LEAST n. reaction answer (as !! n) \<noteq> None)"
  have "reaction answer (as !! k) \<noteq> None" unfolding k_def using assms by (rule LeastI)
  moreover have "reaction answer (as !! m) = None" if "m < k" for m
    using not_less_Least [OF that [unfolded k_def]] by blast
  ultimately show ?thesis using that by blast
qed

lemma await_never_iff: "await_answer answer as = None \<longleftrightarrow> (\<forall>n. reaction answer (as !! n) = None)"
proof
  assume none: "await_answer answer as = None"
  have False if reacts: "reaction answer (as !! n) \<noteq> None" for n
  proof -
    obtain k r where "\<And>m. m < k \<Longrightarrow> reaction answer (as !! m) = None"
      "reaction answer (as !! k) = Some r"
      using first_reaction [OF reacts] by blast
    from await_result [OF this] none show False by simp
  qed
  then show "\<forall>n. reaction answer (as !! n) = None" by blast
qed (metis await_heard option.exhaust)

text \<open>An adapter that pauses again and again: however much has arrived, some later wait of five seconds is not
  ended by a packet. Every wait on such an adapter ends.\<close>

definition pauses :: "arrival stream \<Rightarrow> bool" where
  "pauses as \<longleftrightarrow> (\<forall>n. \<exists>m\<ge>n. \<forall>p. as !! m \<noteq> ArrivedPacket p)"

lemma pauses_sdrop: "pauses as \<Longrightarrow> pauses (sdrop k as)"
  unfolding pauses_def sdrop_snth
proof
  fix n
  assume "\<forall>n. \<exists>m\<ge>n. \<forall>p. as !! m \<noteq> ArrivedPacket p"
  then obtain m where "m \<ge> n + k" "\<forall>p. as !! m \<noteq> ArrivedPacket p" by blast
  then show "\<exists>m\<ge>n. \<forall>p. as !! (k + m) \<noteq> ArrivedPacket p" by (intro exI [of _ "m - k"]) simp
qed

lemma pauses_answers: "pauses as \<Longrightarrow> pauses (answers @- as)"
proof -
  assume "pauses as"
  have "\<exists>m\<ge>n. \<forall>p. (answers @- as) !! m \<noteq> ArrivedPacket p" for n
  proof -
    from \<open>pauses as\<close> obtain m where "m \<ge> n" "\<forall>p. as !! m \<noteq> ArrivedPacket p" unfolding pauses_def by blast
    then show ?thesis by (intro exI [of _ "length answers + m"]) (simp add: shift_snth_ge)
  qed
  then show ?thesis by (simp add: pauses_def)
qed

lemma await_pausing:
  assumes "pauses as"
  obtains r as' a where "await_answer answer as = Some (r, as')" "pauses as'" "reaction answer a = Some r"
proof -
  from assms obtain m where "\<forall>p. as !! m \<noteq> ArrivedPacket p" unfolding pauses_def by blast
  then have reacts: "reaction answer (as !! m) \<noteq> None" by (cases "as !! m") simp_all
  obtain k r where k: "\<And>m. m < k \<Longrightarrow> reaction answer (as !! m) = None"
    "reaction answer (as !! k) = Some r"
    using first_reaction [OF reacts] by blast
  from await_result [OF k] k(2) pauses_sdrop [OF assms] show ?thesis using that by blast
qed

definition returning :: "'a open_action \<Rightarrow> bool" where
  "returning a \<longleftrightarrow> (\<forall>s. pauses (oi_arrivals s) \<longrightarrow> fst (a s) \<noteq> Inl NeverReturns \<and> pauses (oi_arrivals (snd (a s))))"

named_theorems returns

lemma returning_basic [returns]:
  "returning (act_ok x)" "r \<noteq> Inl NeverReturns \<Longrightarrow> returning (act_lift r)" "returning (send_only c)"
  by (auto simp: returning_def send_only_def io_send_def split: list.split bool.split)

lemma returning_bind [returns]: "returning a \<Longrightarrow> (\<And>x. returning (f x)) \<Longrightarrow> returning (act_bind a f)"
  unfolding returning_def
proof (intro allI impI)
  fix s :: open_io
  assume a: "\<forall>s. pauses (oi_arrivals s) \<longrightarrow> fst (a s) \<noteq> Inl NeverReturns \<and> pauses (oi_arrivals (snd (a s)))"
    and f: "\<And>x. \<forall>s. pauses (oi_arrivals s) \<longrightarrow> fst (f x s) \<noteq> Inl NeverReturns \<and> pauses (oi_arrivals (snd (f x s)))"
    and s: "pauses (oi_arrivals s)"
  show "fst (act_bind a f s) \<noteq> Inl NeverReturns \<and> pauses (oi_arrivals (snd (act_bind a f s)))"
    by (cases rule: act_bind_cases [of a s f]) (use a [rule_format, OF s] f in auto)
qed

lemma returning_then [returns]: "returning a \<Longrightarrow> returning k \<Longrightarrow> returning (act_then a k)"
  unfolding act_then_def by (intro returning_bind)

lemma returning_each [returns]: "(\<And>x. returning (f x)) \<Longrightarrow> returning (act_each f xs)"
  by (induction xs) (simp_all add: returns)

lemma reaction_returns:
  assumes "\<And>event. answer event \<noteq> Some (Inl NeverReturns)"
  shows "reaction answer a \<noteq> Some (Inl NeverReturns)"
proof (cases a)
  case (ArrivedPacket p)
  with assms show ?thesis by (cases p) simp_all
qed simp_all

lemma returning_await [returns]:
  assumes "\<And>event. answer event \<noteq> Some (Inl NeverReturns)"
  shows "returning (waiting (await_answer answer))"
  unfolding returning_def
proof (intro allI impI)
  fix s :: open_io
  assume "pauses (oi_arrivals s)"
  then obtain r as a where "await_answer answer (oi_arrivals s) = Some (r, as)" "pauses as" "reaction answer a = Some r"
    by (rule await_pausing)
  with reaction_returns [OF assms] show "fst (waiting (await_answer answer) s) \<noteq> Inl NeverReturns \<and> pauses (oi_arrivals (snd (waiting (await_answer answer) s)))"
    by (auto simp: waiting_def)
qed

lemma completion_returns: "completion opcode event \<noteq> Some (Inl NeverReturns)"
  by (simp add: completion_def Let_def)

lemma returning_send_complete [returns]: "returning (send_complete c)"
  unfolding send_complete_def await_completion_def by (intro returns completion_returns)

lemma returning_request [returns]: "returning (request opcode ps)"
  unfolding request_def by (intro returns) (auto simp: command_def map_err_def split: sum.splits)

lemma returning_initialize: "returning (initialize_controller config)"
  unfolding initialize_controller_def split_beta
  by (intro returns) (auto simp: require_len_def parse_version_def check_features_def check_buffer_def check_address_def
      identity_commands_def command_def map_err_def Let_def res_bind_def split: sum.splits)

section \<open>Lemmas: what an initialized controller was sent\<close>

definition sent_by :: "open_io \<Rightarrow> packet list" where
  "sent_by s = io_sent (oi_io s)"

lemma send_complete_sent:
  "send_complete c s = (Inr r, s') \<Longrightarrow> sent_by s' = sent_by s @ [Command c]"
  by (auto simp: send_complete_def send_only_def waiting_def act_then_Ok_iff io_send_def sent_by_def
      split: prod.splits option.splits list.splits bool.splits)

lemma command_eq: "command opcode ps = Inr c \<longleftrightarrow> length ps \<le> 255 \<and> c = \<lparr>cmd_opcode = opcode, cmd_parameters = ps\<rparr>"
  by (auto simp: command_def command_new_def validate_u8_length_def res_bind_eq_Inr map_err_def split: sum.splits)

lemma request_sent:
  "request opcode ps s = (Inr r, s') \<Longrightarrow>
   sent_by s' = sent_by s @ [Command \<lparr>cmd_opcode = opcode, cmd_parameters = ps\<rparr>]"
  by (auto simp: request_def act_bind_Ok_iff command_eq dest: send_complete_sent)

lemma send_each_sent:
  "act_each (\<lambda>c. act_then (send_complete c) (act_ok ())) cs s = (Inr (), s') \<Longrightarrow>
   sent_by s' = sent_by s @ map Command cs"
  by (induction cs arbitrary: s) (fastforce simp: act_then_Ok_iff dest: send_complete_sent)+

text \<open>The commands that set up the identity of a device with a valid configuration.\<close>

definition identity_packets :: "session_config \<Rightarrow> (u16 \<times> bytes) list" where
  "identity_packets config =
     [(HCI_WRITE_LOCAL_NAME, sc_local_name config @ replicate (248 - length (sc_local_name config)) 0),
      (HCI_WRITE_CLASS_OF_DEVICE, take 3 (to_le_bytes 4 (sc_class_of_device config))),
      (HCI_WRITE_SIMPLE_PAIRING_MODE, [1]),
      (HCI_WRITE_EXTENDED_INQUIRY_RESPONSE, 0 # sc_extended_inquiry_response config),
      (HCI_WRITE_DEFAULT_LINK_POLICY_SETTINGS, [5, 0]),
      (HCI_WRITE_SCAN_ENABLE, [0])]"

definition command_of :: "u16 \<times> bytes \<Rightarrow> packet" where
  "command_of c = Command \<lparr>cmd_opcode = fst c, cmd_parameters = snd c\<rparr>"

lemma identity_commands_eq:
  "identity_commands config = Inr cs \<Longrightarrow> map Command cs = map command_of (identity_packets config)"
  by (auto simp: identity_commands_def identity_packets_def command_of_def command_eq res_bind_eq_Inr le16_bytes_def)

definition setup_packets :: "u8 \<Rightarrow> (u16 \<times> bytes) list" where
  "setup_packets hci_version =
     [(HCI_RESET, []), (HCI_READ_LOCAL_SUPPORTED_COMMANDS, []), (HCI_READ_LOCAL_VERSION_INFORMATION, []),
      (HCI_READ_LOCAL_EXTENDED_FEATURES, [0]), (HCI_SET_EVENT_MASK, EVENT_MASK),
      (HCI_LE_SET_EVENT_MASK, if hci_version \<le> 6 then LEGACY_LE_EVENT_MASK else LE_EVENT_MASK),
      (HCI_READ_BUFFER_SIZE, []), (HCI_READ_BD_ADDR, [])]"

lemma initialized_sound:
  assumes "initialize_controller config s = (Inr ic, s')"
  shows "sent_by s' = sent_by s @ map command_of (setup_packets (cv_hci_version (ic_version ic)) @ identity_packets config)"
    and "ic_acl_packet_length ic \<noteq> 0" "ic_acl_packet_count ic \<noteq> 0"
    and "addr_bytes_le (ic_local_address ic) \<noteq> replicate 6 0" "length (addr_bytes_le (ic_local_address ic)) = 6"
    and "addr_kind (ic_local_address ic) = Public"
  using assms
  by (auto simp: initialize_controller_def act_bind_Ok_iff act_then_Ok_iff check_buffer_def check_address_def require_len_def
      Let_def res_bind_eq_Inr setup_packets_def command_of_def address_from_le_bytes_def
      dest!: request_sent send_each_sent identity_commands_eq split: if_splits)

text \<open>A controller that completes each command at once.\<close>

definition completed :: "u16 \<Rightarrow> bytes \<Rightarrow> arrival" where
  "completed opcode payload =
     ArrivedPacket (Event \<lparr>ev_event_code = EVENT_COMMAND_COMPLETE, ev_parameters = [1] @ le16_bytes opcode @ [0] @ payload\<rparr>)"

definition state_at :: "open_io \<Rightarrow> command_packet list \<Rightarrow> arrival stream \<Rightarrow> open_io" where
  "state_at s cs as = s\<lparr>oi_io := (oi_io s)\<lparr>io_sent := io_sent (oi_io s) @ map Command cs\<rparr>, oi_arrivals := as\<rparr>"

lemma state_at_start: "s = state_at s [] (oi_arrivals s)"
  by (simp add: state_at_def)

lemma send_complete_answered:
  assumes "io_faults (oi_io s) = []"
  shows "send_complete c (state_at s cs (completed (cmd_opcode c) payload ## as)) = (Inr payload, state_at s (cs @ [c]) as)"
  using assms
  by (simp add: send_complete_def send_only_def act_then_def act_bind_def waiting_def await_completion_def io_send_def
      completed_def completion_def handle_at_def le16_bytes_def state_at_def)

lemma request_answered:
  assumes "io_faults (oi_io s) = []" "length ps \<le> 255"
  shows "request opcode ps (state_at s cs (completed opcode payload ## as))
    = (Inr payload, state_at s (cs @ [\<lparr>cmd_opcode = opcode, cmd_parameters = ps\<rparr>]) as)"
proof -
  have "command opcode ps = Inr \<lparr>cmd_opcode = opcode, cmd_parameters = ps\<rparr>" using assms(2) by (simp add: command_eq)
  then show ?thesis
    using send_complete_answered [OF assms(1), of "\<lparr>cmd_opcode = opcode, cmd_parameters = ps\<rparr>"]
    by (simp add: request_def)
qed

lemma each_answered:
  assumes "io_faults (oi_io s) = []"
  shows "act_each (\<lambda>c. act_then (send_complete c) (act_ok ())) cs
      (state_at s before (map (\<lambda>c. completed (cmd_opcode c) []) cs @- as)) = (Inr (), state_at s (before @ cs) as)"
proof (induction cs arbitrary: before)
  case (Cons c cs)
  then show ?case by (simp add: act_then_def act_bind_def send_complete_answered [OF assms])
qed simp

lemma answered_steps:
  assumes "io_faults (oi_io s) = []" "length ps \<le> 255"
  shows "act_bind (request opcode ps) f (state_at s cs (completed opcode payload ## as))
      = f payload (state_at s (cs @ [\<lparr>cmd_opcode = opcode, cmd_parameters = ps\<rparr>]) as)"
    "act_then (request opcode ps) k (state_at s cs (completed opcode payload ## as))
      = k (state_at s (cs @ [\<lparr>cmd_opcode = opcode, cmd_parameters = ps\<rparr>]) as)"
  by (simp_all add: act_then_def act_bind_def request_answered [OF assms])

lemma answered_each:
  assumes "io_faults (oi_io s) = []"
  shows "act_then (act_each (\<lambda>c. act_then (send_complete c) (act_ok ())) cs) k
      (state_at s before (map (\<lambda>c. completed (cmd_opcode c) []) cs @- as)) = k (state_at s (before @ cs) as)"
  using each_answered [OF assms, of cs before as] by (simp add: act_then_def [of "act_each _ _"] act_bind_def)

lemma identity_commands_ok:
  assumes "config_ok config"
  shows "\<exists>cs. identity_commands config = Inr cs \<and> map cmd_opcode cs = map fst (identity_packets config)"
proof -
  have "command op ps = Inr \<lparr>cmd_opcode = op, cmd_parameters = ps\<rparr>" if "length ps \<le> 255" for op ps
    using that by (simp add: command_eq)
  with assms show ?thesis
    by (simp add: identity_commands_def identity_packets_def config_ok_def)
qed

definition initialization_answers :: "session_config \<Rightarrow> bytes \<Rightarrow> bytes \<Rightarrow> bytes \<Rightarrow> bytes \<Rightarrow> arrival list" where
  "initialization_answers config version features buffer address =
     [completed HCI_RESET [], completed HCI_READ_LOCAL_SUPPORTED_COMMANDS (replicate 64 0),
      completed HCI_READ_LOCAL_VERSION_INFORMATION version, completed HCI_READ_LOCAL_EXTENDED_FEATURES features,
      completed HCI_SET_EVENT_MASK [], completed HCI_LE_SET_EVENT_MASK [], completed HCI_READ_BUFFER_SIZE buffer,
      completed HCI_READ_BD_ADDR address]
     @ map (\<lambda>(opcode, _). completed opcode []) (identity_packets config)"

lemma initialization_completes:
  assumes "config_ok config" "io_faults (oi_io s) = []" "length version = 8"
    and "check_features features = Inr ()" "check_buffer buffer = Inr (n, k)" "check_address address = Inr a"
    and "oi_arrivals s = initialization_answers config version features buffer address @- as"
  shows "\<exists>s'. initialize_controller config s = (Inr \<lparr>ic_local_address = a,
      ic_version = \<lparr>cv_hci_version = version ! 0, cv_hci_subversion = handle_at version 1, cv_lmp_version = version ! 3,
        cv_company_identifier = handle_at version 4, cv_lmp_subversion = handle_at version 6\<rparr>,
      ic_acl_packet_length = n, ic_acl_packet_count = k\<rparr>, s') \<and> oi_arrivals s' = as"
proof -
  obtain cs where cs: "identity_commands config = Inr cs" "map cmd_opcode cs = map fst (identity_packets config)"
    using identity_commands_ok [OF assms(1)] by blast
  have answers: "map (\<lambda>(opcode, _). completed opcode []) (identity_packets config) = map (\<lambda>c. completed (cmd_opcode c) []) cs"
    using arg_cong [OF cs(2), of "map (\<lambda>opcode. completed opcode [])"] by (simp add: comp_def split_beta)
  have masks: "length EVENT_MASK \<le> 255" "length LE_EVENT_MASK \<le> 255" "length LEGACY_LE_EVENT_MASK \<le> 255"
    by (simp_all add: EVENT_MASK_def LE_EVENT_MASK_def LEGACY_LE_EVENT_MASK_def)
  note step = answered_steps [OF assms(2)] answered_each [OF assms(2)]
  have "s = state_at s [] (initialization_answers config version features buffer address @- as)"
    using state_at_start [of s] assms(7) by simp
  then have "initialize_controller config s
      = initialize_controller config (state_at s [] (initialization_answers config version features buffer address @- as))"
    by simp
  also have "\<dots> = (Inr \<lparr>ic_local_address = a,
      ic_version = \<lparr>cv_hci_version = version ! 0, cv_hci_subversion = handle_at version 1, cv_lmp_version = version ! 3,
        cv_company_identifier = handle_at version 4, cv_lmp_subversion = handle_at version 6\<rparr>,
      ic_acl_packet_length = n, ic_acl_packet_count = k\<rparr>,
      state_at s (map (\<lambda>(op, ps). \<lparr>cmd_opcode = op, cmd_parameters = ps\<rparr>) (setup_packets (version ! 0)) @ cs) as)"
    unfolding initialize_controller_def initialization_answers_def answers
    by (simp add: step masks assms cs(1) parse_version_def require_len_def setup_packets_def)
  finally show ?thesis by (simp add: state_at_def)
qed

section \<open>Properties\<close>

text \<open>C26: initialization is exact. Whatever arrives from the transport, in whatever order and with whatever unrelated
  packets in between, if it succeeds then the controller was sent precisely the fourteen commands of the
  setup in order, with the event mask of its version, the configured name, class and inquiry
  response; it reported at least one ACL buffer of at least one byte and a nonzero public address.\<close>

theorem initialization_exact:
  assumes "initialize_controller config s = (Inr ic, s')"
  shows "io_sent (oi_io s') = io_sent (oi_io s)
      @ map command_of (setup_packets (cv_hci_version (ic_version ic)) @ identity_packets config)
    \<and> ic_acl_packet_length ic \<noteq> 0 \<and> ic_acl_packet_count ic \<noteq> 0
    \<and> addr_bytes_le (ic_local_address ic) \<noteq> replicate 6 0 \<and> length (addr_bytes_le (ic_local_address ic)) = 6
    \<and> addr_kind (ic_local_address ic) = Public"
  using initialized_sound [OF assms] by (simp add: sent_by_def)

theorem initialization_exact_witness:
  "\<exists>ic s'. initialize_controller sample_session_config \<lparr>oi_io = \<lparr>io_faults = [], io_sent = [], io_close_fails = False,
        io_metadata = \<lparr>um_vendor_id = 0x0A12, um_product_id = 1, um_bus = 1, um_device_address = 2, um_ports = []\<rparr>\<rparr>,
      oi_arrivals = initialization_answers sample_session_config [6, 0, 0, 6, 10, 0, 0, 0] (replicate 10 0)
        [0xA8, 2, 0, 8, 0, 0, 0] [1, 2, 3, 4, 5, 6] @- sconst ArrivedTimeout\<rparr> = (Inr ic, s')
    \<and> io_sent (oi_io s') = map command_of (setup_packets (cv_hci_version (ic_version ic)) @ identity_packets sample_session_config)
    \<and> ic_acl_packet_count ic \<noteq> 0"
proof -
  let ?s = "\<lparr>oi_io = \<lparr>io_faults = [], io_sent = [], io_close_fails = False,
      io_metadata = \<lparr>um_vendor_id = 0x0A12, um_product_id = 1, um_bus = 1, um_device_address = 2, um_ports = []\<rparr>\<rparr>,
    oi_arrivals = initialization_answers sample_session_config [6, 0, 0, 6, 10, 0, 0, 0] (replicate 10 0)
      [0xA8, 2, 0, 8, 0, 0, 0] [1, 2, 3, 4, 5, 6] @- sconst ArrivedTimeout\<rparr>"
  have zero: "replicate 6 (0 :: u8) = [0, 0, 0, 0, 0, 0]" by (simp add: numeral_eq_Suc)
  have "check_features (replicate 10 0) = Inr ()" "check_buffer [0xA8, 2, 0, 8, 0, 0, 0] = Inr (680, 8)"
    "check_address [1, 2, 3, 4, 5, 6] = Inr (address_from_le_bytes [1, 2, 3, 4, 5, 6] Public)"
    by (simp_all add: check_features_def check_buffer_def check_address_def require_len_def handle_at_def le16_of_def
        Let_def push_bit_eq_mult zero)
  then obtain ic s' where init: "initialize_controller sample_session_config ?s = (Inr ic, s')"
    using initialization_completes [OF sample_session_config_ok, of ?s "[6, 0, 0, 6, 10, 0, 0, 0]" "replicate 10 0"
        "[0xA8, 2, 0, 8, 0, 0, 0]" 680 8 "[1, 2, 3, 4, 5, 6]" _ "sconst ArrivedTimeout"] by auto
  with initialization_exact [OF init] show ?thesis by auto
qed

end
