(* ===== verification/Usb_Open.thy ===== *)
theory Usb_Open
  imports Usb_Reader
begin

text \<open>
  Opening an adapter, \<^verbatim>\<open>open_transport\<close> and \<^verbatim>\<open>open\<close> of \<^verbatim>\<open>src/src/usb.rs\<close>, with the transfers of \<^verbatim>\<open>RusbIo\<close> and the
  operations of \<^verbatim>\<open>OpenedUsb\<close>.

  The calls of \<^verbatim>\<open>rusb\<close> that reach the operating system are the fields of a record of functions over a world \<open>'w\<close>, with
  handles of a type \<open>'h\<close>; what \<^verbatim>\<open>rusb\<close> reports about a device is the data of \<open>usb_device\<close>. All statements hold for every such
  library. A handle is shared by the two halves of the transport, so the world is the device of the two threads.
\<close>

section \<open>The library\<close>

record ('h, 'w) rusb =
  rb_context :: "('w, unit, rusb_error) action"
  rb_devices :: "('w, usb_device list, rusb_error) action"
  rb_open :: "usb_device \<Rightarrow> ('w, 'h, rusb_error) action"
  rb_set_auto_detach_kernel_driver :: "'h \<Rightarrow> bool \<Rightarrow> ('w, unit, rusb_error) action"
  rb_active_configuration :: "'h \<Rightarrow> ('w, u8, rusb_error) action"
  rb_set_active_configuration :: "'h \<Rightarrow> u8 \<Rightarrow> ('w, unit, rusb_error) action"
  rb_claim_interface :: "'h \<Rightarrow> u8 \<Rightarrow> ('w, unit, rusb_error) action"
  rb_set_alternate_setting :: "'h \<Rightarrow> u8 \<Rightarrow> u8 \<Rightarrow> ('w, unit, rusb_error) action"
  rb_read_interrupt :: "'h \<Rightarrow> u8 \<Rightarrow> bytes \<Rightarrow> ('w, nat \<times> bytes, rusb_error) action"
  rb_read_bulk :: "'h \<Rightarrow> u8 \<Rightarrow> bytes \<Rightarrow> ('w, nat \<times> bytes, rusb_error) action"
  rb_write_control :: "'h \<Rightarrow> u8 \<Rightarrow> u8 \<Rightarrow> u16 \<Rightarrow> u16 \<Rightarrow> bytes \<Rightarrow> ('w, nat, rusb_error) action"
  rb_write_bulk :: "'h \<Rightarrow> u8 \<Rightarrow> bytes \<Rightarrow> ('w, nat, rusb_error) action"

definition map_rusb_error :: "rusb_error \<Rightarrow> transfer_error" where
  "map_rusb_error err = (case rusb_kind err of
       RusbTimeout \<Rightarrow> UsbTimeout
     | RusbNoDevice \<Rightarrow> UsbDisconnected
     | RusbAccess \<Rightarrow> UsbAccess
     | _ \<Rightarrow> UsbOther (rusb_text err))"

definition rusb_io :: "('h, 'w) rusb \<Rightarrow> 'h \<Rightarrow> 'w usb_io" where
  "rusb_io lib handle =
     \<lparr>ub_read_interrupt = (\<lambda>endpoint buffer. act_map_err map_rusb_error (rb_read_interrupt lib handle endpoint buffer)),
      ub_read_bulk = (\<lambda>endpoint buffer. act_map_err map_rusb_error (rb_read_bulk lib handle endpoint buffer)),
      ub_write_control = (\<lambda>request_type buffer.
        act_map_err map_rusb_error (rb_write_control lib handle request_type 0 0 0 buffer)),
      ub_write_bulk = (\<lambda>endpoint buffer. act_map_err map_rusb_error (rb_write_bulk lib handle endpoint buffer))\<rparr>"

section \<open>Opening\<close>

definition auto_detach :: "('h, 'w) rusb \<Rightarrow> 'h \<Rightarrow> ('w, unit, usb_error) action" where
  "auto_detach lib handle w = (case rb_set_auto_detach_kernel_driver lib handle True w of
       (Inr (), w') \<Rightarrow> (Inr (), w')
     | (Inl err, w') \<Rightarrow> ((if rusb_kind err = RusbNotSupported then Inr () else Inl (Rusb err)), w'))"

definition select_configuration :: "('h, 'w) rusb \<Rightarrow> 'h \<Rightarrow> u8 \<Rightarrow> ('w, unit, usb_error) action" where
  "select_configuration lib handle configuration w =
     (let (active, w') = rb_active_configuration lib handle w in
      if active \<noteq> Inr configuration
      then act_map_err Rusb (rb_set_active_configuration lib handle configuration) w'
      else (Inr (), w'))"

definition claim_layout :: "('h, 'w) rusb \<Rightarrow> 'h \<Rightarrow> usb_layout \<Rightarrow> ('w, unit, usb_error) action" where
  "claim_layout lib handle layout =
     act_then (act_map_err Rusb (rb_claim_interface lib handle (ul_interface layout)))
       (if ul_alternate layout \<noteq> 0
        then act_map_err Rusb (rb_set_alternate_setting lib handle (ul_interface layout) (ul_alternate layout))
        else act_ok ())"

definition device_metadata :: "usb_descriptor \<Rightarrow> usb_device \<Rightarrow> adapter_metadata" where
  "device_metadata descriptor device =
     \<lparr>am_vendor_id = ud_vendor_id descriptor, am_product_id = ud_product_id descriptor, am_bus = dv_bus device,
      am_address = dv_address device, am_ports = (case dv_port_numbers device of Inr ports \<Rightarrow> ports | Inl _ \<Rightarrow> [])\<rparr>"

text \<open>From the chosen interface of the chosen device to the new transport and its handle.\<close>

definition prepare_device ::
  "('h, 'w) rusb \<Rightarrow> usb_device \<Rightarrow> usb_descriptor \<Rightarrow> usb_layout \<Rightarrow> ('w, 'h \<times> 'w usb_transport, usb_error) action" where
  "prepare_device lib device descriptor layout =
     act_bind (act_map_err Rusb (rb_open lib device)) (\<lambda>handle.
     act_then (auto_detach lib handle)
     (act_then (select_configuration lib handle (ul_configuration layout))
     (act_then (claim_layout lib handle layout)
     (\<lambda>w. (Inr (handle, transport_new w layout (device_metadata descriptor device)), w)))))"

definition open_transport ::
  "('h, 'w) rusb \<Rightarrow> usb_selector \<Rightarrow> ('w, 'h \<times> 'w usb_transport, usb_error) action" where
  "open_transport lib selector =
     act_then (act_map_err Rusb (rb_context lib))
     (act_bind (act_map_err Rusb (rb_devices lib)) (\<lambda>devices.
      act_bind (act_lift (select_device devices selector)) (\<lambda>device.
      act_bind (act_lift (map_err Rusb (dv_descriptor device))) (\<lambda>descriptor.
      act_bind (act_lift (interface_infos device)) (\<lambda>infos.
      act_bind (act_lift (ok_or NoHciInterface (select_layout infos))) (\<lambda>layout.
      prepare_device lib device descriptor layout))))))"

section \<open>The opened adapter\<close>

record ('h, 'w) opened_usb =
  op_handle :: 'h
  op_threads :: "'w reader_system"

definition open_usb ::
  "('h, 'w) rusb \<Rightarrow> usb_selector \<Rightarrow> (nat \<Rightarrow> bool) \<Rightarrow> ('w, ('h, 'w) opened_usb, usb_error) action" where
  "open_usb lib selector activity =
     act_bind (open_transport lib selector) (\<lambda>(handle, transport).
       act_ok \<lparr>op_handle = handle, op_threads = split_transport_with_activity transport (Some activity)\<rparr>)"

definition opened_send :: "('h, 'w) rusb \<Rightarrow> packet \<Rightarrow> (('h, 'w) opened_usb, unit, usb_error) action" where
  "opened_send lib packet u =
     (let (r, s) = sink_send (rusb_io lib (op_handle u)) packet (op_threads u) in (r, u\<lparr>op_threads := s\<rparr>))"

definition opened_recv :: "(('h, 'w) opened_usb, reader_event, recv_timeout_error) action" where
  "opened_recv u = (let (r, s) = reader_recv (op_threads u) in (r, u\<lparr>op_threads := s\<rparr>))"

definition opened_metadata :: "('h, 'w) opened_usb \<Rightarrow> adapter_metadata" where
  "opened_metadata u = sink_metadata (op_threads u)"

text \<open>\<^verbatim>\<open>OpenedUsb::close\<close> as a whole: it sets the flag, the reader runs to its end, the join returns. The reader's remaining
  steps are at most the fuel.\<close>

definition opened_close :: "('h, 'w) rusb \<Rightarrow> ('h, 'w) opened_usb \<Rightarrow> ((unit, usb_error) result \<times> ('h, 'w) opened_usb) option" where
  "opened_close lib u =
     map_option (\<lambda>(r, s). (r, u\<lparr>op_threads := s\<lparr>rs_owner := Idle\<rparr>\<rparr>))
       (join_reader (run_reader (rusb_io lib (op_handle u)) 5 (shut_down Closing (op_threads u))))"

section \<open>Lemmas: the calls of an opening\<close>

datatype 'h rusb_call =
    CallContext
  | CallDevices
  | CallOpen usb_device
  | CallAutoDetach 'h bool
  | CallActiveConfiguration 'h
  | CallConfigure 'h u8
  | CallClaim 'h u8
  | CallAlternate 'h u8 u8

definition logged :: "'c \<Rightarrow> ('w, 'a, 'e) action \<Rightarrow> ('w \<times> 'c list, 'a, 'e) action" where
  "logged c m = (\<lambda>(w, cs). let (r, w') = m w in (r, (w', cs @ [c])))"

definition unlogged :: "('w, 'a, 'e) action \<Rightarrow> ('w \<times> 'c list, 'a, 'e) action" where
  "unlogged m = (\<lambda>(w, cs). let (r, w') = m w in (r, (w', cs)))"

text \<open>A library that behaves as another and keeps the calls that prepare a device.\<close>

definition logging :: "('h, 'w) rusb \<Rightarrow> ('h, 'w \<times> 'h rusb_call list) rusb" where
  "logging lib =
     \<lparr>rb_context = logged CallContext (rb_context lib),
      rb_devices = logged CallDevices (rb_devices lib),
      rb_open = (\<lambda>d. logged (CallOpen d) (rb_open lib d)),
      rb_set_auto_detach_kernel_driver = (\<lambda>h b. logged (CallAutoDetach h b) (rb_set_auto_detach_kernel_driver lib h b)),
      rb_active_configuration = (\<lambda>h. logged (CallActiveConfiguration h) (rb_active_configuration lib h)),
      rb_set_active_configuration = (\<lambda>h c. logged (CallConfigure h c) (rb_set_active_configuration lib h c)),
      rb_claim_interface = (\<lambda>h i. logged (CallClaim h i) (rb_claim_interface lib h i)),
      rb_set_alternate_setting = (\<lambda>h i a. logged (CallAlternate h i a) (rb_set_alternate_setting lib h i a)),
      rb_read_interrupt = (\<lambda>h e b. unlogged (rb_read_interrupt lib h e b)),
      rb_read_bulk = (\<lambda>h e b. unlogged (rb_read_bulk lib h e b)),
      rb_write_control = (\<lambda>h t r v i b. unlogged (rb_write_control lib h t r v i b)),
      rb_write_bulk = (\<lambda>h e b. unlogged (rb_write_bulk lib h e b))\<rparr>"

lemma logged_eq: "logged c m (w, cs) = (r, s') \<longleftrightarrow> (\<exists>w'. m w = (r, w') \<and> s' = (w', cs @ [c]))"
  by (auto simp: logged_def Let_def split: prod.splits)

lemma auto_detach_calls:
  "auto_detach (logging lib) h (w, cs) = (r, (w', cs')) \<Longrightarrow> cs' = cs @ [CallAutoDetach h True]"
  by (auto simp: auto_detach_def logging_def logged_def Let_def split: prod.splits sum.splits unit.splits)

lemma select_configuration_calls:
  "select_configuration (logging lib) h c (w, cs) = (Inr (), (w', cs')) \<Longrightarrow>
   cs' = cs @ CallActiveConfiguration h # (if fst (rb_active_configuration lib h w) = Inr c then [] else [CallConfigure h c])"
  by (auto simp: select_configuration_def logging_def logged_def Let_def split: prod.splits if_splits)

lemma claim_layout_calls:
  "claim_layout (logging lib) h l (w, cs) = (Inr (), (w', cs')) \<Longrightarrow>
   cs' = cs @ CallClaim h (ul_interface l)
     # (if ul_alternate l = 0 then [] else [CallAlternate h (ul_interface l) (ul_alternate l)])"
  by (auto simp: claim_layout_def act_then_Ok_iff logging_def logged_eq split: if_splits)

text \<open>The calls that prepare a device for a layout, when \<open>active\<close> is what the library said of the active configuration.\<close>

definition opening_calls :: "usb_device \<Rightarrow> 'h \<Rightarrow> (u8, rusb_error) result \<Rightarrow> usb_layout \<Rightarrow> 'h rusb_call list" where
  "opening_calls device handle active layout =
     [CallContext, CallDevices, CallOpen device, CallAutoDetach handle True, CallActiveConfiguration handle]
     @ (if active = Inr (ul_configuration layout) then [] else [CallConfigure handle (ul_configuration layout)])
     @ CallClaim handle (ul_interface layout)
     # (if ul_alternate layout = 0 then [] else [CallAlternate handle (ul_interface layout) (ul_alternate layout)])"

lemma auto_detach_world: "snd (auto_detach lib h w) = snd (rb_set_auto_detach_kernel_driver lib h True w)"
  by (auto simp: auto_detach_def split: prod.split sum.split unit.split)

lemma auto_detach_logged: "auto_detach (logging lib) h (w, cs) = (r, (w', cs')) \<Longrightarrow> w' = snd (auto_detach lib h w)"
  by (auto simp: auto_detach_def logging_def logged_def Let_def split: prod.splits sum.splits unit.splits)

lemma open_transport_calls:
  assumes "open_transport (logging lib) selector (w, []) = (Inr (handle, t), (w', calls))"
  shows "\<exists>w1 w2 w3 devices device descriptor infos.
    rb_context lib w = (Inr (), w1) \<and> rb_devices lib w1 = (Inr devices, w2) \<and> rb_open lib device w2 = (Inr handle, w3)
    \<and> select_device devices selector = Inr device \<and> dv_descriptor device = Inr descriptor
    \<and> interface_infos device = Inr infos \<and> select_layout infos = Some (us_layout t)
    \<and> t = transport_new (w', calls) (us_layout t) (device_metadata descriptor device)
    \<and> calls = opening_calls device handle
        (fst (rb_active_configuration lib handle (snd (rb_set_auto_detach_kernel_driver lib handle True w3)))) (us_layout t)"
proof -
  from assms obtain w1 w2 w3 w4 w5 w6 devices device descriptor infos layout cs4 cs5 where
    steps: "rb_context lib w = (Inr (), w1)" "rb_devices lib w1 = (Inr devices, w2)"
      "select_device devices selector = Inr device" "dv_descriptor device = Inr descriptor"
      "interface_infos device = Inr infos" "select_layout infos = Some layout"
      "rb_open lib device w2 = (Inr handle, w3)"
    and detach: "auto_detach (logging lib) handle (w3, [CallContext, CallDevices, CallOpen device]) = (Inr (), (w4, cs4))"
    and configured: "select_configuration (logging lib) handle (ul_configuration layout) (w4, cs4) = (Inr (), (w5, cs5))"
    and claimed: "claim_layout (logging lib) handle layout (w5, cs5) = (Inr (), (w', calls))"
    and t: "t = transport_new (w', calls) layout (device_metadata descriptor device)"
    by (auto simp: open_transport_def prepare_device_def act_bind_Ok_iff act_then_Ok_iff logging_def logged_eq)
  have "us_layout t = layout" by (simp add: t transport_new_def)
  moreover have "w4 = snd (rb_set_auto_detach_kernel_driver lib handle True w3)"
    using auto_detach_logged [OF detach] auto_detach_world by metis
  then have "calls = opening_calls device handle
      (fst (rb_active_configuration lib handle (snd (rb_set_auto_detach_kernel_driver lib handle True w3)))) layout"
    using claim_layout_calls [OF claimed] select_configuration_calls [OF configured] auto_detach_calls [OF detach]
    by (simp add: opening_calls_def)
  ultimately show ?thesis using steps t by blast
qed

lemma interface_layout_some:
  assumes "interface_layout i = Some l"
  shows "(ui_class i, ui_subclass i, ui_protocol i) = HCI_CLASS" "find_endpoint i DirIn TInterrupt = Some (ul_interrupt_in l)"
    "find_endpoint i DirIn TBulk = Some (ul_bulk_in l)" "find_endpoint i DirOut TBulk = Some (ul_bulk_out l)"
    "ul_configuration l = ui_configuration i" "ul_interface l = ui_interface i" "ul_alternate l = ui_alternate i"
  using assms by (auto simp: interface_layout_def split: if_splits option.splits)

lemma run_reader_ends:
  assumes "rs_shutdown s" "steps_left (rs_pc s) \<le> n"
  shows "thread_over (run_reader io n s)"
  using assms
proof (induction n arbitrary: s)
  case (Suc n)
  show ?case
  proof (cases "reader_next io s")
    case (Some s')
    with reader_next_left [OF Some Suc.prems(1)] Suc show ?thesis by simp
  next
    case None
    then show ?thesis using reader_next_none [of io s] by simp
  qed
qed (simp add: steps_left_over)

lemma run_reader_shut: "rs_shutdown s \<Longrightarrow> rs_shutdown (run_reader io n s)"
  by (induction n arbitrary: s) (auto split: option.split dest: reader_next_left)

lemma steps_left_bound: "steps_left k \<le> 5"
  by (cases k) auto

text \<open>The calls on a chosen device fail with an error of the library only.\<close>

definition only_rusb :: "('s, 'a, usb_error) action \<Rightarrow> bool" where
  "only_rusb m \<longleftrightarrow> (\<forall>s. \<forall>err. fst (m s) = Inl err \<longrightarrow> (\<exists>e. err = Rusb e))"

lemma only_rusb_other: "only_rusb m \<Longrightarrow> fst (m s) \<noteq> Inl DeviceNotFound \<and> fst (m s) \<noteq> Inl NoHciInterface"
  unfolding only_rusb_def by blast

lemma map_err_eq_Inl: "map_err g r = Inl y \<longleftrightarrow> (\<exists>e. r = Inl e \<and> y = g e)"
  by (cases r) auto

lemma rusb_call_err: "fst (act_map_err Rusb m s) = Inl err \<Longrightarrow> \<exists>e. err = Rusb e"
  by (auto simp: act_map_err_def map_err_def Let_def split: prod.splits sum.splits)

lemma only_rusb_call: "only_rusb (act_map_err Rusb m)"
  by (simp add: only_rusb_def rusb_call_err)

lemma only_rusb_bind: "only_rusb m \<Longrightarrow> (\<And>x. only_rusb (f x)) \<Longrightarrow> only_rusb (act_bind m f)"
  by (auto simp: only_rusb_def act_bind_def split: prod.splits sum.splits) (metis fst_conv)+

lemma only_rusb_detach: "only_rusb (auto_detach lib h)"
  by (auto simp: only_rusb_def auto_detach_def split: prod.splits sum.splits if_splits unit.splits)

lemma only_rusb_configure: "only_rusb (select_configuration lib h c)"
  by (auto simp: only_rusb_def select_configuration_def Let_def split: prod.splits if_splits dest: rusb_call_err)

lemma only_rusb_claim: "only_rusb (claim_layout lib h l)"
  unfolding claim_layout_def act_then_def
  by (intro only_rusb_bind only_rusb_call) (auto simp: only_rusb_def dest: rusb_call_err)

lemma only_rusb_prepare: "only_rusb (prepare_device lib device descriptor layout)"
  unfolding prepare_device_def act_then_def
  by (intro only_rusb_bind only_rusb_call only_rusb_detach only_rusb_configure only_rusb_claim) (simp add: only_rusb_def)

section \<open>Properties\<close>

text \<open>C28: what an adapter that opened was told. The device is the one the selector chooses among those the library listed, the interface
  is an HCI interface of it whose interrupt input, bulk input and bulk output endpoints are the transport's, and after the choice, which
  may read serial numbers, the calls were exactly: open that device, ask for the kernel driver to be detached, read the active
  configuration and select the interface's one unless that was it, claim the interface, and select its alternate setting if that is
  not 0. The metadata are those of that device.\<close>

theorem open_claims_hci:
  assumes "open_transport (logging lib) selector (w, []) = (Inr (handle, t), (w', calls))"
  shows "\<exists>w1 w2 w3 devices device descriptor infos.
    rb_context lib w = (Inr (), w1) \<and> rb_devices lib w1 = (Inr devices, w2) \<and> rb_open lib device w2 = (Inr handle, w3)
    \<and> select_device devices selector = Inr device \<and> dv_descriptor device = Inr descriptor \<and> interface_infos device = Inr infos
    \<and> us_metadata t = device_metadata descriptor device
    \<and> calls = opening_calls device handle
        (fst (rb_active_configuration lib handle (snd (rb_set_auto_detach_kernel_driver lib handle True w3)))) (us_layout t)
    \<and> (\<exists>i \<in> set infos. (ui_class i, ui_subclass i, ui_protocol i) = HCI_CLASS
        \<and> find_endpoint i DirIn TInterrupt = Some (ul_interrupt_in (us_layout t))
        \<and> find_endpoint i DirIn TBulk = Some (ul_bulk_in (us_layout t))
        \<and> find_endpoint i DirOut TBulk = Some (ul_bulk_out (us_layout t))
        \<and> ul_configuration (us_layout t) = ui_configuration i \<and> ul_interface (us_layout t) = ui_interface i
        \<and> ul_alternate (us_layout t) = ui_alternate i)"
proof -
  obtain w1 w2 w3 devices device descriptor infos where o:
    "rb_context lib w = (Inr (), w1)" "rb_devices lib w1 = (Inr devices, w2)" "rb_open lib device w2 = (Inr handle, w3)"
    "select_device devices selector = Inr device" "dv_descriptor device = Inr descriptor" "interface_infos device = Inr infos"
    "select_layout infos = Some (us_layout t)" "t = transport_new (w', calls) (us_layout t) (device_metadata descriptor device)"
    "calls = opening_calls device handle
        (fst (rb_active_configuration lib handle (snd (rb_set_auto_detach_kernel_driver lib handle True w3)))) (us_layout t)"
    using open_transport_calls [OF assms] by blast
  obtain i where i: "i \<in> set infos" "interface_layout i = Some (us_layout t)"
    using select_layout_member [OF o(7)] by blast
  have "us_metadata t = device_metadata descriptor device" by (subst o(8)) (simp add: transport_new_def)
  with o(1-6,9) i(1) interface_layout_some [OF i(2)] show ?thesis by blast
qed

text \<open>An adapter whose HCI interface has an alternate setting, on a system that cannot detach kernel drivers.\<close>

definition sample_device :: usb_device where
  "sample_device =
     \<lparr>dv_descriptor = Inr \<lparr>ud_vendor_id = 0x0A12, ud_product_id = 1, ud_class = HCI_CLASS,
        ud_configurations = [Inr [\<lparr>ui_configuration = 1, ui_interface = 0, ui_alternate = 2, ui_class = 0xE0, ui_subclass = 1,
          ui_protocol = 1, ui_endpoints =
            [\<lparr>ue_address = 0x81, ue_direction = DirIn, ue_transfer_type = TInterrupt\<rparr>,
             \<lparr>ue_address = 0x82, ue_direction = DirIn, ue_transfer_type = TBulk\<rparr>,
             \<lparr>ue_address = 0x02, ue_direction = DirOut, ue_transfer_type = TBulk\<rparr>]\<rparr>]]\<rparr>,
      dv_bus = 1, dv_address = 4, dv_port_numbers = Inr [2, 1], dv_serial_number = Inl (RusbError RusbAccess [])\<rparr>"

definition sample_rusb :: "(unit, unit) rusb" where
  "sample_rusb =
     \<lparr>rb_context = act_ok (), rb_devices = act_ok [sample_device], rb_open = (\<lambda>_. act_ok ()),
      rb_set_auto_detach_kernel_driver = (\<lambda>_ _. act_err (RusbError RusbNotSupported ''not supported'')),
      rb_active_configuration = (\<lambda>_. act_ok 1), rb_set_active_configuration = (\<lambda>_ _. act_ok ()),
      rb_claim_interface = (\<lambda>_ _. act_ok ()), rb_set_alternate_setting = (\<lambda>_ _ _. act_ok ()),
      rb_read_interrupt = (\<lambda>_ _ _. act_err (RusbError RusbTimeout [])),
      rb_read_bulk = (\<lambda>_ _ _. act_err (RusbError RusbTimeout [])),
      rb_write_control = (\<lambda>_ _ _ _ _ b. act_ok (length b)), rb_write_bulk = (\<lambda>_ _ b. act_ok (length b))\<rparr>"

lemma sample_open:
  "\<exists>t. open_transport (logging sample_rusb) (Path 1 [2, 1]) ((), []) = (Inr ((), t), ((),
     [CallContext, CallDevices, CallOpen sample_device, CallAutoDetach () True, CallActiveConfiguration (), CallClaim () 0, CallAlternate () 0 2]))"
  by (simp add: open_transport_def prepare_device_def logging_def sample_rusb_def logged_def act_then_def act_bind_def act_map_err_def
      sample_device_def interface_infos_def interface_layout_def find_endpoint_def auto_detach_def select_configuration_def
      claim_layout_def)

theorem open_claims_hci_witness:
  "\<exists>t calls devices device. open_transport (logging sample_rusb) (Path 1 [2, 1]) ((), []) = (Inr ((), t), ((), calls))
     \<and> length calls = 7 \<and> select_device devices (Path 1 [2, 1]) = Inr device \<and> CallOpen device \<in> set calls"
proof -
  obtain t where t: "open_transport (logging sample_rusb) (Path 1 [2, 1]) ((), []) = (Inr ((), t), ((),
     [CallContext, CallDevices, CallOpen sample_device, CallAutoDetach () True, CallActiveConfiguration (), CallClaim () 0, CallAlternate () 0 2]))"
    using sample_open by blast
  from open_claims_hci [OF t] obtain devices device where "select_device devices (Path 1 [2, 1]) = Inr device"
    "device = sample_device" by (auto simp: opening_calls_def)
  with t show ?thesis by fastforce
qed

text \<open>a device is opened only to be used. When the library lists no device the selector chooses, or the chosen one has no complete HCI
  interface, the opening fails after listing the devices: none is opened other than to read its serial number, and none is
  configured or claimed.\<close>

theorem open_refused_untouched:
  assumes "fst (open_transport (logging lib) selector (w, [])) = Inl DeviceNotFound
      \<or> fst (open_transport (logging lib) selector (w, [])) = Inl NoHciInterface"
  shows "snd (snd (open_transport (logging lib) selector (w, []))) = [CallContext, CallDevices]"
proof -
  let ?log = "logging lib"
  obtain r w1 where c: "rb_context ?log (w, []) = (r, (w1, [CallContext]))"
    by (cases "rb_context lib w") (auto simp: logging_def logged_def)
  obtain ds w2 where d: "rb_devices ?log (w1, [CallContext]) = (ds, (w2, [CallContext, CallDevices]))"
    by (cases "rb_devices lib w1") (auto simp: logging_def logged_def)
  have prepared: "fst (prepare_device ?log device descriptor layout st) \<noteq> Inl DeviceNotFound"
    "fst (prepare_device ?log device descriptor layout st) \<noteq> Inl NoHciInterface" for device descriptor layout st
    by (simp_all add: only_rusb_other only_rusb_prepare)
  show ?thesis
    using assms prepared
    by (auto simp: open_transport_def act_then_def act_bind_def act_map_err_def c d interface_infos_def map_err_eq_Inl
        split: sum.splits)
qed

theorem open_refused_untouched_witness:
  "fst (open_transport (logging sample_rusb) (Path 2 [1]) ((), [])) = Inl DeviceNotFound
   \<and> snd (snd (open_transport (logging sample_rusb) (Path 2 [1]) ((), []))) = [CallContext, CallDevices]"
proof -
  have "fst (open_transport (logging sample_rusb) (Path 2 [1]) ((), [])) = Inl DeviceNotFound"
    by (simp add: open_transport_def prepare_device_def logging_def sample_rusb_def logged_def act_then_def act_bind_def act_map_err_def
        sample_device_def)
  then show ?thesis using open_refused_untouched [of sample_rusb "Path 2 [1]" "()"] by simp
qed

text \<open>closing. \<^verbatim>\<open>close\<close> returns: with success unless a call of the notifier panicked. After it every send is refused and leaves the
  device alone, and receiving yields the items still queued, in order, of which the last is the end of the reader if it returned,
  and then reports the channel as disconnected.\<close>

theorem opened_close_settles:
  assumes "interleaving (rusb_io lib (op_handle u)) (split_transport_with_activity t (Some returns)) (op_threads u)"
    and "rs_owner (op_threads u) = Idle"
  shows "\<exists>r u'. opened_close lib u = Some (r, u')
    \<and> ((\<forall>n. returns n) \<longrightarrow> r = Inr () \<and> last (rs_sent (op_threads u')) = ReaderEnded)
    \<and> fst (opened_send lib packet u') = Inl UsbClosed
    \<and> rs_device (op_threads (snd (opened_send lib packet u'))) = rs_device (op_threads u')
    \<and> fst (opened_recv u') = (case rs_queue (op_threads u') of e # _ \<Rightarrow> Inr e | [] \<Rightarrow> Inl RecvDisconnected)"
proof -
  let ?io = "rusb_io lib (op_handle u)"
  define s where "s = run_reader ?io 5 (shut_down Closing (op_threads u))"
  have "interleaving ?io (op_threads u) s"
    unfolding s_def using thread_step.owner_closes [OF assms(2)] run_reader_interleaving
    by (rule converse_rtranclp_into_rtranclp)
  with assms(1) have inv: "reader_inv s" "rs_activity s = Some returns"
    using interleaving_start rtranclp_trans by metis+
  have over: "thread_over s" "rs_shutdown s"
    unfolding s_def by (auto simp: shut_down_def steps_left_bound intro!: run_reader_ends run_reader_shut)
  then obtain r where r: "join_reader s = Some (r, s\<lparr>rs_join := False\<rparr>)" "rs_pc s = Returned \<longrightarrow> r = Inr ()"
    using join_over by blast
  have settled: "r = Inr () \<and> last (rs_sent s) = ReaderEnded" if "\<forall>n. returns n"
  proof -
    have "rs_pc s = Returned" using over_returned [OF over(1) inv(1)] inv(2) that by auto
    with r(2) returned_last [OF _ inv(1)] show ?thesis by simp
  qed
  have "opened_close lib u = Some (r, u\<lparr>op_threads := s\<lparr>rs_join := False, rs_owner := Idle\<rparr>\<rparr>)"
    by (simp add: opened_close_def s_def [symmetric] r(1))
  then show ?thesis using settled over
    by (auto simp: opened_send_def sink_send_def write_packet_def opened_recv_def reader_recv_def thread_over_def split: list.split)
qed

theorem opened_close_settles_witness:
  "\<exists>u u'. open_usb sample_rusb (Path 1 [2, 1]) (\<lambda>_. True) () = (Inr u, ()) \<and> opened_close sample_rusb u = Some (Inr (), u')
     \<and> fst (opened_send sample_rusb (Command \<lparr>cmd_opcode = 0x0C03, cmd_parameters = []\<rparr>) u') = Inl UsbClosed"
proof -
  obtain t where t: "open_transport sample_rusb (Path 1 [2, 1]) () = (Inr ((), t), ())"
    by (simp add: open_transport_def prepare_device_def sample_rusb_def act_then_def act_bind_def act_map_err_def
      sample_device_def interface_infos_def interface_layout_def find_endpoint_def auto_detach_def select_configuration_def
      claim_layout_def)
  let ?u = "\<lparr>op_handle = (), op_threads = split_transport_with_activity t (Some (\<lambda>_. True))\<rparr>"
  have "open_usb sample_rusb (Path 1 [2, 1]) (\<lambda>_. True) () = (Inr ?u, ())" by (simp add: open_usb_def act_bind_def t)
  moreover have "rs_owner (op_threads ?u) = Idle" by (simp add: split_transport_with_activity_def)
  ultimately show ?thesis
    using opened_close_settles [of sample_rusb ?u t "\<lambda>_. True" "Command \<lparr>cmd_opcode = 0x0C03, cmd_parameters = []\<rparr>"] by auto
qed

end
