(* ===== verification/Usb_Hci.thy ===== *)
theory Usb_Hci
  imports Controller Usb_Open
begin

text \<open>
  \<^verbatim>\<open>UsbHciIo\<close> of \<^verbatim>\<open>src/src/session.rs\<close>: an opened adapter as the transport under a session. The arrivals that the session model
  takes as data are the outcomes of the receives on the channel of the reader thread.
\<close>

section \<open>The transport under a session\<close>

definition hci_send :: "('h, 'w) rusb \<Rightarrow> packet \<Rightarrow> (('h, 'w) opened_usb, unit, session_error) action" where
  "hci_send lib packet = act_map_err (\<lambda>_. Failed SourceTerminated) (opened_send lib packet)"

definition hci_recv_timeout :: "(('h, 'w) opened_usb, packet option, session_error) action" where
  "hci_recv_timeout u = (case opened_recv u of
       (Inr (ReaderPacket packet), u') \<Rightarrow> (Inr (Some packet), u')
     | (Inr (ReaderFailed source), u') \<Rightarrow> (Inl (Failed SourceTerminated), u')
     | (Inr ReaderEnded, u') \<Rightarrow> (Inl (Failed SourceTerminated), u')
     | (Inl RecvDisconnected, u') \<Rightarrow> (Inl (Failed SourceTerminated), u')
     | (Inl RecvTimeout, u') \<Rightarrow> (Inr None, u'))"

definition hci_metadata :: "('h, 'w) opened_usb \<Rightarrow> usb_adapter_metadata" where
  "hci_metadata u = (let metadata = opened_metadata u in
     \<lparr>um_vendor_id = am_vendor_id metadata, um_product_id = am_product_id metadata, um_bus = am_bus metadata,
      um_device_address = am_address metadata, um_ports = am_ports metadata\<rparr>)"

definition hci_close ::
  "('h, 'w) rusb \<Rightarrow> ('h, 'w) opened_usb \<Rightarrow> ((unit, session_error) result \<times> ('h, 'w) opened_usb) option" where
  "hci_close lib u = map_option (\<lambda>(r, u'). (map_err (\<lambda>_. Failed CloseFailed) r, u')) (opened_close lib u)"

section \<open>Lemmas\<close>

text \<open>The arrival that a receive is.\<close>

fun arrival_of :: "(reader_event, recv_timeout_error) result \<Rightarrow> arrival" where
  "arrival_of (Inr (ReaderPacket packet)) = ArrivedPacket packet"
| "arrival_of (Inr (ReaderFailed _)) = ArrivedFailure"
| "arrival_of (Inr ReaderEnded) = ArrivedEnd"
| "arrival_of (Inl RecvDisconnected) = ArrivedEnd"
| "arrival_of (Inl RecvTimeout) = ArrivedTimeout"

lemma recv_arrival: "fst (hci_recv_timeout u) = received_packet (arrival_of (fst (opened_recv u)))"
  by (auto simp: hci_recv_timeout_def split: prod.split sum.split reader_event.split recv_timeout_error.split)

text \<open>What the owner has received only grows.\<close>

lemma thread_step_received: "thread_step io s s' \<Longrightarrow> \<exists>es. rs_received s' = rs_received s @ es"
proof (induction rule: thread_step.induct)
  case (reader_runs s s')
  then show ?case
    by (cases "rs_pc s")
      (auto simp: reader_next_def sender_send_def reader_notify_def reader_poll_fields split: option.splits)
next
  case (close_returns s r s')
  then show ?case using join_reader_some [OF close_returns(2)] by simp
next
  case (drop_returns s r s')
  then show ?case using join_reader_some [OF drop_returns(2)] by simp
qed (auto simp: reader_recv_def sink_send_def shut_down_def Let_def split: list.split prod.split)

lemma interleaving_received: "interleaving io s s' \<Longrightarrow> \<exists>es. rs_received s' = rs_received s @ es"
  by (induction rule: rtranclp_induct) (auto dest!: thread_step_received)

lemma packets_first:
  assumes "map ReaderPacket ps @ tail = es @ ReaderPacket p # fs" "\<And>q. ReaderPacket q \<notin> set tail"
  shows "set es \<subseteq> range ReaderPacket"
proof -
  have "length es < length ps"
  proof (rule ccontr)
    assume "\<not> length es < length ps"
    then have "(map ReaderPacket ps @ tail) ! length es \<in> set tail"
      using arg_cong [OF assms(1), of length] by (simp add: nth_append)
    then show False using assms by (auto simp: assms(1))
  qed
  moreover from this have "es = take (length es) (map ReaderPacket ps)"
    using arg_cong [OF assms(1), of "take (length es)"] by simp
  ultimately show ?thesis by (metis set_take_subset set_map image_mono subset_UNIV subset_trans)
qed

lemma stream_tail_packets: "stream_tail k tail \<Longrightarrow> ReaderPacket q \<notin> set tail"
  by (cases k) auto

section \<open>Properties\<close>

text \<open>C29: the end of the packet source is final for the session. A receive is the arrival that the session model takes for it, and once the
  failure or the end of the reader has reached the session, no later receive returns a packet, in any interleaving; when the
  thread is over every later receive is an error of kind \<^verbatim>\<open>SourceTerminated\<close>.\<close>

theorem source_end_final:
  assumes "interleaving io (split_transport_with_activity t activity) s"
    and "ReaderEnded \<in> set (rs_received s) \<or> ReaderFailed err \<in> set (rs_received s)"
    and "interleaving io s (op_threads u)"
  shows "fst (hci_recv_timeout u) = received_packet (arrival_of (fst (opened_recv u)))
    \<and> (\<forall>packet. fst (hci_recv_timeout u) \<noteq> Inr (Some packet))
    \<and> (thread_over (op_threads u) \<longrightarrow> fst (hci_recv_timeout u) = Inl (Failed SourceTerminated))"
proof -
  let ?s = "op_threads u"
  have "interleaving io (split_transport_with_activity t activity) ?s" using assms(1,3) by (rule rtranclp_trans)
  then have inv: "reader_inv ?s" by (rule interleaving_start)
  then obtain ps tail where sent: "rs_sent ?s = map ReaderPacket ps @ tail" "stream_tail (rs_pc ?s) tail"
    "rs_sent ?s = rs_received ?s @ rs_queue ?s"
    unfolding reader_inv_def stream_ok_def by blast
  have "ReaderEnded \<notin> range ReaderPacket" "ReaderFailed err \<notin> range ReaderPacket" by auto
  then obtain e where e: "e \<in> set (rs_received ?s)" "e \<notin> range ReaderPacket"
    using assms(2) interleaving_received [OF assms(3)] by (metis Un_iff set_append)
  have none: "rs_queue ?s \<noteq> ReaderPacket p # q" for p q
    using packets_first [of ps tail "rs_received ?s" p q] stream_tail_packets [OF sent(2)] sent(1,3) e by auto
  show ?thesis
    using none
    by (auto simp: recv_arrival hci_recv_timeout_def opened_recv_def reader_recv_def
        split: list.split reader_event.split)
qed

text \<open>An adapter closed at once: the session has received the end of the reader.\<close>

definition ended_system :: "bytes list reader_system" where
  "ended_system = snd (reader_recv ((run_reader scripted_io 3 (shut_down Closing
     (split_transport_with_activity (transport_new [] sample_layout sample_metadata) None)))
       \<lparr>rs_join := False, rs_owner := Idle\<rparr>))"

lemma ended_reachable:
  "interleaving scripted_io (split_transport_with_activity (transport_new [] sample_layout sample_metadata) None) ended_system"
proof -
  let ?s0 = "split_transport_with_activity (transport_new [] sample_layout sample_metadata) None"
  let ?s1 = "run_reader scripted_io 3 (shut_down Closing ?s0)"
  have "thread_step scripted_io ?s0 (shut_down Closing ?s0)"
    by (rule thread_step.owner_closes) (simp add: split_transport_with_activity_def)
  also have "interleaving scripted_io (shut_down Closing ?s0) ?s1" by (rule run_reader_interleaving)
  also have "thread_step scripted_io ?s1 (?s1\<lparr>rs_join := False, rs_owner := Idle\<rparr>)"
    using thread_step.close_returns [of ?s1 "Inr ()" "?s1\<lparr>rs_join := False\<rparr>" scripted_io]
    by (simp add: numeral_3_eq_3 shut_down_def sample_reader_simps join_reader_def)
  also have "thread_step scripted_io (?s1\<lparr>rs_join := False, rs_owner := Idle\<rparr>) ended_system"
    unfolding ended_system_def by (rule thread_step.owner_receives) simp
  finally show ?thesis .
qed

theorem source_end_final_witness:
  "fst (hci_recv_timeout \<lparr>op_handle = (), op_threads = ended_system\<rparr>) = Inl (Failed SourceTerminated)"
proof -
  have "rs_received ended_system = [ReaderEnded]" "thread_over ended_system"
    by (simp_all add: ended_system_def numeral_3_eq_3 shut_down_def sample_reader_simps reader_recv_def thread_over_def)
  moreover have "interleaving scripted_io ended_system (op_threads \<lparr>op_handle = (), op_threads = ended_system\<rparr>)" by simp
  ultimately show ?thesis using source_end_final [OF ended_reachable] by (metis list.set_intros(1) opened_usb.select_convs(2))
qed

end
