(* ===== verification/Session.thy ===== *)
theory Session
  imports Controller Hid_Sdp
begin

text \<open>
  The backend session of \<^verbatim>\<open>src/src/session.rs\<close>: the state machine over the Classic host, the SDP channels and
  the HIDP bridge, with its connection window, its bounded event queue and the operations of
  \<^verbatim>\<open>SessionDriver\<close>.
\<close>

section \<open>State\<close>

abbreviation (input) HCI_CREATE_CONNECTION :: u16 where "HCI_CREATE_CONNECTION \<equiv> 0x0405"
abbreviation (input) HCI_DISCONNECT :: u16 where "HCI_DISCONNECT \<equiv> 0x0406"
abbreviation (input) HCI_REJECT_CONNECTION_REQUEST :: u16 where "HCI_REJECT_CONNECTION_REQUEST \<equiv> 0x040A"
abbreviation (input) CONNECTION_REJECTED_UNACCEPTABLE_ADDRESS :: u8
  where "CONNECTION_REJECTED_UNACCEPTABLE_ADDRESS \<equiv> 0x0F"
abbreviation (input) REMOTE_USER_TERMINATED_CONNECTION :: u8 where "REMOTE_USER_TERMINATED_CONNECTION \<equiv> 0x13"
abbreviation (input) AUTHENTICATION_FAILURE :: u8 where "AUTHENTICATION_FAILURE \<equiv> 0x05"
abbreviation (input) CLASSIC_SERVER_MTU :: u16 where "CLASSIC_SERVER_MTU \<equiv> 672"
abbreviation (input) EVENT_QUEUE_CAPACITY :: nat where "EVENT_QUEUE_CAPACITY \<equiv> 64"

datatype connection_window =
    Idle
  | Pairing "bluetooth_address option"
  | Reconnecting bluetooth_address
  | WindowConnected

record protocol_channel =
  pc_cid :: u16
  pc_open :: bool

record protocol_state =
  ps_sdp :: "(u16, hid_sdp_channel) btree"
  ps_control :: "protocol_channel option"
  ps_interrupt :: "protocol_channel option"
  ps_hidp :: hidp_bridge

definition protocol_default :: protocol_state where
  "protocol_default = \<lparr>ps_sdp = [], ps_control = None, ps_interrupt = None, ps_hidp = bridge_new 0 0\<rparr>"

record 's backend_session =
  se_io :: "hci_io option"
  se_capabilities :: capabilities
  se_config :: session_config
  se_host :: "'s classic_host"
  se_window :: connection_window
  se_connection :: "(bluetooth_address \<times> u16) option"
  se_rejected_connections :: "u16 set"
  se_protocols :: protocol_state
  se_active_reconnect :: bool
  se_terminal :: "session_error option"
  se_closed :: bool
  se_pending_events :: "api_event list"

type_synonym ('s, 'a) session_action = "('s backend_session, 'a, session_error) action"

section \<open>Helpers\<close>

fun map_host_error :: "host_error \<Rightarrow> session_error" where
  "map_host_error (BondStoreFailed _) = Failed InvalidBondStore"
| "map_host_error (HostPanic msg) = Panicked msg"
| "map_host_error _ = Failed ProtocolViolation"

text \<open>An operation of the host, with its errors mapped by \<open>f\<close>.\<close>

definition on_host :: "(host_error \<Rightarrow> session_error) \<Rightarrow> ('s, 'a) host_action \<Rightarrow> ('s, 'a) session_action" where
  "on_host f op s = (let (r, h) = op (se_host s) in (map_err f r, s\<lparr>se_host := h\<rparr>))"

definition session_ensure_active :: "'s backend_session \<Rightarrow> (unit, session_error) result" where
  "session_ensure_active s =
     (if se_closed s then Inl (Failed SessionClosed)
      else case se_terminal s of Some err \<Rightarrow> Inl err | None \<Rightarrow> Inr ())"

definition send_packet :: "packet \<Rightarrow> ('s, unit) session_action" where
  "send_packet packet s = (case se_io s of
       None \<Rightarrow> (Inl (Failed SessionClosed), s)
     | Some io \<Rightarrow> let (r, io') = io_send packet io in (r, s\<lparr>se_io := Some io'\<rparr>))"

definition send_command :: "u16 \<Rightarrow> bytes \<Rightarrow> ('s, unit) session_action" where
  "send_command opcode parameters s = (case command_new opcode parameters of
       Inl _ \<Rightarrow> (Inl (Failed ProtocolViolation), s)
     | Inr c \<Rightarrow> send_packet (Command c) s)"

definition set_scan :: "bool \<Rightarrow> bool \<Rightarrow> ('s, unit) session_action" where
  "set_scan discoverable connectable =
     send_command HCI_WRITE_SCAN_ENABLE [(if discoverable then 1 else 0) OR push_bit 1 (if connectable then 1 else 0)]"

definition write_inquiry_response :: "('s, unit) session_action" where
  "write_inquiry_response s =
     send_command HCI_WRITE_EXTENDED_INQUIRY_RESPONSE (0 # sc_extended_inquiry_response (se_config s)) s"

definition end_connection_window :: "('s, unit) session_action" where
  "end_connection_window s =
     (if se_window s = Idle then (Inr (), s)
      else act_then write_inquiry_response (act_then (set_scan False True) (act_then (set_scan False False)
        (act_modify (\<lambda>s. s\<lparr>se_window := Idle\<rparr>)))) s)"

definition enqueue_event :: "api_event \<Rightarrow> 's backend_session \<Rightarrow> 's backend_session" where
  "enqueue_event event s =
     (if se_terminal s \<noteq> None then s
      else if length (se_pending_events s) = EVENT_QUEUE_CAPACITY
      then s\<lparr>se_terminal := Some (Failed EventQueueOverflow)\<rparr>
      else s\<lparr>se_pending_events := se_pending_events s @ [event]\<rparr>)"

definition server_spec :: classic_channel_spec where
  "server_spec = \<lparr>cs_mtu = CLASSIC_SERVER_MTU\<rparr>"

section \<open>Channels\<close>

definition put_protocols :: "protocol_state \<Rightarrow> 's backend_session \<Rightarrow> 's backend_session" where
  "put_protocols p s = s\<lparr>se_protocols := p\<rparr>"

definition start_active_reconnect_control :: "('s, unit) session_action" where
  "start_active_reconnect_control s =
     (if \<not> se_active_reconnect s \<or> ps_control (se_protocols s) \<noteq> None then (Inr (), s)
      else act_bind (on_host map_host_error (connect_channel HID_CONTROL_PSM server_spec)) (\<lambda>cid.
        act_modify (\<lambda>s. put_protocols ((se_protocols s)\<lparr>ps_control := Some \<lparr>pc_cid = cid, pc_open = False\<rparr>\<rparr>) s)) s)"

text \<open>\<^verbatim>\<open>is_none_or(|channel| channel.cid == cid && !channel.open)\<close>\<close>

definition first_open :: "protocol_channel option \<Rightarrow> u16 \<Rightarrow> bool" where
  "first_open ch cid = (case ch of None \<Rightarrow> True | Some c \<Rightarrow> pc_cid c = cid \<and> \<not> pc_open c)"

definition open_control :: "u16 \<Rightarrow> u16 \<Rightarrow> 's backend_session \<Rightarrow> 's backend_session" where
  "open_control cid peer_mtu s =
     (if first_open (ps_control (se_protocols s)) cid
      then enqueue_event (EvChannelOpened ControlChannel) (put_protocols ((se_protocols s)
        \<lparr>ps_control := Some \<lparr>pc_cid = cid, pc_open = True\<rparr>,
         ps_hidp := set_peer_mtu ControlChannel (unat peer_mtu) (ps_hidp (se_protocols s))\<rparr>) s)
      else s)"

definition open_interrupt :: "u16 \<Rightarrow> u16 \<Rightarrow> 's backend_session \<Rightarrow> 's backend_session" where
  "open_interrupt cid peer_mtu s =
     (if first_open (ps_interrupt (se_protocols s)) cid
      then enqueue_event (EvChannelOpened InterruptChannel) (put_protocols ((se_protocols s)
        \<lparr>ps_interrupt := Some \<lparr>pc_cid = cid, pc_open = True\<rparr>,
         ps_hidp := set_peer_mtu InterruptChannel (unat peer_mtu) (ps_hidp (se_protocols s))\<rparr>) s)
      else s)"

definition connect_interrupt :: "('s, unit) session_action" where
  "connect_interrupt s =
     (if se_active_reconnect s \<and> ps_interrupt (se_protocols s) = None
      then act_bind (on_host map_host_error (connect_channel HID_INTERRUPT_PSM server_spec)) (\<lambda>cid.
        act_modify (\<lambda>s. put_protocols ((se_protocols s)\<lparr>ps_interrupt := Some \<lparr>pc_cid = cid, pc_open = False\<rparr>\<rparr>) s)) s
      else (Inr (), s))"

definition on_channel_opened :: "u32 \<Rightarrow> u16 \<Rightarrow> ('s, unit) session_action" where
  "on_channel_opened psm cid s =
     (case channel_info (se_host s) cid of
        None \<Rightarrow> (Inl (Failed ProtocolViolation), s)
      | Some (actual_psm, peer_mtu, opened) \<Rightarrow>
          if \<not> opened \<or> actual_psm \<noteq> psm then (Inl (Failed ProtocolViolation), s)
          else if psm = SDP_PSM then
            (Inr (), case bt_get (ps_sdp (se_protocols s)) cid of
               Some _ \<Rightarrow> s
             | None \<Rightarrow> put_protocols ((se_protocols s)\<lparr>ps_sdp := bt_insert cid
                 (sdp_channel_new (sc_hid_service (se_config s)) peer_mtu) (ps_sdp (se_protocols s))\<rparr>) s)
          else if psm = HID_CONTROL_PSM then connect_interrupt (open_control cid peer_mtu s)
          else if psm = HID_INTERRUPT_PSM then (Inr (), open_interrupt cid peer_mtu s)
          else (Inl (Failed ProtocolViolation), s))"

definition channel_is_open :: "'s backend_session \<Rightarrow> protocol_channel \<Rightarrow> bool" where
  "channel_is_open s c = (case channel_info (se_host s) (pc_cid c) of
     None \<Rightarrow> False | Some (_, _, opened) \<Rightarrow> opened)"

definition refresh_channel ::
  "(protocol_state \<Rightarrow> protocol_channel option) \<Rightarrow> u32 \<Rightarrow> ('s, unit) session_action" where
  "refresh_channel sel psm s = (case sel (se_protocols s) of
       Some c \<Rightarrow> if \<not> pc_open c \<and> channel_is_open s c then on_channel_opened psm (pc_cid c) s else (Inr (), s)
     | None \<Rightarrow> (Inr (), s))"

definition refresh_outgoing_channels :: "('s, unit) session_action" where
  "refresh_outgoing_channels =
     act_then (refresh_channel ps_control HID_CONTROL_PSM) (refresh_channel ps_interrupt HID_INTERRUPT_PSM)"

section \<open>Output of the host\<close>

fun handle_output :: "host_output \<Rightarrow> ('s, unit) session_action" where
  "handle_output (OutCommand c) = send_packet (Command c)"
| "handle_output (OutAcl packet) = send_packet (Acl packet)"
| "handle_output (OutEvent (Connected peer handle)) =
     act_then (act_modify (\<lambda>s. s\<lparr>se_connection := Some (peer, handle), se_window := WindowConnected,
       se_protocols := protocol_default\<rparr>))
     (act_then write_inquiry_response (act_then (set_scan False True) (act_then (set_scan False False)
       (act_modify (enqueue_event (EvConnected peer))))))"
| "handle_output (OutEvent (Disconnected _ reason)) =
     act_modify (\<lambda>s. enqueue_event (EvDisconnected (Some reason)) (s\<lparr>se_connection := None, se_window := Idle,
       se_protocols := protocol_default, se_active_reconnect := False\<rparr>))"
| "handle_output (OutEvent (Encrypted _)) = start_active_reconnect_control"
| "handle_output (OutEvent (ChannelOpened psm cid)) = on_channel_opened psm cid"
| "handle_output (OutEvent (BondStored _)) = act_ok ()"

text \<open>
  The loop that empties the output of the host. Handling an output can make the host produce more, so its end
  is not obvious: only connection events reset the protocol state, opening a channel adds none of them,
  and each of the two HID channels is opened at most once in between.
\<close>

definition is_link_event :: "host_output \<Rightarrow> bool" where
  "is_link_event out = (case out of OutEvent (Connected _ _) \<Rightarrow> True | OutEvent (Disconnected _ _) \<Rightarrow> True | _ \<Rightarrow> False)"

definition link_events :: "'s classic_host \<Rightarrow> nat" where
  "link_events h = length (filter is_link_event (ho_output h))"

definition unopened :: "protocol_state \<Rightarrow> nat" where
  "unopened p = (if ps_control p = None then 1 else 0) + (if ps_interrupt p = None then 1 else 0)"

lemma flush_loop_acl: "\<exists>ps. snd (snd (flush_loop limit m q out)) = out @ map OutAcl ps"
proof (induction limit m q out rule: flush_loop.induct)
  case (2 limit m packet q out)
  show ?case
  proof (cases "in_flight_total m < limit")
    case True
    then obtain ps where "snd (snd (flush_loop limit m (packet # q) out)) = (out @ [OutAcl packet]) @ map OutAcl ps"
      using 2 by (auto simp: Let_def)
    then show ?thesis by (intro exI [of _ "packet # ps"]) simp
  qed simp
qed simp

lemma flow_flush_acl: "\<exists>ps. snd (flow_flush f out) = out @ map OutAcl ps"
  using flush_loop_acl [of "fl_total_packets f" "fl_in_flight f" "fl_queued f" out]
  by (simp add: flow_flush_def split_beta)

lemma filter_link_acl [simp]: "filter is_link_event (map OutAcl ps) = []"
  by (simp add: is_link_event_def)

lemma flush_channels_links [simp]: "link_events (snd (flush_channels h)) = link_events h"
proof -
  have opened: "filter is_link_event (map (\<lambda>(psm, cid). OutEvent (ChannelOpened psm cid)) xs) = []" for xs
    by (auto simp: is_link_event_def filter_empty_conv)
  have flow: "length (filter is_link_event (snd (flow_flush f out))) = length (filter is_link_event out)" for f out
    using flow_flush_acl [of f out] by auto
  show ?thesis
    by (simp add: flush_channels_def Let_def split_beta put_channels_def link_events_def opened flow
        split: option.split sum.split)
qed

lemma on_channels_links [simp]: "link_events (snd (on_channels op h)) = link_events h"
  by (simp add: on_channels_def put_channels_def link_events_def split_beta Let_def split: option.split)

lemma connect_channel_links [simp]: "link_events (snd (connect_channel psm spec h)) = link_events h"
proof (cases rule: act_bind_cases [of "on_channels (connect psm spec)" h "\<lambda>cid. act_then flush_channels (act_ok cid)"])
  case (Err e t)
  then show ?thesis using on_channels_links [of "connect psm spec" h] by (simp add: connect_channel_def)
next
  case (Ok cid t)
  have "link_events (snd (act_then flush_channels (act_ok cid) t)) = link_events t"
    by (cases "flush_channels t"; cases "fst (flush_channels t)")
      (use flush_channels_links [of t] in \<open>auto simp: act_then_def act_bind_def\<close>)
  then show ?thesis using Ok on_channels_links [of "connect psm spec" h] by (simp add: connect_channel_def)
qed

lemma send_packet_frame:
  "se_host (snd (send_packet p s)) = se_host s" "se_protocols (snd (send_packet p s)) = se_protocols s"
  by (simp_all add: send_packet_def split_beta Let_def split: option.split)

definition drain_measure :: "'s backend_session \<Rightarrow> nat \<times> nat \<times> nat" where
  "drain_measure s = (link_events (se_host s), unopened (se_protocols s), length (ho_output (se_host s)))"

lemma enqueue_event_frame [simp]:
  "se_host (enqueue_event e s) = se_host s" "se_protocols (enqueue_event e s) = se_protocols s"
  "se_active_reconnect (enqueue_event e s) = se_active_reconnect s"
  by (simp_all add: enqueue_event_def)

lemma put_protocols_frame [simp]:
  "se_host (put_protocols p s) = se_host s" "se_protocols (put_protocols p s) = p"
  "se_active_reconnect (put_protocols p s) = se_active_reconnect s"
  by (simp_all add: put_protocols_def)

lemma open_channel_frame:
  "se_host (open_control cid mtu s) = se_host s" "unopened (se_protocols (open_control cid mtu s)) \<le> unopened (se_protocols s)"
  "se_host (open_interrupt cid mtu s) = se_host s" "unopened (se_protocols (open_interrupt cid mtu s)) \<le> unopened (se_protocols s)"
  by (simp_all add: open_control_def open_interrupt_def unopened_def)

text \<open>A host channel that is opened uses up one of the two unopened protocol channels.\<close>

lemma connect_uses:
  assumes "act_bind (on_host map_host_error (connect_channel psm spec)) (\<lambda>cid. act_modify (f cid)) s = (Inr (), s1)"
    and "\<And>cid t. se_protocols t = se_protocols s \<Longrightarrow>
      se_host (f cid t) = se_host t \<and> unopened (se_protocols (f cid t)) < unopened (se_protocols s)"
  shows "link_events (se_host s1) = link_events (se_host s)" "unopened (se_protocols s1) < unopened (se_protocols s)"
proof -
  from assms(1) obtain cid t where t: "on_host map_host_error (connect_channel psm spec) s = (Inr cid, t)" "s1 = f cid t"
    by (auto simp: act_bind_Ok_iff)
  then have "se_host t = snd (connect_channel psm spec (se_host s))" "se_protocols t = se_protocols s"
    by (auto simp: on_host_def Let_def split_beta)
  with t(2) assms(2) show "link_events (se_host s1) = link_events (se_host s)"
    "unopened (se_protocols s1) < unopened (se_protocols s)" by simp_all
qed

text \<open>What one step of the loop leaves: the host as it was, or a channel fewer to open.\<close>

definition settles :: "'s backend_session \<Rightarrow> 's backend_session \<Rightarrow> bool" where
  "settles s t \<longleftrightarrow> link_events (se_host t) = link_events (se_host s)
     \<and> (unopened (se_protocols t) < unopened (se_protocols s)
        \<or> unopened (se_protocols t) \<le> unopened (se_protocols s) \<and> se_host t = se_host s)"

lemma send_packet_settles: "send_packet p s = (Inr (), t) \<Longrightarrow> settles s t"
  using send_packet_frame [of p s] by (simp add: settles_def)

lemma reconnect_control_settles: "start_active_reconnect_control s = (Inr (), t) \<Longrightarrow> settles s t"
  by (auto simp: start_active_reconnect_control_def settles_def unopened_def put_protocols_def
      dest: connect_uses split: if_splits)

lemma connect_interrupt_settles: "connect_interrupt s = (Inr (), t) \<Longrightarrow> settles s t"
  by (auto simp: connect_interrupt_def settles_def unopened_def put_protocols_def
      dest: connect_uses split: if_splits)

lemma open_settles:
  "settles s s" "settles s (open_interrupt cid mtu s)" "settles s (put_protocols ((se_protocols s)\<lparr>ps_sdp := m\<rparr>) s)"
  using open_channel_frame(3,4) [of cid mtu s] by (simp_all add: settles_def unopened_def)

lemma on_channel_opened_settles:
  assumes "on_channel_opened psm cid s = (Inr (), t)"
  shows "settles s t"
proof -
  have "settles s t" if "connect_interrupt (open_control cid mtu s) = (Inr (), t)" for mtu
    using connect_interrupt_settles [OF that] open_channel_frame(1,2) [of cid mtu s] by (auto simp: settles_def)
  with assms show ?thesis
    by (auto simp: on_channel_opened_def open_settles split: option.splits if_splits)
qed

lemma connected_frame:
  fixes s :: "'s backend_session"
  assumes "\<And>t. se_host (f t) = se_host t"
  shows "se_host (snd (act_then write_inquiry_response (act_then (set_scan a b) (act_then (set_scan c d) (act_modify f))) s)) = se_host s"
proof -
  have command: "se_host (snd (send_command opcode ps t)) = se_host t" for opcode ps and t :: "'s backend_session"
    by (simp add: send_command_def send_packet_frame split: sum.split)
  have after: "se_host (snd (act_then (send_command opcode ps) k t)) = se_host t"
    if "\<And>t. se_host (snd (k t)) = se_host t" for opcode ps k and t :: "'s backend_session"
    using that command [of opcode ps t] by (cases rule: act_bind_cases [of "send_command opcode ps" t "\<lambda>_. k"]) (simp_all add: act_then_def)
  have start: "act_then write_inquiry_response k s
      = act_then (send_command HCI_WRITE_EXTENDED_INQUIRY_RESPONSE (0 # sc_extended_inquiry_response (se_config s))) k s" for k
    by (simp add: act_then_def act_bind_def write_inquiry_response_def)
  show ?thesis unfolding start set_scan_def by (intro after) (simp add: assms)
qed

lemma handle_output_settles:
  assumes "handle_output out s = (Inr (), t)"
  shows "if is_link_event out then se_host t = se_host s else settles s t"
proof (cases out)
  case (OutEvent ev)
  show ?thesis
  proof (cases ev)
    case (Connected peer handle)
    let ?s = "s\<lparr>se_connection := Some (peer, handle), se_window := WindowConnected, se_protocols := protocol_default\<rparr>"
    from assms OutEvent Connected have "se_host t = se_host ?s"
      using connected_frame [of "enqueue_event (EvConnected peer)" False True False False ?s] by simp
    with OutEvent Connected show ?thesis by (simp add: is_link_event_def)
  qed (use assms OutEvent in \<open>auto simp: is_link_event_def open_settles
      intro: reconnect_control_settles on_channel_opened_settles\<close>)
qed (use assms send_packet_settles in \<open>auto simp: is_link_event_def\<close>)

function drain_host_output :: "('s, unit) session_action" where
  "drain_host_output s = (case pop_output (se_host s) of
       (None, h) \<Rightarrow> (Inr (), s\<lparr>se_host := h\<rparr>)
     | (Some out, h) \<Rightarrow>
         (case handle_output out (s\<lparr>se_host := h\<rparr>) of
            (Inl err, t) \<Rightarrow> (Inl err, t)
          | (Inr _, t) \<Rightarrow> drain_host_output t))"
  by pat_completeness auto

lemma drain_decreases:
  assumes "pop_output (se_host s) = (Some out, h)" "handle_output out (s\<lparr>se_host := h\<rparr>) = (Inr u, t)"
  shows "(drain_measure t, drain_measure s) \<in> less_than <*lex*> less_than <*lex*> less_than"
proof -
  let ?s = "s\<lparr>se_host := h\<rparr>"
  from assms(1) have h: "ho_output (se_host s) = out # ho_output h"
    by (auto simp: pop_output_def split: list.splits)
  then have links: "link_events (se_host s) = (if is_link_event out then 1 else 0) + link_events h"
    by (simp add: link_events_def)
  have "if is_link_event out then se_host t = se_host ?s else settles ?s t"
    using assms(2) by (intro handle_output_settles) simp
  with links h show ?thesis
    by (cases "is_link_event out") (auto simp: drain_measure_def settles_def)
qed

termination drain_host_output
  by (relation "inv_image (less_than <*lex*> less_than <*lex*> less_than) drain_measure")
    (auto intro: drain_decreases [OF sym sym])

declare drain_host_output.simps [simp del]

section \<open>Input of the open channels\<close>

fun apply_hidp_event :: "hidp_bridge_event \<Rightarrow> ('s, unit) session_action" where
  "apply_hidp_event (Output ch payload) = act_modify (enqueue_event (EvHidOutput ch payload))"
| "apply_hidp_event (ControlResponse response) = (\<lambda>s. case ps_control (se_protocols s) of
     Some c \<Rightarrow> if pc_open c then on_host map_host_error (send_channel_sdu (pc_cid c) response) s else (Inr (), s)
   | None \<Rightarrow> (Inr (), s))"
| "apply_hidp_event _ = act_ok ()"

definition apply_hidp_events :: "hidp_bridge_event list \<Rightarrow> ('s, unit) session_action" where
  "apply_hidp_events = act_each apply_hidp_event"

definition answer_sdp :: "u16 \<Rightarrow> bytes \<Rightarrow> ('s, unit) session_action" where
  "answer_sdp cid sdu s = (case bt_get (ps_sdp (se_protocols s)) cid of
       None \<Rightarrow> (Inr (), s)
     | Some ch \<Rightarrow>
         let (response, ch') = sdp_handle_sdu sdu ch;
             s1 = put_protocols ((se_protocols s)\<lparr>ps_sdp := bt_insert cid ch' (ps_sdp (se_protocols s))\<rparr>) s in
         (case response of
            None \<Rightarrow> (Inr (), s1)
          | Some b \<Rightarrow> on_host map_host_error (send_channel_sdu cid b) s1))"

definition answer_hid :: "hid_channel \<Rightarrow> u16 \<Rightarrow> bytes \<Rightarrow> ('s, unit) session_action" where
  "answer_hid ch cid sdu s =
     (let (r, br) = bridge_handle ch sdu (ps_hidp (se_protocols s));
          s1 = put_protocols ((se_protocols s)\<lparr>ps_hidp := br\<rparr>) s in
      case r of
        Inr events \<Rightarrow> apply_hidp_events events s1
      | Inl (Malformed ControlChannel) \<Rightarrow>
          (case invalid_parameter_response br of
             Inr response \<Rightarrow> on_host map_host_error (send_channel_sdu cid response) s1
           | Inl _ \<Rightarrow> (Inr (), s1))
      | Inl _ \<Rightarrow> (Inr (), s1))"

text \<open>
  The two loops that empty a channel end because an answer never adds to what was received: \<open>backlog\<close> counts
  the SDUs of a channel that wait to be taken, those still inside its ERTM engine included.
\<close>

definition channel_backlog :: "classic_channel option \<Rightarrow> nat" where
  "channel_backlog ch = (case ch of None \<Rightarrow> 0
     | Some c \<Rightarrow> length (ch_received c) + (case ch_ertm c of None \<Rightarrow> 0 | Some e \<Rightarrow> length (er_received e)))"

definition backlog :: "'s classic_host \<Rightarrow> u16 \<Rightarrow> nat" where
  "backlog h cid = (case ho_connection h of None \<Rightarrow> 0 | Some c \<Rightarrow> channel_backlog (channel (cn_channels c) cid))"

lemma bt_get_insert_any: "bt_get (bt_insert k v m) k' = (if k' = k then Some v else bt_get m k')"
  by (induction k v m rule: bt_insert.induct) (auto simp: bt_get_def)

lemma output_loop_received: "er_received (snd (output_loop e)) = er_received e"
  by (induction e rule: output_loop.induct) (subst output_loop.simps, simp split: list.split sum.split)

lemma process_output_received: "er_received (snd (process_output e)) = er_received e"
  using output_loop_received [of e]
  by (cases rule: act_bind_cases [of output_loop e "\<lambda>_. act_modify refresh_retransmission_deadline"])
    (simp_all add: process_output_def act_then_def refresh_retransmission_deadline_def)

lemma push_segments_received: "er_received (push_segments mps n len i cs e) = er_received e"
  by (induction mps n len i cs e rule: push_segments.induct)
    (simp_all add: Let_def push_frame_def take_tx_seq_def)

lemma send_sdu_received: "er_received (snd (send_sdu sdu e)) = er_received e"
  by (simp add: send_sdu_def act_then_def act_bind_def ensure_active_def process_output_received
      push_segments_received Let_def) (simp add: push_frame_def take_tx_seq_def)

lemma channel_send_backlog: "channel_backlog (channel (snd (channel_send cid sdu m)) k) = channel_backlog (channel m k)"
proof (cases "bt_get (cm_channels m) cid")
  case (Some c)
  have flush: "channel_backlog (channel (snd (flush_ertm cid m')) k) = channel_backlog (channel m' k)" for m'
    by (auto simp: flush_ertm_def channel_def queue_ertm_frames_channels split_beta Let_def put_channel_def
        bt_get_insert_any channel_backlog_def drain_outbound_def split: option.split)
  have "channel_backlog (channel (snd (run_engine cid c e (send_sdu sdu) m)) k) = channel_backlog (channel m k)"
    if "ch_ertm c = Some e" for e
    using that Some send_sdu_received [of sdu e]
    by (simp add: run_engine_def Let_def split_beta flush split: sum.split)
      (simp add: channel_def put_channel_def bt_get_insert_any channel_backlog_def)
  with Some show ?thesis
    by (simp add: channel_send_def channel_def split: option.split)
qed (simp add: channel_send_def)

lemma on_channels_backlog:
  "(\<And>m. channel_backlog (channel (snd (op m)) k) = channel_backlog (channel m k)) \<Longrightarrow> backlog (snd (on_channels op h)) k = backlog h k"
  by (simp add: on_channels_def put_channels_def backlog_def split_beta Let_def split: option.split)

lemma flush_channels_backlog: "backlog (snd (flush_channels h)) k = backlog h k"
  by (simp add: flush_channels_def backlog_def put_channels_def Let_def split_beta channel_def
      split: option.split sum.split)

lemma send_channel_sdu_backlog: "backlog (snd (send_channel_sdu cid sdu h)) k = backlog h k"
  using on_channels_backlog [of "channel_send cid sdu" k h, OF channel_send_backlog]
  by (cases rule: act_bind_cases [of "on_channels (channel_send cid sdu)" h "\<lambda>_. flush_channels"])
    (simp_all add: send_channel_sdu_def act_then_def flush_channels_backlog)

lemma send_backlog:
  "backlog (se_host (snd (on_host f (send_channel_sdu cid sdu) s))) k = backlog (se_host s) k"
  by (simp add: on_host_def split_beta Let_def send_channel_sdu_backlog)

lemma take_backlog: "take_channel_sdu cid h = (Some sdu, h') \<Longrightarrow> backlog h' cid < backlog h cid"
  by (auto simp: take_channel_sdu_def manager_pop_received_def channel_pop_received_def put_channels_def
      backlog_def channel_def put_channel_def bt_get_insert_any channel_backlog_def split_beta Let_def
      split: option.splits list.splits)

lemma apply_hidp_event_backlog: "backlog (se_host (snd (apply_hidp_event ev s))) k = backlog (se_host s) k"
  by (cases ev) (simp_all add: send_backlog split: option.split)

lemma apply_hidp_events_backlog: "backlog (se_host (snd (apply_hidp_events evs s))) k = backlog (se_host s) k"
  unfolding apply_hidp_events_def
proof (induction evs arbitrary: s)
  case (Cons ev evs)
  then show ?case using apply_hidp_event_backlog [of ev s k]
    by (cases rule: act_bind_cases [of "apply_hidp_event ev" s "\<lambda>_. act_each apply_hidp_event evs"])
      (simp_all add: act_then_def)
qed simp

lemma answer_backlog:
  "backlog (se_host (snd (answer_sdp cid sdu s))) k = backlog (se_host s) k"
  "backlog (se_host (snd (answer_hid ch cid sdu s))) k = backlog (se_host s) k"
proof -
  show "backlog (se_host (snd (answer_sdp cid sdu s))) k = backlog (se_host s) k"
    by (simp add: answer_sdp_def split_beta Let_def send_backlog split: option.split)
  show "backlog (se_host (snd (answer_hid ch cid sdu s))) k = backlog (se_host s) k"
    by (simp add: answer_hid_def split_beta Let_def send_backlog apply_hidp_events_backlog
        split: sum.split hidp_bridge_error.split hid_channel.split)
qed

function sdp_loop :: "u16 \<Rightarrow> ('s, unit) session_action" where
  "sdp_loop cid s = (case take_channel_sdu cid (se_host s) of
       (None, h) \<Rightarrow> (Inr (), s\<lparr>se_host := h\<rparr>)
     | (Some sdu, h) \<Rightarrow>
         (case answer_sdp cid sdu (s\<lparr>se_host := h\<rparr>) of
            (Inl err, t) \<Rightarrow> (Inl err, t)
          | (Inr _, t) \<Rightarrow> sdp_loop cid t))"
  by pat_completeness auto
termination
proof (relation "measure (\<lambda>(cid, s). backlog (se_host s) cid)", goal_cases)
  case (2 cid s p h sdu r t)
  then show ?case using take_backlog [of cid "se_host s" sdu h] answer_backlog(1) [of cid sdu "s\<lparr>se_host := h\<rparr>" cid]
    by auto (metis snd_conv)
qed simp

function hid_loop :: "hid_channel \<Rightarrow> u16 \<Rightarrow> ('s, unit) session_action" where
  "hid_loop ch cid s = (case take_channel_sdu cid (se_host s) of
       (None, h) \<Rightarrow> (Inr (), s\<lparr>se_host := h\<rparr>)
     | (Some sdu, h) \<Rightarrow>
         (case answer_hid ch cid sdu (s\<lparr>se_host := h\<rparr>) of
            (Inl err, t) \<Rightarrow> (Inl err, t)
          | (Inr _, t) \<Rightarrow> hid_loop ch cid t))"
  by pat_completeness auto
termination
proof (relation "measure (\<lambda>(ch, cid, s). backlog (se_host s) cid)", goal_cases)
  case (2 ch cid s p h sdu r t)
  then show ?case using take_backlog [of cid "se_host s" sdu h] answer_backlog(2) [of ch cid sdu "s\<lparr>se_host := h\<rparr>" cid]
    by auto (metis snd_conv)
qed simp

declare sdp_loop.simps [simp del] hid_loop.simps [simp del]

definition hid_input :: "hid_channel \<times> protocol_channel option \<Rightarrow> ('s, unit) session_action" where
  "hid_input cp = (case cp of (ch, pc) \<Rightarrow> (case pc of
       Some c \<Rightarrow> if pc_open c then hid_loop ch (pc_cid c) else act_ok ()
     | None \<Rightarrow> act_ok ()))"

definition process_protocol_input :: "('s, unit) session_action" where
  "process_protocol_input s =
     act_then (act_each sdp_loop (bt_keys (ps_sdp (se_protocols s)))) (\<lambda>s.
       act_each hid_input [(ControlChannel, ps_control (se_protocols s)), (InterruptChannel, ps_interrupt (se_protocols s))] s) s"

end
