(* ===== verification/Session_Driver.thy ===== *)
theory Session_Driver
  imports Session
begin

text \<open>
  The operations of \<^verbatim>\<open>src/src/session.rs\<close> that an application calls (\<^verbatim>\<open>SessionDriver\<close>), and the handling of
  the packets they receive. An operation that receives takes the outcomes of its successive
  \<^verbatim>\<open>recv_timeout\<close> calls as a list; an exhausted list is a timeout. A \<^verbatim>\<open>poll\<close> reads until nothing is waiting: one that
  returns has read finitely many packets, and the list holds them. All statements about \<open>poll\<close> are about
  calls that return; that the queue is empty at some moment is up to the controller and not claimed.
\<close>

section \<open>Events of the controller\<close>

text \<open>Whether a peer may connect in this window; the first peer of a pairing window is latched.\<close>

fun admit :: "connection_window \<Rightarrow> bluetooth_address \<Rightarrow> bool \<times> connection_window" where
  "admit (Pairing (Some expected)) peer = (expected = peer, Pairing (Some expected))"
| "admit (Pairing None) peer = (True, Pairing (Some peer))"
| "admit (Reconnecting expected) peer = (expected = peer, Reconnecting expected)"
| "admit Idle peer = (False, Idle)"
| "admit WindowConnected peer = (False, WindowConnected)"

fun expected_peer :: "connection_window \<Rightarrow> bluetooth_address option" where
  "expected_peer (Pairing peer) = peer"
| "expected_peer (Reconnecting peer) = Some peer"
| "expected_peer Idle = None"
| "expected_peer WindowConnected = None"

text \<open>The three checks before an event reaches the host; the value says whether the event is dealt with.\<close>

definition check_connection_request :: "bytes \<Rightarrow> ('s, bool) session_action" where
  "check_connection_request ps =
     act_then (act_lift (require_len ps 10)) (act_bind (act_lift (address_at ps 0)) (\<lambda>peer s.
       let (accepted, window) = (if ps ! 9 = 1 then admit (se_window s) peer else (False, se_window s));
           s1 = s\<lparr>se_window := window\<rparr> in
       if accepted then (Inr False, s1)
       else act_then (send_command HCI_REJECT_CONNECTION_REQUEST
         (addr_bytes_le peer @ [CONNECTION_REJECTED_UNACCEPTABLE_ADDRESS])) (act_ok True) s1))"

definition check_connection_complete :: "bytes \<Rightarrow> ('s, bool) session_action" where
  "check_connection_complete ps =
     act_then (act_lift (require_len ps 11)) (act_bind (act_lift (address_at ps 3)) (\<lambda>peer s.
       let status = ps ! 0; handle = handle_at ps 1; expected = expected_peer (se_window s) in
       if status = 0 \<and> (expected \<noteq> Some peer \<or> ps ! 9 \<noteq> 1)
       then act_then (send_command HCI_DISCONNECT (le16_bytes handle @ [AUTHENTICATION_FAILURE]))
         (act_then (act_modify (\<lambda>s. s\<lparr>se_rejected_connections := insert handle (se_rejected_connections s)\<rparr>))
         (act_ok True)) s
       else if status \<noteq> 0
       then act_then end_connection_window (act_then (act_modify (\<lambda>s.
         enqueue_event (EvDisconnected (Some status)) (s\<lparr>se_active_reconnect := False\<rparr>))) (act_ok False)) s
       else (Inr False, s)))"

definition check_disconnection_complete :: "bytes \<Rightarrow> ('s, bool) session_action" where
  "check_disconnection_complete ps =
     act_then (act_lift (require_len ps 4)) (\<lambda>s.
       let handle = handle_at ps 1 in
       if ps ! 0 = 0 \<and> handle \<in> se_rejected_connections s
       then (Inr True, s\<lparr>se_rejected_connections := se_rejected_connections s - {handle}\<rparr>)
       else (Inr False, s))"

definition check_event :: "event_packet \<Rightarrow> ('s, bool) session_action" where
  "check_event event =
     (let ps = ev_parameters event; code = ev_event_code event in
      if code = EVENT_CONNECTION_REQUEST then check_connection_request ps
      else if code = EVENT_CONNECTION_COMPLETE then check_connection_complete ps
      else if code = EVENT_DISCONNECTION_COMPLETE then check_disconnection_complete ps
      else act_ok False)"

definition forward_event :: "'s bond_store \<Rightarrow> event_packet \<Rightarrow> ('s, unit) session_action" where
  "forward_event store event =
     act_bind (act_lift (decode_classic_event event)) (\<lambda>evs.
     act_then (act_each (\<lambda>ev. on_host map_host_error (handle_event store ev)) evs) drain_host_output)"

definition session_handle_event :: "'s bond_store \<Rightarrow> event_packet \<Rightarrow> ('s, unit) session_action" where
  "session_handle_event store event =
     act_bind (check_event event) (\<lambda>handled. if handled then act_ok () else forward_event store event)"

fun handle_packet :: "'s bond_store \<Rightarrow> packet \<Rightarrow> ('s, unit) session_action" where
  "handle_packet store (Event event) = session_handle_event store event"
| "handle_packet store (Acl p) =
     act_then (on_host map_host_error (process_acl p)) (act_then drain_host_output
       (act_then refresh_outgoing_channels (act_then process_protocol_input drain_host_output)))"
| "handle_packet store (Command _) = act_err (Failed ProtocolViolation)"

definition record_terminal :: "session_error \<Rightarrow> 's backend_session \<Rightarrow> 's backend_session" where
  "record_terminal err s = s\<lparr>se_terminal := Some err\<rparr>"

definition handle_polled_packet :: "'s bond_store \<Rightarrow> packet \<Rightarrow> ('s, unit) session_action" where
  "handle_polled_packet store p s = (case handle_packet store p s of
       (Inl err, t) \<Rightarrow> (Inl err, record_terminal err t)
     | (Inr _, t) \<Rightarrow> (case se_terminal t of Some err \<Rightarrow> (Inl err, t) | None \<Rightarrow> (Inr (), t)))"

text \<open>One \<^verbatim>\<open>recv_timeout\<close> and what is done with its outcome; the value says whether a packet was received.\<close>

definition receive :: "'s bond_store \<Rightarrow> arrival \<Rightarrow> ('s, bool) session_action" where
  "receive store a s = (case se_io s of
       None \<Rightarrow> (Inl (Failed SessionClosed), s)
     | Some _ \<Rightarrow> (case received_packet a of
         Inl err \<Rightarrow> (Inl err, record_terminal err s)
       | Inr None \<Rightarrow> (Inr False, s)
       | Inr (Some p) \<Rightarrow> act_then (handle_polled_packet store p) (act_ok True) s))"

section \<open>Operations of the application\<close>

definition start_pairing :: "('s, unit) session_action" where
  "start_pairing s = act_then (act_lift (session_ensure_active s)) (case se_window s of
       Pairing _ \<Rightarrow> act_ok ()
     | Idle \<Rightarrow> act_then (set_scan False True) (act_then write_inquiry_response (act_then (set_scan True True)
         (act_modify (\<lambda>s. s\<lparr>se_active_reconnect := False, se_window := Pairing None\<rparr>))))
     | _ \<Rightarrow> act_err (Failed SendRejected)) s"

definition single_bond :: "'s bond_store \<Rightarrow> 's \<Rightarrow> (bluetooth_address, session_error) result" where
  "single_bond store bonds = (case bs_load_all store bonds of
       Inl _ \<Rightarrow> Inl (Failed InvalidBondStore)
     | Inr [(peer, _)] \<Rightarrow> Inr peer
     | Inr [] \<Rightarrow> Inl (Failed NoBond)
     | Inr _ \<Rightarrow> Inl (Failed InvalidBondStore))"

definition connect_to :: "bluetooth_address \<Rightarrow> ('s, unit) session_action" where
  "connect_to peer =
     act_then (set_scan False True) (act_then write_inquiry_response (act_then (set_scan False True)
     (act_then (send_command HCI_CREATE_CONNECTION
        (addr_bytes_le peer @ le16_bytes 0 @ [0, 0] @ le16_bytes 0 @ [1]))
     (act_modify (\<lambda>s. s\<lparr>se_active_reconnect := True, se_window := Reconnecting peer\<rparr>)))))"

definition start_reconnect :: "'s bond_store \<Rightarrow> ('s, unit) session_action" where
  "start_reconnect store s = act_then (act_lift (session_ensure_active s)) (case se_window s of
       Reconnecting _ \<Rightarrow> act_ok ()
     | Idle \<Rightarrow> act_bind (act_lift (single_bond store (ho_bonds (se_host s)))) connect_to
     | _ \<Rightarrow> act_err (Failed SendRejected)) s"

fun poll_loop :: "'s bond_store \<Rightarrow> arrival list \<Rightarrow> ('s, unit) session_action" where
  "poll_loop store [] = act_then (receive store ArrivedTimeout) (act_ok ())"
| "poll_loop store (a # as) =
     act_bind (receive store a) (\<lambda>received. if received then poll_loop store as else act_ok ())"

definition poll :: "'s bond_store \<Rightarrow> arrival list \<Rightarrow> ('s, api_event list) session_action" where
  "poll store as s = act_then (act_lift (session_ensure_active s))
     (act_then (if se_pending_events s = []
        then case as of
            [] \<Rightarrow> act_then (receive store ArrivedTimeout) (poll_loop store [])
          | a # rest \<Rightarrow> act_then (receive store a) (poll_loop store rest)
        else poll_loop store as)
     (\<lambda>s. (Inr (se_pending_events s), s\<lparr>se_pending_events := []\<rparr>))) s"

definition send_capacity_available :: "'s backend_session \<Rightarrow> bool" where
  "send_capacity_available s \<longleftrightarrow> se_terminal s = None \<and> \<not> se_closed s
     \<and> (case ps_interrupt (se_protocols s) of Some c \<Rightarrow> pc_open c | None \<Rightarrow> False)
     \<and> interrupt_send_capacity_available (se_host s)"

fun reject_send :: "host_error \<Rightarrow> session_error" where
  "reject_send (HostPanic msg) = Panicked msg"
| "reject_send _ = Failed SendRejected"

definition send_interrupt :: "bytes \<Rightarrow> ('s, unit) session_action" where
  "send_interrupt payload s = act_then (act_lift (session_ensure_active s)) (case ps_interrupt (se_protocols s) of
       Some c \<Rightarrow>
         if pc_open c then
           act_bind (act_lift (map_err (\<lambda>_. Failed SendRejected) (encode_input (ps_hidp (se_protocols s)) payload)))
             (\<lambda>encoded. act_then (on_host reject_send (send_channel_sdu (pc_cid c) encoded)) drain_host_output)
         else act_err (Failed SendRejected)
     | None \<Rightarrow> act_err (Failed SendRejected)) s"

text \<open>Each iteration finds the deadline passed, \<open>None\<close>, or receives.\<close>

fun drain_interrupt_loop :: "'s bond_store \<Rightarrow> arrival option list \<Rightarrow> ('s, unit) session_action" where
  "drain_interrupt_loop store (Some a # as) s =
     (if channel_output_is_flushed (se_host s) then (Inr (), s)
      else act_bind (receive store a) (\<lambda>received.
        if received then drain_interrupt_loop store as else act_err (Failed DrainTimedOut)) s)"
| "drain_interrupt_loop store _ s =
     (if channel_output_is_flushed (se_host s) then (Inr (), s) else (Inl (Failed DrainTimedOut), s))"

definition drain_interrupt :: "'s bond_store \<Rightarrow> arrival option list \<Rightarrow> ('s, unit) session_action" where
  "drain_interrupt store as s = act_then (act_lift (session_ensure_active s)) (drain_interrupt_loop store as) s"

definition session_disconnect :: "('s, unit) session_action" where
  "session_disconnect s = act_then (act_lift (session_ensure_active s)) (\<lambda>s.
     let s1 = s\<lparr>se_protocols := protocol_default, se_active_reconnect := False, se_connection := None\<rparr> in
     act_then (case se_connection s of
         Some (_, handle) \<Rightarrow> send_command HCI_DISCONNECT (le16_bytes handle @ [REMOTE_USER_TERMINATED_CONNECTION])
       | None \<Rightarrow> act_ok ()) end_connection_window s1) s"

definition session_close :: "('s, unit) session_action" where
  "session_close s =
     (if se_closed s then (Inr (), s)
      else let s1 = s\<lparr>se_closed := True, se_connection := None, se_rejected_connections := {}, se_window := Idle,
             se_protocols := protocol_default, se_active_reconnect := False, se_pending_events := [], se_io := None\<rparr> in
        ((case se_io s of None \<Rightarrow> Inr () | Some io \<Rightarrow> io_close io), s1))"

section \<open>Opening\<close>

definition open_failed :: "host_error \<Rightarrow> session_error" where
  "open_failed e = (case e of HostPanic msg \<Rightarrow> Panicked msg | _ \<Rightarrow> Failed OpenFailed)"

definition register_servers :: "('s, unit) host_action" where
  "register_servers = act_each (\<lambda>psm. host_register_server psm server_spec) [SDP_PSM, HID_CONTROL_PSM, HID_INTERRUPT_PSM]"

definition session_initialize ::
  "'s bond_store \<Rightarrow> session_config \<Rightarrow> 's \<Rightarrow> open_io \<Rightarrow> ('s backend_session, session_error) result \<times> arrival stream" where
  "session_initialize store config bonds io =
     (case initialize_controller config io of
        (Inl err, io1) \<Rightarrow> (Inl err, oi_arrivals io1)
      | (Inr ic, io1) \<Rightarrow>
          (case select_local_address store (ic_local_address ic) bonds of
             (Inl _, _) \<Rightarrow> (Inl (Failed InvalidBondStore), oi_arrivals io1)
           | (Inr _, bonds1) \<Rightarrow>
               let (r, host) = register_servers (host_new bonds1 (unat (ic_acl_packet_length ic)) (ic_acl_packet_count ic)) in
               (case r of
                  Inl err \<Rightarrow> (Inl (open_failed err), oi_arrivals io1)
                | Inr _ \<Rightarrow> (Inr \<lparr>se_io = Some (oi_io io1),
                    se_capabilities = \<lparr>cap_local_address = ic_local_address ic, cap_controller_version = ic_version ic,
                      cap_usb = io_metadata (oi_io io1)\<rparr>,
                    se_config = config, se_host = host, se_window = Idle, se_connection = None,
                    se_rejected_connections = {}, se_protocols = protocol_default, se_active_reconnect = False,
                    se_terminal = None, se_closed = False, se_pending_events = []\<rparr>, oi_arrivals io1))))"

section \<open>Lemmas: the invariant of a session\<close>

definition session_inv :: "'s backend_session \<Rightarrow> bool" where
  "session_inv s \<longleftrightarrow> host_inv (se_host s) \<and> length (se_pending_events s) \<le> EVENT_QUEUE_CAPACITY
     \<and> (se_closed s \<longleftrightarrow> se_io s = None) \<and> (\<forall>msg. se_terminal s \<noteq> Some (Panicked msg))
     \<and> (case se_io s of None \<Rightarrow> True | Some io \<Rightarrow> list_all packet_wf (io_sent io))"

text \<open>What only opening and closing determine.\<close>

definition se_fixed :: "'s backend_session \<Rightarrow> bool \<times> session_config \<times> capabilities" where
  "se_fixed s = (se_closed s, se_config s, se_capabilities s)"

text \<open>An action keeps the invariant, does not panic, and neither closes the session nor changes its identity.\<close>

definition session_safe :: "('s, 'a) session_action \<Rightarrow> bool" where
  "session_safe a \<longleftrightarrow> (\<forall>s. session_inv s \<longrightarrow> session_inv (snd (a s)) \<and> (\<forall>msg. fst (a s) \<noteq> Inl (Panicked msg))
     \<and> se_fixed (snd (a s)) = se_fixed s)"

named_theorems session_safe_intros

lemma session_safe_then [session_safe_intros]: "session_safe a \<Longrightarrow> session_safe b \<Longrightarrow> session_safe (act_then a b)"
  unfolding session_safe_def act_then_def act_bind_def by (fastforce split: prod.splits sum.splits)

lemma session_safe_bind [session_safe_intros]:
  "session_safe a \<Longrightarrow> (\<And>x. session_safe (f x)) \<Longrightarrow> session_safe (act_bind a f)"
  unfolding session_safe_def act_bind_def by (fastforce split: prod.splits sum.splits)

lemma session_safe_each [session_safe_intros]: "(\<And>x. session_safe (f x)) \<Longrightarrow> session_safe (act_each f xs)"
  by (induction xs) (simp_all add: session_safe_then, simp add: session_safe_def)

lemma session_safe_prim [session_safe_intros]:
  "session_safe (act_ok x)" "session_safe (act_err (Failed k))"
  "(\<And>s. session_inv s \<Longrightarrow> session_inv (f s)) \<Longrightarrow> (\<And>s. se_fixed (f s) = se_fixed s) \<Longrightarrow> session_safe (act_modify f)"
  "(\<And>msg. r \<noteq> Inl (Panicked msg)) \<Longrightarrow> session_safe (act_lift r)"
  by (simp_all add: session_safe_def)

lemma session_safe_if [session_safe_intros]:
  "(b \<Longrightarrow> session_safe a) \<Longrightarrow> (\<not> b \<Longrightarrow> session_safe a') \<Longrightarrow> session_safe (if b then a else a')"
  by simp

text \<open>An action that first looks at the state.\<close>

lemma session_safe_at: "session_safe a \<Longrightarrow> session_inv s \<Longrightarrow>
    session_inv (snd (a s)) \<and> (\<forall>msg. fst (a s) \<noteq> Inl (Panicked msg)) \<and> se_fixed (snd (a s)) = se_fixed s"
  by (simp add: session_safe_def)

lemma session_safe_result:
  "session_safe a \<Longrightarrow> session_inv s \<Longrightarrow> a s = (r, t) \<Longrightarrow>
   session_inv t \<and> (\<forall>msg. r \<noteq> Inl (Panicked msg)) \<and> se_fixed t = se_fixed s"
  using session_safe_at [of a s] by simp

lemma session_safe_read: "(\<And>s. session_inv s \<Longrightarrow> session_safe (f s)) \<Longrightarrow> session_safe (\<lambda>s. f s s)"
  by (simp add: session_safe_def)

lemma enqueue_event_inv: "session_inv s \<Longrightarrow> session_inv (enqueue_event e s)"
  by (auto simp: session_inv_def enqueue_event_def)

lemma field_updates_inv [simp]:
  "session_inv (s\<lparr>se_window := w\<rparr>) = session_inv s" "session_inv (s\<lparr>se_connection := c\<rparr>) = session_inv s"
  "session_inv (s\<lparr>se_protocols := p\<rparr>) = session_inv s" "session_inv (s\<lparr>se_active_reconnect := b\<rparr>) = session_inv s"
  "session_inv (s\<lparr>se_rejected_connections := r\<rparr>) = session_inv s" "session_inv (put_protocols p s) = session_inv s"
  by (simp_all add: session_inv_def put_protocols_def)

lemma fixed_updates [simp]:
  "se_fixed (s\<lparr>se_window := w\<rparr>) = se_fixed s" "se_fixed (s\<lparr>se_connection := c\<rparr>) = se_fixed s"
  "se_fixed (s\<lparr>se_protocols := p\<rparr>) = se_fixed s" "se_fixed (s\<lparr>se_active_reconnect := b\<rparr>) = se_fixed s"
  "se_fixed (s\<lparr>se_rejected_connections := r\<rparr>) = se_fixed s" "se_fixed (put_protocols p s) = se_fixed s"
  "se_fixed (s\<lparr>se_host := h\<rparr>) = se_fixed s" "se_fixed (s\<lparr>se_io := i\<rparr>) = se_fixed s"
  "se_fixed (s\<lparr>se_pending_events := es\<rparr>) = se_fixed s" "se_fixed (enqueue_event e s) = se_fixed s"
  "se_fixed (record_terminal err s) = se_fixed s"
  by (simp_all add: se_fixed_def put_protocols_def enqueue_event_def record_terminal_def)

lemma send_packet_safe [session_safe_intros]: "packet_wf p \<Longrightarrow> session_safe (send_packet p)"
  by (auto simp: session_safe_def send_packet_def session_inv_def io_send_def Let_def split_beta
      split: option.splits list.splits bool.splits)

lemma send_command_safe [session_safe_intros]: "session_safe (send_command opcode ps)"
proof (cases "command_new opcode ps")
  case (Inr c)
  then have "packet_wf (Command c)"
    by (auto simp: command_new_def validate_u8_length_def command_wf_def split: if_splits)
  from send_packet_safe [OF this] Inr show ?thesis by (simp add: session_safe_def send_command_def)
qed (simp add: session_safe_def send_command_def)

lemma on_host_safe:
  assumes "safe_action op" "\<And>e msg. f e = Panicked msg \<Longrightarrow> e = HostPanic msg"
  shows "session_safe (on_host f op)"
proof -
  have "session_inv (snd (on_host f op s)) \<and> (\<forall>msg. fst (on_host f op s) \<noteq> Inl (Panicked msg))
    \<and> se_fixed (snd (on_host f op s)) = se_fixed s"
    if inv: "session_inv s" for s
  proof -
    from inv have "host_inv (snd (op (se_host s)))" "\<And>msg. fst (op (se_host s)) \<noteq> Inl (HostPanic msg)"
      using assms(1) by (auto simp: session_inv_def safe_action_def)
    with inv assms(2) show ?thesis
      by (cases "fst (op (se_host s))") (auto simp: on_host_def session_inv_def Let_def split_beta)
  qed
  then show ?thesis by (simp add: session_safe_def)
qed

lemma map_host_error_safe: "safe_action op \<Longrightarrow> session_safe (on_host map_host_error op)"
proof (rule on_host_safe)
  show "map_host_error e = Panicked msg \<Longrightarrow> e = HostPanic msg" for e msg by (cases e) simp_all
qed

lemma reject_send_safe: "safe_action op \<Longrightarrow> session_safe (on_host reject_send op)"
proof (rule on_host_safe)
  show "reject_send e = Panicked msg \<Longrightarrow> e = HostPanic msg" for e msg by (cases e) simp_all
qed

lemmas host_calls_safe [session_safe_intros] =
  map_host_error_safe [OF connect_channel_safe] map_host_error_safe [OF send_channel_sdu_safe]
  reject_send_safe [OF send_channel_sdu_safe] map_host_error_safe [OF handle_event_safe]
  map_host_error_safe [OF process_acl_safe]

lemma window_commands_safe [session_safe_intros]: "session_safe (set_scan a b)" "session_safe write_inquiry_response"
  by (simp_all add: set_scan_def send_command_safe)
    (simp add: session_safe_def write_inquiry_response_def session_safe_at [OF send_command_safe])

lemma close_window_safe: "session_safe (act_then write_inquiry_response (act_then (set_scan False True)
    (act_then (set_scan False False) (act_modify (\<lambda>s. s\<lparr>se_window := Idle\<rparr>)))))"
  by (intro session_safe_intros) simp_all

lemma end_connection_window_safe [session_safe_intros]: "session_safe end_connection_window"
  by (simp add: session_safe_def end_connection_window_def session_safe_at [OF close_window_safe])

lemma connect_then_safe:
  "session_safe (act_bind (on_host map_host_error (connect_channel psm spec)) (\<lambda>cid. act_modify (\<lambda>s. put_protocols (f cid s) s)))"
  by (intro session_safe_intros) simp_all

lemma start_active_reconnect_control_safe [session_safe_intros]: "session_safe start_active_reconnect_control"
  by (simp add: session_safe_def start_active_reconnect_control_def session_safe_at [OF connect_then_safe])

lemma connect_interrupt_safe: "session_safe connect_interrupt"
  by (simp add: session_safe_def connect_interrupt_def session_safe_at [OF connect_then_safe])

lemma open_channel_inv:
  "session_inv s \<Longrightarrow> session_inv (open_control cid mtu s)" "session_inv s \<Longrightarrow> session_inv (open_interrupt cid mtu s)"
  "se_fixed (open_control cid mtu s) = se_fixed s" "se_fixed (open_interrupt cid mtu s) = se_fixed s"
  by (simp_all add: open_control_def open_interrupt_def enqueue_event_inv)

lemma on_channel_opened_safe [session_safe_intros]: "session_safe (on_channel_opened psm cid)"
  by (auto simp: session_safe_def on_channel_opened_def open_channel_inv
      session_safe_at [OF connect_interrupt_safe] split: option.split)

lemma refresh_safe [session_safe_intros]: "session_safe refresh_outgoing_channels"
proof -
  have "session_safe (refresh_channel sel psm)" for sel psm
    by (auto simp: session_safe_def refresh_channel_def session_safe_at [OF on_channel_opened_safe] split: option.split)
  then show ?thesis unfolding refresh_outgoing_channels_def by (intro session_safe_intros)
qed

lemma handle_output_safe: "output_wf out \<Longrightarrow> session_safe (handle_output out)"
proof (cases out)
  case (OutEvent ev)
  then show ?thesis
    by (cases ev) (auto intro!: session_safe_intros enqueue_event_inv)
qed (auto simp: output_wf_def intro!: session_safe_intros)

lemma drain_safe_at:
  "session_inv s \<Longrightarrow> session_inv (snd (drain_host_output s)) \<and> (\<forall>msg. fst (drain_host_output s) \<noteq> Inl (Panicked msg))
    \<and> se_fixed (snd (drain_host_output s)) = se_fixed s"
proof (induction s rule: drain_host_output.induct)
  case (1 s)
  obtain o1 h where pop: "pop_output (se_host s) = (o1, h)" by fastforce
  from 1(2) have "host_inv (se_host s)" by (simp add: session_inv_def)
  with pop have h: "host_inv h" "\<And>out. o1 = Some out \<Longrightarrow> output_wf out"
    using pop_output_inv [of "se_host s"]
    by (auto simp: pop_output_def host_inv_def split: list.splits)
  with 1(2) have inv: "session_inv (s\<lparr>se_host := h\<rparr>)" by (simp add: session_inv_def)
  show ?case
  proof (cases o1)
    case None
    with pop inv show ?thesis by (simp add: drain_host_output.simps [of s])
  next
    case (Some out)
    obtain r t where out: "handle_output out (s\<lparr>se_host := h\<rparr>) = (r, t)" by fastforce
    note handled = session_safe_result [OF handle_output_safe [OF h(2) [OF Some]] inv out]
    with 1(1) [OF pop [symmetric] Some out [symmetric]] pop Some out show ?thesis
      by (cases r) (simp_all add: drain_host_output.simps [of s])
  qed
qed

lemma drain_safe [session_safe_intros]: "session_safe drain_host_output"
  by (simp add: session_safe_def drain_safe_at)

lemma apply_hidp_events_safe [session_safe_intros]: "session_safe (apply_hidp_events evs)"
proof -
  have "session_safe (apply_hidp_event ev)" for ev :: hidp_bridge_event
  proof (cases ev)
    case (ControlResponse b)
    then show ?thesis
      by (simp add: session_safe_def session_safe_at [OF host_calls_safe(2)] split: option.split)
  qed (auto intro!: session_safe_intros enqueue_event_inv)
  then show ?thesis unfolding apply_hidp_events_def by (rule session_safe_each)
qed

lemma answer_safe: "session_safe (answer_sdp cid sdu)" "session_safe (answer_hid ch cid sdu)"
proof -
  show "session_safe (answer_sdp cid sdu)"
    by (simp add: session_safe_def answer_sdp_def split_beta Let_def session_safe_at [OF host_calls_safe(2)]
        split: option.split)
  show "session_safe (answer_hid ch cid sdu)"
    by (simp add: session_safe_def answer_hid_def split_beta Let_def session_safe_at [OF host_calls_safe(2)]
        session_safe_at [OF apply_hidp_events_safe] split: sum.split hidp_bridge_error.split hid_channel.split)
qed

lemma take_channel_sdu_session:
  "session_inv s \<Longrightarrow> take_channel_sdu cid (se_host s) = (r, h) \<Longrightarrow> session_inv (s\<lparr>se_host := h\<rparr>)"
  using take_channel_sdu_inv [of "se_host s" cid] by (simp add: session_inv_def)

lemma sdp_loop_safe_at:
  "session_inv s \<Longrightarrow> session_inv (snd (sdp_loop cid s)) \<and> (\<forall>msg. fst (sdp_loop cid s) \<noteq> Inl (Panicked msg))
    \<and> se_fixed (snd (sdp_loop cid s)) = se_fixed s"
proof (induction cid s rule: sdp_loop.induct)
  case (1 cid s)
  obtain r h where taken: "take_channel_sdu cid (se_host s) = (r, h)" by fastforce
  note inv = take_channel_sdu_session [OF 1(2) taken]
  show ?case
  proof (cases r)
    case (Some sdu)
    obtain q t where answer: "answer_sdp cid sdu (s\<lparr>se_host := h\<rparr>) = (q, t)" by fastforce
    note answered = session_safe_result [OF answer_safe(1) inv answer]
    with 1(1) [OF taken [symmetric] Some answer [symmetric]] taken Some answer show ?thesis
      by (cases q) (simp_all add: sdp_loop.simps [of cid s])
  qed (use taken inv in \<open>simp add: sdp_loop.simps\<close>)
qed

lemma hid_loop_safe_at:
  "session_inv s \<Longrightarrow> session_inv (snd (hid_loop ch cid s)) \<and> (\<forall>msg. fst (hid_loop ch cid s) \<noteq> Inl (Panicked msg))
    \<and> se_fixed (snd (hid_loop ch cid s)) = se_fixed s"
proof (induction ch cid s rule: hid_loop.induct)
  case (1 ch cid s)
  obtain r h where taken: "take_channel_sdu cid (se_host s) = (r, h)" by fastforce
  note inv = take_channel_sdu_session [OF 1(2) taken]
  show ?case
  proof (cases r)
    case (Some sdu)
    obtain q t where answer: "answer_hid ch cid sdu (s\<lparr>se_host := h\<rparr>) = (q, t)" by fastforce
    note answered = session_safe_result [OF answer_safe(2) inv answer]
    with 1(1) [OF taken [symmetric] Some answer [symmetric]] taken Some answer show ?thesis
      by (cases q) (simp_all add: hid_loop.simps [of ch cid s])
  qed (use taken inv in \<open>simp add: hid_loop.simps\<close>)
qed

lemma input_loops_safe [session_safe_intros]: "session_safe (sdp_loop cid)" "session_safe (hid_loop ch cid)"
  by (simp_all add: session_safe_def sdp_loop_safe_at hid_loop_safe_at)

lemma hid_input_safe [session_safe_intros]: "session_safe (hid_input cp)"
  by (cases cp) (auto simp: hid_input_def split: option.split intro!: session_safe_intros)

lemma process_protocol_input_safe [session_safe_intros]: "session_safe process_protocol_input"
proof -
  have hid: "session_safe (\<lambda>s :: 's backend_session. act_each hid_input
      [(ControlChannel, ps_control (se_protocols s)), (InterruptChannel, ps_interrupt (se_protocols s))] s)"
    by (rule session_safe_read) (intro session_safe_intros)
  have "session_safe (\<lambda>s :: 's backend_session. act_then (act_each sdp_loop (bt_keys (ps_sdp (se_protocols s)))) (\<lambda>s.
      act_each hid_input [(ControlChannel, ps_control (se_protocols s)), (InterruptChannel, ps_interrupt (se_protocols s))] s) s)"
    by (rule session_safe_read) (intro session_safe_then session_safe_each input_loops_safe hid)
  then show "session_safe (process_protocol_input :: ('s, unit) session_action)"
    by (simp add: session_safe_def process_protocol_input_def)
qed

lemma decode_total: "decode_classic_event event \<noteq> Inl (Panicked msg)"
  by (auto simp: decode_classic_event_def completed_packet_events_def require_len_def address_at_def Let_def
      split: if_splits list.splits)

lemma require_len_total: "require_len ps n \<noteq> Inl (Panicked msg)"
  by (simp add: require_len_def)

lemma address_at_total: "address_at ps n \<noteq> Inl (Panicked msg)"
  by (simp add: address_at_def)

lemma check_event_safe [session_safe_intros]: "session_safe (check_event event :: ('s, bool) session_action)"
proof -
  have answer: "session_safe (act_then (send_command opcode ps) (act_ok x))" for opcode ps and x :: bool
    by (intro session_safe_intros)
  have reject: "session_safe (act_then (send_command opcode ps) (act_then (act_modify (\<lambda>s.
      s\<lparr>se_rejected_connections := insert handle (se_rejected_connections s)\<rparr>)) (act_ok x)))" for opcode ps handle and x :: bool
    by (intro session_safe_intros) simp_all
  have failed: "session_safe (act_then end_connection_window (act_then (act_modify (\<lambda>s.
      enqueue_event e (s\<lparr>se_active_reconnect := False\<rparr>))) (act_ok x)))" for e and x :: bool
    by (intro session_safe_intros enqueue_event_inv) simp_all
  have "session_safe (check_connection_request ps :: ('s, bool) session_action)" for ps
    unfolding check_connection_request_def
    by (intro session_safe_then session_safe_bind session_safe_prim require_len_total address_at_total)
      (simp add: session_safe_def Let_def split_beta session_safe_at [OF answer])
  moreover have "session_safe (check_connection_complete ps :: ('s, bool) session_action)" for ps
    unfolding check_connection_complete_def
    by (intro session_safe_then session_safe_bind session_safe_prim require_len_total address_at_total)
      (simp add: session_safe_def Let_def session_safe_at [OF reject] session_safe_at [OF failed])
  moreover have "session_safe (check_disconnection_complete ps :: ('s, bool) session_action)" for ps
    unfolding check_disconnection_complete_def
    by (intro session_safe_then session_safe_prim require_len_total) (simp add: session_safe_def Let_def)
  ultimately show ?thesis by (simp add: check_event_def Let_def session_safe_prim)
qed

lemma handle_packet_safe: "session_safe (handle_packet store p)"
proof (cases p)
  case (Event event)
  have "session_safe (forward_event store event)"
    unfolding forward_event_def by (intro session_safe_intros decode_total)
  then have "session_safe (session_handle_event store event)"
    unfolding session_handle_event_def by (intro session_safe_intros)
  with Event show ?thesis by (simp add: session_safe_def)
qed (auto intro!: session_safe_intros)

lemma receive_safe [session_safe_intros]: "session_safe (receive store a)"
proof -
  have terminal: "session_inv s \<Longrightarrow> session_inv (record_terminal (Failed k) s)" for k and s :: "'a backend_session"
    by (simp add: session_inv_def record_terminal_def)
  have polled: "session_safe (handle_polled_packet store p)" for p
    unfolding session_safe_def
  proof (intro allI impI)
    fix s :: "'a backend_session" assume "session_inv s"
    from session_safe_at [OF handle_packet_safe this, of store p]
    show "session_inv (snd (handle_polled_packet store p s)) \<and> (\<forall>msg. fst (handle_polled_packet store p s) \<noteq> Inl (Panicked msg))
    \<and> se_fixed (snd (handle_polled_packet store p s)) = se_fixed s"
      by (cases "handle_packet store p s"; cases "fst (handle_packet store p s)")
        (auto simp: handle_polled_packet_def session_inv_def record_terminal_def se_fixed_def split: option.split)
  qed
  have "session_safe (act_then (handle_polled_packet store p) (act_ok True))" for p
    by (intro session_safe_then session_safe_prim polled)
  then show ?thesis
    using terminal by (cases a) (auto simp: session_safe_def receive_def split: option.split)
qed

section \<open>Lemmas: calls of the application\<close>

datatype session_op =
    DoPairing
  | DoReconnect
  | DoPoll "arrival list"
  | DoSend bytes
  | DoDrain "arrival option list"
  | DoDisconnect
  | DoClose

text \<open>One call, its value dropped.\<close>

fun session_call :: "'s bond_store \<Rightarrow> session_op \<Rightarrow> ('s, unit) session_action" where
  "session_call store DoPairing = start_pairing"
| "session_call store DoReconnect = start_reconnect store"
| "session_call store (DoPoll as) = act_then (poll store as) (act_ok ())"
| "session_call store (DoSend payload) = send_interrupt payload"
| "session_call store (DoDrain as) = drain_interrupt store as"
| "session_call store DoDisconnect = session_disconnect"
| "session_call store DoClose = session_close"

definition session_step :: "'s bond_store \<Rightarrow> 's backend_session \<Rightarrow> session_op \<Rightarrow> 's backend_session" where
  "session_step store s op = snd (session_call store op s)"

lemma ensure_active_total: "session_inv s \<Longrightarrow> session_ensure_active s \<noteq> Inl (Panicked msg)"
  by (auto simp: session_ensure_active_def session_inv_def split: option.split)

text \<open>Every operation but closing starts with the same check.\<close>

lemma guarded_safe:
  assumes "\<And>s. session_inv s \<Longrightarrow> session_safe (f s)"
  shows "session_safe (\<lambda>s. act_then (act_lift (session_ensure_active s)) (f s) s)"
  by (rule session_safe_read) (intro session_safe_then session_safe_prim ensure_active_total assms)

lemma start_pairing_safe: "session_safe start_pairing"
proof -
  have "session_safe (\<lambda>s. act_then (act_lift (session_ensure_active s)) (case se_window s of
       Pairing _ \<Rightarrow> act_ok ()
     | Idle \<Rightarrow> act_then (set_scan False True) (act_then write_inquiry_response (act_then (set_scan True True)
         (act_modify (\<lambda>s. s\<lparr>se_active_reconnect := False, se_window := Pairing None\<rparr>))))
     | _ \<Rightarrow> act_err (Failed SendRejected)) (s :: 's backend_session))"
    by (rule guarded_safe) (auto split: connection_window.split intro!: session_safe_intros)
  then show "session_safe (start_pairing :: ('s, unit) session_action)" by (simp add: session_safe_def start_pairing_def)
qed

lemma connect_to_safe [session_safe_intros]: "session_safe (connect_to peer)"
  unfolding connect_to_def by (intro session_safe_intros) simp_all

lemma single_bond_total: "single_bond store bonds \<noteq> Inl (Panicked msg)"
  by (auto simp: single_bond_def split: sum.split list.split)

lemma start_reconnect_safe: "session_safe (start_reconnect store)"
proof -
  have "session_safe (\<lambda>s. act_then (act_lift (session_ensure_active s)) (case se_window s of
       Reconnecting _ \<Rightarrow> act_ok ()
     | Idle \<Rightarrow> act_bind (act_lift (single_bond store (ho_bonds (se_host s)))) connect_to
     | _ \<Rightarrow> act_err (Failed SendRejected)) s)"
    by (rule guarded_safe) (auto simp: single_bond_total split: connection_window.split intro!: session_safe_intros)
  then show ?thesis by (simp add: session_safe_def start_reconnect_def)
qed

lemma poll_loop_safe [session_safe_intros]: "session_safe (poll_loop store as)"
  by (induction as) (auto intro!: session_safe_intros)

lemma take_events_safe [session_safe_intros]: "session_safe (\<lambda>s. (Inr (se_pending_events s), s\<lparr>se_pending_events := []\<rparr>))"
  by (simp add: session_safe_def session_inv_def)

lemma poll_safe: "session_safe (poll store as)"
proof -
  have "session_safe (\<lambda>s. act_then (act_lift (session_ensure_active s))
     (act_then (if se_pending_events s = []
        then case as of
            [] \<Rightarrow> act_then (receive store ArrivedTimeout) (poll_loop store [])
          | a # rest \<Rightarrow> act_then (receive store a) (poll_loop store rest)
        else poll_loop store as)
     (\<lambda>s. (Inr (se_pending_events s), s\<lparr>se_pending_events := []\<rparr>))) s)"
    by (rule guarded_safe)
      (auto simp del: poll_loop.simps split: list.split intro!: session_safe_intros)
  then show ?thesis by (simp add: session_safe_def poll_def)
qed

lemma encode_input_total: "map_err (\<lambda>_. Failed k) r \<noteq> Inl (Panicked msg)"
  by (cases r) simp_all

lemma send_interrupt_safe: "session_safe (send_interrupt payload)"
proof -
  have "session_safe (\<lambda>s. act_then (act_lift (session_ensure_active s)) (case ps_interrupt (se_protocols s) of
       Some c \<Rightarrow>
         if pc_open c then
           act_bind (act_lift (map_err (\<lambda>_. Failed SendRejected) (encode_input (ps_hidp (se_protocols s)) payload)))
             (\<lambda>encoded. act_then (on_host reject_send (send_channel_sdu (pc_cid c) encoded)) drain_host_output)
         else act_err (Failed SendRejected)
     | None \<Rightarrow> act_err (Failed SendRejected)) (s :: 's backend_session))"
    by (rule guarded_safe) (auto simp: encode_input_total split: option.split intro!: session_safe_intros)
  then show "session_safe (send_interrupt payload :: ('s, unit) session_action)"
    by (simp add: session_safe_def send_interrupt_def)
qed

lemma drain_interrupt_loop_safe: "session_safe (drain_interrupt_loop store as)"
proof (induction as)
  case (Cons a as)
  then have "session_safe (act_bind (receive store b) (\<lambda>received.
      if received then drain_interrupt_loop store as else act_err (Failed DrainTimedOut)))" for b
    by (auto intro!: session_safe_intros)
  then show ?case by (cases a) (simp_all add: session_safe_def)
qed (simp add: session_safe_def)

lemma drain_interrupt_safe: "session_safe (drain_interrupt store as)"
  using guarded_safe [of "\<lambda>_. drain_interrupt_loop store as", OF drain_interrupt_loop_safe]
  by (simp add: session_safe_def drain_interrupt_def)

lemma session_disconnect_safe: "session_safe session_disconnect"
proof -
  have command: "session_safe (act_then (case c of
         Some (p, handle) \<Rightarrow> send_command HCI_DISCONNECT (le16_bytes handle @ [REMOTE_USER_TERMINATED_CONNECTION])
       | None \<Rightarrow> act_ok ()) end_connection_window)" for c :: "(bluetooth_address \<times> u16) option"
    by (auto split: option.split intro!: session_safe_intros)
  have "session_safe (\<lambda>s :: 's backend_session. act_then (act_lift (session_ensure_active s)) (\<lambda>s.
     let s1 = s\<lparr>se_protocols := protocol_default, se_active_reconnect := False, se_connection := None\<rparr> in
     act_then (case se_connection s of
         Some (_, handle) \<Rightarrow> send_command HCI_DISCONNECT (le16_bytes handle @ [REMOTE_USER_TERMINATED_CONNECTION])
       | None \<Rightarrow> act_ok ()) end_connection_window s1) s)"
    by (rule guarded_safe) (simp add: session_safe_def Let_def session_safe_at [OF command])
  then show "session_safe (session_disconnect :: ('s, unit) session_action)"
    by (simp add: session_safe_def session_disconnect_def)
qed

lemma session_close_inv: "session_inv s \<Longrightarrow> session_inv (snd (session_close s)) \<and> fst (session_close s) \<noteq> Inl (Panicked msg)"
  by (auto simp: session_close_def session_inv_def io_close_def Let_def split: option.splits)

lemma session_call_safe: "op \<noteq> DoClose \<Longrightarrow> session_safe (session_call store op)"
  using session_safe_then [OF poll_safe session_safe_prim(1)]
  by (cases op) (simp_all add: start_pairing_safe start_reconnect_safe send_interrupt_safe drain_interrupt_safe
      session_disconnect_safe)

lemma session_call_inv:
  assumes "session_inv s"
  shows "session_inv (snd (session_call store op s)) \<and> fst (session_call store op s) \<noteq> Inl (Panicked msg)"
  using session_close_inv [OF assms] session_safe_at [OF session_call_safe assms, of op store]
  by (cases "op = DoClose") auto

end
