(* ===== verification/Session_Properties.thy ===== *)
theory Session_Properties
  imports Session_Driver
begin

text \<open>
  What a session guarantees over its whole life: the invariant of every reachable session, the finality of a
  failure and of closing, who may connect, and that an input report reaches the controller.
\<close>

section \<open>Lemmas: opening\<close>

lemma safe_each: "(\<And>x. safe_action (f x)) \<Longrightarrow> safe_action (act_each f xs)"
  by (induction xs) (auto simp del: act_simps intro!: safe_then safe_ok)

lemma register_servers_safe: "safe_action register_servers"
  unfolding register_servers_def by (intro safe_each host_register_server_safe)

lemma host_new_inv: "host_inv (host_new bonds sz n)"
  using host.inv_start [of "host_new bonds sz n"] by blast

lemma opening_commands_wf:
  assumes "Api.config_ok config"
  shows "list_all packet_wf (map command_of (setup_packets v @ identity_packets config))"
  using assms by (simp add: command_of_def setup_packets_def identity_packets_def command_wf_def Api.config_ok_def
      EVENT_MASK_def LE_EVENT_MASK_def LEGACY_LE_EVENT_MASK_def)

lemma session_initialize_inv:
  assumes "Api.config_ok config" "io_sent (oi_io io) = []" "session_initialize store config bonds io = (Inr s, as)"
  shows "session_inv s \<and> \<not> se_closed s \<and> se_terminal s = None \<and> se_window s = Idle"
proof -
  from assms(3) obtain ic io1 bonds1 where ic: "initialize_controller config io = (Inr ic, io1)"
    and bonds: "select_local_address store (ic_local_address ic) bonds = (Inr (), bonds1)"
    by (auto simp: session_initialize_def split: prod.splits sum.splits)
  obtain r h where h: "register_servers (host_new bonds1 (unat (ic_acl_packet_length ic)) (ic_acl_packet_count ic)) = (r, h)"
    by fastforce
  have "host_inv h" using safe_actionD(1) [OF register_servers_safe host_new_inv] h by (metis snd_conv)
  moreover have "list_all packet_wf (io_sent (oi_io io1))"
    using initialized_sound [OF ic] opening_commands_wf [OF assms(1)] assms(2) by (simp add: sent_by_def)
  ultimately show ?thesis
    using assms(3) ic bonds h by (auto simp: session_initialize_def session_inv_def split: sum.splits)
qed

definition opened_session :: "'s bond_store \<Rightarrow> 's backend_session \<Rightarrow> bool" where
  "opened_session store s \<longleftrightarrow> (\<exists>config bonds io as. Api.config_ok config \<and> io_sent (oi_io io) = []
     \<and> session_initialize store config bonds io = (Inr s, as))"

interpretation session: panic_free_machine "opened_session store" "session_step store" session_inv
  "\<lambda>s op. session_call store op s" "\<lambda>r. \<exists>msg. r = Inl (Panicked msg)" for store :: "'s bond_store"
proof unfold_locales
  show "opened_session store s \<Longrightarrow> session_inv s" for s :: "'s backend_session"
    unfolding opened_session_def using session_initialize_inv [of _ _ store _ s] by blast
  show "session_inv s \<Longrightarrow> session_inv (session_step store s op)" for s :: "'s backend_session" and op
    using session_call_inv [of s store op] by (simp add: session_step_def)
  show "session_step store s op = snd (session_call store op s)" for s :: "'s backend_session" and op
    by (simp add: session_step_def)
  show "session_inv s \<Longrightarrow> \<not> (\<exists>msg. fst (session_call store op s) = Inl (Panicked msg))" for s :: "'s backend_session" and op
    using session_call_inv [of s store op] by blast
qed

section \<open>Lemmas: failures\<close>

lemma inactive_calls:
  assumes "session_ensure_active s = Inl err" "op \<noteq> DoClose"
  shows "session_call store op s = (Inl err, s)"
  using assms by (cases op) (simp_all add: start_pairing_def start_reconnect_def poll_def send_interrupt_def
      drain_interrupt_def session_disconnect_def act_then_def act_bind_def)

lemma receive_failure: "receive store a s = (Inl err, t) \<Longrightarrow> se_io s \<noteq> None \<Longrightarrow> se_terminal t = Some err"
  by (cases a) (auto simp: receive_def record_terminal_def handle_polled_packet_def act_then_def act_bind_def
      split: option.splits prod.splits sum.splits)

lemma receive_success: "receive store a s = (Inr b, t) \<Longrightarrow> session_inv s \<Longrightarrow> session_inv t \<and> (se_io t = None \<longleftrightarrow> se_io s = None)"
  using session_safe_result [OF receive_safe, of s store a "Inr b" t] by (auto simp: session_inv_def se_fixed_def)

lemma poll_loop_failure:
  "poll_loop store as s = (Inl err, t) \<Longrightarrow> session_inv s \<Longrightarrow> se_io s \<noteq> None \<Longrightarrow> se_terminal t = Some err"
proof (induction as arbitrary: s)
  case Nil
  then show ?case by (auto simp: act_then_def act_bind_def dest: receive_failure split: prod.splits sum.splits)
next
  case (Cons a as)
  show ?case
  proof (cases rule: act_bind_cases [of "receive store a" s "\<lambda>received. if received then poll_loop store as else act_ok ()"])
    case (Err e u)
    with Cons.prems show ?thesis by (auto dest: receive_failure)
  next
    case (Ok received u)
    with Cons.prems have "received" "poll_loop store as u = (Inl err, t)" by (auto split: if_splits)
    with Cons.IH [of u] receive_success [OF Ok(1) Cons.prems(2)] Cons.prems(3) show ?thesis by simp
  qed
qed

lemma poll_failure:
  assumes "session_inv s" "session_ensure_active s = Inr ()" "poll store as s = (Inl err, t)"
  shows "se_terminal t = Some err"
proof -
  from assms(1,2) have io: "se_io s \<noteq> None"
    by (auto simp: session_ensure_active_def session_inv_def split: if_splits)
  have first: "se_terminal t = Some err" if "act_then (receive store a) (poll_loop store rest) s = (Inl err, t)" for a rest
  proof (cases rule: act_bind_cases [of "receive store a" s "\<lambda>_. poll_loop store rest"])
    case (Err e u)
    with that io show ?thesis by (auto simp: act_then_def dest: receive_failure)
  next
    case (Ok b u)
    with that io assms(1) receive_success [OF Ok(1) assms(1)] poll_loop_failure [of store rest u err t]
    show ?thesis by (simp add: act_then_def)
  qed
  define inner where "inner = (if se_pending_events s = []
    then case as of
        [] \<Rightarrow> act_then (receive store ArrivedTimeout) (poll_loop store [])
      | a # rest \<Rightarrow> act_then (receive store a) (poll_loop store rest)
    else poll_loop store as)"
  have "inner s = (Inl err, t)"
    using assms(2,3) unfolding poll_def inner_def [symmetric]
    by (auto simp: act_then_def act_bind_def split: prod.splits sum.splits)
  then show ?thesis
    using first poll_loop_failure [OF _ assms(1) io]
    by (auto simp: inner_def simp del: poll_loop.simps split: if_splits list.splits)
qed

section \<open>Lemmas: sending\<close>

lemma ready_transport:
  assumes "se_io s = Some io" "io_faults io = []"
  shows "send_packet p s = (Inr (), s\<lparr>se_io := Some (io\<lparr>io_sent := io_sent io @ [p]\<rparr>)\<rparr>)"
  using assms by (simp add: send_packet_def io_send_def)

lemma drain_acl:
  assumes "se_io s = Some io" "io_faults io = []" "ho_output (se_host s) = map OutAcl ps"
  shows "drain_host_output s = (Inr (), s\<lparr>se_host := (se_host s)\<lparr>ho_output := []\<rparr>,
    se_io := Some (io\<lparr>io_sent := io_sent io @ map Acl ps\<rparr>)\<rparr>)"
  using assms
proof (induction ps arbitrary: s io)
  case Nil
  then have "pop_output (se_host s) = (None, (se_host s)\<lparr>ho_output := []\<rparr>)" by (simp add: pop_output_def)
  with Nil show ?case by (simp add: drain_host_output.simps [of s])
next
  case (Cons p ps)
  let ?s = "s\<lparr>se_host := (se_host s)\<lparr>ho_output := map OutAcl ps\<rparr>\<rparr>"
  let ?t = "?s\<lparr>se_io := Some (io\<lparr>io_sent := io_sent io @ [Acl p]\<rparr>)\<rparr>"
  have "pop_output (se_host s) = (Some (OutAcl p), (se_host s)\<lparr>ho_output := map OutAcl ps\<rparr>)"
    using Cons.prems by (simp add: pop_output_def)
  moreover have "send_packet (Acl p) ?s = (Inr (), ?t)"
    using Cons.prems by (intro ready_transport) simp_all
  ultimately have "drain_host_output s = drain_host_output ?t"
    by (simp add: drain_host_output.simps [of s])
  also have "\<dots> = (Inr (), s\<lparr>se_host := (se_host s)\<lparr>ho_output := []\<rparr>,
      se_io := Some (io\<lparr>io_sent := io_sent io @ map Acl (p # ps)\<rparr>)\<rparr>)"
    using Cons.IH [of ?t "io\<lparr>io_sent := io_sent io @ [Acl p]\<rparr>"] Cons.prems by simp
  finally show ?case .
qed

text \<open>Of what a host has to send, some is written now and the rest stays queued.\<close>

lemma drain_pending:
  assumes "se_io s = Some io" "io_faults io = []" "pending_output (se_host s) = map OutAcl ps"
  shows "\<exists>us. drain_host_output s = (Inr (), s\<lparr>se_host := (se_host s)\<lparr>ho_output := []\<rparr>,
      se_io := Some (io\<lparr>io_sent := io_sent io @ map Acl us\<rparr>)\<rparr>)
    \<and> us @ fl_queued (ho_acl_flow (se_host s)) = ps"
proof -
  from assms(3) have "map OutAcl ps = ho_output (se_host s) @ map OutAcl (fl_queued (ho_acl_flow (se_host s)))"
    by (simp add: pending_output_def)
  from map_eq_append_conv [THEN iffD1, OF this]
  obtain us vs where all: "ps = us @ vs" and sent: "ho_output (se_host s) = map OutAcl us"
    and kept: "map OutAcl (fl_queued (ho_acl_flow (se_host s))) = map OutAcl vs"
    by (elim exE conjE) (rule that)
  from kept have "fl_queued (ho_acl_flow (se_host s)) = vs" by (rule map_injective) (simp add: inj_def)
  with all drain_acl [OF assms(1,2) sent] show ?thesis by auto
qed

lemma input_report_encoded:
  "length payload < br_interrupt_peer_mtu br \<Longrightarrow> encode_input br payload = Inr (0xA1 # payload)"
  by (simp add: encode_input_def check_peer_mtu_def device_data_def message_to_bytes_def)

section \<open>Events on the wire\<close>

definition connection_request :: "bluetooth_address \<Rightarrow> bytes \<Rightarrow> u8 \<Rightarrow> packet" where
  "connection_request peer class link_type = Event \<lparr>ev_event_code = EVENT_CONNECTION_REQUEST,
     ev_parameters = addr_bytes_le peer @ class @ [link_type]\<rparr>"

definition connection_complete :: "u8 \<Rightarrow> u16 \<Rightarrow> bluetooth_address \<Rightarrow> u8 \<Rightarrow> u8 \<Rightarrow> packet" where
  "connection_complete status handle peer link_type encryption = Event \<lparr>ev_event_code = EVENT_CONNECTION_COMPLETE,
     ev_parameters = status # le16_bytes handle @ addr_bytes_le peer @ [link_type, encryption]\<rparr>"

definition disconnection_complete :: "u16 \<Rightarrow> u8 \<Rightarrow> packet" where
  "disconnection_complete handle reason = Event \<lparr>ev_event_code = EVENT_DISCONNECTION_COMPLETE,
     ev_parameters = 0 # le16_bytes handle @ [reason]\<rparr>"

definition public_address :: "bluetooth_address \<Rightarrow> bool" where
  "public_address a \<longleftrightarrow> length (addr_bytes_le a) = 6 \<and> addr_kind a = Public"

text \<open>The session after it has written packets to its transport.\<close>

definition wrote :: "packet list \<Rightarrow> 's backend_session \<Rightarrow> 's backend_session" where
  "wrote ps s = s\<lparr>se_io := map_option (\<lambda>io. io\<lparr>io_sent := io_sent io @ ps\<rparr>) (se_io s)\<rparr>"

definition writable :: "'s backend_session \<Rightarrow> bool" where
  "writable s \<longleftrightarrow> (case se_io s of Some io \<Rightarrow> io_faults io = [] | None \<Rightarrow> False)"

lemma writable_updates [simp]:
  "writable (wrote ps s) = writable s" "writable (s\<lparr>se_window := w\<rparr>) = writable s"
  by (simp_all add: writable_def wrote_def split: option.split)

lemma wrote_again: "wrote qs (wrote ps s) = wrote (ps @ qs) s"
  by (cases s) (simp add: wrote_def option.map_comp comp_def)

lemma send_writable:
  "writable s \<Longrightarrow> length ps \<le> 255 \<Longrightarrow> send_command opcode ps s = (Inr (), wrote [command_of (opcode, ps)] s)"
  by (auto simp: send_command_def command_new_def validate_u8_length_def writable_def wrote_def command_of_def
      ready_transport split: option.splits)

lemma handle_at_le16: "handle_at (a # le16_bytes handle @ rest) 1 = handle"
    "handle_at (a # le16_bytes handle @ rest) (Suc 0) = handle"
  by (simp_all add: handle_at_def le16_bytes_def)

lemma address_eq: "public_address peer \<Longrightarrow> address_from_le_bytes (addr_bytes_le peer) Public = peer"
  by (cases peer) (simp add: public_address_def address_from_le_bytes_def)

lemma admit_refused: "\<not> fst (admit w peer) \<Longrightarrow> snd (admit w peer) = w"
  by (cases "(w, peer)" rule: admit.cases) auto

lemma address_at_request: "public_address peer \<Longrightarrow> address_at (addr_bytes_le peer @ rest) 0 = Inr peer"
  using address_eq [of peer] by (simp add: address_at_def public_address_def)

lemma address_at_complete:
  "public_address peer \<Longrightarrow> address_at (status # le16_bytes handle @ addr_bytes_le peer @ rest) 3 = Inr peer"
  using address_eq [of peer] by (simp add: address_at_def le16_bytes_def numeral_3_eq_3 public_address_def)

lemma session_stays_safe:
  assumes "session_config_new local_name class_of_device hid_service = Inr config"
    and "io_sent (oi_io io) = []" "session_initialize store config bonds io = (Inr s0, as)"
  shows "let s = foldl (session_step store) s0 ops; flow = ho_acl_flow (se_host s) in
    length (se_pending_events s) \<le> 64
    \<and> credits (fl_in_flight flow) \<le> unat (fl_total_packets flow)
    \<and> (case se_io s of None \<Rightarrow> se_closed s | Some io \<Rightarrow> \<not> se_closed s \<and> list_all packet_wf (io_sent io))
    \<and> se_capabilities s = se_capabilities s0 \<and> se_config s = config
    \<and> fst (session_call store op s) \<noteq> Inl (Panicked msg)"
proof -
  let ?s = "foldl (session_step store) s0 ops"
  have ok: "Api.config_ok config" using assms(1) by (rule session_config_ok)
  have opened: "opened_session store s0" unfolding opened_session_def using ok assms(2,3) by blast
  note inv0 = session.inv_start [OF opened] and inv = session.inv_reachable [OF opened, of ops]
  have close: "se_config (snd (session_close s)) = se_config s" "se_capabilities (snd (session_close s)) = se_capabilities s"
    for s :: "'a backend_session" by (simp_all add: session_close_def Let_def)
  have "(se_config (session_step store s o1), se_capabilities (session_step store s o1)) = (se_config s, se_capabilities s)"
    if "session_inv s" for s o1
    using that session_safe_at [OF session_call_safe that, of o1 store]
    by (cases "o1 = DoClose") (auto simp: session_step_def close se_fixed_def)
  then have "(se_config ?s, se_capabilities ?s) = (se_config s0, se_capabilities s0)"
    using inv0 by (induction ops arbitrary: s0) (auto simp: session.inv_step)
  moreover have "se_config s0 = config"
    using assms(3) by (auto simp: session_initialize_def Let_def split: prod.splits sum.splits)
  moreover have "fst (session_call store op ?s) \<noteq> Inl (Panicked msg)" using session.never_panics [OF opened] by blast
  ultimately show ?thesis
    using inv by (auto simp: Let_def session_inv_def host_inv_def flow_inv_def credits_inv_def split: option.split)
qed

section \<open>Properties\<close>

text \<open>C16: every reachable session is safe. From a session that opened with an accepted configuration, whatever the
  application calls, whatever arrives from the controller and whichever writes fail, at most 64 events wait
  for the application, the packets in flight never exceed the buffers of the controller, every packet written
  was well formed, the transport is held exactly until the session is closed, the reported capabilities never
  change, and no call panics.\<close>

theorem session_reachable:
  assumes "session_config_new local_name class_of_device hid_service = Inr config"
    and "io_sent (oi_io io) = []" "session_initialize store config bonds io = (Inr s0, as)"
  shows "let s = foldl (session_step store) s0 ops; flow = ho_acl_flow (se_host s) in
    length (se_pending_events s) \<le> 64
    \<and> credits (fl_in_flight flow) \<le> unat (fl_total_packets flow)
    \<and> (case se_io s of None \<Rightarrow> se_closed s | Some io \<Rightarrow> \<not> se_closed s \<and> list_all packet_wf (io_sent io))
    \<and> se_capabilities s = se_capabilities s0 \<and> se_config s = config
    \<and> fst (session_call store op s) \<noteq> Inl (Panicked msg)"
  using assms by (rule session_stays_safe)

text \<open>C17: a failure is final. When polling an active session fails, with a broken transport, a protocol violation, a bond
  store error or an overflow of the event queue, every later call but closing returns that same error and
  changes nothing. Closing discards the waiting events; after it every call reports a closed session,
  changes nothing, and closing again succeeds.\<close>

theorem session_failure_final:
  assumes "session_inv s" "session_ensure_active s = Inr ()" "poll store as s = (Inl err, t)"
  shows "(\<forall>op. op \<noteq> DoClose \<longrightarrow> session_call store op t = (Inl err, t))
    \<and> (let t' = snd (session_close t) in
        se_closed t' \<and> se_pending_events t' = [] \<and> se_io t' = None \<and> session_close t' = (Inr (), t')
        \<and> (\<forall>op. op \<noteq> DoClose \<longrightarrow> session_call store op t' = (Inl (Failed SessionClosed), t')))"
proof -
  have inv: "se_fixed t = se_fixed s"
    using session_safe_result [OF poll_safe assms(1,3)] by simp
  with assms(2) have open': "\<not> se_closed t" by (auto simp: session_ensure_active_def se_fixed_def split: if_splits)
  with poll_failure [OF assms] have "session_ensure_active t = Inl err" by (simp add: session_ensure_active_def)
  note failed = inactive_calls [OF this]
  have closed: "se_closed (snd (session_close t))" by (simp add: session_close_def Let_def)
  then have "session_ensure_active (snd (session_close t)) = Inl (Failed SessionClosed)"
    by (simp add: session_ensure_active_def)
  note after = inactive_calls [OF this]
  have "session_close (snd (session_close t)) = (Inr (), snd (session_close t))"
    using closed by (simp add: session_close_def [of "snd (session_close t)"])
  with failed after closed open' show ?thesis by (simp add: Let_def) (simp add: session_close_def Let_def)
qed

text \<open>C18: a stranger gets no connection. A request for a connection from a peer that the window does not admit is refused
  with the reason for an unacceptable address; a link that completes for a peer other than the expected one is
  torn down with an authentication failure, and the report of that disconnection is absorbed. In all
  three cases the host, its channels and the application see nothing of it.\<close>

theorem stranger_refused:
  assumes "writable s" "public_address peer" "length class = 3"
  shows "(\<not> fst (admit (se_window s) peer) \<or> link_type \<noteq> 1 \<longrightarrow>
      handle_packet store (connection_request peer class link_type) s
        = (Inr (), wrote [command_of (HCI_REJECT_CONNECTION_REQUEST, addr_bytes_le peer @ [0x0F])] s))
    \<and> (expected_peer (se_window s) \<noteq> Some peer \<longrightarrow>
      handle_packet store (connection_complete 0 handle peer 1 encryption) s
        = (Inr (), (wrote [command_of (HCI_DISCONNECT, le16_bytes handle @ [AUTHENTICATION_FAILURE])] s)
            \<lparr>se_rejected_connections := insert handle (se_rejected_connections s)\<rparr>))
    \<and> (handle \<in> se_rejected_connections s \<longrightarrow>
      handle_packet store (disconnection_complete handle reason) s
        = (Inr (), s\<lparr>se_rejected_connections := se_rejected_connections s - {handle}\<rparr>))"
proof -
  have addr: "length (addr_bytes_le peer) = 6" using assms(2) by (simp add: public_address_def)
  have request: "handle_packet store (connection_request peer class link_type) s
      = (Inr (), wrote [command_of (HCI_REJECT_CONNECTION_REQUEST, addr_bytes_le peer @ [0x0F])] s)"
    if "\<not> fst (admit (se_window s) peer) \<or> link_type \<noteq> 1"
    using that assms addr admit_refused [of "se_window s" peer]
    by (auto simp: connection_request_def session_handle_event_def check_event_def check_connection_request_def
        require_len_def address_at_request act_bind_def act_then_def split_beta Let_def send_writable nth_append)
  have complete: "handle_packet store (connection_complete 0 handle peer 1 encryption) s
      = (Inr (), (wrote [command_of (HCI_DISCONNECT, le16_bytes handle @ [AUTHENTICATION_FAILURE])] s)
          \<lparr>se_rejected_connections := insert handle (se_rejected_connections s)\<rparr>)"
    if "expected_peer (se_window s) \<noteq> Some peer"
    using that assms addr
    by (simp add: connection_complete_def session_handle_event_def check_event_def check_connection_complete_def
        require_len_def address_at_complete act_bind_def act_then_def Let_def send_writable handle_at_le16
        wrote_def)
  have "handle_packet store (disconnection_complete handle reason) s
      = (Inr (), s\<lparr>se_rejected_connections := se_rejected_connections s - {handle}\<rparr>)"
    if "handle \<in> se_rejected_connections s"
    using that by (simp add: disconnection_complete_def session_handle_event_def check_event_def
        check_disconnection_complete_def require_len_def act_bind_def act_then_def Let_def handle_at_le16)
  with request complete show ?thesis by blast
qed

text \<open>C7: an input report reaches the controller. On a connected session whose interrupt channel is open in Basic mode, a
  payload within the peer's MTU is accepted, and what has been written to the transport followed by what still
  waits for a buffer of the controller is exactly what it was before, followed by the ACL fragments of the
  L2CAP frame that carries the report. Nothing is lost, repeated or reordered.\<close>

theorem input_report_sent:
  assumes "session_ensure_active s = Inr ()" "ps_interrupt (se_protocols s) = Some c" "pc_open c"
    and "se_io s = Some io" "io_faults io = []" "ho_output (se_host s) = []"
    and "ho_connection (se_host s) = Some cn" "basic_open (cn_channels cn) (pc_cid c) ch" "settled (cn_channels cn)"
    and "length payload < br_interrupt_peer_mtu (ps_hidp (se_protocols s))" "length payload < unat (ch_peer_mtu ch)"
    and "cn_handle cn \<le> ACL_HANDLE_MASK" "flow_inv (ho_acl_flow (se_host s))"
    and "0 < fl_payload_size (ho_acl_flow (se_host s))" "fl_payload_size (ho_acl_flow (se_host s)) \<le> 65535"
  shows "\<exists>fragments t io'. send_interrupt payload s = (Inr (), t) \<and> se_io t = Some io'
    \<and> fragment_l2cap_pdu (cn_handle cn) 0 (fl_payload_size (ho_acl_flow (se_host s)))
        (pdu_to_bytes (pdu_new (ch_destination_cid ch) (0xA1 # payload)) False) False = Inr fragments
    \<and> io_sent io' @ map Acl (fl_queued (ho_acl_flow (se_host t)))
        = io_sent io @ map Acl (fl_queued (ho_acl_flow (se_host s)) @ fragments)"
proof -
  let ?h = "se_host s" and ?sdu = "0xA1 # payload"
  from send_basic [OF assms(7-9) _ assms(12,14,15,13), of ?sdu] assms(11) obtain ps
    where ps: "fragment_l2cap_pdu (cn_handle cn) 0 (fl_payload_size (ho_acl_flow ?h))
        (pdu_to_bytes (pdu_new (ch_destination_cid ch) ?sdu) False) False = Inr ps"
      and send: "fst (send_channel_sdu (pc_cid c) ?sdu ?h) = Inr ()"
      and out: "pending_output (snd (send_channel_sdu (pc_cid c) ?sdu ?h)) = pending_output ?h @ map OutAcl ps"
    by auto
  let ?h1 = "snd (send_channel_sdu (pc_cid c) ?sdu ?h)"
  let ?s1 = "s\<lparr>se_host := ?h1\<rparr>"
  have host: "on_host reject_send (send_channel_sdu (pc_cid c) ?sdu) s = (Inr (), ?s1)"
    using send by (simp add: on_host_def split_beta Let_def)
  have "pending_output (se_host ?s1) = map OutAcl (fl_queued (ho_acl_flow ?h) @ ps)"
    using out assms(6) by (simp add: pending_output_def)
  from drain_pending [OF _ assms(5) this] assms(4) obtain us
    where drained: "drain_host_output ?s1 = (Inr (), ?s1\<lparr>se_host := ?h1\<lparr>ho_output := []\<rparr>,
        se_io := Some (io\<lparr>io_sent := io_sent io @ map Acl us\<rparr>)\<rparr>)"
      and all: "us @ fl_queued (ho_acl_flow ?h1) = fl_queued (ho_acl_flow ?h) @ ps" by auto
  then have "send_interrupt payload s = (Inr (), s\<lparr>se_host := ?h1\<lparr>ho_output := []\<rparr>,
      se_io := Some (io\<lparr>io_sent := io_sent io @ map Acl us\<rparr>)\<rparr>)"
    using assms(1-3,10) host by (simp add: send_interrupt_def input_report_encoded act_then_def act_bind_def)
  moreover from all have "map Acl us @ map Acl (fl_queued (ho_acl_flow ?h1)) = map Acl (fl_queued (ho_acl_flow ?h) @ ps)"
    by (metis map_append)
  ultimately show ?thesis using ps by (intro exI [of _ ps] exI conjI) (assumption, simp, simp_all)
qed

text \<open>C30: a failed connection of any peer ends the window. The report of a connection that failed is taken for the
  connection the window waits for whoever the peer is: the window closes and a disconnection is reported
  to the application, although the connection of the session, if it has one, and that of the host are
  untouched. (HCI has the controller send such a report after the host has refused a peer, which is how a refused stranger
  comes to end the pairing of the peer that was admitted; what the controller sends is not part of the statement.)\<close>

theorem failed_completion_ends_window:
  assumes "writable s" "public_address peer" "Api.config_ok (se_config s)" "se_window s \<noteq> Idle" "se_terminal s = None"
    and "length (se_pending_events s) < 64" "ho_output (se_host s) = []" "status \<noteq> 0"
  shows "\<exists>packets. handle_packet store (connection_complete status handle peer link_type encryption) s
    = (Inr (), (wrote packets s)\<lparr>se_window := Idle, se_active_reconnect := False,
        se_pending_events := se_pending_events s @ [EvDisconnected (Some status)],
        se_host := (se_host s)\<lparr>ho_pending_peer := None\<rparr>\<rparr>)
    \<and> se_connection (snd (handle_packet store (connection_complete status handle peer link_type encryption) s))
      = se_connection s"
proof -
  let ?eir = "command_of (HCI_WRITE_EXTENDED_INQUIRY_RESPONSE, 0 # sc_extended_inquiry_response (se_config s))"
  let ?packets = "[?eir, command_of (HCI_WRITE_SCAN_ENABLE, [2]), command_of (HCI_WRITE_SCAN_ENABLE, [0])]"
  let ?ps = "status # le16_bytes handle @ addr_bytes_le peer @ [link_type, encryption]"
  let ?s1 = "(wrote ?packets s)\<lparr>se_window := Idle\<rparr>"
  let ?s2 = "enqueue_event (EvDisconnected (Some status)) (?s1\<lparr>se_active_reconnect := False\<rparr>)"
  have len: "require_len ?ps 11 = Inr ()" using assms(2) by (simp add: require_len_def public_address_def)
  have window: "end_connection_window s = (Inr (), ?s1)"
    using assms(1,3,4) by (simp add: end_connection_window_def write_inquiry_response_def set_scan_def act_then_def
        act_bind_def send_writable wrote_again Api.config_ok_def push_bit_eq_mult)
  then have check: "check_connection_complete ?ps s = (Inr False, ?s2)"
    using assms(2,8) len by (simp add: check_connection_complete_def address_at_complete act_then_def act_bind_def Let_def)
  have decoded: "decode_classic_event \<lparr>ev_event_code = EVENT_CONNECTION_COMPLETE, ev_parameters = ?ps\<rparr>
      = Inr [ConnectionComplete status handle peer]"
    using assms(2) len by (simp add: decode_classic_event_def address_at_complete handle_at_le16 Let_def)
  let ?t = "?s2\<lparr>se_host := (se_host s)\<lparr>ho_pending_peer := None\<rparr>\<rparr>"
  have t: "?t = (wrote ?packets s)\<lparr>se_window := Idle, se_active_reconnect := False,
      se_pending_events := se_pending_events s @ [EvDisconnected (Some status)],
      se_host := (se_host s)\<lparr>ho_pending_peer := None\<rparr>\<rparr>"
    using assms(5,6) by (simp add: enqueue_event_def wrote_def)
  have "se_host ?s2 = se_host s" by (simp add: wrote_def)
  then have host: "on_host map_host_error (handle_event store (ConnectionComplete status handle peer)) ?s2 = (Inr (), ?t)"
    using assms(8) by (simp add: on_host_def)
  have "pop_output (se_host ?t) = (None, se_host ?t)" using assms(7) by (simp add: pop_output_def)
  then have "drain_host_output ?t = (Inr (), ?t)" by (simp add: drain_host_output.simps [of ?t])
  with check decoded host have "handle_packet store (connection_complete status handle peer link_type encryption) s = (Inr (), ?t)"
    by (simp add: connection_complete_def session_handle_event_def check_event_def forward_event_def act_then_def act_bind_def)
  then show ?thesis unfolding t by (intro exI [of _ ?packets]) (simp add: wrote_def)
qed

text \<open>A session with one open link, whose interrupt channel is open; and one that has just been opened.\<close>

definition sample_io :: hci_io where
  "sample_io = \<lparr>io_faults = [], io_sent = [], io_close_fails = False,
     io_metadata = \<lparr>um_vendor_id = 0x0A12, um_product_id = 1, um_bus = 1, um_device_address = 2, um_ports = []\<rparr>\<rparr>"

definition sample_session :: "connection_window \<Rightarrow> (bluetooth_address \<times> classic_bond) list backend_session" where
  "sample_session window = \<lparr>se_io = Some sample_io,
     se_capabilities = \<lparr>cap_local_address = peer_example,
       cap_controller_version = \<lparr>cv_hci_version = 6, cv_hci_subversion = 0, cv_lmp_version = 6,
         cv_company_identifier = 10, cv_lmp_subversion = 0\<rparr>, cap_usb = io_metadata sample_io\<rparr>,
     se_config = sample_session_config, se_host = connected_example 7, se_window = window,
     se_connection = Some (peer_example, 7), se_rejected_connections = {9},
     se_protocols = protocol_default\<lparr>ps_interrupt := Some \<lparr>pc_cid = 0x40, pc_open = True\<rparr>,
       ps_hidp := bridge_new 48 48\<rparr>,
     se_active_reconnect = False, se_terminal = None, se_closed = False, se_pending_events = []\<rparr>"

definition stranger :: bluetooth_address where
  "stranger = \<lparr>addr_bytes_le = [9, 9, 9, 9, 9, 9], addr_kind = Public\<rparr>"

lemma sample_session_facts:
  "session_inv (sample_session w)" "writable (sample_session w)" "session_ensure_active (sample_session w) = Inr ()"
  "public_address stranger" "peer_example \<noteq> stranger" "ho_output (connected_example handle) = []"
  using connected_example_facts(1) [of 7]
  by (simp_all add: session_inv_def sample_session_def sample_io_def writable_def session_ensure_active_def
      public_address_def stranger_def peer_example_def connected_example_def host_new_def)

lemma sample_opens:
  "\<exists>s. session_initialize store_example sample_session_config [] \<lparr>oi_io = sample_io,
     oi_arrivals = initialization_answers sample_session_config [6, 0, 0, 6, 10, 0, 0, 0] (replicate 10 0)
       [0xA8, 2, 0, 8, 0, 0, 0] [1, 2, 3, 4, 5, 6] @- as\<rparr> = (Inr s, as)
     \<and> cap_local_address (se_capabilities s) = address_from_le_bytes [1, 2, 3, 4, 5, 6] Public"
proof -
  let ?s = "\<lparr>oi_io = sample_io, oi_arrivals = initialization_answers sample_session_config [6, 0, 0, 6, 10, 0, 0, 0]
    (replicate 10 0) [0xA8, 2, 0, 8, 0, 0, 0] [1, 2, 3, 4, 5, 6] @- as\<rparr>"
  have zero: "replicate 6 (0 :: u8) = [0, 0, 0, 0, 0, 0]" by (simp add: numeral_eq_Suc)
  have "check_features (replicate 10 0) = Inr ()" "check_buffer [0xA8, 2, 0, 8, 0, 0, 0] = Inr (680, 8)"
    "check_address [1, 2, 3, 4, 5, 6] = Inr (address_from_le_bytes [1, 2, 3, 4, 5, 6] Public)"
    by (simp_all add: check_features_def check_buffer_def check_address_def require_len_def handle_at_def le16_of_def
        Let_def push_bit_eq_mult zero)
  then obtain ic s' where init: "initialize_controller sample_session_config ?s = (Inr ic, s')" "oi_arrivals s' = as"
      "ic_local_address ic = address_from_le_bytes [1, 2, 3, 4, 5, 6] Public"
    using initialization_completes [OF sample_session_config_ok, of ?s "[6, 0, 0, 6, 10, 0, 0, 0]" "replicate 10 0"
        "[0xA8, 2, 0, 8, 0, 0, 0]" 680 8 "[1, 2, 3, 4, 5, 6]" _ as] by (auto simp: sample_io_def)
  have "\<exists>h. register_servers (host_new b n k) = (Inr (), h)" for b :: "(bluetooth_address \<times> classic_bond) list" and n k
    by (simp add: register_servers_def host_register_server_def host_new_def act_then_def act_bind_def)
  then obtain h where "register_servers (host_new ([] :: (bluetooth_address \<times> classic_bond) list)
      (unat (ic_acl_packet_length ic)) (ic_acl_packet_count ic)) = (Inr (), h)" by blast
  with init show ?thesis by (simp add: session_initialize_def store_example_def)
qed

theorem session_reachable_witness:
  "\<exists>s0. session_initialize store_example sample_session_config [] \<lparr>oi_io = sample_io,
      oi_arrivals = initialization_answers sample_session_config [6, 0, 0, 6, 10, 0, 0, 0] (replicate 10 0)
        [0xA8, 2, 0, 8, 0, 0, 0] [1, 2, 3, 4, 5, 6] @- sconst ArrivedTimeout\<rparr> = (Inr s0, sconst ArrivedTimeout)
    \<and> length (se_pending_events (foldl (session_step store_example) s0 [DoPairing, DoPoll [], DoClose])) \<le> 64
    \<and> se_config (foldl (session_step store_example) s0 [DoPairing, DoPoll [], DoClose]) = sample_session_config"
proof -
  from sample_opens obtain s0 where s0: "session_initialize store_example sample_session_config [] \<lparr>oi_io = sample_io,
      oi_arrivals = initialization_answers sample_session_config [6, 0, 0, 6, 10, 0, 0, 0] (replicate 10 0)
        [0xA8, 2, 0, 8, 0, 0, 0] [1, 2, 3, 4, 5, 6] @- sconst ArrivedTimeout\<rparr> = (Inr s0, sconst ArrivedTimeout)" by blast
  have "io_sent sample_io = []" by (simp add: sample_io_def)
  with session_reachable [OF sample_session_config_new _ s0, of "[DoPairing, DoPoll [], DoClose]" DoClose "[]"] s0
  show ?thesis by (auto simp: Let_def)
qed

theorem session_failure_final_witness:
  "\<exists>t. poll store_example [ArrivedFailure] (sample_session WindowConnected) = (Inl (Failed SourceTerminated), t)
    \<and> session_call store_example (DoSend [1]) t = (Inl (Failed SourceTerminated), t)"
proof -
  have "poll store_example [ArrivedFailure] (sample_session WindowConnected)
      = (Inl (Failed SourceTerminated), record_terminal (Failed SourceTerminated) (sample_session WindowConnected))"
    by (simp add: poll_def sample_session_facts act_then_def act_bind_def receive_def)
      (simp add: sample_session_def act_then_def act_bind_def receive_def)
  with session_failure_final [OF sample_session_facts(1,3) this] show ?thesis
    by (intro exI conjI) (assumption, simp del: session_call.simps)
qed

theorem stranger_refused_witness:
  "handle_packet store_example (connection_complete 0 8 stranger 1 0) (sample_session (Pairing (Some peer_example)))
    = (Inr (), (wrote [command_of (HCI_DISCONNECT, [8, 0, 5])] (sample_session (Pairing (Some peer_example))))
        \<lparr>se_rejected_connections := {8, 9}\<rparr>)"
  using stranger_refused [OF sample_session_facts(2,4), of "[0, 0, 0]" "Pairing (Some peer_example)" 1 store_example 8 0 0]
    sample_session_facts(5)
  by (simp add: sample_session_def le16_bytes_def)

theorem input_report_sent_witness:
  "\<exists>t. send_interrupt [1, 2, 3] (sample_session WindowConnected) = (Inr (), t)"
  using input_report_sent [of "sample_session WindowConnected" "\<lparr>pc_cid = 0x40, pc_open = True\<rparr>" sample_io
      "connection_example 7" channel_example "[1, 2, 3]"]
    sample_session_facts(3) [of WindowConnected]
  by (auto simp: sample_session_def sample_io_def sample_session_facts(6) bridge_new_def connected_example_facts)

theorem failed_completion_ends_window_witness:
  "se_window (snd (handle_packet store_example (connection_complete 0x0F 0 stranger 1 0)
      (sample_session (Pairing (Some peer_example))))) = Idle
    \<and> se_connection (snd (handle_packet store_example (connection_complete 0x0F 0 stranger 1 0)
      (sample_session (Pairing (Some peer_example))))) = Some (peer_example, 7)"
  using failed_completion_ends_window [OF sample_session_facts(2,4), of "Pairing (Some peer_example)" "0x0F" store_example 0 1 0]
    sample_session_config_ok sample_session_facts(6) [of 7]
  by (auto simp: sample_session_def simp del: handle_packet.simps)

end
