(* ===== verification/Session_Flows.thy ===== *)
theory Session_Flows
  imports Session_Properties
begin

text \<open>
  What flows through a session from end to end: ACL fragments from the controller, through the assembler and the channel of
  the host, the HIDP bridge and the event queue, to the events that a poll returns to the application.
\<close>

section \<open>Lemmas: a session between packets\<close>

lemma bt_insert_same: "bt_ok m \<Longrightarrow> bt_get m k = Some v \<Longrightarrow> bt_insert k v m = m"
  by (induction k v m rule: bt_insert.induct) (fastforce simp: bt_get_def split: if_splits dest: map_of_SomeD)+

lemma bt_insert_twice: "bt_insert k v (bt_insert k w m) = bt_insert k v m"
  by (induction k w m rule: bt_insert.induct) auto

definition protocol_channel_of :: "hid_channel \<Rightarrow> protocol_state \<Rightarrow> protocol_channel option" where
  "protocol_channel_of ch p = (case ch of ControlChannel \<Rightarrow> ps_control p | InterruptChannel \<Rightarrow> ps_interrupt p)"

text \<open>A connected session that has dealt with everything it received: nothing to write that the controller has a buffer for, nothing
  to read from a channel, and no channel of its own that has opened without its knowing.\<close>

definition idle_session :: "'s backend_session \<Rightarrow> connection \<Rightarrow> bool" where
  "idle_session s cn \<longleftrightarrow> session_inv s \<and> ho_connection (se_host s) = Some cn \<and> settled (cn_channels cn)
     \<and> ho_output (se_host s) = [] \<and> room (ho_acl_flow (se_host s)) = 0
     \<and> (\<forall>cid c. channel (cn_channels cn) cid = Some c \<longrightarrow> ch_received c = [])
     \<and> (\<forall>ch c. protocol_channel_of ch (se_protocols s) = Some c \<longrightarrow> pc_open c \<or> \<not> channel_is_open s c)"

definition with_assembler :: "acl_assembler \<Rightarrow> 's backend_session \<Rightarrow> 's backend_session" where
  "with_assembler asm s = s\<lparr>se_host := (se_host s)\<lparr>ho_acl_assembler := asm\<rparr>\<rparr>"

lemma take_nothing:
  assumes "ho_connection h = Some cn" "bt_ok (cm_channels (cn_channels cn))"
    and "\<And>c. channel (cn_channels cn) cid = Some c \<Longrightarrow> ch_received c = []"
  shows "take_channel_sdu cid h = (None, h)"
proof (cases "bt_get (cm_channels (cn_channels cn)) cid")
  case None
  with assms(1) show ?thesis by (cases h; cases cn) (simp add: take_channel_sdu_def manager_pop_received_def put_channels_def)
next
  case (Some c)
  then have "ch_received c = []" using assms(3) by (simp add: channel_def)
  moreover have "put_channel cid c (cn_channels cn) = cn_channels cn"
    using bt_insert_same [OF assms(2) Some] by (simp add: put_channel_def)
  ultimately show ?thesis using assms(1) Some
    by (cases h; cases cn) (simp add: take_channel_sdu_def manager_pop_received_def channel_pop_received_def put_channels_def)
qed

lemma drain_nothing: "ho_output (se_host s) = [] \<Longrightarrow> drain_host_output s = (Inr (), s)"
  by (simp add: drain_host_output.simps [of s] pop_output_def)

lemma idle_facts:
  assumes "idle_session s cn"
  shows "manager_inv (cn_channels cn)" "bt_ok (asm_pending (ho_acl_assembler (se_host s)))"
    "connection_handle (se_host s) = Inr (cn_handle cn)" "take_channel_sdu cid (se_host s) = (None, se_host s)"
    "drain_host_output s = (Inr (), s)" "refresh_outgoing_channels s = (Inr (), s)"
proof -
  from assms show m: "manager_inv (cn_channels cn)" "bt_ok (asm_pending (ho_acl_assembler (se_host s)))"
    "connection_handle (se_host s) = Inr (cn_handle cn)"
    by (auto simp: idle_session_def session_inv_def host_inv_def assembler_inv_def connection_handle_def)
  show "take_channel_sdu cid (se_host s) = (None, se_host s)"
    using assms m(1) by (intro take_nothing [of _ cn]) (auto simp: idle_session_def manager_inv_def)
  show "drain_host_output s = (Inr (), s)" using assms by (simp add: idle_session_def drain_nothing)
  have "refresh_channel (protocol_channel_of ch) psm s = (Inr (), s)" for ch psm
    using assms by (auto simp: refresh_channel_def idle_session_def split: option.split)
  moreover have "protocol_channel_of ControlChannel = ps_control" "protocol_channel_of InterruptChannel = ps_interrupt"
    by (simp_all add: fun_eq_iff protocol_channel_of_def)
  ultimately show "refresh_outgoing_channels s = (Inr (), s)"
    by (metis (no_types) act_then_Inr refresh_outgoing_channels_def)
qed

text \<open>Reading channels of which none has anything.\<close>

lemma loops_idle:
  assumes "take_channel_sdu cid (se_host s) = (None, se_host s)"
  shows "sdp_loop cid s = (Inr (), s)" "hid_loop ch cid s = (Inr (), s)"
  using assms by (simp_all add: sdp_loop.simps [of cid s] hid_loop.simps [of ch cid s])

lemma sdp_loops_idle:
  assumes "\<And>cid. cid \<in> set cids \<Longrightarrow> take_channel_sdu cid (se_host s) = (None, se_host s)"
  shows "act_each sdp_loop cids s = (Inr (), s)"
  using assms by (induction cids) (simp_all add: act_then_def act_bind_def loops_idle)

lemma quiet_input:
  assumes "\<And>cid. take_channel_sdu cid (se_host s) = (None, se_host s)"
  shows "process_protocol_input s = (Inr (), s)"
  using assms
  by (simp add: process_protocol_input_def hid_input_def sdp_loops_idle loops_idle act_then_def act_bind_def split: option.split)

lemma idle_input: "idle_session s cn \<Longrightarrow> process_protocol_input s = (Inr (), s)"
  by (intro quiet_input idle_facts(4))

lemma with_assembler_frame [simp]:
  "channel_is_open (with_assembler asm s) c = channel_is_open s c" "se_protocols (with_assembler asm s) = se_protocols s"
  "ho_connection (se_host (with_assembler asm s)) = ho_connection (se_host s)"
  "ho_output (se_host (with_assembler asm s)) = ho_output (se_host s)"
  "ho_acl_flow (se_host (with_assembler asm s)) = ho_acl_flow (se_host s)"
  by (simp_all add: with_assembler_def channel_is_open_def channel_info_def)

lemma idle_feed:
  assumes "idle_session s cn" "feed p (ho_acl_assembler (se_host s)) = (r, asm)"
  shows "idle_session (with_assembler asm s) cn"
proof -
  have "assembler_inv asm"
    using assms assembler_inv_feed [of "ho_acl_assembler (se_host s)" p] by (simp add: idle_session_def session_inv_def host_inv_def)
  with assms(1) have "session_inv (with_assembler asm s)"
    by (simp add: idle_session_def session_inv_def host_inv_def with_assembler_def)
  with assms(1) show ?thesis by (simp add: idle_session_def)
qed

text \<open>A fragment that does not complete a PDU changes the assembler only.\<close>

lemma partial_fragment:
  assumes "idle_session s cn" "acl_connection_handle p = cn_handle cn" "feed p (ho_acl_assembler (se_host s)) = (Inr None, asm)"
  shows "handle_packet store (Acl p) s = (Inr (), with_assembler asm s)"
proof -
  have host: "on_host map_host_error (process_acl p) s = (Inr (), with_assembler asm s)"
    using process_acl_feed [OF idle_facts(3) [OF assms(1)] assms(2,3)] by (simp add: on_host_def with_assembler_def)
  note idle = idle_feed [OF assms(1,3)]
  show ?thesis using host idle_facts(5,6) [OF idle] idle_input [OF idle] by (simp add: act_then_def act_bind_def)
qed

text \<open>What a session does with the fragment that completes a PDU.\<close>

definition after_pdu :: "bytes \<Rightarrow> ('s, unit) session_action" where
  "after_pdu d = act_then (on_host map_host_error (deliver d)) (act_then drain_host_output
     (act_then refresh_outgoing_channels (act_then process_protocol_input drain_host_output)))"

lemma last_fragment:
  assumes "idle_session s cn" "acl_connection_handle p = cn_handle cn" "feed p (ho_acl_assembler (se_host s)) = (Inr (Some d), asm)"
  shows "handle_packet store (Acl p) s = after_pdu d (with_assembler asm s)"
proof -
  have "on_host map_host_error (process_acl p) s = on_host map_host_error (deliver d) (with_assembler asm s)"
    using process_acl_feed [OF idle_facts(3) [OF assms(1)] assms(2,3)] by (simp add: on_host_def with_assembler_def)
  then show ?thesis by (simp add: after_pdu_def act_then_def act_bind_def)
qed

text \<open>Polling the fragments of one PDU.\<close>

lemma poll_fragments:
  assumes "idle_session s cn" "ps \<noteq> []" "list_all (\<lambda>p. acl_connection_handle p = cn_handle cn) ps"
    and "fst (feed_all_one ps (pending_of (ho_acl_assembler (se_host s)) (cn_handle cn)))
      = replicate (length ps - 1) (Inr None) @ [Inr (Some d)]"
    and "se_io s \<noteq> None" "se_terminal s = None"
    and "\<And>asm. idle_session (with_assembler asm s) cn \<Longrightarrow>
      after_pdu d (with_assembler asm s) = (Inr (), f asm) \<and> se_terminal (f asm) = None"
  shows "\<exists>asm. idle_session (with_assembler asm s) cn
    \<and> poll_loop store (map (\<lambda>p. ArrivedPacket (Acl p)) ps @ as) s = poll_loop store as (f asm)"
  using assms
proof (induction ps arbitrary: s)
  case (Cons p ps)
  obtain r asm where feed: "feed p (ho_acl_assembler (se_host s)) = (r, asm)" by fastforce
  have p: "acl_connection_handle p = cn_handle cn" using Cons.prems by simp
  let ?pend = "pending_of (ho_acl_assembler (se_host s)) (cn_handle cn)"
  have one: "fst (feed_one p ?pend) = r" "pending_of asm (cn_handle cn) = snd (feed_one p ?pend)"
    using feed_refines [OF idle_facts(2) [OF Cons.prems(1)], of p] feed p by simp_all
  note idle = idle_feed [OF Cons.prems(1) feed]
  have again: "with_assembler asm' (with_assembler asm s) = with_assembler asm' s" for asm' by (simp add: with_assembler_def)
  show ?case
  proof (cases "ps = []")
    case True
    then have "r = Inr (Some d)" using Cons.prems(4) one by (simp add: split_beta)
    then have "handle_packet store (Acl p) s = (Inr (), f asm)" "se_terminal (f asm) = None"
      using last_fragment [OF Cons.prems(1) p] feed Cons.prems(7) [OF idle] by auto
    with True Cons.prems(5) idle show ?thesis
      by (intro exI [of _ asm]) (auto simp: receive_def handle_polled_packet_def act_then_def act_bind_def)
  next
    case False
    then have r: "r = Inr None" and rest: "fst (feed_all_one ps (pending_of asm (cn_handle cn)))
        = replicate (length ps - 1) (Inr None) @ [Inr (Some d)]"
      using Cons.prems(4) one by (cases ps; simp add: split_beta Let_def)+
    have "\<exists>asm'. idle_session (with_assembler asm' (with_assembler asm s)) cn
      \<and> poll_loop store (map (\<lambda>p. ArrivedPacket (Acl p)) ps @ as) (with_assembler asm s) = poll_loop store as (f asm')"
      using False Cons.prems rest idle by (intro Cons.IH) (simp_all add: again, simp_all add: with_assembler_def)
    moreover have "receive store (ArrivedPacket (Acl p)) s = (Inr True, with_assembler asm s)"
      using partial_fragment [OF Cons.prems(1) p, of asm store] feed r Cons.prems(5,6)
      by (auto simp: receive_def handle_polled_packet_def act_then_def act_bind_def with_assembler_def)
    ultimately show ?thesis by (simp add: again act_bind_Inr)
  qed
qed simp

section \<open>Lemmas: one SDU\<close>

text \<open>The session with one SDU waiting on a channel.\<close>

definition holding :: "u16 \<Rightarrow> classic_channel \<Rightarrow> bytes \<Rightarrow> connection \<Rightarrow> 's backend_session \<Rightarrow> 's backend_session" where
  "holding cid c sdu cn s =
     s\<lparr>se_host := put_channels (put_channel cid (c\<lparr>ch_received := [sdu]\<rparr>) (cn_channels cn)) (se_host s)\<rparr>"

lemma flow_flush_full:
  assumes "flow_inv f" "room f = 0"
  shows "flow_flush f out = (f, out)"
proof (cases "fl_queued f")
  case (Cons p q)
  then have "unat (fl_total_packets f) \<le> credits (fl_in_flight f)" using assms(2) by (auto simp: room_def)
  then have "\<not> in_flight_total (fl_in_flight f) < fl_total_packets f"
    using assms(1) credits_inv_limit [of "fl_total_packets f"] by (simp add: flow_inv_def word_less_nat_alt)
  with Cons show ?thesis by (cases f) (simp add: flow_flush_def)
qed (cases f, simp add: flow_flush_def)

lemma flush_quiet:
  assumes "ho_connection h = Some cn" "settled (cn_channels cn)" "flow_inv (ho_acl_flow h)" "room (ho_acl_flow h) = 0"
  shows "flush_channels h = (Inr (), h)"
  using assms(1,2) flow_flush_full [OF assms(3,4)]
  by (cases h; cases cn; cases "cn_channels cn") (simp add: flush_channels_def put_channels_def settled_def Let_def)

lemma deliver_quiet:
  assumes "idle_session s cn" "basic_open (cn_channels cn) cid c" "length sdu \<le> unat (ch_mtu c)"
  shows "deliver (pdu_to_bytes (pdu_new cid sdu) False) (se_host s) = (Inr (), se_host (holding cid c sdu cn s))"
proof -
  let ?m = "put_channel cid (c\<lparr>ch_received := [sdu]\<rparr>) (cn_channels cn)" and ?h = "se_host s"
  have idle: "ho_connection ?h = Some cn" "settled (cn_channels cn)" "room (ho_acl_flow ?h) = 0" "ch_received c = []"
      "flow_inv (ho_acl_flow ?h)"
    using assms(1,2) by (auto simp: idle_session_def basic_open_def session_inv_def host_inv_def)
  have "length sdu \<le> 65535" using assms(3) unat_u16_less [of "ch_mtu c"] by simp
  then have pdu: "pdu_from_bytes (pdu_to_bytes (pdu_new cid sdu) False) = Inr (pdu_new cid sdu)"
    using pdu_roundtrip [of False "pdu_new cid sdu" "[]"] by (simp add: pdu_wf_def pdu_new_def)
  have "0x40 \<le> cid"
    using idle_facts(1) [OF assms(1)] assms(2) manager_inv_channel [of "cn_channels cn" cid c]
    by (simp add: basic_open_def channel_ok_def)
  then have "cid \<noteq> L2CAP_SIGNALING_CID" by (auto simp: word_le_nat_alt)
  then have on: "on_channels (process_pdu (pdu_new cid sdu)) ?h = (Inr (), put_channels ?m ?h)"
    using assms idle by (simp add: on_channels_def process_pdu_def process_data_def pdu_new_def basic_open_def channel_def)
  have "flush_channels (put_channels ?m ?h) = (Inr (), put_channels ?m ?h)"
    using idle by (intro flush_quiet [of _ "cn\<lparr>cn_channels := ?m\<rparr>"]) (simp_all add: put_channels_def settled_def put_channel_def)
  with pdu on show ?thesis by (simp add: deliver_def act_then_Inr holding_def)
qed

lemma take_held:
  assumes "idle_session s cn" "channel (cn_channels cn) cid = Some c"
  shows "take_channel_sdu cid (se_host (holding cid c sdu cn s)) = (Some sdu, se_host s)"
    "k \<noteq> cid \<Longrightarrow> take_channel_sdu k (se_host (holding cid c sdu cn s)) = (None, se_host (holding cid c sdu cn s))"
proof -
  let ?m = "put_channel cid (c\<lparr>ch_received := [sdu]\<rparr>) (cn_channels cn)"
  have ok: "bt_ok (cm_channels (cn_channels cn))" "ho_connection (se_host s) = Some cn" "ch_received c = []"
    "\<And>k c. channel (cn_channels cn) k = Some c \<Longrightarrow> ch_received c = []"
    using idle_facts(1) [OF assms(1)] assms by (auto simp: idle_session_def manager_inv_def)
  have same: "c\<lparr>ch_received := []\<rparr> = c" using ok(3) by (cases c) simp
  have "put_channel cid c ?m = cn_channels cn"
    using bt_insert_same [OF ok(1), of cid c] assms(2) by (simp add: put_channel_def bt_insert_twice channel_def)
  then show "take_channel_sdu cid (se_host (holding cid c sdu cn s)) = (Some sdu, se_host s)"
    using ok by (cases "se_host s"; cases cn)
      (simp add: same take_channel_sdu_def manager_pop_received_def channel_pop_received_def holding_def put_channels_def
        put_channel_def bt_get_insert_any)
  assume "k \<noteq> cid"
  then show "take_channel_sdu k (se_host (holding cid c sdu cn s)) = (None, se_host (holding cid c sdu cn s))"
    using ok by (intro take_nothing [of _ "cn\<lparr>cn_channels := ?m\<rparr>"])
      (auto simp: holding_def put_channels_def put_channel_def channel_def bt_get_insert_any split: if_splits)
qed

lemma holding_frame:
  assumes "idle_session s cn" "channel (cn_channels cn) cid = Some c"
  shows "drain_host_output (holding cid c sdu cn s) = (Inr (), holding cid c sdu cn s)"
    "refresh_outgoing_channels (holding cid c sdu cn s) = (Inr (), holding cid c sdu cn s)"
proof -
  let ?t = "holding cid c sdu cn s"
  show "drain_host_output ?t = (Inr (), ?t)"
    using assms by (intro drain_nothing) (simp add: holding_def put_channels_def idle_session_def)
  have open_same: "channel_is_open ?t k = channel_is_open s k" for k
    using assms by (simp add: holding_def put_channels_def put_channel_def channel_is_open_def channel_info_def channel_def
        idle_session_def bt_get_insert_any)
  have "refresh_channel (protocol_channel_of ch) psm ?t = (Inr (), ?t)" for ch psm
    using assms open_same
    by (auto simp: refresh_channel_def idle_session_def holding_def split: option.split simp del: channel_is_open_def)
  moreover have "protocol_channel_of ControlChannel = ps_control" "protocol_channel_of InterruptChannel = ps_interrupt"
    by (simp_all add: fun_eq_iff protocol_channel_of_def)
  ultimately show "refresh_outgoing_channels ?t = (Inr (), ?t)"
    by (metis (no_types) act_then_Inr refresh_outgoing_channels_def)
qed

lemma sdu_accepted:
  assumes "idle_session s cn" "basic_open (cn_channels cn) cid c" "length sdu \<le> unat (ch_mtu c)"
  shows "after_pdu (pdu_to_bytes (pdu_new cid sdu) False) s
    = act_then process_protocol_input drain_host_output (holding cid c sdu cn s)"
proof -
  have ch: "channel (cn_channels cn) cid = Some c" using assms(2) by (simp add: basic_open_def)
  have "on_host map_host_error (deliver (pdu_to_bytes (pdu_new cid sdu) False)) s = (Inr (), holding cid c sdu cn s)"
    using deliver_quiet [OF assms] by (simp add: on_host_def holding_def)
  then show ?thesis
    using holding_frame [OF assms(1) ch, of sdu] by (simp add: after_pdu_def act_then_def act_bind_def)
qed

text \<open>An output report on a HID channel.\<close>

lemma bridge_output: "bridge_handle ch (0xA2 # payload) br = (Inr [Output ch payload], br)"
proof -
  have "message_from_bytes (0xA2 # payload) = Inr (Data OUTPUT_REPORT payload)"
    by (simp add: message_from_bytes_def drop_bit_eq_div)
  then show ?thesis
    by (cases ch) (simp_all add: bridge_handle_def device_handle_control_def device_handle_interrupt_def)
qed

text \<open>A HID channel of the session that is open, on a CID that no other of its channels has.\<close>

definition hid_open :: "'s backend_session \<Rightarrow> hid_channel \<Rightarrow> u16 \<Rightarrow> bool" where
  "hid_open s ch cid \<longleftrightarrow> (\<exists>c. protocol_channel_of ch (se_protocols s) = Some c \<and> pc_open c \<and> pc_cid c = cid)
     \<and> cid \<notin> set (bt_keys (ps_sdp (se_protocols s)))
     \<and> (\<forall>other c. other \<noteq> ch \<longrightarrow> protocol_channel_of other (se_protocols s) = Some c \<longrightarrow> pc_cid c \<noteq> cid)"

lemma hid_loop_output:
  assumes "idle_session s cn" "channel (cn_channels cn) cid = Some c"
  shows "hid_loop ch cid (holding cid c (0xA2 # payload) cn s) = (Inr (), enqueue_event (EvHidOutput ch payload) s)"
proof -
  let ?t = "holding cid c (0xA2 # payload) cn s" and ?u = "enqueue_event (EvHidOutput ch payload) s"
  have "?t\<lparr>se_host := se_host s\<rparr> = s" by (cases s) (simp add: holding_def)
  moreover have "put_protocols (se_protocols s) s = s" by (cases s) (simp add: put_protocols_def)
  then have "answer_hid ch cid (0xA2 # payload) s = (Inr (), ?u)"
    by (simp add: answer_hid_def bridge_output apply_hidp_events_def)
  ultimately have "hid_loop ch cid ?t = hid_loop ch cid ?u"
    using take_held(1) [OF assms, of "0xA2 # payload"] by (simp add: hid_loop.simps [of ch cid ?t])
  also have "\<dots> = (Inr (), ?u)" using idle_facts(4) [OF assms(1), of cid] by (intro loops_idle) simp
  finally show ?thesis .
qed

lemma hid_input_idle:
  "(\<And>c. pc = Some c \<Longrightarrow> take_channel_sdu (pc_cid c) (se_host s) = (None, se_host s)) \<Longrightarrow> hid_input (ch, pc) s = (Inr (), s)"
  by (auto simp: hid_input_def loops_idle split: option.split)

lemma output_input:
  assumes "idle_session s cn" "channel (cn_channels cn) cid = Some c" "hid_open s ch cid"
  shows "process_protocol_input (holding cid c (0xA2 # payload) cn s) = (Inr (), enqueue_event (EvHidOutput ch payload) s)"
proof -
  let ?t = "holding cid c (0xA2 # payload) cn s" and ?u = "enqueue_event (EvHidOutput ch payload) s"
  have prot: "se_protocols ?t = se_protocols s" by (simp add: holding_def)
  have sdp: "act_each sdp_loop (bt_keys (ps_sdp (se_protocols s))) ?t = (Inr (), ?t)"
    using assms(3) by (intro sdp_loops_idle take_held(2) [OF assms(1,2)]) (auto simp: hid_open_def)
  obtain p where p: "protocol_channel_of ch (se_protocols s) = Some p" "pc_open p" "pc_cid p = cid"
    using assms(3) by (auto simp: hid_open_def)
  have this_channel: "hid_input (ch, Some p) ?t = (Inr (), ?u)"
    using hid_loop_output [OF assms(1,2)] p by (simp add: hid_input_def)
  have other: "hid_input (other, protocol_channel_of other (se_protocols s)) ?t = (Inr (), ?t)"
      "hid_input (other, protocol_channel_of other (se_protocols s)) ?u = (Inr (), ?u)" if "other \<noteq> ch" for other
    using that assms(3) take_held(2) [OF assms(1,2)] idle_facts(4) [OF assms(1)]
    by (auto intro!: hid_input_idle simp: hid_open_def)
  show ?thesis
  proof (cases ch)
    case ControlChannel
    with p(1) this_channel other(2) [of InterruptChannel] sdp show ?thesis
      by (simp add: process_protocol_input_def prot act_then_def act_bind_def protocol_channel_of_def)
  next
    case InterruptChannel
    with p(1) this_channel other(1) [of ControlChannel] sdp show ?thesis
      by (simp add: process_protocol_input_def prot act_then_def act_bind_def protocol_channel_of_def)
  qed
qed

lemma poll_starts:
  assumes "session_ensure_active s = Inr ()"
  shows "poll store (ArrivedPacket p # as) s
    = act_then (poll_loop store (ArrivedPacket p # as)) (\<lambda>s. (Inr (se_pending_events s), s\<lparr>se_pending_events := []\<rparr>)) s"
proof -
  have "act_then (receive store (ArrivedPacket p)) k s = act_bind (receive store (ArrivedPacket p)) (\<lambda>r. if r then k else act_ok ()) s"
    for k :: "('a, unit) session_action"
    by (auto simp: act_then_def act_bind_def receive_def split: option.split prod.split sum.split)
  with assms show ?thesis by (simp add: poll_def act_then_def act_bind_def)
qed

text \<open>Polling the fragments of one PDU, from what the session does with the PDU; then a poll that receives nothing more.\<close>

lemma poll_pdu_loop:
  assumes "idle_session s cn" "se_io s \<noteq> None" "se_terminal s = None" "length (pdu_payload p) \<le> 65535"
    and "cn_handle cn \<le> ACL_HANDLE_MASK" "4 \<le> sz" "sz \<le> 65535"
    and "fragment_l2cap_pdu (cn_handle cn) 0 sz (pdu_to_bytes p False) False = Inr ps"
    and "\<And>asm. idle_session (with_assembler asm s) cn \<Longrightarrow>
      \<exists>t. after_pdu (pdu_to_bytes p False) (with_assembler asm s) = (Inr (), t) \<and> se_terminal t = None \<and> P t"
  shows "ps \<noteq> [] \<and> (\<exists>t. P t \<and> poll_loop store (map (\<lambda>p. ArrivedPacket (Acl p)) ps @ as) s = poll_loop store as t)"
proof -
  let ?d = "pdu_to_bytes p False"
  have d: "complete_pdu ?d" using assms(4) by (intro pdu_complete) simp
  have fed: "feed_all_one ps pend = (replicate (length ps - 1) (Inr None) @ [Inr (Some ?d)], None)" for pend
    using assms(5-8) d by (intro feed_fragments) simp_all
  then have ps: "ps \<noteq> []" by fastforce
  have handles: "list_all (\<lambda>p. acl_connection_handle p = cn_handle cn) ps"
    using fragments_wf [OF assms(8)] by (simp add: list_all_iff)
  define f where "f asm = snd (after_pdu ?d (with_assembler asm s))" for asm
  have handled: "after_pdu ?d (with_assembler asm s) = (Inr (), f asm) \<and> se_terminal (f asm) = None" "P (f asm)"
    if "idle_session (with_assembler asm s) cn" for asm
    using assms(9) [OF that] by (auto simp: f_def)
  from poll_fragments [OF assms(1) ps handles _ assms(2,3) handled(1), of store as] fed
  obtain asm where "idle_session (with_assembler asm s) cn"
    "poll_loop store (map (\<lambda>p. ArrivedPacket (Acl p)) ps @ as) s = poll_loop store as (f asm)" by auto
  with handled(2) ps show ?thesis by blast
qed

lemma poll_finishes:
  assumes "session_ensure_active s = Inr ()" "ps \<noteq> []"
    and "poll_loop store (map (\<lambda>p. ArrivedPacket (Acl p)) ps) s = poll_loop store [] t" "se_io t \<noteq> None"
  shows "poll store (map (\<lambda>p. ArrivedPacket (Acl p)) ps) s = (Inr (se_pending_events t), t\<lparr>se_pending_events := []\<rparr>)"
proof -
  have "poll_loop store [] t = (Inr (), t)" using assms(4) by (auto simp: receive_def act_then_def act_bind_def)
  with assms(2,3) poll_starts [OF assms(1), of store] show ?thesis
    by (cases ps) (simp_all add: act_then_Inr del: poll_loop.simps)
qed

lemma idle_active:
  "idle_session s cn \<Longrightarrow> session_ensure_active s = Inr () \<Longrightarrow> se_io s \<noteq> None \<and> se_terminal s = None"
  by (auto simp: session_ensure_active_def idle_session_def session_inv_def split: if_splits option.splits)

lemma poll_pdu:
  assumes "idle_session s cn" "session_ensure_active s = Inr ()" "length sdu \<le> 65535"
    and "cn_handle cn \<le> ACL_HANDLE_MASK" "4 \<le> sz" "sz \<le> 65535"
    and "fragment_l2cap_pdu (cn_handle cn) 0 sz (pdu_to_bytes (pdu_new cid sdu) False) False = Inr ps"
    and "\<And>asm. idle_session (with_assembler asm s) cn \<Longrightarrow>
      \<exists>t. after_pdu (pdu_to_bytes (pdu_new cid sdu) False) (with_assembler asm s) = (Inr (), t)
        \<and> se_terminal t = None \<and> se_io t \<noteq> None \<and> P t"
  shows "\<exists>t. P t \<and> poll store (map (\<lambda>p. ArrivedPacket (Acl p)) ps) s = (Inr (se_pending_events t), t\<lparr>se_pending_events := []\<rparr>)"
proof -
  have "ps \<noteq> [] \<and> (\<exists>t. (se_io t \<noteq> None \<and> P t)
      \<and> poll_loop store (map (\<lambda>p. ArrivedPacket (Acl p)) ps @ []) s = poll_loop store [] t)"
    using idle_active [OF assms(1,2)] assms(3) assms(8)
    by (intro poll_pdu_loop [OF assms(1) _ _ _ assms(4-7)]) (simp_all add: pdu_new_def)
  with poll_finishes [OF assms(2)] show ?thesis by fastforce
qed

section \<open>Properties\<close>

text \<open>C6: an output report reaches the application. When the controller delivers the ACL fragments, of one size of at least
  four bytes and with a non-flushable start, of the frame that carries an output report on an open HID channel in Basic mode, a poll that receives them returns the
  events that were waiting followed by exactly that report, on its channel and with its bytes; nothing is written, and of the
  session only the assembler and the queue changed.\<close>

theorem output_report_delivered:
  assumes "idle_session s cn" "session_ensure_active s = Inr ()" "hid_open s ch cid" "basic_open (cn_channels cn) cid c"
    and "length (se_pending_events s) < 64" "length payload < unat (ch_mtu c)"
    and "cn_handle cn \<le> ACL_HANDLE_MASK" "4 \<le> sz" "sz \<le> 65535"
    and "fragment_l2cap_pdu (cn_handle cn) 0 sz (pdu_to_bytes (pdu_new cid (0xA2 # payload)) False) False = Inr ps"
  shows "\<exists>asm. poll store (map (\<lambda>p. ArrivedPacket (Acl p)) ps) s
    = (Inr (se_pending_events s @ [EvHidOutput ch payload]), (with_assembler asm s)\<lparr>se_pending_events := []\<rparr>)"
proof -
  let ?u = "\<lambda>asm. enqueue_event (EvHidOutput ch payload) (with_assembler asm s)"
  have active: "se_terminal s = None" "se_io s \<noteq> None"
    using assms(1,2) by (auto simp: session_ensure_active_def idle_session_def session_inv_def split: if_splits option.splits)
  have "\<exists>t. after_pdu (pdu_to_bytes (pdu_new cid (0xA2 # payload)) False) (with_assembler asm s) = (Inr (), t)
      \<and> se_terminal t = None \<and> se_io t \<noteq> None \<and> (\<exists>asm. t = ?u asm)" if "idle_session (with_assembler asm s) cn" for asm
  proof -
    have "hid_open (with_assembler asm s) ch cid" "channel (cn_channels cn) cid = Some c"
      using assms(3,4) by (simp_all add: hid_open_def basic_open_def)
    from sdu_accepted [OF that assms(4)] output_input [OF that this(2,1)] that assms(5,6) active
    have "after_pdu (pdu_to_bytes (pdu_new cid (0xA2 # payload)) False) (with_assembler asm s) = (Inr (), ?u asm)"
      by (simp add: act_then_def act_bind_def drain_nothing idle_session_def)
    with active assms(5) show ?thesis by (auto simp: enqueue_event_def with_assembler_def)
  qed
  from poll_pdu [OF assms(1,2) _ assms(7-10) this, of store] assms(6) unat_u16_less [of "ch_mtu c"]
  obtain asm where "poll store (map (\<lambda>p. ArrivedPacket (Acl p)) ps) s = (Inr (se_pending_events (?u asm)), (?u asm)\<lparr>se_pending_events := []\<rparr>)"
    by auto
  then show ?thesis using assms(5) active(1) by (intro exI [of _ asm]) (simp add: enqueue_event_def with_assembler_def)
qed

text \<open>A report of five bytes in fragments of six.\<close>

lemma sample_session_idle: "idle_session (sample_session WindowConnected) (connection_example 7)"
proof -
  have "\<forall>cid c. channel (cn_channels (connection_example 7)) cid = Some c \<longrightarrow> ch_received c = []"
    using connected_example_facts(11)
    by (auto simp: channel_def connection_example_def put_channel_def manager_new_def with_information_capabilities_def
        bt_get_def split: if_splits)
  with connected_example_facts(2,6) [of 7] sample_session_facts(1,6) show ?thesis
    by (auto simp: idle_session_def sample_session_def protocol_channel_of_def protocol_default_def room_def
        connected_example_def host_new_def flow_new_def split: hid_channel.splits)
qed

theorem output_report_delivered_witness:
  "\<exists>ps asm. fragment_l2cap_pdu 7 0 6 (pdu_to_bytes (pdu_new 0x40 [0xA2, 1, 2, 3, 4, 5]) False) False = Inr ps
     \<and> length ps = 2
     \<and> poll store_example (map (\<lambda>p. ArrivedPacket (Acl p)) ps) (sample_session WindowConnected)
       = (Inr [EvHidOutput InterruptChannel [1, 2, 3, 4, 5]],
          (with_assembler asm (sample_session WindowConnected))\<lparr>se_pending_events := []\<rparr>)"
proof -
  let ?d = "pdu_to_bytes (pdu_new 0x40 [0xA2, 1, 2, 3, 4, 5]) False"
  have "complete_pdu ?d" by (rule pdu_complete) (simp add: pdu_new_def)
  then obtain ps where ps: "fragment_l2cap_pdu 7 0 6 ?d False = Inr ps" "ps = first_fragment 7 0 False (take 6 ?d) # continuations 7 0 (chunks 6 (drop 6 ?d))"
    using fragment_shape [of 7 0 6 ?d False] by simp
  then have "length ps = 2"
    by (simp add: continuations_def chunks.simps pdu_to_bytes_def pdu_new_def le16_bytes_def)
  have "hid_open (sample_session WindowConnected) InterruptChannel 0x40"
    by (auto simp: hid_open_def sample_session_def protocol_channel_of_def protocol_default_def bt_keys_def split: hid_channel.splits)
  with output_report_delivered [OF sample_session_idle sample_session_facts(3), of InterruptChannel "0x40" channel_example
      "[1, 2, 3, 4, 5]" 6 ps store_example] ps(1) \<open>length ps = 2\<close> connected_example_facts(5,7,10)
  show ?thesis by (simp add: sample_session_def)
qed

end
