(* ===== verification/Session_Pairing.thy ===== *)
theory Session_Pairing
  imports Session_Flows
begin

text \<open>
  The pairing of a new peer through a session: the HCI events as they arrive from the controller, through the checks of the session, the
  host and its output loop, to the commands written, the bond stored and the event the application polls.
\<close>

section \<open>The events on the wire\<close>

definition peer_event :: "u8 \<Rightarrow> bluetooth_address \<Rightarrow> bytes \<Rightarrow> packet" where
  "peer_event code peer rest = Event \<lparr>ev_event_code = code, ev_parameters = addr_bytes_le peer @ rest\<rparr>"

definition link_event :: "u8 \<Rightarrow> u16 \<Rightarrow> bytes \<Rightarrow> packet" where
  "link_event code handle rest = Event \<lparr>ev_event_code = code, ev_parameters = 0 # le16_bytes handle @ rest\<rparr>"

definition pairing_packets :: "bluetooth_address \<Rightarrow> u16 \<Rightarrow> bytes \<Rightarrow> u8 \<Rightarrow> bytes \<Rightarrow> u8 \<Rightarrow> bytes \<Rightarrow> packet list" where
  "pairing_packets peer handle key key_type class encryption passkey =
     [connection_request peer class 1, connection_complete 0 handle peer 1 encryption,
      peer_event EVENT_LINK_KEY_REQUEST peer [], peer_event EVENT_IO_CAPABILITY_REQUEST peer [],
      peer_event EVENT_USER_CONFIRMATION_REQUEST peer passkey,
      peer_event EVENT_LINK_KEY_NOTIFICATION peer (key @ [key_type]),
      link_event EVENT_AUTHENTICATION_COMPLETE handle [], link_event EVENT_ENCRYPTION_CHANGE handle [1]]"

text \<open>The commands that answer them. The three after the accept close the window: response, page scan, no scan.\<close>

definition pairing_commands :: "session_config \<Rightarrow> bluetooth_address \<Rightarrow> u16 \<Rightarrow> (u16 \<times> bytes) list" where
  "pairing_commands config peer handle =
     [(HCI_ACCEPT_CONNECTION_REQUEST, addr_bytes_le peer @ [HCI_ROLE_PERIPHERAL]),
      (HCI_WRITE_EXTENDED_INQUIRY_RESPONSE, 0 # sc_extended_inquiry_response config),
      (HCI_WRITE_SCAN_ENABLE, [2]), (HCI_WRITE_SCAN_ENABLE, [0]),
      (HCI_AUTHENTICATION_REQUESTED, le16_bytes handle),
      (HCI_LINK_KEY_REQUEST_NEGATIVE_REPLY, addr_bytes_le peer),
      (HCI_IO_CAPABILITY_REQUEST_REPLY, addr_bytes_le peer @ [3, 0, 2]),
      (HCI_USER_CONFIRMATION_REQUEST_REPLY, addr_bytes_le peer),
      (HCI_SET_CONNECTION_ENCRYPTION, le16_bytes handle @ [1])]"

section \<open>Lemmas: one event\<close>

lemma wrote_updates [simp]:
  "wrote ps (s\<lparr>se_host := h\<rparr>) = (wrote ps s)\<lparr>se_host := h\<rparr>" "wrote ps (s\<lparr>se_window := w\<rparr>) = (wrote ps s)\<lparr>se_window := w\<rparr>"
  "wrote ps (s\<lparr>se_connection := c\<rparr>) = (wrote ps s)\<lparr>se_connection := c\<rparr>"
  "wrote ps (s\<lparr>se_protocols := p\<rparr>) = (wrote ps s)\<lparr>se_protocols := p\<rparr>"
  "wrote ps (s\<lparr>se_pending_events := es\<rparr>) = (wrote ps s)\<lparr>se_pending_events := es\<rparr>"
  by (simp_all add: wrote_def)

lemma wrote_fields [simp]:
  "se_host (wrote ps s) = se_host s" "se_window (wrote ps s) = se_window s" "se_connection (wrote ps s) = se_connection s"
  "se_protocols (wrote ps s) = se_protocols s" "se_pending_events (wrote ps s) = se_pending_events s"
  "se_terminal (wrote ps s) = se_terminal s" "se_config (wrote ps s) = se_config s"
  "se_active_reconnect (wrote ps s) = se_active_reconnect s"
  by (simp_all add: wrote_def)

lemma writable_fields [simp]:
  "writable (s\<lparr>se_host := h\<rparr>) = writable s" "writable (s\<lparr>se_connection := c\<rparr>) = writable s"
  "writable (s\<lparr>se_protocols := p\<rparr>) = writable s" "writable (s\<lparr>se_pending_events := es\<rparr>) = writable s"
  by (simp_all add: writable_def)

lemma write_writable: "writable s \<Longrightarrow> send_packet p s = (Inr (), wrote [p] s)"
  by (auto simp: writable_def wrote_def ready_transport split: option.splits)

text \<open>The host has nothing but what it puts out now.\<close>

lemma drain_cons:
  assumes "ho_output (se_host s) = out # outs" "handle_output out (s\<lparr>se_host := (se_host s)\<lparr>ho_output := outs\<rparr>\<rparr>) = (Inr (), t)"
  shows "drain_host_output s = drain_host_output t"
  using assms by (simp add: drain_host_output.simps [of s] pop_output_def)

lemma drain_command:
  assumes "writable s" "ho_output (se_host s) = reply opcode ps # outs"
  shows "drain_host_output s
    = drain_host_output (wrote [command_of (opcode, ps)] (s\<lparr>se_host := (se_host s)\<lparr>ho_output := outs\<rparr>\<rparr>))"
  using assms by (intro drain_cons) (auto simp: reply_def write_writable command_of_def)

lemma forward_reply:
  assumes "decode_classic_event e = Inr [ev]" "handle_event store ev (se_host s) = (Inr (), push_output (reply opcode ps) h)"
    and "ho_output h = []" "writable s"
  shows "forward_event store e s = (Inr (), wrote [command_of (opcode, ps)] (s\<lparr>se_host := h\<rparr>))"
proof -
  let ?s = "s\<lparr>se_host := push_output (reply opcode ps) h\<rparr>"
  have h: "h\<lparr>ho_output := []\<rparr> = h" using assms(3) by (cases h) simp
  have "drain_host_output ?s = drain_host_output (wrote [command_of (opcode, ps)] (s\<lparr>se_host := h\<rparr>))"
    using drain_command [of ?s opcode ps "[]"] assms(3,4) h by (simp add: push_output_def)
  also have "\<dots> = (Inr (), wrote [command_of (opcode, ps)] (s\<lparr>se_host := h\<rparr>))" using assms(3) by (intro drain_nothing) simp
  finally show ?thesis using assms(1,2) by (simp add: forward_event_def on_host_def act_then_def act_bind_def)
qed

lemma poll_packet_step:
  assumes "handle_packet store p s = (Inr (), t)" "se_terminal t = None" "writable s"
  shows "poll_loop store (ArrivedPacket p # as) s = poll_loop store as t"
  using assms by (auto simp: receive_def handle_polled_packet_def act_then_def act_bind_def writable_def split: option.splits)

lemma unchecked_event:
  assumes "ev_event_code e \<notin> {EVENT_CONNECTION_REQUEST, EVENT_CONNECTION_COMPLETE, EVENT_DISCONNECTION_COMPLETE}"
  shows "session_handle_event store e = forward_event store e"
  using assms by (simp add: fun_eq_iff session_handle_event_def check_event_def act_bind_def Let_def)

lemma address_first: "public_address peer \<Longrightarrow> address_at (addr_bytes_le peer) 0 = Inr peer"
  using address_at_request [of peer "[]"] by simp

lemma requested:
  assumes "public_address peer" "length class = 3" "se_window s = Pairing None" "writable s" "ho_output (se_host s) = []"
  shows "handle_packet store (connection_request peer class 1) s
    = (Inr (), wrote [command_of (HCI_ACCEPT_CONNECTION_REQUEST, addr_bytes_le peer @ [HCI_ROLE_PERIPHERAL])]
        (s\<lparr>se_window := Pairing (Some peer), se_host := (se_host s)\<lparr>ho_pending_peer := Some peer\<rparr>\<rparr>))"
proof -
  let ?e = "\<lparr>ev_event_code = EVENT_CONNECTION_REQUEST, ev_parameters = addr_bytes_le peer @ class @ [1]\<rparr>"
  let ?s = "s\<lparr>se_window := Pairing (Some peer)\<rparr>"
  have addr: "length (addr_bytes_le peer) = 6" using assms(1) by (simp add: public_address_def)
  have check: "check_event ?e s = (Inr False, ?s)"
    using assms addr by (simp add: check_event_def check_connection_request_def require_len_def address_at_request
        act_then_def act_bind_def nth_append)
  have "decode_classic_event ?e = Inr [ConnectionRequested peer]"
    using assms addr by (simp add: decode_classic_event_def require_len_def address_at_request)
  moreover have "handle_event store (ConnectionRequested peer) (se_host ?s)
      = (Inr (), push_output (reply HCI_ACCEPT_CONNECTION_REQUEST (addr_bytes_le peer @ [HCI_ROLE_PERIPHERAL]))
          ((se_host s)\<lparr>ho_pending_peer := Some peer\<rparr>))"
    using addr by (simp add: queue_command_ok reply_def)
  ultimately have "forward_event store ?e ?s = (Inr (), wrote [command_of (HCI_ACCEPT_CONNECTION_REQUEST,
      addr_bytes_le peer @ [HCI_ROLE_PERIPHERAL])] (?s\<lparr>se_host := (se_host s)\<lparr>ho_pending_peer := Some peer\<rparr>\<rparr>))"
    using assms by (intro forward_reply) (simp_all del: handle_event.simps)
  with check show ?thesis by (simp add: connection_request_def session_handle_event_def act_bind_def)
qed

text \<open>The window of a session whose connection is established.\<close>

definition linked :: "bluetooth_address \<Rightarrow> u16 \<Rightarrow> 's backend_session \<Rightarrow> 's backend_session" where
  "linked peer handle s = s\<lparr>se_connection := Some (peer, handle), se_window := WindowConnected, se_protocols := protocol_default\<rparr>"

lemma connected_output:
  assumes "writable s" "Api.config_ok (se_config s)" "se_terminal s = None" "length (se_pending_events s) < 64"
  shows "handle_output (OutEvent (Connected peer handle)) s
    = (Inr (), wrote (map command_of [(HCI_WRITE_EXTENDED_INQUIRY_RESPONSE, 0 # sc_extended_inquiry_response (se_config s)),
          (HCI_WRITE_SCAN_ENABLE, [2]), (HCI_WRITE_SCAN_ENABLE, [0])])
        ((linked peer handle s)\<lparr>se_pending_events := se_pending_events s @ [EvConnected peer]\<rparr>))"
  using assms
  by (simp add: write_inquiry_response_def set_scan_def act_then_def act_bind_def send_writable wrote_again linked_def
      Api.config_ok_def push_bit_eq_mult enqueue_event_def)

lemma completed:
  assumes "public_address peer" "expected_peer (se_window s) = Some peer" "writable s" "ho_output (se_host s) = []"
    and "ho_pending_peer (se_host s) \<in> {None, Some peer}" "register_all (ho_servers (se_host s)) manager_new = (Inr (), m)"
    and "Api.config_ok (se_config s)" "se_terminal s = None" "length (se_pending_events s) < 64"
  shows "handle_packet store (connection_complete 0 handle peer 1 encryption) s
    = (Inr (), wrote (map command_of [(HCI_WRITE_EXTENDED_INQUIRY_RESPONSE, 0 # sc_extended_inquiry_response (se_config s)),
          (HCI_WRITE_SCAN_ENABLE, [2]), (HCI_WRITE_SCAN_ENABLE, [0]), (HCI_AUTHENTICATION_REQUESTED, le16_bytes handle)])
        ((linked peer handle s)\<lparr>se_pending_events := se_pending_events s @ [EvConnected peer],
          se_host := (se_host s)\<lparr>ho_pending_peer := None, ho_connection := Some \<lparr>cn_peer = peer, cn_handle = handle,
            cn_encrypted = False, cn_channels = m\<rparr>\<rparr>\<rparr>))"
proof -
  let ?ps = "0 # le16_bytes handle @ addr_bytes_le peer @ [1, encryption]"
  let ?e = "\<lparr>ev_event_code = EVENT_CONNECTION_COMPLETE, ev_parameters = ?ps\<rparr>"
  let ?h = "(se_host s)\<lparr>ho_pending_peer := None, ho_connection := Some \<lparr>cn_peer = peer, cn_handle = handle,
            cn_encrypted = False, cn_channels = m\<rparr>\<rparr>"
  have len: "length (addr_bytes_le peer) = 6" "length (le16_bytes handle) = 2"
    using assms(1) by (simp_all add: public_address_def le16_bytes_def)
  have check: "check_event ?e s = (Inr False, s)"
    using assms len by (simp add: check_event_def check_connection_complete_def require_len_def address_at_complete
        act_then_def act_bind_def nth_append Let_def)
  have decoded: "decode_classic_event ?e = Inr [ConnectionComplete 0 handle peer]"
    using assms len by (simp add: decode_classic_event_def require_len_def address_at_complete handle_at_le16 Let_def)
  let ?out = "[OutEvent (Connected peer handle), reply HCI_AUTHENTICATION_REQUESTED (le16_bytes handle)]"
  have host: "handle_event store (ConnectionComplete 0 handle peer) (se_host s) = (Inr (), ?h\<lparr>ho_output := ?out\<rparr>)"
    using assms(4-6) len by (auto simp: accept_connection_def queue_command_ok push_output_def reply_def)
  let ?s1 = "s\<lparr>se_host := ?h\<lparr>ho_output := tl ?out\<rparr>\<rparr>"
  define s2 where "s2 = snd (handle_output (OutEvent (Connected peer handle)) ?s1)"
  have s2: "handle_output (OutEvent (Connected peer handle)) ?s1 = (Inr (), s2)"
    unfolding s2_def using connected_output [of ?s1 peer handle] assms(3,7-9) by (simp del: handle_output.simps)
  have "drain_host_output (s\<lparr>se_host := ?h\<lparr>ho_output := ?out\<rparr>\<rparr>) = drain_host_output s2"
    using s2 by (intro drain_cons) (simp_all del: handle_output.simps)
  also have "\<dots> = drain_host_output (wrote [command_of (HCI_AUTHENTICATION_REQUESTED, le16_bytes handle)]
      (s2\<lparr>se_host := (se_host s2)\<lparr>ho_output := []\<rparr>\<rparr>))"
    using connected_output [of ?s1 peer handle] assms(3,7-9)
    by (intro drain_command) (simp_all add: s2_def linked_def del: handle_output.simps)
  also have "\<dots> = (Inr (), wrote [command_of (HCI_AUTHENTICATION_REQUESTED, le16_bytes handle)]
      (s2\<lparr>se_host := (se_host s2)\<lparr>ho_output := []\<rparr>\<rparr>))"
    by (intro drain_nothing) simp
  finally show ?thesis
    using check decoded host connected_output [of ?s1 peer handle] assms(3,4,7-9)
    by (cases "se_host s") (simp add: connection_complete_def session_handle_event_def forward_event_def on_host_def act_then_def act_bind_def
        s2_def linked_def wrote_again del: handle_output.simps handle_event.simps)
qed

text \<open>The events that the session only hands on to the host.\<close>

lemma key_requested:
  assumes "public_address peer" "writable s" "ho_output (se_host s) = []" "bs_load store (ho_bonds (se_host s)) peer = Inr None"
  shows "handle_packet store (peer_event EVENT_LINK_KEY_REQUEST peer []) s
    = (Inr (), wrote [command_of (HCI_LINK_KEY_REQUEST_NEGATIVE_REPLY, addr_bytes_le peer)] s)"
proof -
  have addr: "length (addr_bytes_le peer) = 6" using assms(1) by (simp add: public_address_def)
  have "forward_event store \<lparr>ev_event_code = EVENT_LINK_KEY_REQUEST, ev_parameters = addr_bytes_le peer\<rparr> s
      = (Inr (), wrote [command_of (HCI_LINK_KEY_REQUEST_NEGATIVE_REPLY, addr_bytes_le peer)] (s\<lparr>se_host := se_host s\<rparr>))"
    using assms addr by (intro forward_reply [where ev = "LinkKeyRequest peer"])
      (simp_all add: decode_classic_event_def require_len_def address_first queue_command_ok reply_def)
  then show ?thesis by (simp add: peer_event_def unchecked_event)
qed

lemma capability_requested:
  assumes "public_address peer" "writable s" "ho_output (se_host s) = []"
  shows "handle_packet store (peer_event EVENT_IO_CAPABILITY_REQUEST peer []) s
    = (Inr (), wrote [command_of (HCI_IO_CAPABILITY_REQUEST_REPLY, addr_bytes_le peer @ [3, 0, 2])] s)"
proof -
  have addr: "length (addr_bytes_le peer) = 6" using assms(1) by (simp add: public_address_def)
  have "forward_event store \<lparr>ev_event_code = EVENT_IO_CAPABILITY_REQUEST, ev_parameters = addr_bytes_le peer\<rparr> s
      = (Inr (), wrote [command_of (HCI_IO_CAPABILITY_REQUEST_REPLY, addr_bytes_le peer @ [3, 0, 2])] (s\<lparr>se_host := se_host s\<rparr>))"
    using assms addr by (intro forward_reply [where ev = "IoCapabilityRequest peer"])
      (simp_all add: decode_classic_event_def require_len_def address_first queue_command_ok reply_def)
  then show ?thesis by (simp add: peer_event_def unchecked_event)
qed

lemma confirmation_requested:
  assumes "public_address peer" "length passkey = 4" "writable s" "ho_output (se_host s) = []"
  shows "handle_packet store (peer_event EVENT_USER_CONFIRMATION_REQUEST peer passkey) s
    = (Inr (), wrote [command_of (HCI_USER_CONFIRMATION_REQUEST_REPLY, addr_bytes_le peer)] s)"
proof -
  have addr: "length (addr_bytes_le peer) = 6" using assms(1) by (simp add: public_address_def)
  have "forward_event store \<lparr>ev_event_code = EVENT_USER_CONFIRMATION_REQUEST, ev_parameters = addr_bytes_le peer @ passkey\<rparr> s
      = (Inr (), wrote [command_of (HCI_USER_CONFIRMATION_REQUEST_REPLY, addr_bytes_le peer)] (s\<lparr>se_host := se_host s\<rparr>))"
    using assms addr by (intro forward_reply [where ev = "UserConfirmationRequest peer"])
      (simp_all add: decode_classic_event_def require_len_def address_at_request queue_command_ok reply_def)
  then show ?thesis by (simp add: peer_event_def unchecked_event)
qed

lemma key_notified:
  assumes "public_address peer" "length key = 16" "ho_output (se_host s) = []"
    and "bs_upsert store peer (bond_new key t (t \<in> {0x05, 0x08})) (ho_bonds (se_host s)) = (Inr (), bonds)"
  shows "handle_packet store (peer_event EVENT_LINK_KEY_NOTIFICATION peer (key @ [t])) s
    = (Inr (), s\<lparr>se_host := (se_host s)\<lparr>ho_bonds := bonds\<rparr>\<rparr>)"
proof -
  let ?e = "\<lparr>ev_event_code = EVENT_LINK_KEY_NOTIFICATION, ev_parameters = addr_bytes_le peer @ key @ [t]\<rparr>"
  let ?h = "(se_host s)\<lparr>ho_bonds := bonds\<rparr>"
  have addr: "length (addr_bytes_le peer) = 6" using assms(1) by (simp add: public_address_def)
  have "decode_classic_event ?e = Inr [LinkKeyNotification peer key t]"
    using assms addr by (simp add: decode_classic_event_def require_len_def address_at_request nth_append)
  moreover have "handle_event store (LinkKeyNotification peer key t) (se_host s) = (Inr (), ?h\<lparr>ho_output := [OutEvent (BondStored peer)]\<rparr>)"
    using assms(3,4) by (simp add: push_output_def Let_def)
  moreover have "?h\<lparr>ho_output := []\<rparr> = ?h" using assms(3) by (cases "se_host s") simp
  then have "drain_host_output (s\<lparr>se_host := ?h\<lparr>ho_output := [OutEvent (BondStored peer)]\<rparr>\<rparr>) = (Inr (), s\<lparr>se_host := ?h\<rparr>)"
    using drain_cons [of "s\<lparr>se_host := ?h\<lparr>ho_output := [OutEvent (BondStored peer)]\<rparr>\<rparr>" "OutEvent (BondStored peer)" "[]" "s\<lparr>se_host := ?h\<rparr>"]
      drain_nothing [of "s\<lparr>se_host := ?h\<rparr>"] assms(3) by simp
  ultimately show ?thesis
    by (simp add: peer_event_def unchecked_event forward_event_def on_host_def act_then_def act_bind_def del: handle_event.simps)
qed

lemma authenticated:
  assumes "writable s" "ho_output (se_host s) = []" "ho_connection (se_host s) = Some cn" "cn_handle cn = handle"
  shows "handle_packet store (link_event EVENT_AUTHENTICATION_COMPLETE handle []) s
    = (Inr (), wrote [command_of (HCI_SET_CONNECTION_ENCRYPTION, le16_bytes handle @ [1])] s)"
proof -
  have len: "length (le16_bytes handle) = 2" by (simp add: le16_bytes_def)
  have at: "handle_at (0 # le16_bytes handle) (Suc 0) = handle" using handle_at_le16(2) [of 0 handle "[]"] by simp
  have "forward_event store \<lparr>ev_event_code = EVENT_AUTHENTICATION_COMPLETE, ev_parameters = 0 # le16_bytes handle\<rparr> s
      = (Inr (), wrote [command_of (HCI_SET_CONNECTION_ENCRYPTION, le16_bytes handle @ [1])] (s\<lparr>se_host := se_host s\<rparr>))"
    using assms len by (intro forward_reply [where ev = "AuthenticationComplete 0 handle"])
      (simp_all add: decode_classic_event_def require_len_def at ensure_handle_def connection_handle_def queue_command_ok reply_def)
  then show ?thesis by (simp add: link_event_def unchecked_event)
qed

text \<open>An encrypted link is where a session that reconnects opens its channels.\<close>

lemma encryption_changed:
  assumes "ho_output (se_host s) = []" "ho_connection (se_host s) = Some cn" "cn_handle cn = handle"
  shows "handle_packet store (link_event EVENT_ENCRYPTION_CHANGE handle [1]) s
    = act_then start_active_reconnect_control drain_host_output
        (s\<lparr>se_host := (se_host s)\<lparr>ho_connection := Some (cn\<lparr>cn_encrypted := True\<rparr>)\<rparr>\<rparr>)"
proof -
  let ?e = "\<lparr>ev_event_code = EVENT_ENCRYPTION_CHANGE, ev_parameters = 0 # le16_bytes handle @ [1]\<rparr>"
  let ?h = "(se_host s)\<lparr>ho_connection := Some (cn\<lparr>cn_encrypted := True\<rparr>)\<rparr>" and ?out = "OutEvent (Encrypted (cn_peer cn))"
  have "decode_classic_event ?e = Inr [EncryptionChange 0 handle True]"
    by (simp add: decode_classic_event_def require_len_def handle_at_le16 le16_bytes_def handle_at_def)
  moreover have "handle_event store (EncryptionChange 0 handle True) (se_host s) = (Inr (), ?h\<lparr>ho_output := [?out]\<rparr>)"
    using assms(1-3) by (simp add: push_output_def connection_mut_def ensure_handle_def connection_handle_def)
  moreover have "?h\<lparr>ho_output := []\<rparr> = ?h" using assms(1) by (cases "se_host s") simp
  then have "drain_host_output (s\<lparr>se_host := ?h\<lparr>ho_output := [?out]\<rparr>\<rparr>)
      = act_then start_active_reconnect_control drain_host_output (s\<lparr>se_host := ?h\<rparr>)"
    by (simp add: drain_host_output.simps [of "s\<lparr>se_host := ?h\<lparr>ho_output := [?out]\<rparr>\<rparr>"] pop_output_def act_then_def act_bind_def
        split: prod.split sum.split)
  ultimately show ?thesis
    by (simp add: link_event_def unchecked_event forward_event_def on_host_def act_then_def act_bind_def del: handle_event.simps)
qed

lemma encrypted:
  assumes "ho_output (se_host s) = []" "ho_connection (se_host s) = Some cn" "cn_handle cn = handle" "\<not> se_active_reconnect s"
  shows "handle_packet store (link_event EVENT_ENCRYPTION_CHANGE handle [1]) s
    = (Inr (), s\<lparr>se_host := (se_host s)\<lparr>ho_connection := Some (cn\<lparr>cn_encrypted := True\<rparr>)\<rparr>\<rparr>)"
  using assms
  by (simp add: encryption_changed start_active_reconnect_control_def act_then_def act_bind_def drain_nothing del: handle_packet.simps)

text \<open>The session while it pairs: \<open>n\<close> of the commands written, the bonds as given, the link encrypted or not.\<close>

definition paired_so_far ::
  "bluetooth_address \<Rightarrow> u16 \<Rightarrow> channel_manager \<Rightarrow> 's backend_session \<Rightarrow> nat \<Rightarrow> 's \<Rightarrow> bool \<Rightarrow> 's backend_session" where
  "paired_so_far peer handle m s n bonds enc =
     (wrote (map command_of (take n (pairing_commands (se_config s) peer handle))) (linked peer handle s))
       \<lparr>se_pending_events := [EvConnected peer],
        se_host := (se_host s)\<lparr>ho_bonds := bonds, ho_pending_peer := None,
          ho_connection := Some \<lparr>cn_peer = peer, cn_handle = handle, cn_encrypted = enc, cn_channels = m\<rparr>\<rparr>\<rparr>"

lemma paired_fields [simp]:
  "writable (paired_so_far peer handle m s n bonds enc) = writable s"
  "se_terminal (paired_so_far peer handle m s n bonds enc) = se_terminal s"
  "se_active_reconnect (paired_so_far peer handle m s n bonds enc) = se_active_reconnect s"
  "ho_output (se_host (paired_so_far peer handle m s n bonds enc)) = ho_output (se_host s)"
  "ho_bonds (se_host (paired_so_far peer handle m s n bonds enc)) = bonds"
  "ho_connection (se_host (paired_so_far peer handle m s n bonds enc))
     = Some \<lparr>cn_peer = peer, cn_handle = handle, cn_encrypted = enc, cn_channels = m\<rparr>"
  by (simp_all add: paired_so_far_def linked_def writable_def wrote_def split: option.split)

lemma paired_next:
  "wrote [c] (paired_so_far peer handle m s n bonds enc) = paired_so_far peer handle m s k bonds enc"
  if "map command_of (take k (pairing_commands (se_config s) peer handle))
    = map command_of (take n (pairing_commands (se_config s) peer handle)) @ [c]"
  using that by (simp add: paired_so_far_def wrote_again)

lemma paired_polls:
  assumes "se_window s = Pairing None" "se_terminal s = None" "se_pending_events s = []" "\<not> se_active_reconnect s"
    and "writable s" "Api.config_ok (se_config s)" "ho_output (se_host s) = []"
    and m: "register_all (ho_servers (se_host s)) manager_new = (Inr (), m)"
    and "public_address peer" "length class = 3" "length passkey = 4" "length key = 16"
    and "bs_load store (ho_bonds (se_host s)) peer = Inr None"
    and "bs_upsert store peer (bond_new key t (t \<in> {0x05, 0x08})) (ho_bonds (se_host s)) = (Inr (), bonds)"
  shows "poll_loop store (map ArrivedPacket (pairing_packets peer handle key t class encryption passkey)) s
    = (Inr (), paired_so_far peer handle m s 9 bonds True)"
proof -
  let ?u = "paired_so_far peer handle m s" and ?b = "ho_bonds (se_host s)"
  let ?s1 = "wrote [command_of (HCI_ACCEPT_CONNECTION_REQUEST, addr_bytes_le peer @ [HCI_ROLE_PERIPHERAL])]
    (s\<lparr>se_window := Pairing (Some peer), se_host := (se_host s)\<lparr>ho_pending_peer := Some peer\<rparr>\<rparr>)"
  note facts = assms(2-7,9-14)
  have 1: "handle_packet store (connection_request peer class 1) s = (Inr (), ?s1)"
    using assms by (intro requested) simp_all
  have 2: "handle_packet store (connection_complete 0 handle peer 1 encryption) ?s1 = (Inr (), ?u 5 ?b False)"
    using completed [of peer ?s1 m store handle encryption] facts m
    by (simp add: paired_so_far_def pairing_commands_def) (cases s; cases "se_host s", simp add: wrote_def linked_def option.map_comp comp_def)
  have 3: "handle_packet store (peer_event EVENT_LINK_KEY_REQUEST peer []) (?u 5 ?b False) = (Inr (), ?u 6 ?b False)"
    using facts by (subst key_requested) (simp_all add: paired_next pairing_commands_def)
  have 4: "handle_packet store (peer_event EVENT_IO_CAPABILITY_REQUEST peer []) (?u 6 ?b False) = (Inr (), ?u 7 ?b False)"
    using facts by (subst capability_requested) (simp_all add: paired_next pairing_commands_def)
  have 5: "handle_packet store (peer_event EVENT_USER_CONFIRMATION_REQUEST peer passkey) (?u 7 ?b False) = (Inr (), ?u 8 ?b False)"
    using facts by (subst confirmation_requested) (simp_all add: paired_next pairing_commands_def)
  have 6: "handle_packet store (peer_event EVENT_LINK_KEY_NOTIFICATION peer (key @ [t])) (?u 8 ?b False) = (Inr (), ?u 8 bonds False)"
    using facts by (subst key_notified [where bonds = bonds]) (simp_all add: paired_so_far_def)
  have 7: "handle_packet store (link_event EVENT_AUTHENTICATION_COMPLETE handle []) (?u 8 bonds False) = (Inr (), ?u 9 bonds False)"
    using facts by (subst authenticated [OF _ _ paired_fields(6)]) (simp_all add: paired_next pairing_commands_def)
  have 8: "handle_packet store (link_event EVENT_ENCRYPTION_CHANGE handle [1]) (?u 9 bonds False) = (Inr (), ?u 9 bonds True)"
    using facts by (subst encrypted [OF _ paired_fields(6)]) (simp_all, simp add: paired_so_far_def)
  have "poll_loop store (map ArrivedPacket (pairing_packets peer handle key t class encryption passkey)) s
      = poll_loop store [] (?u 9 bonds True)"
    using facts
    by (simp add: pairing_packets_def poll_packet_step [OF 1] poll_packet_step [OF 2] poll_packet_step [OF 3]
        poll_packet_step [OF 4] poll_packet_step [OF 5] poll_packet_step [OF 6] poll_packet_step [OF 7] poll_packet_step [OF 8]
        del: poll_loop.simps handle_packet.simps wrote_updates)
  also have "\<dots> = (Inr (), ?u 9 bonds True)"
    using facts by (auto simp: receive_def act_then_def act_bind_def paired_so_far_def writable_def linked_def wrote_def split: option.splits)
  finally show ?thesis .
qed

section \<open>Properties\<close>

text \<open>C3: a new peer is paired. On a session that the application has put into pairing, a poll that receives the events of an incoming
  connection, from the request over link key, capability, confirmation, notification and authentication to the encryption, returns
  exactly the connection of that peer; it has written exactly the accept, the three commands that close the window, the
  authentication, the negative key reply, the capabilities without input and output, the confirmation and the encryption, in that order
  and with their parameters; the bond is in the store, and the link is encrypted and served by the registered servers.\<close>

theorem peer_paired:
  assumes "session_ensure_active s = Inr ()" "se_window s = Pairing None" "se_pending_events s = []" "\<not> se_active_reconnect s"
    and "writable s" "Api.config_ok (se_config s)" "ho_output (se_host s) = []" "servers_valid (ho_servers (se_host s))"
    and "public_address peer" "length class = 3" "length passkey = 4" "length key = 16"
    and "bs_load store (ho_bonds (se_host s)) peer = Inr None"
    and "bs_upsert store peer (bond_new key t (t \<in> {0x05, 0x08})) (ho_bonds (se_host s)) = (Inr (), bonds)"
  shows "\<exists>m. poll store (map ArrivedPacket (pairing_packets peer handle key t class encryption passkey)) s
      = (Inr [EvConnected peer], wrote (map command_of (pairing_commands (se_config s) peer handle))
          ((linked peer handle s)\<lparr>se_host := (se_host s)\<lparr>ho_bonds := bonds, ho_pending_peer := None,
             ho_connection := Some \<lparr>cn_peer = peer, cn_handle = handle, cn_encrypted = True, cn_channels = m\<rparr>\<rparr>\<rparr>))
    \<and> manager_inv m \<and> (\<forall>psm. bt_get (cm_servers m) psm = map_option BasicSpec (bt_get (ho_servers (se_host s)) psm))"
proof -
  have "cm_servers manager_new = []" by (simp add: manager_new_def with_information_capabilities_def)
  then obtain m where m: "register_all (ho_servers (se_host s)) manager_new = (Inr (), m)"
    and servers: "\<And>psm. bt_get (cm_servers m) psm = map_option BasicSpec (bt_get (ho_servers (se_host s)) psm)"
    using register_all_ok [OF assms(8), of manager_new] by (fastforce split: option.splits)
  have inv: "manager_inv m" using register_all_inv [of "ho_servers (se_host s)"] m by simp
  have active: "se_terminal s = None" using assms(1) by (auto simp: session_ensure_active_def split: if_splits option.splits)
  from paired_polls [OF assms(2) active assms(3-7) m assms(9-14)]
  have "poll store (map ArrivedPacket (pairing_packets peer handle key t class encryption passkey)) s
      = (Inr [EvConnected peer], (paired_so_far peer handle m s 9 bonds True)\<lparr>se_pending_events := []\<rparr>)"
    using poll_starts [OF assms(1), of store] unfolding pairing_packets_def list.map
    by (simp only: act_then_Inr) (simp add: paired_so_far_def)
  moreover have "(paired_so_far peer handle m s 9 bonds True)\<lparr>se_pending_events := []\<rparr> = wrote (map command_of (pairing_commands (se_config s) peer handle))
      ((linked peer handle s)\<lparr>se_host := (se_host s)\<lparr>ho_bonds := bonds, ho_pending_peer := None,
        ho_connection := Some \<lparr>cn_peer = peer, cn_handle = handle, cn_encrypted = True, cn_channels = m\<rparr>\<rparr>\<rparr>)"
    using assms(3) by (cases s) (simp add: paired_so_far_def pairing_commands_def linked_def wrote_def)
  ultimately show ?thesis using inv servers by auto
qed

text \<open>A session just put into pairing, over a host without servers and an empty store.\<close>

theorem peer_paired_witness:
  "\<exists>t. poll store_example (map ArrivedPacket (pairing_packets peer_example 7 (replicate 16 9) 5 [4, 5, 0x20] 0 [1, 2, 3, 4]))
        ((sample_session (Pairing None))\<lparr>se_host := host_example\<rparr>) = (Inr [EvConnected peer_example], t)
      \<and> ho_bonds (se_host t) = [(peer_example, bond_new (replicate 16 9) 5 True)]"
proof -
  let ?s = "(sample_session (Pairing None))\<lparr>se_host := host_example\<rparr>"
  have "se_config ?s = sample_session_config" by (simp add: sample_session_def)
  then have "Api.config_ok (se_config ?s)" using sample_session_config_ok by simp
  moreover have "session_ensure_active ?s = Inr ()" "writable ?s" "public_address peer_example"
    by (simp_all add: sample_session_def session_ensure_active_def writable_def sample_io_def public_address_def peer_example_def)
  ultimately show ?thesis
    using peer_paired [of ?s peer_example "[4, 5, 0x20]" "[1, 2, 3, 4]" "replicate 16 9" store_example 5
        "[(peer_example, bond_new (replicate 16 9) 5 True)]" 7 0]
    by (auto simp: sample_session_def host_example_def host_new_def store_example_def servers_valid_def)
qed

end
