(* ===== verification/Session_Channels.thy ===== *)
theory Session_Channels
  imports Session_Flows
begin

text \<open>
  A HID channel opened by the peer, through a session: the signaling frames of the peer arrive in fragments, the channel manager
  answers them, the session writes the answers and reports the channel to the application.
\<close>

section \<open>Lemmas: signaling through the host\<close>

definition pdu_fragments :: "u16 \<Rightarrow> nat \<Rightarrow> l2cap_pdu list \<Rightarrow> acl_packet list" where
  "pdu_fragments handle sz pdus = concat (map (\<lambda>p.
     case fragment_l2cap_pdu handle 0 sz (pdu_to_bytes p False) False of Inr ps \<Rightarrow> ps | Inl _ \<Rightarrow> []) pdus)"

definition short_pdu :: "l2cap_pdu \<Rightarrow> bool" where
  "short_pdu p \<longleftrightarrow> length (pdu_payload p) \<le> 65535"

lemma pdu_fragments_Nil [simp]: "pdu_fragments handle sz [] = []"
  by (simp add: pdu_fragments_def)

lemma pdu_fragments_Cons: "pdu_fragments handle sz (p # pdus) = pdu_fragments handle sz [p] @ pdu_fragments handle sz pdus"
  by (simp add: pdu_fragments_def)

lemma fragment_short:
  assumes "handle \<le> ACL_HANDLE_MASK" "0 < sz" "sz \<le> 65535" "short_pdu p"
  shows "fragment_l2cap_pdu handle 0 sz (pdu_to_bytes p False) False = Inr (pdu_fragments handle sz [p])"
  using fragment_shape [OF assms(1) _ assms(2,3) pdu_complete, of 0 p False] assms(4)
  by (simp add: pdu_fragments_def short_pdu_def)

lemma fragment_nonempty:
  assumes "handle \<le> ACL_HANDLE_MASK" "0 < sz" "sz \<le> 65535" "short_pdu p"
  shows "pdu_fragments handle sz [p] \<noteq> []"
  using fragment_short [OF assms] fragment_shape [OF assms(1) _ assms(2,3) pdu_complete, of 0 p False] assms(4)
  by (auto simp: short_pdu_def)

lemma enqueue_pdus_all:
  assumes "handle \<le> ACL_HANDLE_MASK" "0 < fl_payload_size f" "fl_payload_size f \<le> 65535" "list_all short_pdu pdus"
  shows "enqueue_pdus handle pdus f = (Inr (), enqueue (pdu_fragments handle (fl_payload_size f) pdus) f)"
  using assms
proof (induction pdus arbitrary: f)
  case (Cons p pdus)
  let ?g = "enqueue (pdu_fragments handle (fl_payload_size f) [p]) f"
  have "enqueue_pdus handle (p # pdus) f = enqueue_pdus handle pdus ?g"
    using Cons.prems fragment_short [of handle "fl_payload_size f" p] by simp
  with Cons.IH [of ?g] Cons.prems show ?case
    using pdu_fragments_Cons [of handle "fl_payload_size f" p pdus] by (simp add: enqueue_def)
qed (simp add: enqueue_def)

lemma pdu_fragments_wf:
  assumes "handle \<le> ACL_HANDLE_MASK" "0 < sz" "sz \<le> 65535" "list_all short_pdu pdus"
  shows "list_all acl_wf (pdu_fragments handle sz pdus)"
  using assms
proof (induction pdus)
  case (Cons p pdus)
  with fragments_wf [OF fragment_short [of handle sz p]] pdu_fragments_Cons [of handle sz p pdus] show ?case
    by (auto simp: list_all_iff)
qed simp

text \<open>Fragments join the queue of the flow; as many as there are buffers for leave.\<close>

lemma flush_queued:
  assumes "flow_inv f" "list_all acl_wf ps"
  obtains us flow where "flow_flush (enqueue ps f) [] = (flow, map OutAcl us)" "us @ fl_queued flow = fl_queued f @ ps"
    "room flow = 0" "fl_payload_size flow = fl_payload_size f"
proof -
  let ?g = "enqueue ps f"
  have inv: "credits_inv (fl_total_packets ?g) (fl_in_flight ?g)"
    using flow_inv_enqueue [OF assms] by (simp add: flow_inv_def)
  let ?flow = "fst (flow_flush ?g [])" and ?us = "take (room ?g) (fl_queued ?g)"
  have "flow_flush ?g [] = (?flow, map OutAcl ?us)" using flow_flush_spec(1) [OF inv, of "[]"] by (simp add: prod_eq_iff)
  moreover have "?us @ fl_queued ?flow = fl_queued ?g" unfolding flow_flush_spec(2) [OF inv, of "[]"] by (rule append_take_drop_id)
  then have "?us @ fl_queued ?flow = fl_queued f @ ps" by (simp add: enqueue_def)
  moreover have "room ?flow = 0"
    using flow_flush_spec(2,3,6) [OF inv, of "[]"] by (auto simp: room_def min_def)
  moreover have "fl_payload_size ?flow = fl_payload_size f" using flow_flush_spec(7) [OF inv, of "[]"] by (simp add: enqueue_def)
  ultimately show ?thesis by (rule that)
qed

text \<open>What the channel manager has queued and announced goes out.\<close>

lemma flush_signal:
  assumes "ho_connection h = Some cn" "ho_output h = []" "flow_inv (ho_acl_flow h)" "list_all short_pdu (cm_outbound m)"
    and "opened_channels m (cm_accepted_channels m) = Some opened" "cn_handle cn \<le> ACL_HANDLE_MASK"
    and "0 < fl_payload_size (ho_acl_flow h)" "fl_payload_size (ho_acl_flow h) \<le> 65535"
  obtains us flow where "flush_channels (put_channels m h) = (Inr (), h\<lparr>
      ho_connection := Some (cn\<lparr>cn_channels := m\<lparr>cm_outbound := [], cm_accepted_channels := []\<rparr>\<rparr>), ho_acl_flow := flow,
      ho_output := map OutAcl us @ map (\<lambda>(psm, cid). OutEvent (ChannelOpened psm cid)) opened\<rparr>)"
    "us @ fl_queued flow = fl_queued (ho_acl_flow h)
      @ pdu_fragments (cn_handle cn) (fl_payload_size (ho_acl_flow h)) (cm_outbound m)"
    "room flow = 0" "fl_payload_size flow = fl_payload_size (ho_acl_flow h)"
proof -
  let ?ps = "pdu_fragments (cn_handle cn) (fl_payload_size (ho_acl_flow h)) (cm_outbound m)"
  obtain us flow where flush: "flow_flush (enqueue ?ps (ho_acl_flow h)) [] = (flow, map OutAcl us)"
    and rest: "us @ fl_queued flow = fl_queued (ho_acl_flow h) @ ?ps" "room flow = 0"
      "fl_payload_size flow = fl_payload_size (ho_acl_flow h)"
    using flush_queued [OF assms(3) pdu_fragments_wf [OF assms(6-8,4)]] .
  with enqueue_pdus_all [OF assms(6-8,4)] show thesis
    using that [OF _ rest] assms(1,2,5) flush
    by (simp add: flush_channels_def put_channels_def Let_def split_beta)
qed

lemma deliver_signal:
  assumes "ho_connection h = Some cn" "ho_output h = []" "flow_inv (ho_acl_flow h)" "short_pdu p"
    and "process_pdu p (cn_channels cn) = (Inr (), m)" "list_all short_pdu (cm_outbound m)"
    and "opened_channels m (cm_accepted_channels m) = Some opened" "cn_handle cn \<le> ACL_HANDLE_MASK"
    and "0 < fl_payload_size (ho_acl_flow h)" "fl_payload_size (ho_acl_flow h) \<le> 65535"
  obtains us flow where "deliver (pdu_to_bytes p False) h = (Inr (), h\<lparr>
      ho_connection := Some (cn\<lparr>cn_channels := m\<lparr>cm_outbound := [], cm_accepted_channels := []\<rparr>\<rparr>), ho_acl_flow := flow,
      ho_output := map OutAcl us @ map (\<lambda>(psm, cid). OutEvent (ChannelOpened psm cid)) opened\<rparr>)"
    "us @ fl_queued flow = fl_queued (ho_acl_flow h)
      @ pdu_fragments (cn_handle cn) (fl_payload_size (ho_acl_flow h)) (cm_outbound m)"
    "room flow = 0" "fl_payload_size flow = fl_payload_size (ho_acl_flow h)"
proof -
  have "pdu_from_bytes (pdu_to_bytes p False) = Inr p"
    using assms(4) pdu_roundtrip [of False p "[]"] by (cases p) (simp add: short_pdu_def pdu_wf_def pdu_new_def)
  moreover have "on_channels (process_pdu p) h = (Inr (), put_channels m h)" using assms(1,5) by (simp add: on_channels_def)
  ultimately have "deliver (pdu_to_bytes p False) h = flush_channels (put_channels m h)" by (simp add: deliver_def act_then_Inr)
  with flush_signal [OF assms(1-3,6-10)] that show thesis by metis
qed

section \<open>Lemmas: signaling through the session\<close>

text \<open>What the host has written leaves first.\<close>

lemma drain_written:
  assumes "se_io s = Some io" "io_faults io = []" "ho_output (se_host s) = map OutAcl ps @ outs"
  shows "drain_host_output s = drain_host_output (s\<lparr>se_host := (se_host s)\<lparr>ho_output := outs\<rparr>,
    se_io := Some (io\<lparr>io_sent := io_sent io @ map Acl ps\<rparr>)\<rparr>)"
  using assms
proof (induction ps arbitrary: s io)
  case Nil
  then have "s\<lparr>se_host := (se_host s)\<lparr>ho_output := outs\<rparr>, se_io := Some (io\<lparr>io_sent := io_sent io @ map Acl []\<rparr>)\<rparr> = s"
    by (cases s; cases "se_host s") simp
  then show ?case by simp
next
  case (Cons p ps)
  let ?s = "s\<lparr>se_host := (se_host s)\<lparr>ho_output := map OutAcl ps @ outs\<rparr>\<rparr>"
  let ?t = "?s\<lparr>se_io := Some (io\<lparr>io_sent := io_sent io @ [Acl p]\<rparr>)\<rparr>"
  have "pop_output (se_host s) = (Some (OutAcl p), (se_host s)\<lparr>ho_output := map OutAcl ps @ outs\<rparr>)"
    using Cons.prems by (simp add: pop_output_def)
  moreover have "handle_output (OutAcl p) ?s = (Inr (), ?t)"
    using Cons.prems by (simp add: send_packet_def io_send_def)
  ultimately have "drain_host_output s = drain_host_output ?t" by (simp add: drain_host_output.simps [of s])
  with Cons.IH [of ?t "io\<lparr>io_sent := io_sent io @ [Acl p]\<rparr>"] Cons.prems show ?case by simp
qed

text \<open>The session with another connection state, flow and transport, and output that the host has still to hand out.\<close>

definition signalled ::
  "connection \<Rightarrow> acl_flow \<Rightarrow> hci_io \<Rightarrow> host_output list \<Rightarrow> 's backend_session \<Rightarrow> 's backend_session" where
  "signalled cn flow io outs s =
     s\<lparr>se_host := (se_host s)\<lparr>ho_connection := Some cn, ho_acl_flow := flow, ho_output := outs\<rparr>, se_io := Some io\<rparr>"

lemma signalled_pop:
  "(signalled cn flow io outs s)\<lparr>se_host := (se_host (signalled cn flow io outs s))\<lparr>ho_output := []\<rparr>\<rparr> = signalled cn flow io [] s"
  by (cases s) (simp add: signalled_def)

definition flushed :: "channel_manager \<Rightarrow> connection \<Rightarrow> connection" where
  "flushed m cn = cn\<lparr>cn_channels := m\<lparr>cm_outbound := [], cm_accepted_channels := []\<rparr>\<rparr>"

text \<open>What a connection needs for its signaling to be fragmented and written.\<close>

definition wired :: "'s backend_session \<Rightarrow> connection \<Rightarrow> hci_io \<Rightarrow> bool" where
  "wired s cn io \<longleftrightarrow> se_io s = Some io \<and> io_faults io = [] \<and> cn_handle cn \<le> ACL_HANDLE_MASK
     \<and> 0 < fl_payload_size (ho_acl_flow (se_host s)) \<and> fl_payload_size (ho_acl_flow (se_host s)) \<le> 65535"

lemma signal_drained:
  assumes "idle_session s cn" "wired s cn io" "short_pdu p" "process_pdu p (cn_channels cn) = (Inr (), m)"
    and "list_all short_pdu (cm_outbound m)" "opened_channels m (cm_accepted_channels m) = Some opened"
  shows "\<exists>us flow. act_then (on_host map_host_error (deliver (pdu_to_bytes p False))) drain_host_output s
      = drain_host_output (signalled (flushed m cn) flow (io\<lparr>io_sent := io_sent io @ map Acl us\<rparr>)
          (map (\<lambda>(psm, cid). OutEvent (ChannelOpened psm cid)) opened) s)
    \<and> us @ fl_queued flow = fl_queued (ho_acl_flow (se_host s))
      @ pdu_fragments (cn_handle cn) (fl_payload_size (ho_acl_flow (se_host s))) (cm_outbound m)
    \<and> room flow = 0 \<and> fl_payload_size flow = fl_payload_size (ho_acl_flow (se_host s))"
proof -
  let ?h = "se_host s" and ?outs = "map (\<lambda>(psm, cid). OutEvent (ChannelOpened psm cid)) opened"
  have h: "ho_connection ?h = Some cn" "ho_output ?h = []" "flow_inv (ho_acl_flow ?h)"
    using assms(1) by (auto simp: idle_session_def session_inv_def host_inv_def)
  have w: "se_io s = Some io" "io_faults io = []" "cn_handle cn \<le> ACL_HANDLE_MASK"
    "0 < fl_payload_size (ho_acl_flow ?h)" "fl_payload_size (ho_acl_flow ?h) \<le> 65535"
    using assms(2) by (auto simp: wired_def)
  obtain us flow where d: "deliver (pdu_to_bytes p False) ?h = (Inr (), ?h\<lparr>ho_connection := Some (flushed m cn),
      ho_acl_flow := flow, ho_output := map OutAcl us @ ?outs\<rparr>)"
    and rest: "us @ fl_queued flow = fl_queued (ho_acl_flow ?h) @ pdu_fragments (cn_handle cn) (fl_payload_size (ho_acl_flow ?h)) (cm_outbound m)"
      "room flow = 0" "fl_payload_size flow = fl_payload_size (ho_acl_flow ?h)"
    unfolding flushed_def using deliver_signal [OF h assms(3-6) w(3-5)] .
  let ?s = "s\<lparr>se_host := ?h\<lparr>ho_connection := Some (flushed m cn), ho_acl_flow := flow, ho_output := map OutAcl us @ ?outs\<rparr>\<rparr>"
  have "act_then (on_host map_host_error (deliver (pdu_to_bytes p False))) drain_host_output s = drain_host_output ?s"
    using d by (simp add: act_then_Inr on_host_def)
  also have "\<dots> = drain_host_output (signalled (flushed m cn) flow (io\<lparr>io_sent := io_sent io @ map Acl us\<rparr>) ?outs s)"
    using drain_written [of ?s io us ?outs] w(1,2) by (simp add: signalled_def)
  finally show ?thesis using rest by blast
qed

lemma deliver_safe: "safe_action (deliver d)"
proof (cases "pdu_from_bytes d")
  case (Inr pdu)
  then have "deliver d h = act_then (on_channels (process_pdu pdu)) flush_channels h" for h :: "'a classic_host"
    by (simp add: deliver_def)
  moreover have "safe_action (act_then (on_channels (process_pdu pdu)) flush_channels :: ('a, unit) host_action)"
    by (intro safe_then on_channels_safe process_pdu_sound flush_channels_safe)
  ultimately show ?thesis by (simp add: safe_action_def)
qed (simp add: safe_action_def deliver_def)

lemma after_pdu_delivered:
  assumes "act_then (on_host map_host_error (deliver d)) drain_host_output s = (Inr (), t)"
  shows "after_pdu d s = act_then refresh_outgoing_channels (act_then process_protocol_input drain_host_output) t"
proof -
  have "after_pdu d s = act_then (act_then (on_host map_host_error (deliver d)) drain_host_output)
      (act_then refresh_outgoing_channels (act_then process_protocol_input drain_host_output)) s"
    by (simp add: after_pdu_def act_then_def act_bind_def split: prod.split sum.split)
  also have "\<dots> = act_then refresh_outgoing_channels (act_then process_protocol_input drain_host_output) t"
    using assms by (rule act_then_Inr)
  finally show ?thesis .
qed

lemma after_pdu_settles:
  assumes "act_then (on_host map_host_error (deliver d)) drain_host_output s = (Inr (), t)" "idle_session t cn"
  shows "after_pdu d s = (Inr (), t)"
  using after_pdu_delivered [OF assms(1)] idle_facts(5,6) [OF assms(2)] idle_input [OF assms(2)]
  by (simp add: act_then_def act_bind_def)

lemma delivered_inv:
  assumes "act_then (on_host map_host_error (deliver d)) drain_host_output s = (Inr (), t)" "session_inv s"
  shows "session_inv t"
proof -
  have "session_safe (act_then (on_host map_host_error (deliver d)) drain_host_output :: ('a, unit) session_action)"
    by (intro session_safe_then map_host_error_safe deliver_safe drain_safe)
  from session_safe_result [OF this assms(2,1)] show ?thesis by simp
qed

text \<open>The channels of the session are open, and channels of the connection.\<close>

definition known_channels :: "'s backend_session \<Rightarrow> connection \<Rightarrow> bool" where
  "known_channels s cn \<longleftrightarrow> (\<forall>k \<in> set (bt_keys (ps_sdp (se_protocols s))). channel (cn_channels cn) k \<noteq> None)
     \<and> (\<forall>ch p. protocol_channel_of ch (se_protocols s) = Some p \<longrightarrow> pc_open p \<and> channel (cn_channels cn) (pc_cid p) \<noteq> None)"

lemma flushed_channel [simp]: "channel (cn_channels (flushed m cn)) = channel m" "cn_handle (flushed m cn) = cn_handle cn"
  "settled (cn_channels (flushed m cn))"
  by (simp_all add: flushed_def channel_def settled_def fun_eq_iff)

lemma signals_idle:
  assumes "idle_session s cn" "signals (cn_channels cn) m cid c out acc" "ch_received c = []" "session_inv t"
    and "ho_connection (se_host t) = Some (flushed m cn)" "ho_output (se_host t) = []" "room (ho_acl_flow (se_host t)) = 0"
    and "known_channels t (flushed m cn)"
  shows "idle_session t (flushed m cn)"
  using assms by (auto simp: idle_session_def signals_def known_channels_def)

lemma known_grows:
  "known_channels s cn \<Longrightarrow> signals (cn_channels cn) m cid c out acc \<Longrightarrow> se_protocols t = se_protocols s
    \<Longrightarrow> known_channels t (flushed m cn)"
  by (auto simp: known_channels_def signals_def)

text \<open>A session between two frames, and one whose HID channels the peer opens.\<close>

definition listening :: "'s backend_session \<Rightarrow> connection \<Rightarrow> hci_io \<Rightarrow> bool" where
  "listening s cn io \<longleftrightarrow> idle_session s cn \<and> wired s cn io \<and> se_terminal s = None"

definition signalling :: "'s backend_session \<Rightarrow> connection \<Rightarrow> hci_io \<Rightarrow> bool" where
  "signalling s cn io \<longleftrightarrow> idle_session s cn \<and> wired s cn io \<and> known_channels s cn \<and> \<not> se_active_reconnect s \<and> se_terminal s = None"

text \<open>What the session does when a HID channel is complete.\<close>

definition hid_psm :: "hid_channel \<Rightarrow> u32" where
  "hid_psm ch = (case ch of ControlChannel \<Rightarrow> HID_CONTROL_PSM | InterruptChannel \<Rightarrow> HID_INTERRUPT_PSM)"

definition opened_protocols :: "hid_channel \<Rightarrow> u16 \<Rightarrow> u16 \<Rightarrow> protocol_state \<Rightarrow> protocol_state" where
  "opened_protocols ch cid mtu p = (case ch of
       ControlChannel \<Rightarrow> p\<lparr>ps_control := Some \<lparr>pc_cid = cid, pc_open = True\<rparr>,
         ps_hidp := set_peer_mtu ControlChannel (unat mtu) (ps_hidp p)\<rparr>
     | InterruptChannel \<Rightarrow> p\<lparr>ps_interrupt := Some \<lparr>pc_cid = cid, pc_open = True\<rparr>,
         ps_hidp := set_peer_mtu InterruptChannel (unat mtu) (ps_hidp p)\<rparr>)"

definition with_channel :: "hid_channel \<Rightarrow> u16 \<Rightarrow> u16 \<Rightarrow> 's backend_session \<Rightarrow> 's backend_session" where
  "with_channel ch cid mtu s = s\<lparr>se_protocols := opened_protocols ch cid mtu (se_protocols s),
     se_pending_events := se_pending_events s @ [EvChannelOpened ch]\<rparr>"

lemma on_hid_opened:
  assumes "channel_info (se_host s) cid = Some (hid_psm ch, mtu, True)" "\<not> se_active_reconnect s" "se_terminal s = None"
    and "protocol_channel_of ch (se_protocols s) = None" "length (se_pending_events s) < 64"
  shows "on_channel_opened (hid_psm ch) cid s = (Inr (), with_channel ch cid mtu s)"
  using assms
  by (cases ch) (simp_all add: on_channel_opened_def hid_psm_def open_control_def open_interrupt_def connect_interrupt_def
      first_open_def protocol_channel_of_def enqueue_event_def put_protocols_def with_channel_def opened_protocols_def)

lemma drain_opened:
  assumes "ho_output (se_host s) = [OutEvent (ChannelOpened psm cid)]" "ho_output (se_host t) = []"
    and "on_channel_opened psm cid (s\<lparr>se_host := (se_host s)\<lparr>ho_output := []\<rparr>\<rparr>) = (Inr (), t)"
  shows "drain_host_output s = (Inr (), t)"
  using assms drain_nothing [of t] by (simp add: drain_host_output.simps [of s] pop_output_def)

lemma opened_channel_of:
  "protocol_channel_of ch' (opened_protocols ch cid mtu p)
     = (if ch' = ch then Some \<lparr>pc_cid = cid, pc_open = True\<rparr> else protocol_channel_of ch' p)"
  "ps_sdp (opened_protocols ch cid mtu p) = ps_sdp p"
  by (cases ch; cases ch'; simp add: protocol_channel_of_def opened_protocols_def)+

text \<open>A signaling frame that the channel manager answers, and that completes a HID channel if \<open>new\<close> is that channel.\<close>

fun announce :: "hid_channel option \<Rightarrow> u16 \<Rightarrow> u16 \<Rightarrow> 's backend_session \<Rightarrow> 's backend_session" where
  "announce None cid mtu s = s"
| "announce (Some ch) cid mtu s = with_channel ch cid mtu s"

fun may_announce :: "hid_channel option \<Rightarrow> classic_channel \<Rightarrow> 's backend_session \<Rightarrow> bool" where
  "may_announce None c s \<longleftrightarrow> True"
| "may_announce (Some ch) c s \<longleftrightarrow> ch_psm c = hid_psm ch \<and> ch_state c = Open
     \<and> protocol_channel_of ch (se_protocols s) = None \<and> length (se_pending_events s) < 64"

abbreviation accepted_by :: "hid_channel option \<Rightarrow> u16 \<Rightarrow> u16 list" where
  "accepted_by new cid \<equiv> (case new of None \<Rightarrow> [] | Some _ \<Rightarrow> [cid])"

lemma drain_announced:
  assumes "channel m cid = Some c" "may_announce new c s" "\<not> se_active_reconnect s" "se_terminal s = None"
  shows "\<exists>opened. opened_channels m (accepted_by new cid) = Some opened
    \<and> drain_host_output (signalled (flushed m cn) flow io (map (\<lambda>(psm, cid). OutEvent (ChannelOpened psm cid)) opened) s)
      = (Inr (), announce new cid (ch_peer_mtu c) (signalled (flushed m cn) flow io [] s))"
proof (cases new)
  case None
  then show ?thesis by (simp add: drain_nothing signalled_def)
next
  case (Some ch)
  let ?out = "[OutEvent (ChannelOpened (hid_psm ch) cid)]" and ?u = "signalled (flushed m cn) flow io [] s"
  have "on_channel_opened (hid_psm ch) cid ?u = (Inr (), with_channel ch cid (ch_peer_mtu c) ?u)"
    using assms Some by (intro on_hid_opened) (simp_all add: signalled_def channel_info_def)
  then have "drain_host_output (signalled (flushed m cn) flow io ?out s) = (Inr (), with_channel ch cid (ch_peer_mtu c) ?u)"
    using signalled_pop [of "flushed m cn" flow _ ?out s]
    by (intro drain_opened [where psm = "hid_psm ch" and cid = cid]) (simp_all, simp_all add: signalled_def with_channel_def)
  with assms(1,2) Some show ?thesis by simp
qed

lemma announce_frame [simp]:
  "se_host (announce new cid mtu s) = se_host s" "se_io (announce new cid mtu s) = se_io s"
  "se_active_reconnect (announce new cid mtu s) = se_active_reconnect s" "se_terminal (announce new cid mtu s) = se_terminal s"
  by (cases new; simp add: with_channel_def)+

lemma announce_known:
  "known_channels s cn \<Longrightarrow> channel (cn_channels cn) cid \<noteq> None \<Longrightarrow> known_channels (announce new cid mtu s) cn"
  by (cases new) (auto simp: known_channels_def with_channel_def opened_channel_of)

lemma signal_handled:
  assumes "signalling s cn io" "short_pdu p" "process_pdu p (cn_channels cn) = (Inr (), m)"
    and "signals (cn_channels cn) m cid c out (accepted_by new cid)" "ch_received c = []" "list_all short_pdu (signal_pdus out)"
    and "may_announce new c s"
  shows "\<exists>us flow io' t. io' = io\<lparr>io_sent := io_sent io @ map Acl us\<rparr>
    \<and> t = announce new cid (ch_peer_mtu c) (signalled (flushed m cn) flow io' [] s)
    \<and> after_pdu (pdu_to_bytes p False) s = (Inr (), t) \<and> signalling t (flushed m cn) io'
    \<and> us @ fl_queued flow = fl_queued (ho_acl_flow (se_host s))
        @ pdu_fragments (cn_handle cn) (fl_payload_size (ho_acl_flow (se_host s))) (signal_pdus out)
    \<and> fl_payload_size flow = fl_payload_size (ho_acl_flow (se_host s))"
proof -
  have s: "idle_session s cn" "wired s cn io" "known_channels s cn" "\<not> se_active_reconnect s" "se_terminal s = None"
    using assms(1) by (simp_all add: signalling_def)
  have m: "cm_outbound m = signal_pdus out" "cm_accepted_channels m = accepted_by new cid" "channel m cid = Some c"
    using assms(4) s(1) by (simp_all add: signals_def signal_pdus_def idle_session_def settled_def)
  from drain_announced [OF m(3) assms(7) s(4,5)] obtain opened
    where opened: "opened_channels m (accepted_by new cid) = Some opened" by blast
  obtain us flow where d: "act_then (on_host map_host_error (deliver (pdu_to_bytes p False))) drain_host_output s
      = drain_host_output (signalled (flushed m cn) flow (io\<lparr>io_sent := io_sent io @ map Acl us\<rparr>)
          (map (\<lambda>(psm, cid). OutEvent (ChannelOpened psm cid)) opened) s)"
    and rest: "us @ fl_queued flow = fl_queued (ho_acl_flow (se_host s))
        @ pdu_fragments (cn_handle cn) (fl_payload_size (ho_acl_flow (se_host s))) (signal_pdus out)"
      "room flow = 0" "fl_payload_size flow = fl_payload_size (ho_acl_flow (se_host s))"
    using signal_drained [OF s(1,2) assms(2,3), of opened] assms(6) opened m(1,2) by auto
  let ?io = "io\<lparr>io_sent := io_sent io @ map Acl us\<rparr>"
  let ?t = "announce new cid (ch_peer_mtu c) (signalled (flushed m cn) flow ?io [] s)"
  have d: "act_then (on_host map_host_error (deliver (pdu_to_bytes p False))) drain_host_output s = (Inr (), ?t)"
    using d drain_announced [OF m(3) assms(7) s(4,5), of cn flow ?io] opened by auto
  have known: "known_channels ?t (flushed m cn)"
    using m(3) by (intro announce_known known_grows [OF s(3) assms(4)]) (simp_all add: signalled_def)
  have "session_inv s" using s(1) by (simp add: idle_session_def)
  with rest known have idle: "idle_session ?t (flushed m cn)"
    by (intro signals_idle [OF s(1) assms(4,5) delivered_inv [OF d]]) (simp_all add: signalled_def)
  then have "signalling ?t (flushed m cn) ?io"
    using known s(2,4,5) rest(3) by (simp add: signalling_def wired_def signalled_def)
  with after_pdu_settles [OF d idle] rest show ?thesis by blast
qed

text \<open>What a session has written, followed by what waits for a buffer of the controller.\<close>

definition traffic :: "'s backend_session \<Rightarrow> hci_io \<Rightarrow> packet list" where
  "traffic s io = io_sent io @ map Acl (fl_queued (ho_acl_flow (se_host s)))"

definition answers :: "'s backend_session \<Rightarrow> connection \<Rightarrow> control_frame list \<Rightarrow> packet list" where
  "answers s cn fs = map Acl (pdu_fragments (cn_handle cn) (fl_payload_size (ho_acl_flow (se_host s))) (signal_pdus fs))"

definition arrivals :: "connection \<Rightarrow> nat \<Rightarrow> control_frame list \<Rightarrow> arrival list" where
  "arrivals cn sz fs = map (\<lambda>p. ArrivedPacket (Acl p)) (pdu_fragments (cn_handle cn) sz (signal_pdus fs))"

lemma signalling_listens: "signalling s cn io \<Longrightarrow> listening s cn io"
  by (simp add: signalling_def listening_def)

lemma with_assembler_listening:
  "listening s cn io \<Longrightarrow> idle_session (with_assembler asm s) cn \<Longrightarrow> listening (with_assembler asm s) cn io"
  "signalling s cn io \<Longrightarrow> listening (with_assembler asm s) cn io \<Longrightarrow> signalling (with_assembler asm s) cn io"
  by (simp_all add: listening_def signalling_def wired_def known_channels_def) (simp_all add: with_assembler_def)

text \<open>The fragments of one frame, from what the session does with the frame.\<close>

lemma poll_signal:
  assumes "listening s cn io" "short_pdu (pdu_new L2CAP_SIGNALING_CID (frame_to_bytes f))" "4 \<le> sz" "sz \<le> 65535"
    and "\<And>asm. listening (with_assembler asm s) cn io \<Longrightarrow>
      \<exists>t. after_pdu (pdu_to_bytes (pdu_new L2CAP_SIGNALING_CID (frame_to_bytes f)) False) (with_assembler asm s) = (Inr (), t)
        \<and> se_terminal t = None \<and> P t"
  shows "arrivals cn sz [f] \<noteq> [] \<and> (\<exists>t. P t \<and> poll_loop store (arrivals cn sz [f] @ as) s = poll_loop store as t)"
proof -
  let ?p = "pdu_new L2CAP_SIGNALING_CID (frame_to_bytes f)"
  have s: "idle_session s cn" "se_io s \<noteq> None" "se_terminal s = None" "cn_handle cn \<le> ACL_HANDLE_MASK"
    using assms(1) by (auto simp: listening_def wired_def)
  have "length (pdu_payload ?p) \<le> 65535" using assms(2) by (simp add: short_pdu_def)
  then have "pdu_fragments (cn_handle cn) sz [?p] \<noteq> [] \<and> (\<exists>t. P t
      \<and> poll_loop store (map (\<lambda>p. ArrivedPacket (Acl p)) (pdu_fragments (cn_handle cn) sz [?p]) @ as) s = poll_loop store as t)"
    using assms(5) [OF with_assembler_listening(1) [OF assms(1)]] assms(2-4)
    by (intro poll_pdu_loop [OF s(1-3) _ s(4) assms(3,4) fragment_short [OF s(4) _ assms(4,2)]]) simp_all
  then show ?thesis by (simp add: arrivals_def signal_pdus_def)
qed

definition same :: "'s backend_session \<Rightarrow> 's backend_session \<Rightarrow> bool" where
  "same t s \<longleftrightarrow> se_protocols t = se_protocols s \<and> se_pending_events t = se_pending_events s
     \<and> fl_payload_size (ho_acl_flow (se_host t)) = fl_payload_size (ho_acl_flow (se_host s))"

lemma poll_handled:
  assumes "signalling s cn io" "frame_wf f" "short_pdu (pdu_new L2CAP_SIGNALING_CID (frame_to_bytes f))" "4 \<le> sz" "sz \<le> 65535"
    and "process_control f (cn_channels cn) = (Inr (), m)" "signals (cn_channels cn) m cid c out (accepted_by new cid)"
    and "ch_received c = []" "list_all short_pdu (signal_pdus out)" "may_announce new c s"
  shows "arrivals cn sz [f] \<noteq> [] \<and> (\<exists>t io' s'. poll_loop store (arrivals cn sz [f] @ as) s = poll_loop store as t
    \<and> signalling t (flushed m cn) io' \<and> t = announce new cid (ch_peer_mtu c) s' \<and> same s' s
    \<and> traffic t io' = traffic s io @ answers s cn out)"
proof -
  let ?p = "pdu_new L2CAP_SIGNALING_CID (frame_to_bytes f)"
  have process: "process_pdu ?p (cn_channels cn) = (Inr (), m)" using assms(2,6) by (simp add: process_signal)
  define P where "P t \<longleftrightarrow> (\<exists>io' s'. signalling t (flushed m cn) io' \<and> t = announce new cid (ch_peer_mtu c) s'
    \<and> same s' s \<and> traffic t io' = traffic s io @ answers s cn out)" for t :: "'a backend_session"
  have "\<exists>t. after_pdu (pdu_to_bytes ?p False) (with_assembler asm s) = (Inr (), t) \<and> se_terminal t = None \<and> P t"
    if "listening (with_assembler asm s) cn io" for asm
  proof -
    let ?s = "with_assembler asm s"
    note ready = with_assembler_listening(2) [OF assms(1) that]
    have "may_announce new c ?s" using assms(10) by (cases new) (simp_all add: with_assembler_def)
    from signal_handled [OF ready assms(3) process assms(7-9) this] obtain us flow io' t where
      io': "io' = io\<lparr>io_sent := io_sent io @ map Acl us\<rparr>"
      and t: "t = announce new cid (ch_peer_mtu c) (signalled (flushed m cn) flow io' [] ?s)"
      "after_pdu (pdu_to_bytes ?p False) ?s = (Inr (), t)" "signalling t (flushed m cn) io'"
      and f: "us @ fl_queued flow = fl_queued (ho_acl_flow (se_host s))
        @ pdu_fragments (cn_handle cn) (fl_payload_size (ho_acl_flow (se_host s))) (signal_pdus out)"
      "fl_payload_size flow = fl_payload_size (ho_acl_flow (se_host s))" by auto
    have "ho_acl_flow (se_host t) = flow" by (simp add: t(1) signalled_def)
    with f have "traffic t io' = traffic s io @ answers s cn out"
      by (auto simp: traffic_def answers_def io' simp flip: map_append)
    moreover have "same (signalled (flushed m cn) flow io' [] ?s) s"
      using f(2) by (simp add: same_def signalled_def with_assembler_def)
    ultimately have "P t" unfolding P_def using t(1,3) by blast
    with t(2,3) show ?thesis by (auto simp: signalling_def)
  qed
  from poll_signal [OF signalling_listens [OF assms(1)] assms(3-5) this, of store as] show ?thesis by (auto simp: P_def)
qed

section \<open>Lemmas: the handshake of an incoming channel\<close>

lemma each_one: "act_each f [x] s = (Inr (), t) \<Longrightarrow> f x s = (Inr (), t)"
  by (auto simp: act_then_def act_bind_def split: prod.splits sum.splits)

lemma signals_flushed:
  "signals m m' cid c out acc \<Longrightarrow>
     signals (cn_channels (flushed m' cn)) (cn_channels (flushed m' cn)) cid c [] []"
  by (auto simp: signals_def fun_eq_iff) (simp add: flushed_def)

lemma hid_psm_wire: "psm_wire_ok (hid_psm ch)"
  by (cases ch) (rule accepted_psm_wire [THEN iffD2], simp_all add: hid_psm_def validate_psm_def validate_psm_high.simps)+

lemma requested_frames:
  "frame_wf (ConnectionRequest i (hid_psm ch) remote)"
  "short_pdu (pdu_new L2CAP_SIGNALING_CID (frame_to_bytes (ConnectionRequest i (hid_psm ch) remote)))"
  "frame_wf (ConfigureRequest j cid 0 (mtu_option mtu))"
  "short_pdu (pdu_new L2CAP_SIGNALING_CID (frame_to_bytes (ConfigureRequest j cid 0 (mtu_option mtu))))"
  "length options \<le> 65525 \<Longrightarrow> frame_wf (ConfigureResponse k cid 0 0 options)"
  "length options \<le> 65525 \<Longrightarrow> short_pdu (pdu_new L2CAP_SIGNALING_CID (frame_to_bytes (ConfigureResponse k cid 0 0 options)))"
  "short_pdu (pdu_new L2CAP_SIGNALING_CID (frame_to_bytes (ConnectionResponse i cid remote 0 0)))"
  using hid_psm_wire [of ch]
  by (simp_all add: frame_wf_def short_pdu_def pdu_new_def frame_to_bytes_def Let_def serialize_psm_bytes)

lemma configure_requested:
  assumes "signals m m cid c [] []" "ch_spec c = BasicSpec spec" "ch_mode c = Basic" "\<not> ch_configuration_response_received c"
    and "48 \<le> mtu"
  obtains m' where "process_control (ConfigureRequest j cid 0 (mtu_option mtu)) m = (Inr (), m')"
    "signals m m' cid (c\<lparr>ch_peer_mtu := mtu, ch_peer_configuration_received := True\<rparr>)
      [ConfigureResponse j (ch_destination_cid c) 0 0 (mtu_option mtu)] []"
proof -
  let ?c = "c\<lparr>ch_peer_mtu := mtu, ch_peer_configuration_received := True\<rparr>"
  let ?out = "[ConfigureResponse j (ch_destination_cid c) 0 0 (mtu_option mtu)]"
  obtain m2 where "on_configure_request j cid 0 (mtu_option mtu) m = (Inr (), maybe_open cid m2)" "signals m m2 cid ?c ([] @ ?out) []"
    by (rule signals_on_configure_request [OF assms(1-3), of mtu "ch_destination_cid c" j]) (simp_all add: assms(5))
  moreover from this(2) have "signals m (maybe_open cid m2) cid ?c ?out []"
    using signals_open(1) assms(4) by simp
  ultimately show thesis using that [of "maybe_open cid m2"] by simp
qed

lemma incoming_completed:
  assumes "signals m m cid c [] []" "ch_peer_configuration_received c" "ch_state c = Configuring" "ch_incoming c" "\<not> ch_open_announced c"
  obtains m' where "process_control (ConfigureResponse k cid 0 0 options) m = (Inr (), m')"
    "signals m m' cid (c\<lparr>ch_configuration_response_received := True, ch_state := Open, ch_open_announced := True\<rparr>) [] [cid]"
proof -
  obtain m2 where "on_configure_response cid CONFIGURATION_SUCCESS m = (Inr (), maybe_open cid m2)"
    "signals m m2 cid (c\<lparr>ch_configuration_response_received := True\<rparr>) [] []"
    by (rule signals_on_configure_response [OF assms(1)])
  moreover from signals_open(2) [OF this(2)]
  have "signals m (maybe_open cid m2) cid (c\<lparr>ch_configuration_response_received := True, ch_state := Open, ch_open_announced := True\<rparr>) [] [cid]"
    using assms by simp
  ultimately show thesis using that [of "maybe_open cid m2"] by simp
qed

lemma incoming_handshake:
  fixes remote :: u16
  assumes "manager_inv (cn_channels cn)" "bt_get (cm_servers (cn_channels cn)) (hid_psm ch) = Some (BasicSpec spec)"
    and "allocate_cid (cn_channels cn) = Inr cid" "48 \<le> mtu"
  defines "c1 \<equiv> channel_incoming (hid_psm ch) cid remote (BasicSpec spec)"
  defines "c2 \<equiv> c1\<lparr>ch_peer_mtu := mtu, ch_peer_configuration_received := True\<rparr>"
  defines "c3 \<equiv> c2\<lparr>ch_configuration_response_received := True, ch_state := Open, ch_open_announced := True\<rparr>"
  obtains ident m1 m2 m3 cn1 cn2 where "cn1 = flushed m1 cn" "cn2 = flushed m2 cn1"
    "process_control (ConnectionRequest i (hid_psm ch) remote) (cn_channels cn) = (Inr (), m1)"
    "signals (cn_channels cn) m1 cid c1
      [ConnectionResponse i cid remote 0 0, ConfigureRequest ident remote 0 (mtu_option (cs_mtu spec))] []"
    "process_control (ConfigureRequest j cid 0 (mtu_option mtu)) (cn_channels cn1) = (Inr (), m2)"
    "signals (cn_channels cn1) m2 cid c2 [ConfigureResponse j remote 0 0 (mtu_option mtu)] []"
    "process_control (ConfigureResponse k cid 0 0 options) (cn_channels cn2) = (Inr (), m3)"
    "signals (cn_channels cn2) m3 cid c3 [] [cid]"
proof -
  let ?f1 = "ConnectionRequest i (hid_psm ch) remote"
  have "bt_ok (cm_channels (cn_channels cn))" using assms(1) by (simp add: manager_inv_def)
  then obtain ident m1 where a1: "act_each process_pdu (signal_pdus [?f1]) (cn_channels cn) = (Inr (), m1)"
    and m1: "signals (cn_channels cn) m1 cid c1 [ConnectionResponse i cid remote CONNECTION_SUCCESSFUL 0,
      ConfigureRequest ident remote 0 (mtu_option (cs_mtu spec))] []"
    unfolding c1_def using server_accepts [OF _ assms(3,2) hid_psm_wire, of i remote] by blast
  have "process_pdu (pdu_new L2CAP_SIGNALING_CID (frame_to_bytes ?f1)) (cn_channels cn) = (Inr (), m1)"
    using a1 unfolding signal_pdus_def list.map by (rule each_one)
  then have p1: "process_control ?f1 (cn_channels cn) = (Inr (), m1)"
    using requested_frames(1) [of i ch remote] by (simp only: process_signal)
  obtain m2 where p2: "process_control (ConfigureRequest j cid 0 (mtu_option mtu)) (cn_channels (flushed m1 cn)) = (Inr (), m2)"
    and m2: "signals (cn_channels (flushed m1 cn)) m2 cid c2 [ConfigureResponse j remote 0 0 (mtu_option mtu)] []"
    unfolding c2_def
    by (rule configure_requested [OF signals_flushed [OF m1] _ _ _ assms(4), of spec j]) (simp_all add: c1_def channel_incoming_def)
  obtain m3 where "process_control (ConfigureResponse k cid 0 0 options) (cn_channels (flushed m2 (flushed m1 cn))) = (Inr (), m3)"
    "signals (cn_channels (flushed m2 (flushed m1 cn))) m3 cid c3 [] [cid]"
    unfolding c3_def
    by (rule incoming_completed [OF signals_flushed [OF m2]]) (simp_all add: c2_def c1_def channel_incoming_def)
  with p1 m1 p2 m2 show thesis by (intro that [OF refl refl]) simp_all
qed

lemma answers_append: "answers s cn (fs @ gs) = answers s cn fs @ answers s cn gs"
  by (simp add: answers_def signal_pdus_def pdu_fragments_def)

lemma arrivals_split:
  "cn_handle cn' = cn_handle cn \<Longrightarrow> arrivals cn sz (f # fs) = arrivals cn sz [f] @ arrivals cn' sz fs"
  by (simp add: arrivals_def signal_pdus_def pdu_fragments_def)

lemma answers_same: "same t s \<Longrightarrow> cn_handle cn' = cn_handle cn \<Longrightarrow> answers t cn' fs = answers s cn fs"
  by (simp add: same_def answers_def)

text \<open>The frames of the peer through the poll loop: two that are only answered, then the one that completes the channel.\<close>

lemma poll_answered:
  assumes "signalling s cn io" "4 \<le> sz" "sz \<le> 65535"
    and "frame_wf f1" "short_pdu (pdu_new L2CAP_SIGNALING_CID (frame_to_bytes f1))" "process_control f1 (cn_channels cn) = (Inr (), m1)"
    and "signals (cn_channels cn) m1 cid c1 a1 []" "ch_received c1 = []" "list_all short_pdu (signal_pdus a1)"
    and "frame_wf f2" "short_pdu (pdu_new L2CAP_SIGNALING_CID (frame_to_bytes f2))"
    and "process_control f2 (cn_channels (flushed m1 cn)) = (Inr (), m2)"
    and "signals (cn_channels (flushed m1 cn)) m2 cid c2 a2 []" "ch_received c2 = []" "list_all short_pdu (signal_pdus a2)"
  shows "\<exists>t io'. poll_loop store (arrivals cn sz (f1 # f2 # fs) @ as) s = poll_loop store (arrivals cn sz fs @ as) t
    \<and> signalling t (flushed m2 (flushed m1 cn)) io' \<and> same t s \<and> traffic t io' = traffic s io @ answers s cn (a1 @ a2)"
proof -
  let ?cn1 = "flushed m1 cn" and ?cn2 = "flushed m2 (flushed m1 cn)"
  have acc: "signals (cn_channels cn) m1 cid c1 a1 (accepted_by None cid)" "signals (cn_channels ?cn1) m2 cid c2 a2 (accepted_by None cid)"
    using assms(7,13) by simp_all
  obtain t1 io1 where t1: "poll_loop store (arrivals cn sz [f1] @ arrivals ?cn1 sz [f2] @ arrivals cn sz fs @ as) s
      = poll_loop store (arrivals ?cn1 sz [f2] @ arrivals cn sz fs @ as) t1" "signalling t1 ?cn1 io1" "same t1 s"
    "traffic t1 io1 = traffic s io @ answers s cn a1"
    using poll_handled [OF assms(1,4,5,2,3,6) acc(1) assms(8,9), of store "arrivals ?cn1 sz [f2] @ arrivals cn sz fs @ as"] by auto
  obtain t2 io2 where t2: "poll_loop store (arrivals ?cn1 sz [f2] @ arrivals cn sz fs @ as) t1 = poll_loop store (arrivals cn sz fs @ as) t2"
    "signalling t2 ?cn2 io2" "same t2 t1" "traffic t2 io2 = traffic t1 io1 @ answers t1 ?cn1 a2"
    using poll_handled [OF t1(2) assms(10,11,2,3,12) acc(2) assms(14,15), of store "arrivals cn sz fs @ as"] by auto
  have "arrivals cn sz (f1 # f2 # fs) = arrivals cn sz [f1] @ arrivals ?cn1 sz [f2] @ arrivals cn sz fs"
    unfolding arrivals_split [of ?cn1 cn sz f1 "f2 # fs", OF flushed_channel(2)] arrivals_split [of cn ?cn1 sz f2 fs, OF flushed_channel(2) [symmetric]] ..
  then have "poll_loop store (arrivals cn sz (f1 # f2 # fs) @ as) s = poll_loop store (arrivals cn sz fs @ as) t2"
    using t1(1) t2(1) by simp
  moreover have "traffic t2 io2 = traffic s io @ answers s cn (a1 @ a2)"
    unfolding answers_append using t1(4) t2(4) answers_same [OF t1(3) flushed_channel(2)] by simp
  moreover have "same t2 s" using t1(3) t2(3) by (simp add: same_def)
  ultimately show ?thesis using t2(2) by blast
qed

lemma poll_incoming:
  assumes "signalling s cn io"
    and "bt_get (cm_servers (cn_channels cn)) (hid_psm ch) = Some (BasicSpec spec)" "allocate_cid (cn_channels cn) = Inr cid"
    and "protocol_channel_of ch (se_protocols s) = None" "length (se_pending_events s) < 64"
    and "48 \<le> mtu" "length options \<le> 65525" "4 \<le> sz" "sz \<le> 65535"
  shows "\<exists>ident t cn' io' c. poll_loop store (arrivals cn sz [ConnectionRequest i (hid_psm ch) remote,
        ConfigureRequest j cid 0 (mtu_option mtu), ConfigureResponse k cid 0 0 options]) s = poll_loop store [] t
    \<and> traffic t io' = traffic s io @ answers s cn [ConnectionResponse i cid remote 0 0,
        ConfigureRequest ident remote 0 (mtu_option (cs_mtu spec)), ConfigureResponse j remote 0 0 (mtu_option mtu)]
    \<and> signalling t cn' io' \<and> se_protocols t = opened_protocols ch cid mtu (se_protocols s)
    \<and> se_pending_events t = se_pending_events s @ [EvChannelOpened ch]
    \<and> basic_open (cn_channels cn') cid c \<and> ch_destination_cid c = remote \<and> ch_peer_mtu c = mtu \<and> ch_mtu c = cs_mtu spec"
proof -
  let ?f1 = "ConnectionRequest i (hid_psm ch) remote" and ?f2 = "ConfigureRequest j cid 0 (mtu_option mtu)"
    and ?f3 = "ConfigureResponse k cid 0 0 options"
  let ?c1 = "channel_incoming (hid_psm ch) cid remote (BasicSpec spec)"
  let ?c2 = "?c1\<lparr>ch_peer_mtu := mtu, ch_peer_configuration_received := True\<rparr>"
  let ?c3 = "?c2\<lparr>ch_configuration_response_received := True, ch_state := Open, ch_open_announced := True\<rparr>"
  let ?a2 = "[ConfigureResponse j remote 0 0 (mtu_option mtu)]"
  have inv: "manager_inv (cn_channels cn)" using idle_facts(1) [of s cn] assms(1) by (simp add: signalling_def)
  obtain ident m1 m2 m3 cn1 cn2 where cns: "cn1 = flushed m1 cn" "cn2 = flushed m2 cn1"
    and p1: "process_control ?f1 (cn_channels cn) = (Inr (), m1)" and m1: "signals (cn_channels cn) m1 cid ?c1
      [ConnectionResponse i cid remote 0 0, ConfigureRequest ident remote 0 (mtu_option (cs_mtu spec))] []"
    and p2: "process_control ?f2 (cn_channels cn1) = (Inr (), m2)" and m2: "signals (cn_channels cn1) m2 cid ?c2 ?a2 []"
    and p3: "process_control ?f3 (cn_channels cn2) = (Inr (), m3)" and m3: "signals (cn_channels cn2) m3 cid ?c3 [] [cid]"
    by (rule incoming_handshake [OF inv assms(2,3,6)])
  let ?a1 = "[ConnectionResponse i cid remote 0 0, ConfigureRequest ident remote 0 (mtu_option (cs_mtu spec))]"
  have c: "ch_received ?c1 = []" "ch_received ?c2 = []" "list_all short_pdu (signal_pdus ?a1)" "list_all short_pdu (signal_pdus ?a2)"
    by (simp_all add: channel_incoming_def signal_pdus_def requested_frames)
  obtain t2 io2 where t2: "poll_loop store (arrivals cn sz [?f1, ?f2, ?f3]) s = poll_loop store (arrivals cn sz [?f3]) t2"
    "signalling t2 cn2 io2" "same t2 s" "traffic t2 io2 = traffic s io @ answers s cn (?a1 @ ?a2)"
    using poll_answered [OF assms(1,8,9) requested_frames(1,2) p1 m1 c(1,3) requested_frames(3,4) p2 [unfolded cns] m2 [unfolded cns] c(2,4),
        of store "[?f3]" "[]"] by (auto simp: cns)
  have news: "may_announce (Some ch) ?c3 t2" using assms(4,5) t2(3) by (simp add: same_def channel_incoming_def)
  have m3': "signals (cn_channels cn2) m3 cid ?c3 [] (accepted_by (Some ch) cid)" using m3 by simp
  have same: "arrivals cn2 sz [?f3] = arrivals cn sz [?f3]" by (simp add: arrivals_def cns)
  obtain t3 io3 u where t3: "poll_loop store (arrivals cn sz [?f3]) t2 = poll_loop store [] t3"
    "signalling t3 (flushed m3 cn2) io3" "t3 = with_channel ch cid mtu u" "same u t2" "traffic t3 io3 = traffic t2 io2 @ answers t2 cn2 []"
    using poll_handled [OF t2(2) requested_frames(5,6) [OF assms(7)] assms(8,9) p3 m3' _ _ news, of store "[]"]
    unfolding same by (auto simp: channel_incoming_def signal_pdus_def)
  have "traffic t3 io3 = traffic s io @ answers s cn (?a1 @ ?a2)" using t2(4) t3(5) by (simp add: answers_def signal_pdus_def)
  moreover have "basic_open (cn_channels (flushed m3 cn2)) cid ?c3"
    using m3 by (simp add: basic_open_def signals_def channel_incoming_def)
  moreover have "se_protocols t3 = opened_protocols ch cid mtu (se_protocols s)"
    "se_pending_events t3 = se_pending_events s @ [EvChannelOpened ch]"
    using t2(3) t3(3,4) by (simp_all add: same_def with_channel_def)
  ultimately show ?thesis using t3(2) t2(1) t3(1)
    by (intro exI [of _ ident] exI [of _ t3] exI [of _ "flushed m3 cn2"] exI [of _ io3] exI [of _ ?c3])
      (simp_all add: channel_incoming_def)
qed

section \<open>Properties\<close>

text \<open>C5: the peer opens a HID channel. On a connected session that is not itself reconnecting and has dealt with everything before, a poll
  that receives, cut into fragments of one size of at least four bytes, the connection request of the peer for a registered HID service, its configuration request and its configuration
  response, returns the events that were waiting followed by the opening of that channel. The session has written, or queued while the
  controller has no buffer, exactly the connection response, its own configuration request and its configuration response; the channel
  is open in Basic mode to the peer's CID with the two negotiated sizes, and the session is again ready for signaling.\<close>

theorem hid_channel_opened:
  assumes "signalling s cn io" "session_ensure_active s = Inr ()"
    and "bt_get (cm_servers (cn_channels cn)) (hid_psm ch) = Some (BasicSpec spec)" "allocate_cid (cn_channels cn) = Inr cid"
    and "protocol_channel_of ch (se_protocols s) = None" "length (se_pending_events s) < 64"
    and "48 \<le> mtu" "length options \<le> 65525" "4 \<le> sz" "sz \<le> 65535"
  shows "\<exists>ident t cn' io'. poll store (arrivals cn sz [ConnectionRequest i (hid_psm ch) remote,
        ConfigureRequest j cid 0 (mtu_option mtu), ConfigureResponse k cid 0 0 options]) s
      = (Inr (se_pending_events s @ [EvChannelOpened ch]), t)
    \<and> traffic t io' = traffic s io @ answers s cn [ConnectionResponse i cid remote 0 0,
        ConfigureRequest ident remote 0 (mtu_option (cs_mtu spec)), ConfigureResponse j remote 0 0 (mtu_option mtu)]
    \<and> signalling t cn' io' \<and> hid_open t ch cid
    \<and> (\<exists>c. basic_open (cn_channels cn') cid c \<and> ch_destination_cid c = remote \<and> ch_peer_mtu c = mtu \<and> ch_mtu c = cs_mtu spec)"
proof -
  let ?fs = "[ConnectionRequest i (hid_psm ch) remote, ConfigureRequest j cid 0 (mtu_option mtu), ConfigureResponse k cid 0 0 options]"
  from poll_incoming [OF assms(1,3-10), of store i remote j k] obtain ident t cn' io' c
    where loop: "poll_loop store (arrivals cn sz ?fs) s = poll_loop store [] t"
      and out: "traffic t io' = traffic s io @ answers s cn [ConnectionResponse i cid remote 0 0,
        ConfigureRequest ident remote 0 (mtu_option (cs_mtu spec)), ConfigureResponse j remote 0 0 (mtu_option mtu)]"
      and t: "signalling t cn' io'" "se_protocols t = opened_protocols ch cid mtu (se_protocols s)"
        "se_pending_events t = se_pending_events s @ [EvChannelOpened ch]"
      and c: "basic_open (cn_channels cn') cid c" "ch_destination_cid c = remote" "ch_peer_mtu c = mtu" "ch_mtu c = cs_mtu spec" by blast
  let ?t = "t\<lparr>se_pending_events := []\<rparr>"
  have fresh: "channel (cn_channels cn) cid = None" using assms(4) by (rule allocate_cid_fresh)
  have "cn_handle cn \<le> ACL_HANDLE_MASK" "se_io t \<noteq> None" using assms(1) t(1) by (auto simp: signalling_def wired_def)
  with fragment_nonempty [of "cn_handle cn" sz] assms(9,10) requested_frames(2)
  have "poll store (arrivals cn sz ?fs) s = (Inr (se_pending_events t), ?t)"
    using loop unfolding arrivals_def by (intro poll_finishes [OF assms(2)]) (simp_all add: signal_pdus_def pdu_fragments_Cons [of _ _ _ "_ # _"])
  moreover have "traffic ?t io' = traffic t io'" "signalling ?t cn' io'"
    using t(1) by (auto simp: traffic_def signalling_def idle_session_def session_inv_def wired_def known_channels_def channel_is_open_def)
  moreover have "hid_open ?t ch cid"
    using assms(1) fresh by (force simp: hid_open_def t(2) opened_channel_of signalling_def known_channels_def)
  ultimately show ?thesis using out t(3) c by metis
qed

text \<open>A session right after its connection, with a server for the control channel.\<close>

definition linked_connection :: connection where
  "linked_connection = \<lparr>cn_peer = peer_example, cn_handle = 7, cn_encrypted = True, cn_channels = server_example\<rparr>"

definition linked_session :: "(bluetooth_address \<times> classic_bond) list backend_session" where
  "linked_session = (sample_session WindowConnected)\<lparr>se_protocols := protocol_default,
     se_host := (connected_example 7)\<lparr>ho_connection := Some linked_connection\<rparr>\<rparr>"

lemma linked_session_signalling: "signalling linked_session linked_connection sample_io"
proof -
  have no_channels: "channel server_example cid = None" "settled server_example" for cid
    by (simp_all add: server_example_def manager_new_def with_information_capabilities_def channel_def bt_get_def settled_def)
  have "session_inv linked_session"
    using sample_session_facts(1) [of WindowConnected] server_example_inv
    by (simp add: linked_session_def linked_connection_def session_inv_def host_inv_def sample_session_def)
  then show ?thesis
    using no_channels sample_session_facts(6) [of 7] connected_example_facts(4) [of 7]
    by (simp add: signalling_def idle_session_def wired_def known_channels_def linked_session_def linked_connection_def
        protocol_channel_of_def protocol_default_def bt_keys_def sample_session_def sample_io_def split: hid_channel.split)
      (simp add: connected_example_def host_new_def flow_new_def room_def)
qed

theorem hid_channel_opened_witness:
  "\<exists>ident t cn' io'. poll store_example (arrivals linked_connection 27 [ConnectionRequest 1 0x11 0x45,
        ConfigureRequest 2 0x40 0 (mtu_option 185), ConfigureResponse 3 0x40 0 0 []]) linked_session
      = (Inr [EvChannelOpened ControlChannel], t)
    \<and> traffic t io' = traffic linked_session sample_io @ answers linked_session linked_connection
        [ConnectionResponse 1 0x40 0x45 0 0, ConfigureRequest ident 0x45 0 (mtu_option (cs_mtu classic_channel_spec_default)),
         ConfigureResponse 2 0x45 0 0 (mtu_option 185)]
    \<and> signalling t cn' io' \<and> hid_open t ControlChannel 0x40
    \<and> (\<exists>c. basic_open (cn_channels cn') 0x40 c \<and> ch_destination_cid c = 0x45 \<and> ch_peer_mtu c = 185
         \<and> ch_mtu c = cs_mtu classic_channel_spec_default)"
proof -
  have "bt_get (cm_servers (cn_channels linked_connection)) (hid_psm ControlChannel) = Some (BasicSpec classic_channel_spec_default)"
    "allocate_cid (cn_channels linked_connection) = Inr 0x40"
    by (simp_all add: linked_connection_def server_example_def hid_psm_def manager_new_def with_information_capabilities_def
        allocate_cid_def range_find_hit bt_contains_def bt_get_def)
  moreover have "session_ensure_active linked_session = Inr ()" "se_pending_events linked_session = []"
    "protocol_channel_of ControlChannel (se_protocols linked_session) = None"
    by (simp_all add: linked_session_def sample_session_def session_ensure_active_def protocol_channel_of_def protocol_default_def)
  ultimately show ?thesis
    using hid_channel_opened [OF linked_session_signalling, of ControlChannel classic_channel_spec_default "0x40" 185 "[]" 27
        store_example 1 "0x45" 2 3] by (simp add: hid_psm_def)
qed

end
