(* ===== verification/Session_Dialling.thy ===== *)
theory Session_Dialling
  imports Session_Channels
begin

text \<open>
  A HID channel opened by the session itself, as it does when it reconnects: the connection request goes out when the link is encrypted,
  the answers of the peer arrive in fragments, and the interrupt channel is dialled as soon as the control channel is open.
\<close>

section \<open>The frames on the wire\<close>

definition signal_packets :: "u16 \<Rightarrow> nat \<Rightarrow> control_frame list \<Rightarrow> packet list" where
  "signal_packets handle sz fs = map Acl (pdu_fragments handle sz (signal_pdus fs))"

text \<open>What a peer sends that accepts a channel, and what the session sends for it.\<close>

definition acceptance :: "u16 \<Rightarrow> u16 \<Rightarrow> u16 \<Rightarrow> u8 \<times> u8 \<times> u8 \<Rightarrow> bytes \<Rightarrow> control_frame list" where
  "acceptance cid remote mtu ids options = (case ids of (i, j, k) \<Rightarrow>
     [ConnectionResponse i remote cid 0 0, ConfigureRequest j cid 0 (mtu_option mtu), ConfigureResponse k cid 0 0 options])"

definition dialogue :: "hid_channel \<Rightarrow> u16 \<Rightarrow> u16 \<Rightarrow> u16 \<Rightarrow> u8 \<Rightarrow> u8 \<Rightarrow> u8 \<Rightarrow> control_frame list" where
  "dialogue ch cid remote mtu i i' j =
     [ConnectionRequest i (hid_psm ch) cid, ConfigureRequest i' remote 0 (mtu_option CLASSIC_SERVER_MTU),
      ConfigureResponse j remote 0 0 (mtu_option mtu)]"

section \<open>Lemmas: dialling a channel\<close>

abbreviation dialled :: "hid_channel \<Rightarrow> u16 \<Rightarrow> classic_channel" where
  "dialled ch cid \<equiv> channel_outgoing (hid_psm ch) cid (BasicSpec server_spec)"

lemma connect_signals:
  assumes "bt_ok (cm_channels m)" "allocate_cid m = Inr cid"
  shows "\<exists>ident m'. connect (hid_psm ch) server_spec m = (Inr cid, m')
    \<and> signals m m' cid (dialled ch cid) [ConnectionRequest ident (hid_psm ch) cid] []"
proof -
  let ?i = "fst (next_identifier m)" and ?m = "snd (next_identifier m)"
  let ?m' = "queue_control (ConnectionRequest ?i (hid_psm ch) cid) (put_channel cid (dialled ch cid) ?m)"
  have same: "channel ?m = channel m" "cm_channels ?m = cm_channels m" "cm_outbound ?m = cm_outbound m"
    "cm_accepted_channels ?m = cm_accepted_channels m"
    by (simp_all add: fun_eq_iff) (simp_all add: next_identifier_def Let_def)
  have "validate_psm (hid_psm ch) = Inr ()" "validate_spec server_spec = Inr ()"
    by (cases ch; simp add: hid_psm_def validate_psm_def validate_psm_high.simps) (simp add: validate_spec_def server_spec_def)
  then have "connect (hid_psm ch) server_spec m = (Inr cid, ?m')"
    using assms(2) by (simp add: connect_def connect_with_spec_def split_beta)
  moreover have "signals ?m ?m' cid (dialled ch cid) ([] @ [ConnectionRequest ?i (hid_psm ch) cid]) []"
    using assms(1) same by (intro signals_queue signals_put) simp
  then have "signals m ?m' cid (dialled ch cid) [ConnectionRequest ?i (hid_psm ch) cid] []"
    unfolding signals_def same by simp
  ultimately show ?thesis by blast
qed

definition dialling :: "hid_channel \<Rightarrow> u16 \<Rightarrow> 's backend_session \<Rightarrow> 's backend_session" where
  "dialling ch cid s = (let c = Some \<lparr>pc_cid = cid, pc_open = False\<rparr>; p = se_protocols s in
     put_protocols (case ch of ControlChannel \<Rightarrow> p\<lparr>ps_control := c\<rparr> | InterruptChannel \<Rightarrow> p\<lparr>ps_interrupt := c\<rparr>) s)"

definition dial :: "hid_channel \<Rightarrow> ('s, unit) session_action" where
  "dial ch = act_bind (on_host map_host_error (connect_channel (hid_psm ch) server_spec)) (\<lambda>cid. act_modify (dialling ch cid))"

lemma dial_calls:
  "se_active_reconnect s \<Longrightarrow> ps_control (se_protocols s) = None \<Longrightarrow> start_active_reconnect_control s = dial ControlChannel s"
  "se_active_reconnect s \<Longrightarrow> ps_interrupt (se_protocols s) = None \<Longrightarrow> connect_interrupt s = dial InterruptChannel s"
  by (simp_all add: start_active_reconnect_control_def connect_interrupt_def dial_def dialling_def [abs_def] hid_psm_def Let_def)

lemma dialling_fields [simp]:
  "se_host (dialling ch cid s) = se_host s" "se_io (dialling ch cid s) = se_io s" "se_terminal (dialling ch cid s) = se_terminal s"
  "se_active_reconnect (dialling ch cid s) = se_active_reconnect s" "se_pending_events (dialling ch cid s) = se_pending_events s"
  "protocol_channel_of ch' (se_protocols (dialling ch cid s))
     = (if ch' = ch then Some \<lparr>pc_cid = cid, pc_open = False\<rparr> else protocol_channel_of ch' (se_protocols s))"
  "ps_sdp (se_protocols (dialling ch cid s)) = ps_sdp (se_protocols s)"
  by (cases ch; cases ch'; simp add: dialling_def put_protocols_def protocol_channel_of_def)+

lemma signalled_fields [simp]:
  "se_protocols (signalled cn flow io outs s) = se_protocols s" "se_io (signalled cn flow io outs s) = Some io"
  "se_terminal (signalled cn flow io outs s) = se_terminal s" "se_pending_events (signalled cn flow io outs s) = se_pending_events s"
  "se_active_reconnect (signalled cn flow io outs s) = se_active_reconnect s"
  "se_protocols (dialling ch cid (signalled cn flow io outs s)) = se_protocols (dialling ch cid s)"
  by (simp_all add: signalled_def dialling_def put_protocols_def Let_def)

lemma dial_host:
  assumes "listening s cn io" "allocate_cid (cn_channels cn) = Inr cid"
  shows "\<exists>ident m us flow. dial ch s = (Inr (), dialling ch cid (signalled (flushed m cn) flow io (map OutAcl us) s))
    \<and> signals (cn_channels cn) m cid (dialled ch cid) [ConnectionRequest ident (hid_psm ch) cid] []
    \<and> us @ fl_queued flow = fl_queued (ho_acl_flow (se_host s)) @ pdu_fragments (cn_handle cn)
        (fl_payload_size (ho_acl_flow (se_host s))) (signal_pdus [ConnectionRequest ident (hid_psm ch) cid])
    \<and> room flow = 0 \<and> fl_payload_size flow = fl_payload_size (ho_acl_flow (se_host s))"
proof -
  let ?h = "se_host s"
  have s: "idle_session s cn" "wired s cn io" using assms(1) by (simp_all add: listening_def)
  have h: "ho_connection ?h = Some cn" "ho_output ?h = []" "flow_inv (ho_acl_flow ?h)" "settled (cn_channels cn)"
    using s(1) by (auto simp: idle_session_def session_inv_def host_inv_def)
  have w: "cn_handle cn \<le> ACL_HANDLE_MASK" "0 < fl_payload_size (ho_acl_flow ?h)" "fl_payload_size (ho_acl_flow ?h) \<le> 65535"
    "se_io s = Some io"
    using s(2) by (auto simp: wired_def)
  have "bt_ok (cm_channels (cn_channels cn))" using idle_facts(1) [OF s(1)] by (simp add: manager_inv_def)
  from connect_signals [OF this assms(2), of ch] obtain ident m where
    m: "connect (hid_psm ch) server_spec (cn_channels cn) = (Inr cid, m)"
      "signals (cn_channels cn) m cid (dialled ch cid) [ConnectionRequest ident (hid_psm ch) cid] []" by blast
  have out: "cm_outbound m = signal_pdus [ConnectionRequest ident (hid_psm ch) cid]" "cm_accepted_channels m = []"
    using m(2) h(4) by (simp_all add: signals_def signal_pdus_def settled_def)
  have short: "list_all short_pdu (cm_outbound m)" unfolding out by (simp add: signal_pdus_def requested_frames)
  obtain us flow where f: "flush_channels (put_channels m ?h)
      = (Inr (), ?h\<lparr>ho_connection := Some (flushed m cn), ho_acl_flow := flow, ho_output := map OutAcl us\<rparr>)"
    and rest: "us @ fl_queued flow = fl_queued (ho_acl_flow ?h) @ pdu_fragments (cn_handle cn) (fl_payload_size (ho_acl_flow ?h)) (cm_outbound m)"
      "room flow = 0" "fl_payload_size flow = fl_payload_size (ho_acl_flow ?h)"
    using flush_signal [OF h(1-3) short _ w(1-3), of "[]"] out(2) by (auto simp: flushed_def)
  have "on_channels (connect (hid_psm ch) server_spec) ?h = (Inr cid, put_channels m ?h)"
    using m(1) h(1) by (simp add: on_channels_def)
  then have "dial ch s = (Inr (), dialling ch cid (s\<lparr>se_host := ?h\<lparr>ho_connection := Some (flushed m cn),
      ho_acl_flow := flow, ho_output := map OutAcl us\<rparr>\<rparr>))"
    using f by (simp add: dial_def on_host_def connect_channel_def act_then_def act_bind_def)
  moreover have "s\<lparr>se_host := ?h\<lparr>ho_connection := Some (flushed m cn), ho_acl_flow := flow, ho_output := map OutAcl us\<rparr>\<rparr>
      = signalled (flushed m cn) flow io (map OutAcl us) s"
    using w(4) by (cases s) (simp add: signalled_def)
  ultimately show ?thesis using m(2) rest out(1) by metis
qed

text \<open>What stays as it was while a channel is negotiated.\<close>

definition kept :: "'s backend_session \<Rightarrow> 's backend_session \<Rightarrow> bool" where
  "kept t s \<longleftrightarrow> se_pending_events t = se_pending_events s \<and> se_active_reconnect t = se_active_reconnect s
     \<and> fl_payload_size (ho_acl_flow (se_host t)) = fl_payload_size (ho_acl_flow (se_host s))"

lemma kept_trans: "kept u t \<Longrightarrow> kept t s \<Longrightarrow> kept u s"
  by (simp add: kept_def)

text \<open>A session whose manager has changed one channel is idle again, if its own channels are not waiting to be reported.\<close>

lemma signals_listening:
  assumes "listening s cn io" "signals (cn_channels cn) m cid c out []" "ch_received c = []"
    and "session_inv t" "se_host t = se_host (signalled (flushed m cn) flow io' [] s)" "se_io t = Some io'" "se_terminal t = None"
    and "room flow = 0" "fl_payload_size flow = fl_payload_size (ho_acl_flow (se_host s))" "io_faults io' = []"
    and "\<And>ch c. protocol_channel_of ch (se_protocols t) = Some c \<Longrightarrow> pc_open c \<or> \<not> channel_is_open t c"
  shows "listening t (flushed m cn) io'"
  using assms by (auto simp: listening_def idle_session_def signals_def wired_def) (simp_all add: signalled_def)

lemma is_open_signalled:
  "se_host t = se_host (signalled (flushed m cn) flow io outs s) \<Longrightarrow> channel_is_open t c
     \<longleftrightarrow> (\<exists>x. channel m (pc_cid c) = Some x \<and> ch_state x = Open)"
  by (auto simp: channel_is_open_def channel_info_def signalled_def split: option.split)

lemma is_open_listening:
  "listening s cn io \<Longrightarrow> channel_is_open s c \<longleftrightarrow> (\<exists>x. channel (cn_channels cn) (pc_cid c) = Some x \<and> ch_state x = Open)"
  by (auto simp: listening_def idle_session_def channel_is_open_def channel_info_def split: option.split)

text \<open>A channel that is not open yet asks for no report.\<close>

lemma unopened_waits:
  assumes "listening s cn io" "signals (cn_channels cn) m cid c out []" "ch_state c \<noteq> Open"
    and "se_host t = se_host (signalled (flushed m cn) flow io' outs s)"
    and "protocol_channel_of ch (se_protocols t) = Some p" "pc_cid p = cid \<or> protocol_channel_of ch (se_protocols s) = Some p"
  shows "pc_open p \<or> \<not> channel_is_open t p"
  using assms(6)
proof
  assume "protocol_channel_of ch (se_protocols s) = Some p"
  with assms(1) have "pc_open p \<or> \<not> channel_is_open s p" by (auto simp: listening_def idle_session_def)
  with assms(2,3) show ?thesis by (auto simp: is_open_signalled [OF assms(4)] is_open_listening [OF assms(1)] signals_def)
qed (use assms(2,3) in \<open>auto simp: is_open_signalled [OF assms(4)] signals_def\<close>)

lemma dial_safe: "session_safe (dial ch)"
  unfolding dial_def dialling_def Let_def by (intro session_safe_intros) simp_all

lemma dial_settled:
  assumes "listening s cn io" "allocate_cid (cn_channels cn) = Inr cid"
  shows "\<exists>ident m io' u t. dial ch s = (Inr (), u) \<and> refresh_channel (protocol_channel_of ch) psm u = (Inr (), u)
    \<and> process_protocol_input u = (Inr (), u) \<and> drain_host_output u = (Inr (), t)
    \<and> signals (cn_channels cn) m cid (dialled ch cid) [ConnectionRequest ident (hid_psm ch) cid] []
    \<and> listening t (flushed m cn) io' \<and> traffic t io' = traffic s io @ answers s cn [ConnectionRequest ident (hid_psm ch) cid]
    \<and> kept t s \<and> se_protocols t = se_protocols (dialling ch cid s)"
proof -
  from dial_host [OF assms, of ch] obtain ident m us flow where
    d: "dial ch s = (Inr (), dialling ch cid (signalled (flushed m cn) flow io (map OutAcl us) s))"
    and m: "signals (cn_channels cn) m cid (dialled ch cid) [ConnectionRequest ident (hid_psm ch) cid] []"
    and q: "us @ fl_queued flow = fl_queued (ho_acl_flow (se_host s)) @ pdu_fragments (cn_handle cn)
        (fl_payload_size (ho_acl_flow (se_host s))) (signal_pdus [ConnectionRequest ident (hid_psm ch) cid])"
      "room flow = 0" "fl_payload_size flow = fl_payload_size (ho_acl_flow (se_host s))" by blast
  let ?u = "dialling ch cid (signalled (flushed m cn) flow io (map OutAcl us) s)"
  let ?io = "io\<lparr>io_sent := io_sent io @ map Acl us\<rparr>"
  let ?t = "dialling ch cid (signalled (flushed m cn) flow ?io [] s)"
  have faults: "io_faults io = []" "se_terminal s = None" "session_inv s" "settled (cn_channels cn)"
    using assms(1) by (auto simp: listening_def wired_def idle_session_def)
  have fresh: "ch_state (dialled ch cid) \<noteq> Open" "ch_received (dialled ch cid) = []" by (simp_all add: channel_outgoing_def)
  have wait: "pc_open p \<or> \<not> channel_is_open v p" if "se_host v = se_host (signalled (flushed m cn) flow io' outs s)"
    "se_protocols v = se_protocols ?u" "protocol_channel_of ch' (se_protocols v) = Some p" for v :: "'a backend_session" and ch' p io' outs
    using that(2,3) by (intro unopened_waits [OF assms(1) m fresh(1) that(1,3)]) (auto simp: signalled_def split: if_splits)
  have refresh: "refresh_channel (protocol_channel_of ch) psm ?u = (Inr (), ?u)"
    using wait [of ?u io "map OutAcl us" ch "\<lparr>pc_cid = cid, pc_open = False\<rparr>"] by (simp add: refresh_channel_def)
  have "bt_ok (cm_channels (cn_channels (flushed m cn)))" using m by (simp add: signals_def) (simp add: flushed_def)
  then have "take_channel_sdu k (se_host ?u) = (None, se_host ?u)" for k
    using m fresh(2) assms(1)
    by (intro take_nothing [of _ "flushed m cn"]) (auto simp: signalled_def signals_def listening_def idle_session_def split: if_splits)
  then have input: "process_protocol_input ?u = (Inr (), ?u)" by (rule quiet_input)
  have drain: "drain_host_output ?u = (Inr (), ?t)"
    using drain_acl [of ?u io us] faults(1) by (simp add: signalled_def dialling_def put_protocols_def Let_def cong: hid_channel.case_cong)
  have "session_safe (act_then (dial ch) drain_host_output :: ('a, unit) session_action)"
    by (intro session_safe_then dial_safe drain_safe)
  from session_safe_result [OF this faults(3)] d drain have inv: "session_inv ?t" by (simp add: act_then_Inr)
  have "pc_open p \<or> \<not> channel_is_open ?t p" if "protocol_channel_of ch' (se_protocols ?t) = Some p" for ch' p
    using that by (intro wait [of ?t ?io "[]"]) simp_all
  then have "listening ?t (flushed m cn) ?io"
    using faults q(2,3) by (intro signals_listening [OF assms(1) m fresh(2) inv, where flow = flow]) simp_all
  moreover have "traffic ?t ?io = traffic s io @ answers s cn [ConnectionRequest ident (hid_psm ch) cid]"
    using q(1) by (simp add: traffic_def answers_def signalled_def flip: map_append)
  moreover have "kept ?t s" "se_protocols ?t = se_protocols (dialling ch cid s)"
    using q(3) by (simp_all add: kept_def signalled_def dialling_def put_protocols_def Let_def)
  ultimately show ?thesis using d m refresh input drain by blast
qed

section \<open>Lemmas: the frames of the peer\<close>

abbreviation connected_channel :: "hid_channel \<Rightarrow> u16 \<Rightarrow> u16 \<Rightarrow> classic_channel" where
  "connected_channel ch cid remote \<equiv>
     (dialled ch cid)\<lparr>ch_connection_result := Some 0, ch_destination_cid := remote, ch_state := Configuring\<rparr>"

lemma connection_answered:
  assumes "signals m m cid (dialled ch cid) [] []"
  obtains i' m' where "process_control (ConnectionResponse i remote cid 0 0) m = (Inr (), m')"
    "signals m m' cid (connected_channel ch cid remote) [ConfigureRequest i' remote 0 (mtu_option CLASSIC_SERVER_MTU)] []"
proof -
  note at = signals_channel [OF assms]
  have "signals m (put_channel cid (connected_channel ch cid remote) m) cid (connected_channel ch cid remote) [] []" using at by (intro signals_put) simp
  then obtain i' m' where m': "queue_configure_request cid (put_channel cid (connected_channel ch cid remote) m) = (Inr (), m')"
    "signals m m' cid (connected_channel ch cid remote) ([] @ [ConfigureRequest i' remote 0 (mtu_option (cs_mtu server_spec))]) []"
    by (rule signals_configure_request [where s = server_spec and d = remote]) (simp_all add: channel_outgoing_def)
  have "on_connection_response remote cid 0 m = (Inr (), m')"
    using m'(1) at by (simp add: on_connection_response_def channel_def) (simp add: channel_outgoing_def)
  with m'(2) show thesis by (intro that) (simp_all add: server_spec_def)
qed

lemma outgoing_completed:
  assumes "signals m m cid c [] []" "ch_peer_configuration_received c" "ch_state c = Configuring" "\<not> ch_incoming c"
  obtains m' where "process_control (ConfigureResponse k cid 0 0 options) m = (Inr (), m')"
    "signals m m' cid (c\<lparr>ch_configuration_response_received := True, ch_state := Open\<rparr>) [] []"
proof -
  obtain m2 where "on_configure_response cid CONFIGURATION_SUCCESS m = (Inr (), maybe_open cid m2)"
    "signals m m2 cid (c\<lparr>ch_configuration_response_received := True\<rparr>) [] []"
    by (rule signals_on_configure_response [OF assms(1)])
  with signals_open(3) [OF this(2)] assms(2-4) show thesis by (intro that) simp_all
qed

text \<open>The session once the host has dealt with a frame and everything it wrote is out, before it looks at its own channels.\<close>

definition advanced ::
  "'s backend_session \<Rightarrow> connection \<Rightarrow> hci_io \<Rightarrow> channel_manager \<Rightarrow> control_frame list \<Rightarrow> 's backend_session \<Rightarrow> hci_io \<Rightarrow> bool" where
  "advanced s cn io m out u io' \<longleftrightarrow> session_inv u \<and> ho_connection (se_host u) = Some (flushed m cn) \<and> ho_output (se_host u) = []
     \<and> room (ho_acl_flow (se_host u)) = 0 \<and> wired u (flushed m cn) io' \<and> se_terminal u = None
     \<and> kept u s \<and> se_protocols u = se_protocols s \<and> traffic u io' = traffic s io @ answers s cn out"

lemma frame_advances:
  assumes "listening s cn io" "short_pdu p" "process_pdu p (cn_channels cn) = (Inr (), m)"
    and "signals (cn_channels cn) m cid c out []" "list_all short_pdu (signal_pdus out)"
  shows "\<exists>u io'. act_then (on_host map_host_error (deliver (pdu_to_bytes p False))) drain_host_output s = (Inr (), u)
    \<and> advanced s cn io m out u io'"
proof -
  have s: "idle_session s cn" "wired s cn io" "se_terminal s = None" "session_inv s"
    using assms(1) by (simp_all add: listening_def idle_session_def)
  have m: "cm_outbound m = signal_pdus out" "cm_accepted_channels m = []"
    using assms(4) s(1) by (simp_all add: signals_def signal_pdus_def idle_session_def settled_def)
  from signal_drained [OF s(1,2) assms(2,3), of "[]"] assms(5) m obtain us flow where
    d: "act_then (on_host map_host_error (deliver (pdu_to_bytes p False))) drain_host_output s
      = drain_host_output (signalled (flushed m cn) flow (io\<lparr>io_sent := io_sent io @ map Acl us\<rparr>) [] s)"
    and q: "us @ fl_queued flow = fl_queued (ho_acl_flow (se_host s))
        @ pdu_fragments (cn_handle cn) (fl_payload_size (ho_acl_flow (se_host s))) (signal_pdus out)"
      "room flow = 0" "fl_payload_size flow = fl_payload_size (ho_acl_flow (se_host s))" by auto
  let ?io = "io\<lparr>io_sent := io_sent io @ map Acl us\<rparr>"
  let ?u = "signalled (flushed m cn) flow ?io [] s"
  have d: "act_then (on_host map_host_error (deliver (pdu_to_bytes p False))) drain_host_output s = (Inr (), ?u)"
    unfolding d by (rule drain_nothing) (simp add: signalled_def)
  have "traffic ?u ?io = traffic s io @ answers s cn out"
    using q(1) by (simp add: traffic_def answers_def signalled_def flip: map_append)
  then have "advanced s cn io m out ?u ?io"
    using delivered_inv [OF d s(4)] s(2,3) q(2,3) by (simp add: advanced_def wired_def kept_def) (simp add: signalled_def)
  with d show ?thesis by blast
qed

lemma advanced_assembler: "advanced (with_assembler asm s) cn io m out u io' = advanced s cn io m out u io'"
  by (simp add: advanced_def kept_def traffic_def answers_def) (simp add: with_assembler_def)

lemma poll_advances:
  assumes "listening s cn io" "frame_wf f" "short_pdu (pdu_new L2CAP_SIGNALING_CID (frame_to_bytes f))" "4 \<le> sz" "sz \<le> 65535"
    and "process_control f (cn_channels cn) = (Inr (), m)" "signals (cn_channels cn) m cid c out []" "list_all short_pdu (signal_pdus out)"
    and "\<And>u io'. advanced s cn io m out u io' \<Longrightarrow>
      \<exists>t. act_then refresh_outgoing_channels (act_then process_protocol_input drain_host_output) u = (Inr (), t)
        \<and> se_terminal t = None \<and> P t"
  shows "\<exists>t. P t \<and> poll_loop store (arrivals cn sz [f] @ as) s = poll_loop store as t"
proof -
  let ?p = "pdu_new L2CAP_SIGNALING_CID (frame_to_bytes f)"
  have process: "process_pdu ?p (cn_channels cn) = (Inr (), m)" using assms(2,6) by (simp add: process_signal)
  have "\<exists>t. after_pdu (pdu_to_bytes ?p False) (with_assembler asm s) = (Inr (), t) \<and> se_terminal t = None \<and> P t"
    if "listening (with_assembler asm s) cn io" for asm
  proof -
    from frame_advances [OF that assms(3) process assms(7,8)] obtain u io' where
      u: "act_then (on_host map_host_error (deliver (pdu_to_bytes ?p False))) drain_host_output (with_assembler asm s) = (Inr (), u)"
      "advanced s cn io m out u io'" by (auto simp: advanced_assembler)
    from assms(9) [OF u(2)] after_pdu_delivered [OF u(1)] show ?thesis by simp
  qed
  from poll_signal [OF assms(1,3-5) this, of store as] show ?thesis by blast
qed

lemma advanced_listening:
  assumes "listening s cn io" "signals (cn_channels cn) m cid c out []" "ch_received c = []" "advanced s cn io m out u io'"
    and "se_host t = se_host u" "se_io t = se_io u" "se_terminal t = None" "session_inv t"
    and "\<And>ch p. protocol_channel_of ch (se_protocols t) = Some p \<Longrightarrow> pc_open p \<or> \<not> channel_is_open t p"
  shows "listening t (flushed m cn) io'"
  using assms by (auto simp: listening_def idle_session_def signals_def wired_def advanced_def)

lemma is_open_advanced:
  "advanced s cn io m out u io' \<Longrightarrow> se_host t = se_host u \<Longrightarrow>
     channel_is_open t p \<longleftrightarrow> (\<exists>x. channel m (pc_cid p) = Some x \<and> ch_state x = Open)"
  by (auto simp: advanced_def channel_is_open_def channel_info_def split: option.split)

lemma listening_waits:
  assumes "listening s cn io" "protocol_channel_of ch (se_protocols s) = Some p"
  shows "pc_open p \<or> \<not> (\<exists>x. channel (cn_channels cn) (pc_cid p) = Some x \<and> ch_state x = Open)"
  using assms is_open_listening [OF assms(1)] by (auto simp: listening_def idle_session_def)

text \<open>A frame that leaves its channel in negotiation.\<close>

lemma poll_negotiates:
  assumes "listening s cn io" "frame_wf f" "short_pdu (pdu_new L2CAP_SIGNALING_CID (frame_to_bytes f))" "4 \<le> sz" "sz \<le> 65535"
    and "process_control f (cn_channels cn) = (Inr (), m)" "signals (cn_channels cn) m cid c out []" "list_all short_pdu (signal_pdus out)"
    and "ch_received c = []" "ch_state c \<noteq> Open"
  shows "\<exists>t io'. poll_loop store (arrivals cn sz [f] @ as) s = poll_loop store as t \<and> listening t (flushed m cn) io'
    \<and> kept t s \<and> se_protocols t = se_protocols s \<and> traffic t io' = traffic s io @ answers s cn out"
proof -
  let ?P = "\<lambda>t. \<exists>io'. listening t (flushed m cn) io' \<and> kept t s \<and> se_protocols t = se_protocols s
    \<and> traffic t io' = traffic s io @ answers s cn out"
  have "\<exists>t. ?P t \<and> poll_loop store (arrivals cn sz [f] @ as) s = poll_loop store as t"
  proof (rule poll_advances [OF assms(1-8)])
    fix u io' assume u: "advanced s cn io m out u io'"
    have "pc_open p \<or> \<not> channel_is_open u p" if "protocol_channel_of ch (se_protocols u) = Some p" for ch p
      using listening_waits [OF assms(1), of ch p] that assms(7,10) u is_open_advanced [OF u refl]
      by (auto simp: advanced_def signals_def split: if_splits)
    then have l: "listening u (flushed m cn) io'"
      using u by (intro advanced_listening [OF assms(1,7,9) u]) (simp_all add: advanced_def)
    then have idle: "idle_session u (flushed m cn)" by (simp add: listening_def)
    with l u show "\<exists>t. act_then refresh_outgoing_channels (act_then process_protocol_input drain_host_output) u = (Inr (), t)
        \<and> se_terminal t = None \<and> ?P t"
      using idle_facts(5,6) [OF idle] idle_input [OF idle]
      by (intro exI [of _ u]) (auto simp: advanced_def act_then_def act_bind_def)
  qed
  then show ?thesis by blast
qed

text \<open>The frame that completes a channel of the session.\<close>

lemma opened_listening:
  assumes "listening s cn io" "signals (cn_channels cn) m cid c out []" "ch_received c = []" "advanced s cn io m out u io'"
    and "length (se_pending_events s) < 64"
    and "\<And>ch' p. ch' \<noteq> ch \<Longrightarrow> protocol_channel_of ch' (se_protocols s) = Some p \<Longrightarrow> pc_open p"
  shows "listening (with_channel ch cid mtu u) (flushed m cn) io'"
proof (rule advanced_listening [OF assms(1-4)])
  show "session_inv (with_channel ch cid mtu u)"
    using assms(4,5) by (auto simp: advanced_def kept_def session_inv_def with_channel_def)
  show "pc_open p \<or> \<not> channel_is_open (with_channel ch cid mtu u) p"
    if "protocol_channel_of ch' (se_protocols (with_channel ch cid mtu u)) = Some p" for ch' p
    using that assms(4,6) by (auto simp: advanced_def with_channel_def opened_channel_of split: if_splits)
qed (use assms(4) in \<open>simp_all add: with_channel_def advanced_def\<close>)

lemma on_dialled_opened:
  assumes "advanced s cn io m out u io'" "channel m cid = Some c" "ch_psm c = hid_psm ch" "ch_state c = Open"
    and "protocol_channel_of ch (se_protocols s) = Some \<lparr>pc_cid = cid, pc_open = False\<rparr>" "length (se_pending_events s) < 64"
  shows "refresh_channel (protocol_channel_of ch) (hid_psm ch) u
    = (case ch of ControlChannel \<Rightarrow> connect_interrupt | InterruptChannel \<Rightarrow> act_ok ()) (with_channel ch cid (ch_peer_mtu c) u)"
proof -
  have info: "channel_info (se_host u) cid = Some (hid_psm ch, ch_peer_mtu c, True)"
    using assms(1-4) by (simp add: advanced_def channel_info_def)
  have u: "se_terminal u = None" "length (se_pending_events u) < 64"
    "protocol_channel_of ch (se_protocols u) = Some \<lparr>pc_cid = cid, pc_open = False\<rparr>"
    using assms(1,5,6) by (simp_all add: advanced_def kept_def)
  then have "refresh_channel (protocol_channel_of ch) (hid_psm ch) u = on_channel_opened (hid_psm ch) cid u"
    using info by (simp add: refresh_channel_def channel_is_open_def)
  also have "\<dots> = (case ch of ControlChannel \<Rightarrow> connect_interrupt | InterruptChannel \<Rightarrow> act_ok ()) (with_channel ch cid (ch_peer_mtu c) u)"
    using info u by (cases ch) (simp_all add: on_channel_opened_def hid_psm_def open_control_def open_interrupt_def first_open_def
      protocol_channel_of_def enqueue_event_def put_protocols_def with_channel_def opened_protocols_def)
  finally show ?thesis .
qed

lemma refresh_both:
  "refresh_outgoing_channels = act_then (refresh_channel (protocol_channel_of ControlChannel) (hid_psm ControlChannel))
     (refresh_channel (protocol_channel_of InterruptChannel) (hid_psm InterruptChannel))"
proof -
  have "protocol_channel_of ControlChannel = ps_control" "protocol_channel_of InterruptChannel = ps_interrupt"
    by (simp_all add: fun_eq_iff protocol_channel_of_def)
  then show ?thesis by (simp add: refresh_outgoing_channels_def hid_psm_def)
qed

lemma with_channel_kept:
  "kept u s \<Longrightarrow> kept (with_channel ch cid mtu u) (with_channel ch cid mtu s)"
  "se_protocols u = se_protocols s \<Longrightarrow> se_protocols (with_channel ch cid mtu u) = se_protocols (with_channel ch cid mtu s)"
  "se_host (with_channel ch cid mtu s) = se_host s" "se_active_reconnect (with_channel ch cid mtu s) = se_active_reconnect s"
  by (simp_all add: kept_def with_channel_def)

text \<open>The interrupt channel is the last one: it is only reported.\<close>

lemma poll_interrupt_opens:
  assumes "listening s cn io" "frame_wf f" "short_pdu (pdu_new L2CAP_SIGNALING_CID (frame_to_bytes f))" "4 \<le> sz" "sz \<le> 65535"
    and "process_control f (cn_channels cn) = (Inr (), m)" "signals (cn_channels cn) m cid c out []" "list_all short_pdu (signal_pdus out)"
    and "ch_received c = []" "ch_state c = Open" "ch_psm c = hid_psm InterruptChannel" "length (se_pending_events s) < 64"
    and "protocol_channel_of InterruptChannel (se_protocols s) = Some \<lparr>pc_cid = cid, pc_open = False\<rparr>"
    and "\<And>p. protocol_channel_of ControlChannel (se_protocols s) = Some p \<Longrightarrow> pc_open p"
  shows "\<exists>t io'. poll_loop store (arrivals cn sz [f] @ as) s = poll_loop store as t \<and> listening t (flushed m cn) io'
    \<and> kept t (with_channel InterruptChannel cid (ch_peer_mtu c) s)
    \<and> se_protocols t = se_protocols (with_channel InterruptChannel cid (ch_peer_mtu c) s)
    \<and> traffic t io' = traffic s io @ answers s cn out"
proof -
  let ?v = "with_channel InterruptChannel cid (ch_peer_mtu c)"
  let ?P = "\<lambda>t. \<exists>io'. listening t (flushed m cn) io' \<and> kept t (?v s) \<and> se_protocols t = se_protocols (?v s)
    \<and> traffic t io' = traffic s io @ answers s cn out"
  have "\<exists>t. ?P t \<and> poll_loop store (arrivals cn sz [f] @ as) s = poll_loop store as t"
  proof (rule poll_advances [OF assms(1-8)])
    fix u io' assume u: "advanced s cn io m out u io'"
    have "pc_open p" if "ch' \<noteq> InterruptChannel" "protocol_channel_of ch' (se_protocols s) = Some p" for ch' p
      using that assms(14) by (cases ch') simp_all
    then have l: "listening (?v u) (flushed m cn) io'" by (rule opened_listening [OF assms(1,7,9) u assms(12)])
    then have idle: "idle_session (?v u) (flushed m cn)" by (simp add: listening_def)
    have "refresh_channel (protocol_channel_of ControlChannel) (hid_psm ControlChannel) u = (Inr (), u)"
      using u assms(14) by (auto simp: refresh_channel_def advanced_def split: option.split)
    moreover have "channel m cid = Some c" using assms(7) by (simp add: signals_def)
    note on_dialled_opened [OF u this assms(11,10,13,12)]
    ultimately have "refresh_outgoing_channels u = (Inr (), ?v u)" by (simp add: refresh_both act_then_Inr)
    then have "act_then refresh_outgoing_channels (act_then process_protocol_input drain_host_output) u = (Inr (), ?v u)"
      using idle_facts(5) [OF idle] idle_input [OF idle] by (simp add: act_then_Inr)
    moreover have "se_terminal (?v u) = None" using l by (simp add: listening_def)
    moreover have "traffic (?v u) io' = traffic s io @ answers s cn out"
      using u by (simp add: advanced_def traffic_def with_channel_kept(3))
    moreover have "kept (?v u) (?v s)" "se_protocols (?v u) = se_protocols (?v s)"
      using u with_channel_kept(1,2) [of u s] by (simp_all add: advanced_def)
    ultimately show "\<exists>t. act_then refresh_outgoing_channels (act_then process_protocol_input drain_host_output) u = (Inr (), t)
        \<and> se_terminal t = None \<and> ?P t"
      using l by blast
  qed
  then show ?thesis by blast
qed

text \<open>The control channel is reported, and the interrupt channel follows it.\<close>

lemma poll_control_opens:
  assumes "listening s cn io" "frame_wf f" "short_pdu (pdu_new L2CAP_SIGNALING_CID (frame_to_bytes f))" "4 \<le> sz" "sz \<le> 65535"
    and "process_control f (cn_channels cn) = (Inr (), m)" "signals (cn_channels cn) m cid c out []" "list_all short_pdu (signal_pdus out)"
    and "ch_received c = []" "ch_state c = Open" "ch_psm c = hid_psm ControlChannel" "length (se_pending_events s) < 64"
    and "protocol_channel_of ControlChannel (se_protocols s) = Some \<lparr>pc_cid = cid, pc_open = False\<rparr>"
    and "protocol_channel_of InterruptChannel (se_protocols s) = None" "se_active_reconnect s"
    and "allocate_cid (cn_channels (flushed m cn)) = Inr cid'"
  shows "\<exists>t io' ident m'. poll_loop store (arrivals cn sz [f] @ as) s = poll_loop store as t
    \<and> listening t (flushed m' (flushed m cn)) io'
    \<and> signals (cn_channels (flushed m cn)) m' cid' (dialled InterruptChannel cid') [ConnectionRequest ident (hid_psm InterruptChannel) cid'] []
    \<and> kept t (with_channel ControlChannel cid (ch_peer_mtu c) s)
    \<and> se_protocols t = se_protocols (dialling InterruptChannel cid' (with_channel ControlChannel cid (ch_peer_mtu c) s))
    \<and> traffic t io' = traffic s io @ answers s cn (out @ [ConnectionRequest ident (hid_psm InterruptChannel) cid'])"
proof -
  let ?v = "with_channel ControlChannel cid (ch_peer_mtu c)" and ?req = "\<lambda>i. ConnectionRequest i (hid_psm InterruptChannel) cid'"
  let ?P = "\<lambda>t. \<exists>io' ident m'. listening t (flushed m' (flushed m cn)) io'
    \<and> signals (cn_channels (flushed m cn)) m' cid' (dialled InterruptChannel cid') [?req ident] []
    \<and> kept t (?v s) \<and> se_protocols t = se_protocols (dialling InterruptChannel cid' (?v s))
    \<and> traffic t io' = traffic s io @ answers s cn (out @ [?req ident])"
  have "\<exists>t. ?P t \<and> poll_loop store (arrivals cn sz [f] @ as) s = poll_loop store as t"
  proof (rule poll_advances [OF assms(1-8)])
    fix u io' assume u: "advanced s cn io m out u io'"
    have "pc_open p" if "ch' \<noteq> ControlChannel" "protocol_channel_of ch' (se_protocols s) = Some p" for ch' p
      using that assms(14) by (cases ch') simp_all
    then have l: "listening (?v u) (flushed m cn) io'" by (rule opened_listening [OF assms(1,7,9) u assms(12)])
    from dial_settled [OF l assms(16), of InterruptChannel "hid_psm InterruptChannel"] obtain ident m' io'' w t where
      d: "dial InterruptChannel (?v u) = (Inr (), w)" "process_protocol_input w = (Inr (), w)" "drain_host_output w = (Inr (), t)"
        "refresh_channel (protocol_channel_of InterruptChannel) (hid_psm InterruptChannel) w = (Inr (), w)"
      and m': "signals (cn_channels (flushed m cn)) m' cid' (dialled InterruptChannel cid') [?req ident] []"
      and t: "listening t (flushed m' (flushed m cn)) io''" "traffic t io'' = traffic (?v u) io' @ answers (?v u) (flushed m cn) [?req ident]"
        "kept t (?v u)" "se_protocols t = se_protocols (dialling InterruptChannel cid' (?v u))" by blast
    have "channel m cid = Some c" using assms(7) by (simp add: signals_def)
    note on_dialled_opened [OF u this assms(11,10,13,12)]
    moreover have "connect_interrupt (?v u) = dial InterruptChannel (?v u)"
      using u assms(14,15) by (intro dial_calls)
        (simp_all add: advanced_def kept_def with_channel_kept(3,4), simp add: with_channel_def opened_protocols_def protocol_channel_of_def)
    ultimately have "refresh_outgoing_channels u = (Inr (), w)" using d(1,4) by (simp add: refresh_both act_then_Inr)
    then have run: "act_then refresh_outgoing_channels (act_then process_protocol_input drain_host_output) u = (Inr (), t)"
      using d(2,3) by (simp add: act_then_Inr)
    have "traffic t io'' = traffic s io @ answers s cn (out @ [?req ident])"
      using t(2) u by (simp add: answers_append advanced_def traffic_def with_channel_kept(3)) (simp add: answers_def kept_def with_channel_kept(3))
    moreover have "kept t (?v s)" using u kept_trans [OF t(3) with_channel_kept(1)] by (simp add: advanced_def)
    moreover have "se_protocols t = se_protocols (dialling InterruptChannel cid' (?v s))"
      using t(4) u by (simp add: advanced_def dialling_def with_channel_def put_protocols_def)
    moreover have "se_terminal t = None" using t(1) by (simp add: listening_def)
    ultimately show "\<exists>t. act_then refresh_outgoing_channels (act_then process_protocol_input drain_host_output) u = (Inr (), t)
        \<and> se_terminal t = None \<and> ?P t"
      using run t(1) m' by blast
  qed
  then show ?thesis by blast
qed

section \<open>Lemmas: the handshake of a dialled channel\<close>

abbreviation agreed :: "hid_channel \<Rightarrow> u16 \<Rightarrow> u16 \<Rightarrow> u16 \<Rightarrow> classic_channel" where
  "agreed ch cid remote mtu \<equiv> (connected_channel ch cid remote)\<lparr>ch_peer_mtu := mtu, ch_peer_configuration_received := True\<rparr>"

abbreviation established :: "hid_channel \<Rightarrow> u16 \<Rightarrow> u16 \<Rightarrow> u16 \<Rightarrow> classic_channel" where
  "established ch cid remote mtu \<equiv> (agreed ch cid remote mtu)\<lparr>ch_configuration_response_received := True, ch_state := Open\<rparr>"

lemma response_frames:
  "frame_wf (ConnectionResponse i remote cid 0 0)"
  "short_pdu (pdu_new L2CAP_SIGNALING_CID (frame_to_bytes (ConfigureResponse j remote 0 0 (mtu_option mtu))))"
  by (simp_all add: frame_wf_def short_pdu_def pdu_new_def frame_to_bytes_def Let_def)

lemma listening_signals:
  assumes "listening s cn io" "channel (cn_channels cn) cid = Some c"
  shows "signals (cn_channels cn) (cn_channels cn) cid c [] []"
proof -
  have "manager_inv (cn_channels cn)" using idle_facts(1) [of s cn] assms(1) by (simp add: listening_def)
  with assms(2) show ?thesis by (auto simp: signals_def manager_inv_def fun_eq_iff)
qed

lemma answers_kept: "kept t s \<Longrightarrow> cn_handle cn' = cn_handle cn \<Longrightarrow> answers t cn' fs = answers s cn fs"
  by (simp add: kept_def answers_def)

lemma poll_configured:
  assumes "listening s cn io" "channel (cn_channels cn) cid = Some (dialled ch cid)" "48 \<le> mtu" "4 \<le> sz" "sz \<le> 65535"
  shows "\<exists>t io' cn' i'. poll_loop store (arrivals cn sz (ConnectionResponse i remote cid 0 0 # ConfigureRequest j cid 0 (mtu_option mtu) # fs) @ as) s
      = poll_loop store (arrivals cn' sz fs @ as) t \<and> listening t cn' io' \<and> cn_handle cn' = cn_handle cn
    \<and> channel (cn_channels cn') = (channel (cn_channels cn))(cid \<mapsto> agreed ch cid remote mtu) \<and> kept t s \<and> se_protocols t = se_protocols s
    \<and> traffic t io' = traffic s io @ answers s cn
        [ConfigureRequest i' remote 0 (mtu_option CLASSIC_SERVER_MTU), ConfigureResponse j remote 0 0 (mtu_option mtu)]"
proof -
  let ?f1 = "ConnectionResponse i remote cid 0 0" and ?f2 = "ConfigureRequest j cid 0 (mtu_option mtu)"
  obtain i' m1 where p1: "process_control ?f1 (cn_channels cn) = (Inr (), m1)"
    and m1: "signals (cn_channels cn) m1 cid (connected_channel ch cid remote) [ConfigureRequest i' remote 0 (mtu_option CLASSIC_SERVER_MTU)] []"
    by (rule connection_answered [OF listening_signals [OF assms(1,2)]])
  let ?cn1 = "flushed m1 cn" and ?a1 = "[ConfigureRequest i' remote 0 (mtu_option CLASSIC_SERVER_MTU)]"
  obtain m2 where p2: "process_control ?f2 (cn_channels ?cn1) = (Inr (), m2)"
    and m2: "signals (cn_channels ?cn1) m2 cid (agreed ch cid remote mtu) [ConfigureResponse j remote 0 0 (mtu_option mtu)] []"
    by (rule configure_requested [OF signals_flushed [OF m1] _ _ _ assms(3), of server_spec j]) (simp_all add: channel_outgoing_def)
  let ?cn2 = "flushed m2 ?cn1" and ?a2 = "[ConfigureResponse j remote 0 0 (mtu_option mtu)]"
  have rest: "ch_received (connected_channel ch cid remote) = []" "ch_state (connected_channel ch cid remote) \<noteq> Open"
    "ch_received (agreed ch cid remote mtu) = []" "ch_state (agreed ch cid remote mtu) \<noteq> Open" by (simp_all add: channel_outgoing_def)
  have shorts: "list_all short_pdu (signal_pdus ?a1)" "list_all short_pdu (signal_pdus ?a2)"
    by (simp_all add: signal_pdus_def requested_frames response_frames)
  from poll_negotiates [OF assms(1) response_frames(1) requested_frames(7) assms(4,5) p1 m1 shorts(1) rest(1,2),
      of store "arrivals ?cn1 sz [?f2] @ arrivals ?cn2 sz fs @ as"]
  obtain t1 io1 where t1: "poll_loop store (arrivals cn sz [?f1] @ arrivals ?cn1 sz [?f2] @ arrivals ?cn2 sz fs @ as) s
      = poll_loop store (arrivals ?cn1 sz [?f2] @ arrivals ?cn2 sz fs @ as) t1" "listening t1 ?cn1 io1" "kept t1 s"
    "se_protocols t1 = se_protocols s" "traffic t1 io1 = traffic s io @ answers s cn ?a1" by blast
  from poll_negotiates [OF t1(2) requested_frames(3,4) assms(4,5) p2 m2 shorts(2) rest(3,4), of store "arrivals ?cn2 sz fs @ as"]
  obtain t2 io2 where t2: "poll_loop store (arrivals ?cn1 sz [?f2] @ arrivals ?cn2 sz fs @ as) t1 = poll_loop store (arrivals ?cn2 sz fs @ as) t2"
    "listening t2 ?cn2 io2" "kept t2 t1" "se_protocols t2 = se_protocols t1" "traffic t2 io2 = traffic t1 io1 @ answers t1 ?cn1 ?a2" by blast
  have "arrivals cn sz (?f1 # ?f2 # fs) = arrivals cn sz [?f1] @ arrivals ?cn1 sz [?f2] @ arrivals ?cn2 sz fs"
    unfolding arrivals_split [of ?cn1 cn sz ?f1 "?f2 # fs", OF flushed_channel(2)] arrivals_split [of ?cn2 ?cn1 sz ?f2 fs, OF flushed_channel(2)] ..
  then have loop: "poll_loop store (arrivals cn sz (?f1 # ?f2 # fs) @ as) s = poll_loop store (arrivals ?cn2 sz fs @ as) t2"
    using t1(1) t2(1) by simp
  have "answers s cn (?a1 @ ?a2) = answers s cn ?a1 @ answers t1 ?cn1 ?a2" 
    unfolding answers_append using answers_kept [OF t1(3) flushed_channel(2), of m1 cn ?a2] by simp
  then have out: "traffic t2 io2 = traffic s io @ answers s cn (?a1 @ ?a2)" using t1(5) t2(5) by simp
  have "channel (cn_channels ?cn2) = (channel (cn_channels cn))(cid \<mapsto> agreed ch cid remote mtu)"
    using m1 m2 by (simp add: signals_def)
  with loop out t2(2) kept_trans [OF t2(3) t1(3)] t2(4) t1(4) show ?thesis
    by (intro exI [of _ t2] exI [of _ io2] exI [of _ ?cn2] exI [of _ i']) simp
qed

lemma poll_agreed:
  assumes "listening s cn io" "channel (cn_channels cn) cid = Some (dialled ch cid)" "48 \<le> mtu" "4 \<le> sz" "sz \<le> 65535"
  shows "\<exists>t io' cn' i' m. poll_loop store (arrivals cn sz (acceptance cid remote mtu (i, j, k) options) @ as) s
      = poll_loop store (arrivals cn' sz [ConfigureResponse k cid 0 0 options] @ as) t
    \<and> listening t cn' io' \<and> cn_handle cn' = cn_handle cn \<and> kept t s \<and> se_protocols t = se_protocols s
    \<and> process_control (ConfigureResponse k cid 0 0 options) (cn_channels cn') = (Inr (), m)
    \<and> signals (cn_channels cn') m cid (established ch cid remote mtu) [] []
    \<and> channel m = (channel (cn_channels cn))(cid \<mapsto> established ch cid remote mtu)
    \<and> traffic t io' = traffic s io @ answers s cn
        [ConfigureRequest i' remote 0 (mtu_option CLASSIC_SERVER_MTU), ConfigureResponse j remote 0 0 (mtu_option mtu)]"
proof -
  let ?f = "ConfigureResponse k cid 0 0 options"
  from poll_configured [OF assms, of store i remote j "[?f]" as] obtain t io' cn' i' where
    t: "poll_loop store (arrivals cn sz (acceptance cid remote mtu (i, j, k) options) @ as) s = poll_loop store (arrivals cn' sz [?f] @ as) t"
      "listening t cn' io'" "cn_handle cn' = cn_handle cn" "kept t s" "se_protocols t = se_protocols s"
      "channel (cn_channels cn') = (channel (cn_channels cn))(cid \<mapsto> agreed ch cid remote mtu)"
      "traffic t io' = traffic s io @ answers s cn
        [ConfigureRequest i' remote 0 (mtu_option CLASSIC_SERVER_MTU), ConfigureResponse j remote 0 0 (mtu_option mtu)]"
    by (auto simp: acceptance_def)
  have "channel (cn_channels cn') cid = Some (agreed ch cid remote mtu)" by (simp add: t(6))
  from listening_signals [OF t(2) this] obtain m where "process_control ?f (cn_channels cn') = (Inr (), m)"
    and m: "signals (cn_channels cn') m cid (established ch cid remote mtu) [] []"
    by (rule outgoing_completed [of _ _ _ k options]) (simp_all add: channel_outgoing_def)
  moreover have "channel m = (channel (cn_channels cn))(cid \<mapsto> established ch cid remote mtu)" using m t(6) by (simp add: signals_def)
  ultimately show ?thesis using t by blast
qed

lemma established_facts:
  "ch_received (established ch cid remote mtu) = []" "ch_state (established ch cid remote mtu) = Open"
  "ch_psm (established ch cid remote mtu) = hid_psm ch" "ch_peer_mtu (established ch cid remote mtu) = mtu"
  "ch_ertm (established ch cid remote mtu) = None" "ch_destination_cid (established ch cid remote mtu) = remote"
  "ch_mtu (established ch cid remote mtu) = CLASSIC_SERVER_MTU" "list_all short_pdu (signal_pdus [])"
  by (simp_all add: channel_outgoing_def signal_pdus_def server_spec_def)

text \<open>The first two channels of a connection get the first two identifiers.\<close>

lemma allocate_first:
  "channel m = Map.empty \<Longrightarrow> allocate_cid m = Inr 0x40" "channel m = [0x40 \<mapsto> c] \<Longrightarrow> allocate_cid m = Inr 0x41"
proof -
  have "bt_contains (cm_channels m) k \<longleftrightarrow> channel m k \<noteq> None" for k by (simp add: bt_contains_def channel_def)
  then show "channel m = Map.empty \<Longrightarrow> allocate_cid m = Inr 0x40" "channel m = [0x40 \<mapsto> c] \<Longrightarrow> allocate_cid m = Inr 0x41"
    by (simp_all add: allocate_cid_def range_find_hit range_find_miss)
qed

lemma control_dialled:
  assumes "listening s cn io" "channel (cn_channels cn) = [0x40 \<mapsto> dialled ControlChannel 0x40]" "se_active_reconnect s"
    and "protocol_channel_of ControlChannel (se_protocols s) = Some \<lparr>pc_cid = 0x40, pc_open = False\<rparr>"
    and "protocol_channel_of InterruptChannel (se_protocols s) = None" "length (se_pending_events s) < 64"
    and "48 \<le> mtu" "length options \<le> 65525" "4 \<le> sz" "sz \<le> 65535"
  shows "\<exists>t io' cn' i1 i2. poll_loop store (arrivals cn sz (acceptance 0x40 remote mtu (i, j, k) options) @ as) s = poll_loop store as t
    \<and> listening t cn' io' \<and> cn_handle cn' = cn_handle cn
    \<and> channel (cn_channels cn') = [0x40 \<mapsto> established ControlChannel 0x40 remote mtu, 0x41 \<mapsto> dialled InterruptChannel 0x41]
    \<and> kept t (with_channel ControlChannel 0x40 mtu s)
    \<and> se_protocols t = se_protocols (dialling InterruptChannel 0x41 (with_channel ControlChannel 0x40 mtu s))
    \<and> traffic t io' = traffic s io @ answers s cn [ConfigureRequest i1 remote 0 (mtu_option CLASSIC_SERVER_MTU),
        ConfigureResponse j remote 0 0 (mtu_option mtu), ConnectionRequest i2 (hid_psm InterruptChannel) 0x41]"
proof -
  let ?f = "ConfigureResponse k 0x40 0 0 options" and ?c = "established ControlChannel 0x40 remote mtu"
  have "channel (cn_channels cn) 0x40 = Some (dialled ControlChannel 0x40)" by (simp add: assms(2))
  from poll_agreed [OF assms(1) this assms(7,9,10), of store remote i j k options as] obtain t1 io1 cn1 i1 m where
    t1: "poll_loop store (arrivals cn sz (acceptance 0x40 remote mtu (i, j, k) options) @ as) s = poll_loop store (arrivals cn1 sz [?f] @ as) t1"
      "listening t1 cn1 io1" "cn_handle cn1 = cn_handle cn" "kept t1 s" "se_protocols t1 = se_protocols s"
      "traffic t1 io1 = traffic s io @ answers s cn
        [ConfigureRequest i1 remote 0 (mtu_option CLASSIC_SERVER_MTU), ConfigureResponse j remote 0 0 (mtu_option mtu)]"
    and m: "process_control ?f (cn_channels cn1) = (Inr (), m)" "signals (cn_channels cn1) m 0x40 ?c [] []"
      "channel m = (channel (cn_channels cn))(0x40 \<mapsto> ?c)"
    by blast
  have chan: "channel (cn_channels (flushed m cn1)) = [0x40 \<mapsto> ?c]" using m(3) assms(2) by simp
  have s1: "length (se_pending_events t1) < 64" "se_active_reconnect t1"
    "protocol_channel_of ControlChannel (se_protocols t1) = Some \<lparr>pc_cid = 0x40, pc_open = False\<rparr>"
    "protocol_channel_of InterruptChannel (se_protocols t1) = None"
    using t1(4,5) assms(3-6) by (simp_all add: kept_def)
  from poll_control_opens [OF t1(2) requested_frames(5,6) [OF assms(8)] assms(9,10) m(1,2) established_facts(8,1-3) s1(1,3,4,2)
      allocate_first(2) [OF chan], of store as]
  obtain t2 io2 i2 m' where t2: "poll_loop store (arrivals cn1 sz [?f] @ as) t1 = poll_loop store as t2"
    "listening t2 (flushed m' (flushed m cn1)) io2"
    "signals (cn_channels (flushed m cn1)) m' 0x41 (dialled InterruptChannel 0x41) [ConnectionRequest i2 (hid_psm InterruptChannel) 0x41] []"
    "kept t2 (with_channel ControlChannel 0x40 mtu t1)"
    "se_protocols t2 = se_protocols (dialling InterruptChannel 0x41 (with_channel ControlChannel 0x40 mtu t1))"
    "traffic t2 io2 = traffic t1 io1 @ answers t1 cn1 [ConnectionRequest i2 (hid_psm InterruptChannel) 0x41]"
    unfolding established_facts(4) append_Nil by blast
  have "traffic t2 io2 = traffic s io @ answers s cn ([ConfigureRequest i1 remote 0 (mtu_option CLASSIC_SERVER_MTU),
      ConfigureResponse j remote 0 0 (mtu_option mtu)] @ [ConnectionRequest i2 (hid_psm InterruptChannel) 0x41])"
    unfolding answers_append using t1(6) t2(6) answers_kept [OF t1(4,3)] by simp
  moreover have "channel (cn_channels (flushed m' (flushed m cn1))) = [0x40 \<mapsto> ?c, 0x41 \<mapsto> dialled InterruptChannel 0x41]"
    using t2(3) chan by (simp add: signals_def)
  moreover have "se_protocols t2 = se_protocols (dialling InterruptChannel 0x41 (with_channel ControlChannel 0x40 mtu s))"
    using t2(5) t1(5) by (simp add: dialling_def put_protocols_def with_channel_def)
  ultimately show ?thesis using t1(1,3) t2(1,2) kept_trans [OF t2(4) with_channel_kept(1) [OF t1(4)]]
    by (intro exI [of _ t2] exI [of _ io2] exI [of _ "flushed m' (flushed m cn1)"] exI [of _ i1] exI [of _ i2]) simp
qed

lemma interrupt_dialled:
  assumes "listening s cn io" "channel (cn_channels cn) cid = Some (dialled InterruptChannel cid)"
    and "protocol_channel_of InterruptChannel (se_protocols s) = Some \<lparr>pc_cid = cid, pc_open = False\<rparr>"
    and "protocol_channel_of ControlChannel (se_protocols s) = Some p" "pc_open p" "length (se_pending_events s) < 64"
    and "48 \<le> mtu" "length options \<le> 65525" "4 \<le> sz" "sz \<le> 65535"
  shows "\<exists>t io' cn' i'. poll_loop store (arrivals cn sz (acceptance cid remote mtu (i, j, k) options) @ as) s = poll_loop store as t
    \<and> listening t cn' io' \<and> channel (cn_channels cn') = (channel (cn_channels cn))(cid \<mapsto> established InterruptChannel cid remote mtu)
    \<and> kept t (with_channel InterruptChannel cid mtu s) \<and> se_protocols t = se_protocols (with_channel InterruptChannel cid mtu s)
    \<and> traffic t io' = traffic s io @ answers s cn
        [ConfigureRequest i' remote 0 (mtu_option CLASSIC_SERVER_MTU), ConfigureResponse j remote 0 0 (mtu_option mtu)]"
proof -
  let ?f = "ConfigureResponse k cid 0 0 options" and ?c = "established InterruptChannel cid remote mtu"
  from poll_agreed [OF assms(1,2,7,9,10), of store remote i j k options as] obtain t1 io1 cn1 i1 m where
    t1: "poll_loop store (arrivals cn sz (acceptance cid remote mtu (i, j, k) options) @ as) s = poll_loop store (arrivals cn1 sz [?f] @ as) t1"
      "listening t1 cn1 io1" "cn_handle cn1 = cn_handle cn" "kept t1 s" "se_protocols t1 = se_protocols s"
      "traffic t1 io1 = traffic s io @ answers s cn
        [ConfigureRequest i1 remote 0 (mtu_option CLASSIC_SERVER_MTU), ConfigureResponse j remote 0 0 (mtu_option mtu)]"
    and m: "process_control ?f (cn_channels cn1) = (Inr (), m)" "signals (cn_channels cn1) m cid ?c [] []"
      "channel m = (channel (cn_channels cn))(cid \<mapsto> ?c)"
    by blast
  have s1: "length (se_pending_events t1) < 64"
    "protocol_channel_of InterruptChannel (se_protocols t1) = Some \<lparr>pc_cid = cid, pc_open = False\<rparr>"
    "\<And>p. protocol_channel_of ControlChannel (se_protocols t1) = Some p \<Longrightarrow> pc_open p"
    using t1(4,5) assms(3-6) by (simp_all add: kept_def)
  from poll_interrupt_opens [OF t1(2) requested_frames(5,6) [OF assms(8)] assms(9,10) m(1,2) established_facts(8,1-3) s1, of store as]
  obtain t2 io2 where t2: "poll_loop store (arrivals cn1 sz [?f] @ as) t1 = poll_loop store as t2" "listening t2 (flushed m cn1) io2"
    "kept t2 (with_channel InterruptChannel cid mtu t1)" "se_protocols t2 = se_protocols (with_channel InterruptChannel cid mtu t1)"
    "traffic t2 io2 = traffic t1 io1 @ answers t1 cn1 []"
    unfolding established_facts(4) by blast
  have "answers t1 cn1 [] = []" by (simp add: answers_def signal_pdus_def)
  then show ?thesis
    using t1(1,6) t2 m(3) kept_trans [OF t2(3) with_channel_kept(1) [OF t1(4)]] with_channel_kept(2) [OF t1(5), of InterruptChannel cid mtu]
    by (intro exI [of _ t2] exI [of _ io2] exI [of _ "flushed m cn1"] exI [of _ i1]) simp
qed

section \<open>Lemmas: both channels\<close>

lemma arrivals_frames: "arrivals cn sz fs = map ArrivedPacket (signal_packets (cn_handle cn) sz fs)"
  by (simp add: arrivals_def signal_packets_def)

lemma signal_packets_append: "signal_packets handle sz (fs @ gs) = signal_packets handle sz fs @ signal_packets handle sz gs"
  by (simp add: signal_packets_def signal_pdus_def pdu_fragments_def)

lemma all_hid_channels: "(\<forall>ch. P ch) \<longleftrightarrow> P ControlChannel \<and> P InterruptChannel"
  by (metis hid_channel.exhaust)

lemma channels_opened:
  assumes "listening s cn io" "channel (cn_channels cn) = [0x40 \<mapsto> dialled ControlChannel 0x40]" "se_active_reconnect s"
    and "se_protocols s = protocol_default\<lparr>ps_control := Some \<lparr>pc_cid = 0x40, pc_open = False\<rparr>\<rparr>" "length (se_pending_events s) < 63"
    and "48 \<le> mtu1" "length options1 \<le> 65525" "48 \<le> mtu2" "length options2 \<le> 65525" "4 \<le> sz" "sz \<le> 65535"
  shows "\<exists>t io' cn' i1 i2 i3. poll_loop store (arrivals cn sz (acceptance 0x40 remote1 mtu1 (a1, b1, c1) options1
        @ acceptance 0x41 remote2 mtu2 (a2, b2, c2) options2)) s = poll_loop store [] t
    \<and> listening t cn' io' \<and> hid_open t ControlChannel 0x40 \<and> hid_open t InterruptChannel 0x41
    \<and> channel (cn_channels cn') = [0x40 \<mapsto> established ControlChannel 0x40 remote1 mtu1, 0x41 \<mapsto> established InterruptChannel 0x41 remote2 mtu2]
    \<and> se_pending_events t = se_pending_events s @ [EvChannelOpened ControlChannel, EvChannelOpened InterruptChannel]
    \<and> traffic t io' = traffic s io @ answers s cn ([ConfigureRequest i1 remote1 0 (mtu_option CLASSIC_SERVER_MTU),
        ConfigureResponse b1 remote1 0 0 (mtu_option mtu1)] @ dialogue InterruptChannel 0x41 remote2 mtu2 i2 i3 b2)"
proof -
  let ?f1 = "acceptance 0x40 remote1 mtu1 (a1, b1, c1) options1" and ?f2 = "acceptance 0x41 remote2 mtu2 (a2, b2, c2) options2"
  have p: "protocol_channel_of ControlChannel (se_protocols s) = Some \<lparr>pc_cid = 0x40, pc_open = False\<rparr>"
    "protocol_channel_of InterruptChannel (se_protocols s) = None" "length (se_pending_events s) < 64"
    using assms(4,5) by (simp_all add: protocol_channel_of_def protocol_default_def)
  from control_dialled [OF assms(1-3) p assms(6,7,10,11), of store remote1 a1 b1 c1 "arrivals cn sz ?f2"] obtain t1 io1 cn1 i1 i2 where
    t1: "poll_loop store (arrivals cn sz ?f1 @ arrivals cn sz ?f2) s = poll_loop store (arrivals cn sz ?f2) t1"
      "listening t1 cn1 io1" "cn_handle cn1 = cn_handle cn"
      "channel (cn_channels cn1) = [0x40 \<mapsto> established ControlChannel 0x40 remote1 mtu1, 0x41 \<mapsto> dialled InterruptChannel 0x41]"
      "kept t1 (with_channel ControlChannel 0x40 mtu1 s)"
      "se_protocols t1 = se_protocols (dialling InterruptChannel 0x41 (with_channel ControlChannel 0x40 mtu1 s))"
      "traffic t1 io1 = traffic s io @ answers s cn [ConfigureRequest i1 remote1 0 (mtu_option CLASSIC_SERVER_MTU),
        ConfigureResponse b1 remote1 0 0 (mtu_option mtu1), ConnectionRequest i2 (hid_psm InterruptChannel) 0x41]" by blast
  have q: "protocol_channel_of InterruptChannel (se_protocols t1) = Some \<lparr>pc_cid = 0x41, pc_open = False\<rparr>"
    "protocol_channel_of ControlChannel (se_protocols t1) = Some \<lparr>pc_cid = 0x40, pc_open = True\<rparr>"
    "ps_sdp (se_protocols t1) = []" "se_pending_events t1 = se_pending_events s @ [EvChannelOpened ControlChannel]"
    using t1(5,6) assms(4) by (simp_all add: kept_def with_channel_def opened_channel_of protocol_default_def)
  have c1: "channel (cn_channels cn1) 0x41 = Some (dialled InterruptChannel 0x41)" "length (se_pending_events t1) < 64"
    using t1(4) q(4) assms(5) by simp_all
  from interrupt_dialled [OF t1(2) c1(1) q(1,2) _ c1(2) assms(8-11), of store remote2 a2 b2 c2 "[]"] obtain t2 io2 cn2 i3 where
    t2: "poll_loop store (arrivals cn1 sz ?f2) t1 = poll_loop store [] t2" "listening t2 cn2 io2"
      "channel (cn_channels cn2) = (channel (cn_channels cn1))(0x41 \<mapsto> established InterruptChannel 0x41 remote2 mtu2)"
      "kept t2 (with_channel InterruptChannel 0x41 mtu2 t1)" "se_protocols t2 = se_protocols (with_channel InterruptChannel 0x41 mtu2 t1)"
      "traffic t2 io2 = traffic t1 io1 @ answers t1 cn1
        [ConfigureRequest i3 remote2 0 (mtu_option CLASSIC_SERVER_MTU), ConfigureResponse b2 remote2 0 0 (mtu_option mtu2)]" by auto
  have "arrivals cn sz (?f1 @ ?f2) = arrivals cn sz ?f1 @ arrivals cn sz ?f2" "arrivals cn1 sz ?f2 = arrivals cn sz ?f2"
    using t1(3) by (simp_all add: arrivals_frames signal_packets_append)
  with t1(1) t2(1) have "poll_loop store (arrivals cn sz (?f1 @ ?f2)) s = poll_loop store [] t2" by (simp only:)
  moreover have "hid_open t2 ControlChannel 0x40" "hid_open t2 InterruptChannel 0x41"
    using q t2(5) by (simp_all add: hid_open_def with_channel_def opened_channel_of bt_keys_def all_hid_channels)
  moreover have "se_pending_events t2 = se_pending_events s @ [EvChannelOpened ControlChannel, EvChannelOpened InterruptChannel]"
    using t2(4) q(4) by (simp add: kept_def with_channel_def)
  moreover have "answers t1 cn1 fs = answers s cn fs" for fs
    using t1(3,5) by (simp add: answers_def kept_def with_channel_kept(3))
  then have "traffic t2 io2 = traffic s io @ answers s cn ([ConfigureRequest i1 remote1 0 (mtu_option CLASSIC_SERVER_MTU),
      ConfigureResponse b1 remote1 0 0 (mtu_option mtu1), ConnectionRequest i2 (hid_psm InterruptChannel) 0x41]
      @ [ConfigureRequest i3 remote2 0 (mtu_option CLASSIC_SERVER_MTU), ConfigureResponse b2 remote2 0 0 (mtu_option mtu2)])"
    unfolding answers_append using t1(7) t2(6) by simp
  moreover have "channel (cn_channels cn2) = [0x40 \<mapsto> established ControlChannel 0x40 remote1 mtu1,
      0x41 \<mapsto> established InterruptChannel 0x41 remote2 mtu2]" using t2(3) t1(4) by simp
  ultimately show ?thesis using t2(2)
    by (intro exI [of _ t2] exI [of _ io2] exI [of _ cn2] exI [of _ i1] exI [of _ i2] exI [of _ i3]) (simp add: dialogue_def)
qed

end
