(* ===== verification/Session_Reconnect.thy ===== *)
theory Session_Reconnect
  imports Session_Pairing Session_Dialling
begin

text \<open>
  The reconnection to a bonded peer through a session: the application asks for it, the session pages the peer, answers the link key
  request from the store, has the link encrypted, and then opens the control and the interrupt channel.
\<close>

section \<open>The packets on the wire\<close>

definition reconnect_packets :: "bluetooth_address \<Rightarrow> u16 \<Rightarrow> u8 \<Rightarrow> packet list" where
  "reconnect_packets peer handle encryption =
     [connection_complete 0 handle peer 1 encryption, peer_event EVENT_LINK_KEY_REQUEST peer [],
      link_event EVENT_AUTHENTICATION_COMPLETE handle [], link_event EVENT_ENCRYPTION_CHANGE handle [1]]"

text \<open>Page scan while the page runs; the three commands after the page close the window.\<close>

definition reconnect_commands :: "session_config \<Rightarrow> bluetooth_address \<Rightarrow> u16 \<Rightarrow> bytes \<Rightarrow> (u16 \<times> bytes) list" where
  "reconnect_commands config peer handle key =
     [(HCI_WRITE_SCAN_ENABLE, [2]), (HCI_WRITE_EXTENDED_INQUIRY_RESPONSE, 0 # sc_extended_inquiry_response config),
      (HCI_WRITE_SCAN_ENABLE, [2]), (HCI_CREATE_CONNECTION, addr_bytes_le peer @ le16_bytes 0 @ [0, 0] @ le16_bytes 0 @ [1]),
      (HCI_WRITE_EXTENDED_INQUIRY_RESPONSE, 0 # sc_extended_inquiry_response config),
      (HCI_WRITE_SCAN_ENABLE, [2]), (HCI_WRITE_SCAN_ENABLE, [0]),
      (HCI_AUTHENTICATION_REQUESTED, le16_bytes handle),
      (HCI_LINK_KEY_REQUEST_REPLY, addr_bytes_le peer @ key),
      (HCI_SET_CONNECTION_ENCRYPTION, le16_bytes handle @ [1])]"

section \<open>Lemmas: the link to the bonded peer\<close>

lemma register_all_quiet:
  "cm_channels (snd (register_all servers m)) = cm_channels m \<and> cm_outbound (snd (register_all servers m)) = cm_outbound m
    \<and> cm_accepted_channels (snd (register_all servers m)) = cm_accepted_channels m"
proof (induction servers arbitrary: m)
  case (Cons e servers)
  obtain psm spec where e: "e = (psm, spec)" by fastforce
  obtain r m' where reg: "register_server (Some psm) spec m = (r, m')" by fastforce
  then have "cm_channels m' = cm_channels m \<and> cm_outbound m' = cm_outbound m \<and> cm_accepted_channels m' = cm_accepted_channels m"
    by (auto simp: register_server_def register_server_with_spec_def act_then_def act_bind_def act_lift_def res_bind_def
        split: sum.splits if_splits prod.splits)
  with Cons.IH [of m'] reg show ?case
    by (cases r) (simp_all add: e register_all_Cons act_then_def act_bind_def)
qed (simp add: register_all_def)

lemma reconnect_started:
  assumes "session_ensure_active s = Inr ()" "se_window s = Idle" "writable s" "Api.config_ok (se_config s)" "public_address peer"
    and "bs_load_all store (ho_bonds (se_host s)) = Inr [(peer, bond)]"
  shows "start_reconnect store s = (Inr (), (wrote (map command_of (take 4 (reconnect_commands (se_config s) peer handle key))) s)
    \<lparr>se_active_reconnect := True, se_window := Reconnecting peer\<rparr>)"
proof -
  have "length (addr_bytes_le peer @ le16_bytes 0 @ [0, 0] @ le16_bytes 0 @ [1]) \<le> 255"
    using assms(5) by (simp add: public_address_def le16_bytes_def)
  then show ?thesis using assms
    by (simp add: start_reconnect_def single_bond_def connect_to_def set_scan_def write_inquiry_response_def act_then_def act_bind_def
        send_writable wrote_again Api.config_ok_def push_bit_eq_mult reconnect_commands_def)
qed

lemma key_replied:
  assumes "public_address peer" "writable s" "ho_output (se_host s) = []"
    and "bs_load store (ho_bonds (se_host s)) peer = Inr (Some bond)" "length (bond_link_key bond) = 16"
  shows "handle_packet store (peer_event EVENT_LINK_KEY_REQUEST peer []) s
    = (Inr (), wrote [command_of (HCI_LINK_KEY_REQUEST_REPLY, addr_bytes_le peer @ bond_link_key bond)] s)"
proof -
  have addr: "length (addr_bytes_le peer) = 6" using assms(1) by (simp add: public_address_def)
  have "forward_event store \<lparr>ev_event_code = EVENT_LINK_KEY_REQUEST, ev_parameters = addr_bytes_le peer\<rparr> s
      = (Inr (), wrote [command_of (HCI_LINK_KEY_REQUEST_REPLY, addr_bytes_le peer @ bond_link_key bond)] (s\<lparr>se_host := se_host s\<rparr>))"
    using assms addr by (intro forward_reply [where ev = "LinkKeyRequest peer"])
      (simp_all add: decode_classic_event_def require_len_def address_first queue_command_ok reply_def)
  then show ?thesis by (simp add: peer_event_def unchecked_event)
qed

text \<open>The session on its way: \<open>n\<close> of the commands written, over the connection \<open>cn\<close>.\<close>

definition relinked ::
  "bluetooth_address \<Rightarrow> u16 \<Rightarrow> bytes \<Rightarrow> connection \<Rightarrow> nat \<Rightarrow> 's backend_session \<Rightarrow> 's backend_session" where
  "relinked peer handle key cn n s =
     (wrote (map command_of (take n (reconnect_commands (se_config s) peer handle key))) (linked peer handle s))
       \<lparr>se_active_reconnect := True, se_pending_events := [EvConnected peer],
        se_host := (se_host s)\<lparr>ho_pending_peer := None, ho_connection := Some cn\<rparr>\<rparr>"

lemma relinked_fields [simp]:
  "writable (relinked peer handle key cn n s) = writable s" "se_terminal (relinked peer handle key cn n s) = se_terminal s"
  "se_active_reconnect (relinked peer handle key cn n s)" "se_protocols (relinked peer handle key cn n s) = protocol_default"
  "se_pending_events (relinked peer handle key cn n s) = [EvConnected peer]"
  "se_host (relinked peer handle key cn n s) = (se_host s)\<lparr>ho_pending_peer := None, ho_connection := Some cn\<rparr>"
  "(relinked peer handle key cn n s)\<lparr>se_host := (se_host s)\<lparr>ho_pending_peer := None, ho_connection := Some cn'\<rparr>\<rparr> = relinked peer handle key cn' n s"
  by (simp_all add: relinked_def linked_def writable_def wrote_def split: option.split)

lemma relinked_next:
  "wrote [c] (relinked peer handle key cn n s) = relinked peer handle key cn k s"
  if "map command_of (take k (reconnect_commands (se_config s) peer handle key))
    = map command_of (take n (reconnect_commands (se_config s) peer handle key)) @ [c]"
  using that by (simp add: relinked_def wrote_def option.map_comp comp_def)

lemma relinked_steps:
  fixes handle :: u16
  assumes "writable s" "se_terminal s = None" "se_pending_events s = []" "Api.config_ok (se_config s)" "ho_output (se_host s) = []"
    and "ho_pending_peer (se_host s) \<in> {None, Some peer}" "register_all (ho_servers (se_host s)) manager_new = (Inr (), m)"
    and "public_address peer" "bs_load store (ho_bonds (se_host s)) peer = Inr (Some bond)" "length (bond_link_key bond) = 16"
  defines "u \<equiv> (wrote (map command_of (take 4 (reconnect_commands (se_config s) peer handle (bond_link_key bond)))) s)
      \<lparr>se_active_reconnect := True, se_window := Reconnecting peer\<rparr>"
    and "cn \<equiv> \<lparr>cn_peer = peer, cn_handle = handle, cn_encrypted = False, cn_channels = m\<rparr>"
  shows "handle_packet store (connection_complete 0 handle peer 1 encryption) u = (Inr (), relinked peer handle (bond_link_key bond) cn 8 s)"
    "handle_packet store (peer_event EVENT_LINK_KEY_REQUEST peer []) (relinked peer handle (bond_link_key bond) cn 8 s)
      = (Inr (), relinked peer handle (bond_link_key bond) cn 9 s)"
    "handle_packet store (link_event EVENT_AUTHENTICATION_COMPLETE handle []) (relinked peer handle (bond_link_key bond) cn 9 s)
      = (Inr (), relinked peer handle (bond_link_key bond) cn 10 s)"
    "handle_packet store (link_event EVENT_ENCRYPTION_CHANGE handle [1]) (relinked peer handle (bond_link_key bond) cn 10 s)
      = act_then start_active_reconnect_control drain_host_output (relinked peer handle (bond_link_key bond) (cn\<lparr>cn_encrypted := True\<rparr>) 10 s)"
proof -
  have u: "se_host u = se_host s" "se_config u = se_config s" "se_terminal u = se_terminal s" "se_pending_events u = se_pending_events s"
    "expected_peer (se_window u) = Some peer" "writable u = writable s"
    by (simp_all add: u_def) (simp add: writable_def wrote_def split: option.split)
  have "handle_packet store (connection_complete 0 handle peer 1 encryption) u
      = (Inr (), wrote (map command_of [(HCI_WRITE_EXTENDED_INQUIRY_RESPONSE, 0 # sc_extended_inquiry_response (se_config s)),
          (HCI_WRITE_SCAN_ENABLE, [2]), (HCI_WRITE_SCAN_ENABLE, [0]), (HCI_AUTHENTICATION_REQUESTED, le16_bytes handle)])
        ((linked peer handle u)\<lparr>se_pending_events := [EvConnected peer],
          se_host := (se_host s)\<lparr>ho_pending_peer := None, ho_connection := Some cn\<rparr>\<rparr>))"
    using completed [of peer u m store handle encryption] assms(1-8) u by (simp add: cn_def del: handle_packet.simps)
  then show "handle_packet store (connection_complete 0 handle peer 1 encryption) u = (Inr (), relinked peer handle (bond_link_key bond) cn 8 s)"
    by (cases s) (simp add: u_def relinked_def linked_def wrote_def reconnect_commands_def option.map_comp comp_def del: handle_packet.simps)
  show "handle_packet store (peer_event EVENT_LINK_KEY_REQUEST peer []) (relinked peer handle (bond_link_key bond) cn 8 s)
      = (Inr (), relinked peer handle (bond_link_key bond) cn 9 s)"
    using assms by (subst key_replied [where bond = bond]) (simp_all add: relinked_next reconnect_commands_def)
  show "handle_packet store (link_event EVENT_AUTHENTICATION_COMPLETE handle []) (relinked peer handle (bond_link_key bond) cn 9 s)
      = (Inr (), relinked peer handle (bond_link_key bond) cn 10 s)"
    using assms by (subst authenticated [where cn = cn]) (simp_all add: relinked_next reconnect_commands_def)
  show "handle_packet store (link_event EVENT_ENCRYPTION_CHANGE handle [1]) (relinked peer handle (bond_link_key bond) cn 10 s)
      = act_then start_active_reconnect_control drain_host_output (relinked peer handle (bond_link_key bond) (cn\<lparr>cn_encrypted := True\<rparr>) 10 s)"
    using assms(5) by (subst encryption_changed [where cn = cn]) (simp_all add: cn_def)
qed

lemma relinked_listening:
  assumes "session_inv s" "se_io s = Some io" "io_faults io = []" "se_terminal s = None" "ho_output (se_host s) = []"
    and "fl_queued (ho_acl_flow (se_host s)) = []" "0 < fl_payload_size (ho_acl_flow (se_host s))" "fl_payload_size (ho_acl_flow (se_host s)) \<le> 65535"
    and "Api.config_ok (se_config s)" "public_address peer" "length key = 16"
    and "manager_inv (cn_channels cn)" "channel (cn_channels cn) = Map.empty" "settled (cn_channels cn)" "cn_handle cn \<le> ACL_HANDLE_MASK"
  shows "\<exists>io'. listening (relinked peer handle key cn 10 s) cn io'
    \<and> traffic (relinked peer handle key cn 10 s) io' = io_sent io @ map command_of (reconnect_commands (se_config s) peer handle key)"
proof -
  let ?t = "relinked peer handle key cn 10 s" and ?cs = "reconnect_commands (se_config s) peer handle key"
  let ?io = "io\<lparr>io_sent := io_sent io @ map command_of ?cs\<rparr>"
  have "take 10 ?cs = ?cs" by (simp add: reconnect_commands_def)
  then have io: "se_io ?t = Some ?io" using assms(2) by (simp add: relinked_def linked_def wrote_def)
  have "list_all packet_wf (map command_of ?cs)"
    using assms(9-11) by (simp add: reconnect_commands_def command_of_def command_wf_def Api.config_ok_def public_address_def le16_bytes_def)
  then have "session_inv ?t"
    using assms(1,2,4,12) io by (simp add: session_inv_def host_inv_def) (simp add: relinked_def linked_def wrote_def)
  moreover have "room (ho_acl_flow (se_host s)) = 0" using assms(6) by (simp add: room_def)
  ultimately have "listening ?t cn ?io"
    using assms io by (simp add: listening_def idle_session_def wired_def protocol_default_def protocol_channel_of_def split: hid_channel.split)
  moreover have "traffic ?t ?io = io_sent io @ map command_of ?cs" using assms(6) by (simp add: traffic_def)
  ultimately show ?thesis by blast
qed

text \<open>What has the bonded peer on the link, and the control channel on its way.\<close>

lemma poll_relinked:
  assumes "session_inv s" "se_io s = Some io" "io_faults io = []" "se_terminal s = None" "se_pending_events s = []" "ho_output (se_host s) = []"
    and "fl_queued (ho_acl_flow (se_host s)) = []" "0 < fl_payload_size (ho_acl_flow (se_host s))" "fl_payload_size (ho_acl_flow (se_host s)) \<le> 65535"
    and "Api.config_ok (se_config s)" "ho_pending_peer (se_host s) \<in> {None, Some peer}" "servers_valid (ho_servers (se_host s))"
    and "public_address peer" "bs_load store (ho_bonds (se_host s)) peer = Inr (Some bond)" "length (bond_link_key bond) = 16"
    and "handle \<le> ACL_HANDLE_MASK"
  shows "\<exists>t io' cn i. poll_loop store (map ArrivedPacket (reconnect_packets peer handle encryption) @ as)
      ((wrote (map command_of (take 4 (reconnect_commands (se_config s) peer handle (bond_link_key bond)))) s)
        \<lparr>se_active_reconnect := True, se_window := Reconnecting peer\<rparr>) = poll_loop store as t
    \<and> listening t cn io' \<and> cn_handle cn = handle \<and> channel (cn_channels cn) = [0x40 \<mapsto> dialled ControlChannel 0x40]
    \<and> se_active_reconnect t \<and> se_pending_events t = [EvConnected peer]
    \<and> fl_payload_size (ho_acl_flow (se_host t)) = fl_payload_size (ho_acl_flow (se_host s))
    \<and> se_protocols t = protocol_default\<lparr>ps_control := Some \<lparr>pc_cid = 0x40, pc_open = False\<rparr>\<rparr>
    \<and> traffic t io' = io_sent io @ map command_of (reconnect_commands (se_config s) peer handle (bond_link_key bond))
        @ signal_packets handle (fl_payload_size (ho_acl_flow (se_host s))) [ConnectionRequest i (hid_psm ControlChannel) 0x40]"
proof -
  have "cm_servers manager_new = []" by (simp add: manager_new_def with_information_capabilities_def)
  then obtain m where m: "register_all (ho_servers (se_host s)) manager_new = (Inr (), m)"
    using register_all_ok [OF assms(12), of manager_new] by fastforce
  have quiet: "manager_inv m" "channel m = Map.empty" "settled m"
    using register_all_inv [of "ho_servers (se_host s)"] register_all_quiet [of "ho_servers (se_host s)" manager_new] m
    by (simp_all add: fun_eq_iff channel_def settled_def manager_new_def with_information_capabilities_def bt_get_def)
  define cn where "cn enc = \<lparr>cn_peer = peer, cn_handle = handle, cn_encrypted = enc, cn_channels = m\<rparr>" for enc
  let ?t = "\<lambda>enc n. relinked peer handle (bond_link_key bond) (cn enc) n s"
  have w: "writable s" using assms(2,3) by (simp add: writable_def)
  note steps = relinked_steps [OF w assms(4,5,10,6,11) m assms(13-15), of handle, folded cn_def]
  have true: "(cn False)\<lparr>cn_encrypted := True\<rparr> = cn True" by (simp add: cn_def)
  from relinked_listening [OF assms(1-4,6-10,13,15), of "cn True" handle] quiet assms(16) obtain io1
    where l: "listening (?t True 10) (cn True) io1" and out: "traffic (?t True 10) io1
      = io_sent io @ map command_of (reconnect_commands (se_config s) peer handle (bond_link_key bond))" by (auto simp: cn_def)
  have "allocate_cid (cn_channels (cn True)) = Inr 0x40" using quiet(2) by (intro allocate_first) (simp add: cn_def)
  from dial_settled [OF l this, of ControlChannel 0] obtain i m' io' u t where
    d: "dial ControlChannel (?t True 10) = (Inr (), u)" "drain_host_output u = (Inr (), t)"
    and m': "signals (cn_channels (cn True)) m' 0x40 (dialled ControlChannel 0x40) [ConnectionRequest i (hid_psm ControlChannel) 0x40] []"
    and t: "listening t (flushed m' (cn True)) io'" "kept t (?t True 10)" "se_protocols t = se_protocols (dialling ControlChannel 0x40 (?t True 10))"
      "traffic t io' = traffic (?t True 10) io1 @ answers (?t True 10) (cn True) [ConnectionRequest i (hid_psm ControlChannel) 0x40]" by blast
  have 4: "handle_packet store (link_event EVENT_ENCRYPTION_CHANGE handle [1]) (?t False 10) = (Inr (), t)"
    using steps(4) d dial_calls(1) [of "?t True 10"] by (simp add: true act_then_Inr protocol_default_def del: handle_packet.simps)
  let ?u = "(wrote (map command_of (take 4 (reconnect_commands (se_config s) peer handle (bond_link_key bond)))) s)
    \<lparr>se_active_reconnect := True, se_window := Reconnecting peer\<rparr>"
  have "writable ?u" "se_terminal t = None" using w t(1) by (auto simp: writable_def wrote_def listening_def split: option.splits)
  then have "poll_loop store (map ArrivedPacket (reconnect_packets peer handle encryption) @ as) ?u = poll_loop store as t"
    using w assms(4)
    by (simp add: reconnect_packets_def poll_packet_step [OF steps(1)] poll_packet_step [OF steps(2)] poll_packet_step [OF steps(3)]
        poll_packet_step [OF 4] del: poll_loop.simps handle_packet.simps wrote_updates)
  moreover have "traffic t io' = io_sent io @ map command_of (reconnect_commands (se_config s) peer handle (bond_link_key bond))
      @ signal_packets handle (fl_payload_size (ho_acl_flow (se_host s))) [ConnectionRequest i (hid_psm ControlChannel) 0x40]"
    using t(4) out by (simp add: answers_def signal_packets_def) (simp add: cn_def)
  moreover have "channel (cn_channels (flushed m' (cn True))) = [0x40 \<mapsto> dialled ControlChannel 0x40]" "cn_handle (flushed m' (cn True)) = handle"
    using m' quiet(2) by (simp_all add: signals_def cn_def)
  moreover have "se_protocols t = protocol_default\<lparr>ps_control := Some \<lparr>pc_cid = 0x40, pc_open = False\<rparr>\<rparr>"
    using t(3) by (simp add: dialling_def put_protocols_def Let_def)
  moreover have "se_active_reconnect t" "se_pending_events t = [EvConnected peer]"
    "fl_payload_size (ho_acl_flow (se_host t)) = fl_payload_size (ho_acl_flow (se_host s))"
    using t(2) by (simp_all add: kept_def)
  ultimately show ?thesis using t(1) by blast
qed

lemma signal_packets_dialogue:
  "signal_packets handle sz (dialogue ch cid remote mtu i i' j @ fs) = signal_packets handle sz [ConnectionRequest i (hid_psm ch) cid]
     @ signal_packets handle sz ([ConfigureRequest i' remote 0 (mtu_option CLASSIC_SERVER_MTU), ConfigureResponse j remote 0 0 (mtu_option mtu)] @ fs)"
  by (simp add: dialogue_def signal_packets_def signal_pdus_def pdu_fragments_def)

lemma poll_reconnected:
  assumes "session_inv s" "se_io s = Some io" "io_faults io = []" "se_terminal s = None" "se_pending_events s = []" "ho_output (se_host s) = []"
    and "fl_queued (ho_acl_flow (se_host s)) = []" "0 < fl_payload_size (ho_acl_flow (se_host s))" "fl_payload_size (ho_acl_flow (se_host s)) \<le> 65535"
    and "Api.config_ok (se_config s)" "ho_pending_peer (se_host s) \<in> {None, Some peer}" "servers_valid (ho_servers (se_host s))"
    and "public_address peer" "bs_load store (ho_bonds (se_host s)) peer = Inr (Some bond)" "length (bond_link_key bond) = 16"
    and "handle \<le> ACL_HANDLE_MASK"
    and "48 \<le> mtu1" "length options1 \<le> 65525" "48 \<le> mtu2" "length options2 \<le> 65525" "4 \<le> sz" "sz \<le> 65535"
  shows "\<exists>t cn io' i1 i2 i3 i4. poll_loop store (map ArrivedPacket (reconnect_packets peer handle encryption @ signal_packets handle sz
        (acceptance 0x40 remote1 mtu1 (a1, b1, c1) options1 @ acceptance 0x41 remote2 mtu2 (a2, b2, c2) options2)))
      ((wrote (map command_of (take 4 (reconnect_commands (se_config s) peer handle (bond_link_key bond)))) s)
        \<lparr>se_active_reconnect := True, se_window := Reconnecting peer\<rparr>) = (Inr (), t)
    \<and> listening t cn io' \<and> hid_open t ControlChannel 0x40 \<and> hid_open t InterruptChannel 0x41
    \<and> channel (cn_channels cn) = [0x40 \<mapsto> established ControlChannel 0x40 remote1 mtu1, 0x41 \<mapsto> established InterruptChannel 0x41 remote2 mtu2]
    \<and> se_pending_events t = [EvConnected peer, EvChannelOpened ControlChannel, EvChannelOpened InterruptChannel]
    \<and> traffic t io' = io_sent io @ map command_of (reconnect_commands (se_config s) peer handle (bond_link_key bond))
        @ signal_packets handle (fl_payload_size (ho_acl_flow (se_host s)))
            (dialogue ControlChannel 0x40 remote1 mtu1 i1 i2 b1 @ dialogue InterruptChannel 0x41 remote2 mtu2 i3 i4 b2)"
proof -
  let ?as = "map ArrivedPacket (signal_packets handle sz
    (acceptance 0x40 remote1 mtu1 (a1, b1, c1) options1 @ acceptance 0x41 remote2 mtu2 (a2, b2, c2) options2))"
  let ?u = "(wrote (map command_of (take 4 (reconnect_commands (se_config s) peer handle (bond_link_key bond)))) s)
    \<lparr>se_active_reconnect := True, se_window := Reconnecting peer\<rparr>"
  from poll_relinked [OF assms(1-16), of encryption ?as] obtain t1 io1 cn1 i1 where
    t1: "poll_loop store (map ArrivedPacket (reconnect_packets peer handle encryption) @ ?as) ?u = poll_loop store ?as t1"
      "listening t1 cn1 io1" "cn_handle cn1 = handle" "channel (cn_channels cn1) = [0x40 \<mapsto> dialled ControlChannel 0x40]"
      "se_active_reconnect t1" "se_pending_events t1 = [EvConnected peer]"
      "fl_payload_size (ho_acl_flow (se_host t1)) = fl_payload_size (ho_acl_flow (se_host s))"
      "se_protocols t1 = protocol_default\<lparr>ps_control := Some \<lparr>pc_cid = 0x40, pc_open = False\<rparr>\<rparr>"
      "traffic t1 io1 = io_sent io @ map command_of (reconnect_commands (se_config s) peer handle (bond_link_key bond))
        @ signal_packets handle (fl_payload_size (ho_acl_flow (se_host s))) [ConnectionRequest i1 (hid_psm ControlChannel) 0x40]" by blast
  have few: "length (se_pending_events t1) < 63" by (simp add: t1(6))
  from channels_opened [OF t1(2,4,5,8) few assms(17-22), of store remote1 a1 b1 c1 remote2 a2 b2 c2, unfolded arrivals_frames t1(3)]
  obtain t2 io2 cn2 i2 i3 i4 where t2: "poll_loop store ?as t1 = poll_loop store [] t2" "listening t2 cn2 io2"
      "hid_open t2 ControlChannel 0x40" "hid_open t2 InterruptChannel 0x41"
      "channel (cn_channels cn2) = [0x40 \<mapsto> established ControlChannel 0x40 remote1 mtu1, 0x41 \<mapsto> established InterruptChannel 0x41 remote2 mtu2]"
      "se_pending_events t2 = se_pending_events t1 @ [EvChannelOpened ControlChannel, EvChannelOpened InterruptChannel]"
      "traffic t2 io2 = traffic t1 io1 @ answers t1 cn1 ([ConfigureRequest i2 remote1 0 (mtu_option CLASSIC_SERVER_MTU),
        ConfigureResponse b1 remote1 0 0 (mtu_option mtu1)] @ dialogue InterruptChannel 0x41 remote2 mtu2 i3 i4 b2)" by blast
  have "answers t1 cn1 fs = signal_packets handle (fl_payload_size (ho_acl_flow (se_host s))) fs" for fs
    using t1(3,7) by (simp add: answers_def signal_packets_def)
  then have "traffic t2 io2 = io_sent io @ map command_of (reconnect_commands (se_config s) peer handle (bond_link_key bond))
      @ signal_packets handle (fl_payload_size (ho_acl_flow (se_host s)))
          (dialogue ControlChannel 0x40 remote1 mtu1 i1 i2 b1 @ dialogue InterruptChannel 0x41 remote2 mtu2 i3 i4 b2)"
    unfolding signal_packets_dialogue using t1(9) t2(7) by simp
  moreover have "poll_loop store [] t2 = (Inr (), t2)"
    using t2(2) by (auto simp: receive_def act_then_def act_bind_def listening_def wired_def)
  with t1(1) t2(1) have "poll_loop store (map ArrivedPacket (reconnect_packets peer handle encryption @ signal_packets handle sz
      (acceptance 0x40 remote1 mtu1 (a1, b1, c1) options1 @ acceptance 0x41 remote2 mtu2 (a2, b2, c2) options2))) ?u = (Inr (), t2)"
    by (simp only: map_append)
  moreover note t2(2-5) t2(6) [unfolded t1(6) append_Cons append_Nil]
  ultimately show ?thesis by blast
qed

section \<open>Properties\<close>

lemma drained_events:
  "traffic (t\<lparr>se_pending_events := es\<rparr>) io = traffic t io" "hid_open (t\<lparr>se_pending_events := es\<rparr>) ch cid = hid_open t ch cid"
  "listening t cn io \<Longrightarrow> listening (t\<lparr>se_pending_events := []\<rparr>) cn io"
  by (auto simp: traffic_def hid_open_def listening_def idle_session_def session_inv_def wired_def channel_is_open_def)

text \<open>C4: a bonded peer is reconnected. On a session with exactly one bond that is neither pairing nor connected, the call succeeds; a
  poll that then receives the completion of the connection, the request for the link key, the completion of the authentication and the
  encryption, and, in fragments of one size of at least four bytes, the peer's acceptance of first the control and then the interrupt channel, returns exactly
  the connection and the two channels. The session has written exactly the page of the peer between the two settings of its scan mode,
  the authentication, the link key of the bond and the encryption; and it has written, or queued while the controller has no buffer,
  exactly the connection request, configuration request and configuration response of the one channel and then of the other. Both
  channels are open to the peer's identifiers with the sizes the peer named, and the session is ready for what comes next.\<close>

theorem bonded_peer_reconnected:
  assumes "session_inv s" "session_ensure_active s = Inr ()" "se_window s = Idle" "se_pending_events s = []"
    and "se_io s = Some io" "io_faults io = []" "Api.config_ok (se_config s)" "ho_output (se_host s) = []"
    and "fl_queued (ho_acl_flow (se_host s)) = []" "0 < fl_payload_size (ho_acl_flow (se_host s))" "fl_payload_size (ho_acl_flow (se_host s)) \<le> 65535"
    and "ho_pending_peer (se_host s) \<in> {None, Some peer}" "servers_valid (ho_servers (se_host s))"
    and "bs_load_all store (ho_bonds (se_host s)) = Inr [(peer, bond)]" "bs_load store (ho_bonds (se_host s)) peer = Inr (Some bond)"
    and "public_address peer" "length (bond_link_key bond) = 16" "handle \<le> ACL_HANDLE_MASK"
    and "48 \<le> mtu1" "length options1 \<le> 65525" "48 \<le> mtu2" "length options2 \<le> 65525" "4 \<le> sz" "sz \<le> 65535"
  shows "\<exists>u t cn io' i1 i2 i3 i4. start_reconnect store s = (Inr (), u)
    \<and> poll store (map ArrivedPacket (reconnect_packets peer handle encryption @ signal_packets handle sz
        (acceptance 0x40 remote1 mtu1 (a1, b1, c1) options1 @ acceptance 0x41 remote2 mtu2 (a2, b2, c2) options2))) u
      = (Inr [EvConnected peer, EvChannelOpened ControlChannel, EvChannelOpened InterruptChannel], t)
    \<and> traffic t io' = io_sent io @ map command_of (reconnect_commands (se_config s) peer handle (bond_link_key bond))
        @ signal_packets handle (fl_payload_size (ho_acl_flow (se_host s)))
            (dialogue ControlChannel 0x40 remote1 mtu1 i1 i2 b1 @ dialogue InterruptChannel 0x41 remote2 mtu2 i3 i4 b2)
    \<and> listening t cn io' \<and> hid_open t ControlChannel 0x40 \<and> hid_open t InterruptChannel 0x41
    \<and> (\<exists>c. basic_open (cn_channels cn) 0x40 c \<and> ch_destination_cid c = remote1 \<and> ch_peer_mtu c = mtu1 \<and> ch_mtu c = CLASSIC_SERVER_MTU)
    \<and> (\<exists>c. basic_open (cn_channels cn) 0x41 c \<and> ch_destination_cid c = remote2 \<and> ch_peer_mtu c = mtu2 \<and> ch_mtu c = CLASSIC_SERVER_MTU)"
proof -
  define u where "u = (wrote (map command_of (take 4 (reconnect_commands (se_config s) peer handle (bond_link_key bond)))) s)
    \<lparr>se_active_reconnect := True, se_window := Reconnecting peer\<rparr>"
  have w: "writable s" "se_terminal s = None"
    using assms(2,5,6) by (auto simp: writable_def session_ensure_active_def split: if_splits option.splits)
  have start: "start_reconnect store s = (Inr (), u)"
    unfolding u_def by (rule reconnect_started [OF assms(2,3) w(1) assms(7,16,14)])
  let ?ps = "reconnect_packets peer handle encryption @ signal_packets handle sz
    (acceptance 0x40 remote1 mtu1 (a1, b1, c1) options1 @ acceptance 0x41 remote2 mtu2 (a2, b2, c2) options2)"
  from poll_reconnected [OF assms(1,5,6) w(2) assms(4,8-11,7,12,13,16,15,17-24), of encryption remote1 a1 b1 c1 remote2 a2 b2 c2, folded u_def]
  obtain t cn io' i1 i2 i3 i4 where t: "poll_loop store (map ArrivedPacket ?ps) u = (Inr (), t)"
      "se_pending_events t = [EvConnected peer, EvChannelOpened ControlChannel, EvChannelOpened InterruptChannel]"
    and cn: "channel (cn_channels cn) = [0x40 \<mapsto> established ControlChannel 0x40 remote1 mtu1, 0x41 \<mapsto> established InterruptChannel 0x41 remote2 mtu2]"
    and rest: "listening t cn io'" "hid_open t ControlChannel 0x40" "hid_open t InterruptChannel 0x41"
      "traffic t io' = io_sent io @ map command_of (reconnect_commands (se_config s) peer handle (bond_link_key bond))
        @ signal_packets handle (fl_payload_size (ho_acl_flow (se_host s)))
            (dialogue ControlChannel 0x40 remote1 mtu1 i1 i2 b1 @ dialogue InterruptChannel 0x41 remote2 mtu2 i3 i4 b2)" by blast
  have "session_ensure_active u = Inr ()" using assms(2) by (simp add: u_def session_ensure_active_def wrote_def split: if_splits)
  with t poll_starts [of u store "hd ?ps" "map ArrivedPacket (tl ?ps)"] have "poll store (map ArrivedPacket ?ps) u
      = (Inr [EvConnected peer, EvChannelOpened ControlChannel, EvChannelOpened InterruptChannel], t\<lparr>se_pending_events := []\<rparr>)"
    unfolding reconnect_packets_def by (simp add: act_then_Inr del: poll_loop.simps)
  moreover have "\<exists>c. basic_open (cn_channels cn) 0x40 c \<and> ch_destination_cid c = remote1 \<and> ch_peer_mtu c = mtu1 \<and> ch_mtu c = CLASSIC_SERVER_MTU"
    "\<exists>c. basic_open (cn_channels cn) 0x41 c \<and> ch_destination_cid c = remote2 \<and> ch_peer_mtu c = mtu2 \<and> ch_mtu c = CLASSIC_SERVER_MTU"
    by (simp_all add: basic_open_def cn channel_outgoing_def server_spec_def)
  ultimately show ?thesis using start rest
    by (intro exI [of _ u] exI [of _ "t\<lparr>se_pending_events := []\<rparr>"] exI [of _ cn] exI [of _ io']
        exI [of _ i1] exI [of _ i2] exI [of _ i3] exI [of _ i4]) (simp add: drained_events)
qed

text \<open>A session that has paired once before, over a controller with buffers of 27 bytes.\<close>

definition bonded_session :: "(bluetooth_address \<times> classic_bond) list backend_session" where
  "bonded_session = (sample_session Idle)\<lparr>se_host := host_new [(peer_example, bond_new (replicate 16 9) 5 True)] 27 4\<rparr>"

theorem bonded_peer_reconnected_witness:
  "\<exists>u t cn io' i1 i2 i3 i4. start_reconnect store_example bonded_session = (Inr (), u)
    \<and> poll store_example (map ArrivedPacket (reconnect_packets peer_example 7 1 @ signal_packets 7 27
        (acceptance 0x40 0x45 185 (1, 2, 3) [] @ acceptance 0x41 0x46 64 (4, 5, 6) []))) u
      = (Inr [EvConnected peer_example, EvChannelOpened ControlChannel, EvChannelOpened InterruptChannel], t)
    \<and> traffic t io' = map command_of (reconnect_commands sample_session_config peer_example 7 (replicate 16 9))
        @ signal_packets 7 27 (dialogue ControlChannel 0x40 0x45 185 i1 i2 2 @ dialogue InterruptChannel 0x41 0x46 64 i3 i4 5)
    \<and> listening t cn io' \<and> hid_open t ControlChannel 0x40 \<and> hid_open t InterruptChannel 0x41"
proof -
  have config: "se_config bonded_session = sample_session_config" by (simp add: bonded_session_def sample_session_def)
  have inv: "session_inv bonded_session"
    using sample_session_facts(1) [of Idle] host.inv_start [of "se_host bonded_session"]
    by (force simp: bonded_session_def session_inv_def)
  have active: "session_ensure_active bonded_session = Inr ()" "se_window bonded_session = Idle" "se_pending_events bonded_session = []"
    "se_io bonded_session = Some sample_io" "io_faults sample_io = []" "io_sent sample_io = []"
    by (simp_all add: bonded_session_def sample_session_def session_ensure_active_def sample_io_def)
  have host: "ho_output (se_host bonded_session) = []" "fl_queued (ho_acl_flow (se_host bonded_session)) = []"
    "fl_payload_size (ho_acl_flow (se_host bonded_session)) = 27" "ho_pending_peer (se_host bonded_session) = None"
    "ho_servers (se_host bonded_session) = []" "ho_bonds (se_host bonded_session) = [(peer_example, bond_new (replicate 16 9) 5 True)]"
    by (simp_all add: bonded_session_def host_new_def flow_new_def)
  show ?thesis
    using bonded_peer_reconnected [OF inv active(1-5), of peer_example store_example "bond_new (replicate 16 9) 5 True" 7 185 "[]" 64 "[]" 27
        1 "0x45" 1 2 3 "0x46" 4 5 6] sample_session_config_ok
    by (simp add: config active host servers_valid_def store_example_def public_address_def peer_example_def bond_new_def) blast
qed

end
