(* ===== verification/Session_Sdp.thy ===== *)
theory Session_Sdp
  imports Session_Flows
begin

text \<open>
  A service query through a session: the fragments of an SDP request, through the host and the SDP channel of the session, to the
  fragments of its answer on the wire.
\<close>

section \<open>Lemmas\<close>

text \<open>A Basic channel sends without touching the channels of the connection.\<close>

lemma send_keeps:
  assumes "ho_connection h = Some cn" "basic_open (cn_channels cn) cid c" "settled (cn_channels cn)" "length sdu \<le> unat (ch_peer_mtu c)"
    and "fst (send_channel_sdu cid sdu h) = Inr ()"
  shows "ho_connection (snd (send_channel_sdu cid sdu h)) = Some cn"
proof -
  let ?m = "(cn_channels cn)\<lparr>cm_outbound := [pdu_new (ch_destination_cid c) sdu]\<rparr>"
  have send: "on_channels (channel_send cid sdu) h = (Inr (), put_channels ?m h)"
    using assms by (simp add: on_channels_def channel_send_def basic_open_def channel_def settled_def)
  have restored: "?m\<lparr>cm_outbound := [], cm_accepted_channels := []\<rparr> = cn_channels cn"
    using assms(3) by (cases "cn_channels cn") (simp add: settled_def)
  have "send_channel_sdu cid sdu h = flush_channels (put_channels ?m h)"
    using send by (simp add: send_channel_sdu_def act_then_Inr)
  with assms(1,3,5) restored show ?thesis
    by (auto simp: flush_channels_def put_channels_def settled_def Let_def split_beta split: sum.splits)
qed

text \<open>Reading channels of a session of which none has anything.\<close>

lemma empty_input:
  assumes "\<And>k. take_channel_sdu k (se_host s) = (None, se_host s)"
  shows "act_each sdp_loop cids s = (Inr (), s)"
    "act_each hid_input [(ControlChannel, a), (InterruptChannel, b)] s = (Inr (), s)"
  using assms by (auto intro!: sdp_loops_idle simp: hid_input_idle act_then_def act_bind_def)

lemma each_append: "act_each f (xs @ ys) s = act_then (act_each f xs) (act_each f ys) s"
  by (induction xs arbitrary: s) (simp_all add: act_then_def act_bind_def split: prod.split sum.split)

text \<open>The session after it has answered a request on an SDP channel.\<close>

definition answered :: "u16 \<Rightarrow> hid_sdp_channel \<Rightarrow> bytes \<Rightarrow> 's backend_session \<Rightarrow> 's backend_session" where
  "answered cid sc response s = s\<lparr>se_host := snd (send_channel_sdu cid response (se_host s)),
     se_protocols := (se_protocols s)\<lparr>ps_sdp := bt_insert cid sc (ps_sdp (se_protocols s))\<rparr>\<rparr>"

lemma answered_idle:
  assumes "idle_session s cn" "basic_open (cn_channels cn) cid c" "length response \<le> unat (ch_peer_mtu c)"
    and "fst (send_channel_sdu cid response (se_host s)) = Inr ()"
  shows "take_channel_sdu k (se_host (answered cid sc response s)) = (None, se_host (answered cid sc response s))"
proof (rule take_nothing [of _ cn])
  show "ho_connection (se_host (answered cid sc response s)) = Some cn"
    using assms by (simp add: answered_def idle_session_def send_keeps)
qed (use idle_facts(1) [OF assms(1)] assms(1) in \<open>auto simp: idle_session_def manager_inv_def\<close>)

lemma sdp_loop_answers:
  assumes "idle_session s cn" "basic_open (cn_channels cn) cid c" "length response \<le> unat (ch_peer_mtu c)"
    and "fst (send_channel_sdu cid response (se_host s)) = Inr ()"
    and "bt_get (ps_sdp (se_protocols s)) cid = Some sc" "sdp_handle_sdu sdu sc = (Some response, sc')"
  shows "sdp_loop cid (holding cid c sdu cn s) = (Inr (), answered cid sc' response s)"
proof -
  let ?t = "holding cid c sdu cn s"
  have ch: "channel (cn_channels cn) cid = Some c" using assms(2) by (simp add: basic_open_def)
  have "?t\<lparr>se_host := se_host s\<rparr> = s" by (cases s) (simp add: holding_def)
  moreover have "answer_sdp cid sdu s = (Inr (), answered cid sc' response s)"
    using assms(4-6) by (simp add: answer_sdp_def on_host_def put_protocols_def answered_def split_beta Let_def)
  ultimately have "sdp_loop cid ?t = sdp_loop cid (answered cid sc' response s)"
    using take_held(1) [OF assms(1) ch, of sdu] by (simp add: sdp_loop.simps [of cid ?t])
  also have "\<dots> = (Inr (), answered cid sc' response s)"
    using answered_idle [OF assms(1-4)] by (intro loops_idle)
  finally show ?thesis .
qed

lemma sdp_input:
  assumes "idle_session s cn" "basic_open (cn_channels cn) cid c" "length response \<le> unat (ch_peer_mtu c)"
    and "fst (send_channel_sdu cid response (se_host s)) = Inr ()"
    and "bt_get (ps_sdp (se_protocols s)) cid = Some sc" "sdp_handle_sdu sdu sc = (Some response, sc')"
  shows "process_protocol_input (holding cid c sdu cn s) = (Inr (), answered cid sc' response s)"
proof -
  let ?t = "holding cid c sdu cn s" and ?keys = "bt_keys (ps_sdp (se_protocols s))"
  have ch: "channel (cn_channels cn) cid = Some c" using assms(2) by (simp add: basic_open_def)
  have "cid \<in> set ?keys" using assms(5) by (force simp: bt_keys_def bt_get_def dest: map_of_SomeD)
  then obtain xs ys where keys: "?keys = xs @ cid # ys" "cid \<notin> set xs" using split_list_first by metis
  have "act_each sdp_loop xs ?t = (Inr (), ?t)"
    using keys(2) by (intro sdp_loops_idle take_held(2) [OF assms(1) ch]) auto
  moreover note sdp_loop_answers [OF assms]
  moreover note empty_input [OF answered_idle [OF assms(1-4)]]
  ultimately have "act_each sdp_loop ?keys ?t = (Inr (), answered cid sc' response s)"
    unfolding keys(1) each_append by (simp add: act_then_Inr)
  then show ?thesis using empty_input(2) [OF answered_idle [OF assms(1-4)]]
    by (simp add: process_protocol_input_def holding_def act_then_Inr del: act_each.simps)
qed

lemma request_handled:
  assumes "idle_session s cn" "basic_open (cn_channels cn) cid c"
    and "bt_get (ps_sdp (se_protocols s)) cid = Some sc" "sdp_handle_sdu sdu sc = (Some response, sc')"
    and "length sdu \<le> unat (ch_mtu c)" "length response \<le> unat (ch_peer_mtu c)"
    and "cn_handle cn \<le> ACL_HANDLE_MASK" "se_io s = Some io" "io_faults io = []"
    and "0 < fl_payload_size (ho_acl_flow (se_host s))" "fl_payload_size (ho_acl_flow (se_host s)) \<le> 65535"
  shows "\<exists>t us fragments. after_pdu (pdu_to_bytes (pdu_new cid sdu) False) s = (Inr (), t)
    \<and> se_terminal t = se_terminal s \<and> se_pending_events t = se_pending_events s
    \<and> se_io t = Some (io\<lparr>io_sent := io_sent io @ map Acl us\<rparr>) \<and> bt_get (ps_sdp (se_protocols t)) cid = Some sc'
    \<and> fragment_l2cap_pdu (cn_handle cn) 0 (fl_payload_size (ho_acl_flow (se_host s)))
        (pdu_to_bytes (pdu_new (ch_destination_cid c) response) False) False = Inr fragments
    \<and> us @ fl_queued (ho_acl_flow (se_host t)) = fl_queued (ho_acl_flow (se_host s)) @ fragments"
proof -
  let ?h = "se_host s" and ?a = "answered cid sc' response s"
  have idle: "ho_connection ?h = Some cn" "settled (cn_channels cn)" "flow_inv (ho_acl_flow ?h)" "pending_output ?h = map OutAcl (fl_queued (ho_acl_flow ?h))"
    using assms(1) by (auto simp: idle_session_def session_inv_def host_inv_def pending_output_def)
  from send_basic [OF idle(1) assms(2) idle(2) assms(6,7,10,11) idle(3)] obtain fragments
    where frag: "fragment_l2cap_pdu (cn_handle cn) 0 (fl_payload_size (ho_acl_flow ?h))
        (pdu_to_bytes (pdu_new (ch_destination_cid c) response) False) False = Inr fragments"
      and send: "fst (send_channel_sdu cid response ?h) = Inr ()"
      and out: "pending_output (snd (send_channel_sdu cid response ?h)) = map OutAcl (fl_queued (ho_acl_flow ?h) @ fragments)"
    using idle(4) by auto
  have "pending_output (se_host ?a) = map OutAcl (fl_queued (ho_acl_flow ?h) @ fragments)" using out by (simp add: answered_def)
  from drain_pending [OF _ assms(9) this] assms(8) obtain us
    where us: "drain_host_output ?a = (Inr (), ?a\<lparr>se_host := (se_host ?a)\<lparr>ho_output := []\<rparr>,
        se_io := Some (io\<lparr>io_sent := io_sent io @ map Acl us\<rparr>)\<rparr>)"
      "us @ fl_queued (ho_acl_flow (se_host ?a)) = fl_queued (ho_acl_flow ?h) @ fragments" by (auto simp: answered_def)
  have "after_pdu (pdu_to_bytes (pdu_new cid sdu) False) s = drain_host_output ?a"
    using sdu_accepted [OF assms(1,2,5)] sdp_input [OF assms(1,2,6) send assms(3,4)] by (simp add: act_then_Inr)
  with us frag show ?thesis by (auto simp: answered_def bt_get_insert_any)
qed

section \<open>Properties\<close>

text \<open>C8: a service query is answered. When the controller delivers the fragments of a request on an open SDP channel of the session, a poll
  that receives them returns only the events that were waiting, and what it has written followed by what waits for a buffer of the
  controller is what it was before, followed by exactly the fragments of the answer of the SDP server, on the channel of the peer.\<close>

theorem sdp_request_answered:
  assumes "idle_session s cn" "session_ensure_active s = Inr ()" "basic_open (cn_channels cn) cid c"
    and "bt_get (ps_sdp (se_protocols s)) cid = Some sc" "sdp_handle_sdu sdu sc = (Some response, sc')"
    and "length sdu \<le> unat (ch_mtu c)" "length response \<le> unat (ch_peer_mtu c)"
    and "cn_handle cn \<le> ACL_HANDLE_MASK" "4 \<le> sz" "sz \<le> 65535" "se_io s = Some io" "io_faults io = []"
    and "0 < fl_payload_size (ho_acl_flow (se_host s))" "fl_payload_size (ho_acl_flow (se_host s)) \<le> 65535"
    and "fragment_l2cap_pdu (cn_handle cn) 0 sz (pdu_to_bytes (pdu_new cid sdu) False) False = Inr ps"
  shows "\<exists>t io' fragments. poll store (map (\<lambda>p. ArrivedPacket (Acl p)) ps) s = (Inr (se_pending_events s), t)
    \<and> se_io t = Some io' \<and> bt_get (ps_sdp (se_protocols t)) cid = Some sc'
    \<and> fragment_l2cap_pdu (cn_handle cn) 0 (fl_payload_size (ho_acl_flow (se_host s)))
        (pdu_to_bytes (pdu_new (ch_destination_cid c) response) False) False = Inr fragments
    \<and> io_sent io' @ map Acl (fl_queued (ho_acl_flow (se_host t)))
      = io_sent io @ map Acl (fl_queued (ho_acl_flow (se_host s))) @ map Acl fragments"
proof -
  have active: "se_terminal s = None" using assms(2) by (auto simp: session_ensure_active_def split: if_splits option.splits)
  define P where "P t \<longleftrightarrow> (\<exists>us fragments. se_pending_events t = se_pending_events s
      \<and> se_io t = Some (io\<lparr>io_sent := io_sent io @ map Acl us\<rparr>) \<and> bt_get (ps_sdp (se_protocols t)) cid = Some sc'
      \<and> fragment_l2cap_pdu (cn_handle cn) 0 (fl_payload_size (ho_acl_flow (se_host s)))
          (pdu_to_bytes (pdu_new (ch_destination_cid c) response) False) False = Inr fragments
      \<and> us @ fl_queued (ho_acl_flow (se_host t)) = fl_queued (ho_acl_flow (se_host s)) @ fragments)" for t :: "'a backend_session"
  have "\<exists>t. after_pdu (pdu_to_bytes (pdu_new cid sdu) False) (with_assembler asm s) = (Inr (), t)
      \<and> se_terminal t = None \<and> se_io t \<noteq> None \<and> P t" if "idle_session (with_assembler asm s) cn" for asm
  proof -
    from request_handled [OF that assms(3) _ assms(5-8) _ assms(12)] assms(4,11,13,14) active show ?thesis
      by (fastforce simp: with_assembler_def P_def)
  qed
  from poll_pdu [OF assms(1,2) _ assms(8-10,15) this, of store] assms(6) unat_u16_less [of "ch_mtu c"]
  obtain t where t: "P t" "poll store (map (\<lambda>p. ArrivedPacket (Acl p)) ps) s = (Inr (se_pending_events t), t\<lparr>se_pending_events := []\<rparr>)"
    by auto
  from t(1) obtain us fragments where u: "se_pending_events t = se_pending_events s"
    "se_io t = Some (io\<lparr>io_sent := io_sent io @ map Acl us\<rparr>)" "bt_get (ps_sdp (se_protocols t)) cid = Some sc'"
    "fragment_l2cap_pdu (cn_handle cn) 0 (fl_payload_size (ho_acl_flow (se_host s)))
      (pdu_to_bytes (pdu_new (ch_destination_cid c) response) False) False = Inr fragments"
    "us @ fl_queued (ho_acl_flow (se_host t)) = fl_queued (ho_acl_flow (se_host s)) @ fragments" by (auto simp: P_def)
  with t(2) show ?thesis by (intro exI [of _ "t\<lparr>se_pending_events := []\<rparr>"]) (auto simp flip: map_append)
qed

text \<open>A request with an unknown PDU identifier: the server answers with an error PDU.\<close>

definition sdp_session :: "(bluetooth_address \<times> classic_bond) list backend_session" where
  "sdp_session = (sample_session WindowConnected)\<lparr>se_protocols :=
     protocol_default\<lparr>ps_sdp := [(0x40, sdp_channel_new sample_config 48)]\<rparr>\<rparr>"

lemma sdp_session_facts:
  "idle_session sdp_session (connection_example 7)" "session_ensure_active sdp_session = Inr ()"
  "bt_get (ps_sdp (se_protocols sdp_session)) 0x40 = Some (sdp_channel_new sample_config 48)"
  "se_io sdp_session = Some sample_io" "se_host sdp_session = connected_example 7" "io_faults sample_io = []" "io_sent sample_io = []"
  using sample_session_idle sample_session_facts(3) [of WindowConnected]
  by (simp_all add: idle_session_def sdp_session_def session_inv_def session_ensure_active_def protocol_channel_of_def
      protocol_default_def bt_get_def sample_session_def sample_io_def split: hid_channel.splits)

lemma connected_example_queue: "fl_queued (ho_acl_flow (connected_example handle)) = []"
  by (simp add: connected_example_def host_new_def flow_new_def)

theorem sdp_request_answered_witness:
  "\<exists>ps response sc' t io' fragments. fragment_l2cap_pdu 7 0 6 (pdu_to_bytes (pdu_new 0x40 [6, 0, 7]) False) False = Inr ps
     \<and> sdp_handle_sdu [6, 0, 7] (sdp_channel_new sample_config 48) = (Some response, sc')
     \<and> poll store_example (map (\<lambda>p. ArrivedPacket (Acl p)) ps) sdp_session = (Inr (se_pending_events sdp_session), t)
     \<and> se_io t = Some io' \<and> bt_get (ps_sdp (se_protocols t)) 0x40 = Some sc'
     \<and> fragment_l2cap_pdu 7 0 6 (pdu_to_bytes (pdu_new 0x40 response) False) False = Inr fragments
     \<and> io_sent io' @ map Acl (fl_queued (ho_acl_flow (se_host t))) = map Acl fragments"
proof -
  let ?d = "pdu_to_bytes (pdu_new 0x40 [6, 0, 7]) False"
  have "complete_pdu ?d" by (rule pdu_complete) (simp add: pdu_new_def)
  then obtain ps where ps: "fragment_l2cap_pdu 7 0 6 ?d False = Inr ps" using fragment_shape [of 7 0 6 ?d False] by simp
  have "sv_mtu (hs_server (sdp_channel_new sample_config 48)) = 48"
    by (simp add: sdp_channel_new_def add_service_def server_new_def)
  with handle_sdu_answers [of "sdp_channel_new sample_config 48" "[6, 0, 7]"] obtain response sc'
    where r: "sdp_handle_sdu [6, 0, 7] (sdp_channel_new sample_config 48) = (Some response, sc')" "length response \<le> 48"
    by (cases "sdp_handle_sdu [6, 0, 7] (sdp_channel_new sample_config 48)") auto
  with sdp_request_answered [OF sdp_session_facts(1,2) connected_example_facts(5) sdp_session_facts(3) r(1), of 6 sample_io ps store_example]
    ps sdp_session_facts connected_example_facts(4,7,8,9,10) connected_example_queue
  show ?thesis by fastforce
qed

end
