(* ===== verification/Session_Open.thy ===== *)
theory Session_Open
  imports Session_Properties Identity Usb
begin

text \<open>
  Opening a session over USB, \<^verbatim>\<open>Session::open\<close> of \<^verbatim>\<open>src/src/session.rs\<close>: the selector, the preparation of an
  explicitly requested address through \<^verbatim>\<open>UsbIdentitySession\<close>, the initialization, and the comparison of the
  address the controller reports with the requested one.

  \<^verbatim>\<open>crate::usb::open\<close> reaches the USB library: its successive outcomes are a sequence in the world, each
  with the time it takes and, on success, a transport with what will arrive on it. Times are in
  milliseconds. An opening that never returns is the value \<open>None\<close>: the exchanges have no overall deadline, so an
  adapter that never pauses can keep it waiting.
\<close>

section \<open>The adapter behind the identity preparation\<close>

abbreviation (input) EVENT_VENDOR :: u8 where "EVENT_VENDOR \<equiv> 0xFF"
abbreviation (input) COMMAND_TIMEOUT :: nat where "COMMAND_TIMEOUT \<equiv> 5000"

record usb_world =
  uw_opens :: "(nat \<times> open_io option) list"
  uw_elapsed :: nat
  uw_sessions :: "open_io option list"
  uw_waiting :: bool

type_synonym 'a usb_action = "(usb_world, 'a, session_error) action"

text \<open>Nothing has been written to a transport that was just opened.\<close>

definition just_opened :: "open_io \<Rightarrow> open_io" where
  "just_opened io = io\<lparr>oi_io := (oi_io io)\<lparr>io_sent := []\<rparr>\<rparr>"

definition usb_open :: "open_io usb_action" where
  "usb_open w = (case uw_opens w of
       [] \<Rightarrow> (Inl (Failed OpenFailed), w)
     | (d, r) # rest \<Rightarrow> (ok_or (Failed OpenFailed) (map_option just_opened r), w\<lparr>uw_opens := rest, uw_elapsed := uw_elapsed w + d\<rparr>))"

definition identity_open :: "nat usb_action" where
  "identity_open = act_bind usb_open (\<lambda>io w. (Inr (length (uw_sessions w)), w\<lparr>uw_sessions := uw_sessions w @ [Some io]\<rparr>))"

text \<open>\<^verbatim>\<open>io_mut()?\<close> of the session with this handle, and an exchange on it. The world remembers an exchange that never
  returned; what follows one in a run never happens.\<close>

definition session_io :: "nat \<Rightarrow> usb_world \<Rightarrow> open_io option" where
  "session_io h w = (if h < length (uw_sessions w) then uw_sessions w ! h else None)"

definition on_session :: "nat \<Rightarrow> 'a open_action \<Rightarrow> 'a usb_action" where
  "on_session h op w = (case session_io h w of
       None \<Rightarrow> (Inl (Failed SessionClosed), w)
     | Some io \<Rightarrow> let (r, io') = op io in
         (r, w\<lparr>uw_sessions := (uw_sessions w)[h := Some io'], uw_waiting := uw_waiting w \<or> r = Inl NeverReturns\<rparr>))"

definition identity_initialize :: "u16 open_action" where
  "identity_initialize =
     act_bind (request HCI_READ_LOCAL_VERSION_INFORMATION []) (\<lambda>response.
     act_bind (act_lift (parse_version response)) (\<lambda>version. act_ok (cv_company_identifier version)))"

definition identity_read_address :: "bytes open_action" where
  "identity_read_address =
     act_bind (request HCI_READ_BD_ADDR []) (\<lambda>response.
     act_then (act_lift (require_len response 6)) (act_ok (rev response)))"

definition vendor_packet :: "csr_vendor_command \<Rightarrow> (command_packet, session_error) result" where
  "vendor_packet c = map_err (\<lambda>_. Failed ProtocolViolation) (command_new (cc_op_code c) (cc_parameters c))"

definition vendor_answer :: "csr_vendor_command \<Rightarrow> event_packet \<Rightarrow> (bytes, session_error) result option" where
  "vendor_answer c event =
     (let ps = ev_parameters event in
      if ev_event_code event = EVENT_VENDOR \<and> matches_csr_vendor_response c ps then Some (Inr ps)
      else if ev_event_code event = EVENT_COMMAND_STATUS then
        if length ps \<noteq> 4 then Some (Inl (Failed ProtocolViolation))
        else if handle_at ps 2 = cc_op_code c \<and> ps ! 0 \<noteq> 0 then Some (Inl (Failed OpenFailed))
        else None
      else None)"

definition await_vendor :: "csr_vendor_command \<Rightarrow> arrival stream \<Rightarrow> ((bytes, session_error) result \<times> arrival stream) option" where
  "await_vendor c = await_answer (vendor_answer c)"

definition send_vendor :: "csr_vendor_command \<Rightarrow> command_packet \<Rightarrow> bytes open_action" where
  "send_vendor c p = act_then (send_only p) (waiting (await_vendor c))"

definition identity_send_vendor_command :: "nat \<Rightarrow> csr_vendor_command \<Rightarrow> bytes usb_action" where
  "identity_send_vendor_command h c = act_bind (act_lift (vendor_packet c)) (\<lambda>p. on_session h (send_vendor c p))"

definition identity_send_without_response :: "nat \<Rightarrow> csr_vendor_command \<Rightarrow> unit usb_action" where
  "identity_send_without_response h c = act_bind (act_lift (vendor_packet c)) (\<lambda>p. on_session h (send_only p))"

definition identity_close :: "nat \<Rightarrow> unit usb_action" where
  "identity_close h w = (case session_io h w of
       None \<Rightarrow> (Inr (), w)
     | Some io \<Rightarrow> (io_close (oi_io io), w\<lparr>uw_sessions := (uw_sessions w)[h := None]\<rparr>))"

definition usb_identity_backend :: "(nat, usb_world, session_error) identity_backend" where
  "usb_identity_backend =
     \<lparr>ib_open = identity_open,
      ib_now = uw_elapsed,
      ib_sleep = (\<lambda>d w. w\<lparr>uw_elapsed := uw_elapsed w + d\<rparr>),
      is_initialize = (\<lambda>h _. on_session h identity_initialize),
      is_read_address = (\<lambda>h _. on_session h identity_read_address),
      is_send_vendor_command = (\<lambda>h c _. identity_send_vendor_command h c),
      is_send_command_without_response = identity_send_without_response,
      is_close = identity_close\<rparr>"

section \<open>Opening\<close>

fun map_identity_error :: "identity_error_kind \<Rightarrow> error_kind" where
  "map_identity_error UnsupportedAdapter = UnsupportedController"
| "map_identity_error FailedBeforeWrite = OpenFailed"
| "map_identity_error RecoveryRequired = AdapterIdentityRecoveryRequired"

definition identity_mismatch_kind :: "identity_preparation option \<Rightarrow> error_kind" where
  "identity_mismatch_kind preparation =
     (if preparation = Some Rewritten then AdapterIdentityRecoveryRequired else IdentityMismatch)"

definition prepare_explicit_identity ::
  "bluetooth_address \<Rightarrow> usb_world \<Rightarrow> ((identity_preparation, session_error) result \<times> usb_world) option" where
  "prepare_explicit_identity target w =
     (if addr_kind target \<noteq> Public then Some (Inl (Failed InvalidConfiguration), w)
      else case prepare_adapter_identity usb_identity_backend (rev (addr_bytes_le target))
          \<lparr>io_response_timeout = COMMAND_TIMEOUT, io_reenumeration_timeout = 10000, io_reenumeration_poll_interval = 100\<rparr> w of
        None \<Rightarrow> None
      | Some (r, w') \<Rightarrow>
          if uw_waiting w' then None else Some (map_err (\<lambda>e. Failed (map_identity_error (ie_kind e))) r, w'))"

text \<open>What follows the preparation.\<close>

definition open_driver ::
  "'s bond_store \<Rightarrow> session_config \<Rightarrow> 's \<Rightarrow> local_identity \<Rightarrow> identity_preparation option \<Rightarrow> usb_world
   \<Rightarrow> (('s backend_session, session_error) result \<times> usb_world) option" where
  "open_driver store config bonds local_identity preparation w =
     (case usb_open w of
        (Inl err, w1) \<Rightarrow> Some (Inl err, w1)
      | (Inr io, w1) \<Rightarrow>
          (case fst (session_initialize store config bonds io) of
             Inl err \<Rightarrow> if err = NeverReturns then None else Some (Inl err, w1)
           | Inr driver \<Rightarrow>
               (case local_identity of
                  AdapterDefault \<Rightarrow> Some (Inr driver, w1)
                | Explicit expected \<Rightarrow>
                    Some (if cap_local_address (se_capabilities driver) \<noteq> expected
                      then Inl (Failed (identity_mismatch_kind preparation)) else Inr driver, w1))))"

definition session_open ::
  "'s bond_store \<Rightarrow> string \<Rightarrow> session_config \<Rightarrow> local_identity \<Rightarrow> 's \<Rightarrow> usb_world
   \<Rightarrow> (('s backend_session, session_error) result \<times> usb_world) option" where
  "session_open store selector config local_identity bonds w =
     (case selector_parse selector of
        Inl _ \<Rightarrow> Some (Inl (Failed OpenFailed), w)
      | Inr _ \<Rightarrow>
          (case local_identity of
             AdapterDefault \<Rightarrow> open_driver store config bonds AdapterDefault None w
           | Explicit target \<Rightarrow>
               (case prepare_explicit_identity target w of
                  None \<Rightarrow> None
                | Some (Inl err, w1) \<Rightarrow> Some (Inl err, w1)
                | Some (Inr preparation, w1) \<Rightarrow>
                    open_driver store config bonds (Explicit target) (Some preparation) w1)))"

section \<open>Lemmas\<close>

lemma usb_clock_steady: "steady_clock usb_identity_backend"
proof -
  have later: "uw_elapsed w \<le> uw_elapsed (snd (usb_open w))" for w
    by (auto simp: usb_open_def split: list.split)
  have "uw_elapsed w \<le> uw_elapsed (snd (identity_open w))" for w
    using later [of w]
    by (cases rule: act_bind_cases [of usb_open w "\<lambda>io w. (Inr (length (uw_sessions w)),
        w\<lparr>uw_sessions := uw_sessions w @ [Some io]\<rparr>)"]) (simp_all add: identity_open_def)
  then show ?thesis by (simp add: steady_clock_def usb_identity_backend_def)
qed

text \<open>Whatever is kept by an exchange that sends a command, is kept by the whole preparation.\<close>

lemma on_session_keeps:
  assumes "\<And>w io. I w \<Longrightarrow> session_io h w = Some io \<Longrightarrow>
      I (w\<lparr>uw_sessions := (uw_sessions w)[h := Some (snd (op io))], uw_waiting := uw_waiting w \<or> fst (op io) = Inl NeverReturns\<rparr>)"
  shows "preserves I (on_session h op)"
  using assms by (auto simp: preserves_def on_session_def split_beta Let_def split: option.split)

definition source_pauses :: "open_io option \<Rightarrow> bool" where
  "source_pauses r \<longleftrightarrow> (case r of None \<Rightarrow> True | Some io \<Rightarrow> pauses (oi_arrivals io))"

definition adapter_pauses :: "usb_world \<Rightarrow> bool" where
  "adapter_pauses w \<longleftrightarrow> (\<forall>(_, r) \<in> set (uw_opens w). source_pauses r) \<and> (\<forall>r \<in> set (uw_sessions w). source_pauses r)
     \<and> \<not> uw_waiting w"

lemma vendor_answer_returns: "vendor_answer c event \<noteq> Some (Inl NeverReturns)"
  by (simp add: vendor_answer_def Let_def)

lemma returning_exchanges [returns]:
  "returning identity_initialize" "returning identity_read_address" "returning (send_vendor c p)"
  unfolding identity_initialize_def identity_read_address_def send_vendor_def await_vendor_def
  by (intro returns vendor_answer_returns; simp add: parse_version_def require_len_def res_bind_def split: sum.split)+

lemma exchange_pauses:
  assumes "returning op"
  shows "preserves adapter_pauses (on_session h op)"
proof (rule on_session_keeps)
  fix w io
  assume w: "adapter_pauses w" and io: "session_io h w = Some io"
  then have "pauses (oi_arrivals io)"
    by (auto simp: session_io_def adapter_pauses_def source_pauses_def split: if_splits option.splits dest: nth_mem)
  with assms have "fst (op io) \<noteq> Inl NeverReturns" "pauses (oi_arrivals (snd (op io)))" by (auto simp: returning_def)
  with w show "adapter_pauses (w\<lparr>uw_sessions := (uw_sessions w)[h := Some (snd (op io))],
      uw_waiting := uw_waiting w \<or> fst (op io) = Inl NeverReturns\<rparr>)"
    by (auto simp: adapter_pauses_def source_pauses_def dest!: set_update_subset_insert [THEN subsetD])
qed

lemma usb_open_result: "usb_open w = (Inr io, w') \<Longrightarrow> \<exists>d io0. (d, Some io0) \<in> set (uw_opens w) \<and> io = just_opened io0"
  by (auto simp: usb_open_def ok_or_def split: list.splits option.splits) blast

lemma identity_open_pauses: "preserves adapter_pauses identity_open"
proof (rule preservesI)
  fix w
  assume w: "adapter_pauses w"
  have kept: "adapter_pauses (snd (usb_open w))"
    using w by (auto simp: usb_open_def adapter_pauses_def split: list.split)
  show "adapter_pauses (snd (identity_open w))"
  proof (cases "usb_open w")
    case (Pair r w1)
    show ?thesis
    proof (cases r)
      case (Inr io)
      with Pair usb_open_result [of w io w1] w have "pauses (oi_arrivals io)"
        by (fastforce simp: adapter_pauses_def source_pauses_def just_opened_def)
      with Pair Inr kept show ?thesis
        by (auto simp: identity_open_def act_bind_def adapter_pauses_def source_pauses_def)
    qed (use Pair kept in \<open>simp add: identity_open_def act_bind_def\<close>)
  qed
qed

interpretation pausing: identity_invariant usb_identity_backend adapter_pauses
proof unfold_locales
  show "preserves adapter_pauses (is_close usb_identity_backend h)" for h
    by (auto simp: preserves_def usb_identity_backend_def identity_close_def adapter_pauses_def source_pauses_def
        split: option.split dest!: set_update_subset_insert [THEN subsetD])
  show "adapter_pauses w \<Longrightarrow> adapter_pauses (ib_sleep usb_identity_backend d w)" for w d
    by (simp add: usb_identity_backend_def adapter_pauses_def)
qed (auto simp: usb_identity_backend_def identity_open_pauses identity_send_vendor_command_def
    identity_send_without_response_def intro!: exchange_pauses returns preserves_intros)

text \<open>The preparation opens the adapter, it never makes up a transport.\<close>

interpretation opens: identity_invariant usb_identity_backend "\<lambda>w. set (uw_opens w) \<subseteq> T" for T
proof unfold_locales
  show "preserves (\<lambda>w. set (uw_opens w) \<subseteq> T) (ib_open usb_identity_backend)"
    by (auto simp: usb_identity_backend_def identity_open_def preserves_def act_bind_def usb_open_def
        split: list.split sum.split prod.split)
qed (auto simp: usb_identity_backend_def identity_send_vendor_command_def identity_send_without_response_def
    identity_close_def preserves_def act_bind_def on_session_def Let_def split_beta split: option.split sum.split)

lemma open_driver_ok:
  assumes "open_driver store config bonds identity preparation w = Some (Inr s, w')"
  shows "\<exists>d io as. (d, Some io) \<in> set (uw_opens w) \<and> session_initialize store config bonds (just_opened io) = (Inr s, as)
    \<and> (case identity of AdapterDefault \<Rightarrow> True | Explicit target \<Rightarrow> cap_local_address (se_capabilities s) = target)"
proof -
  from assms obtain io w1 where "usb_open w = (Inr io, w1)" "fst (session_initialize store config bonds io) = Inr s"
    and "case identity of AdapterDefault \<Rightarrow> True | Explicit target \<Rightarrow> cap_local_address (se_capabilities s) = target"
    by (auto simp: open_driver_def split: prod.splits sum.splits local_identity.splits if_splits)
  with usb_open_result [OF this(1)] show ?thesis by (metis prod.collapse)
qed

lemma session_initialize_returns:
  assumes "pauses (oi_arrivals io)"
  shows "fst (session_initialize store config bonds io) \<noteq> Inl NeverReturns"
proof -
  have "fst (initialize_controller config io) \<noteq> Inl NeverReturns"
    using returning_initialize assms by (auto simp: returning_def)
  moreover have "open_failed err \<noteq> NeverReturns" for err by (simp add: open_failed_def split: host_error.split)
  ultimately show ?thesis by (auto simp: session_initialize_def Let_def split: prod.split sum.split)
qed

lemma open_driver_returns:
  assumes "adapter_pauses w"
  shows "\<exists>y. open_driver store config bonds identity preparation w = Some y"
proof (cases "usb_open w")
  case (Pair r w1)
  show ?thesis
  proof (cases r)
    case (Inr io)
    with Pair usb_open_result [of w io w1] assms have "pauses (oi_arrivals io)"
      by (fastforce simp: adapter_pauses_def source_pauses_def just_opened_def)
    from session_initialize_returns [OF this, of store config bonds] Pair Inr show ?thesis
      by (auto simp: open_driver_def split: sum.split local_identity.split)
  qed (use Pair in \<open>simp add: open_driver_def\<close>)
qed

lemma prepare_returns:
  assumes "adapter_pauses w"
  shows "\<exists>r w'. prepare_explicit_identity target w = Some (r, w') \<and> adapter_pauses w'"
proof (cases "addr_kind target = Public")
  case True
  obtain r w' where p: "prepare_adapter_identity usb_identity_backend (rev (addr_bytes_le target))
      \<lparr>io_response_timeout = COMMAND_TIMEOUT, io_reenumeration_timeout = 10000, io_reenumeration_poll_interval = 100\<rparr> w
      = Some (r, w')"
    using prepare_ends [OF usb_clock_steady] by fastforce
  from pausing.prepare_keeps [OF this assms] have "adapter_pauses w'" .
  with p True show ?thesis by (auto simp: prepare_explicit_identity_def adapter_pauses_def)
qed (use assms in \<open>simp add: prepare_explicit_identity_def\<close>)

lemma session_open_ok:
  assumes "session_open store selector config identity bonds w = Some (Inr s, w')"
  shows "\<exists>d io as. (d, Some io) \<in> set (uw_opens w) \<and> session_initialize store config bonds (just_opened io) = (Inr s, as)
    \<and> (case identity of AdapterDefault \<Rightarrow> True
        | Explicit target \<Rightarrow> cap_local_address (se_capabilities s) = target \<and> addr_kind target = Public)"
proof (cases identity)
  case AdapterDefault
  with assms open_driver_ok [of store config bonds AdapterDefault None w s w'] show ?thesis
    by (auto simp: session_open_def split: sum.splits)
next
  case (Explicit target)
  with assms obtain p w1 where p: "prepare_explicit_identity target w = Some (Inr p, w1)"
    and driver: "open_driver store config bonds (Explicit target) (Some p) w1 = Some (Inr s, w')"
    by (auto simp: session_open_def split: sum.splits option.splits)
  from p obtain r where public: "addr_kind target = Public"
    and prep: "prepare_adapter_identity usb_identity_backend (rev (addr_bytes_le target)) \<lparr>io_response_timeout = COMMAND_TIMEOUT,
      io_reenumeration_timeout = 10000, io_reenumeration_poll_interval = 100\<rparr> w = Some (r, w1)"
    by (auto simp: prepare_explicit_identity_def split: if_splits option.splits)
  from opens.prepare_keeps [OF prep, of "set (uw_opens w)"] have "set (uw_opens w1) \<subseteq> set (uw_opens w)" by simp
  with open_driver_ok [OF driver] public Explicit show ?thesis by fastforce
qed

lemma session_open_returns:
  assumes "adapter_pauses w"
  shows "\<exists>r w'. session_open store selector config identity bonds w = Some (r, w')"
proof (cases identity)
  case AdapterDefault
  with open_driver_returns [OF assms, of store config bonds AdapterDefault None] show ?thesis
    by (auto simp: session_open_def split: sum.split)
next
  case (Explicit target)
  obtain r w1 where "prepare_explicit_identity target w = Some (r, w1)" "adapter_pauses w1"
    using prepare_returns [OF assms] by metis
  with open_driver_returns [of w1 store config bonds "Explicit target"] Explicit show ?thesis
    by (fastforce simp: session_open_def split: sum.split)
qed

text \<open>An adapter that answers the first command of an opening with unrelated packets only.\<close>

lemma exchange_never:
  assumes "io_faults (oi_io io) = []" "\<And>n. reaction (completion (cmd_opcode c)) (oi_arrivals io !! n) = None"
  shows "\<exists>io'. send_complete c io = (Inl NeverReturns, io')"
  using assms await_never_iff [of "completion (cmd_opcode c)" "oi_arrivals io"]
  by (simp add: send_complete_def act_then_def act_bind_def send_only_def io_send_def waiting_def await_completion_def)

lemma request_never:
  assumes "io_faults (oi_io io) = []" "\<And>n. reaction (completion opcode) (oi_arrivals io !! n) = None" "length ps \<le> 255"
  shows "\<exists>io'. request opcode ps io = (Inl NeverReturns, io')"
proof -
  have "command opcode ps = Inr \<lparr>cmd_opcode = opcode, cmd_parameters = ps\<rparr>" using assms(3) by (simp add: command_eq)
  with exchange_never [of io "\<lparr>cmd_opcode = opcode, cmd_parameters = ps\<rparr>"] assms(1,2) show ?thesis
    by (simp add: request_def)
qed

lemma default_open_never:
  assumes "selector_parse selector = Inr sel" "uw_opens w = (d, Some io) # rest" "io_faults (oi_io io) = []"
    and "\<And>n. reaction (completion HCI_RESET) (oi_arrivals io !! n) = None"
  shows "session_open store selector config AdapterDefault bonds w = None"
proof -
  obtain io' where "request HCI_RESET [] (just_opened io) = (Inl NeverReturns, io')"
    using request_never [of "just_opened io" HCI_RESET "[]"] assms(3,4) by (auto simp: just_opened_def)
  then have "fst (session_initialize store config bonds (just_opened io)) = Inl NeverReturns"
    by (simp add: session_initialize_def initialize_controller_def act_then_Inl)
  with assms(1,2) show ?thesis by (simp add: session_open_def open_driver_def usb_open_def ok_or_def)
qed

lemma explicit_open_never:
  assumes "selector_parse selector = Inr sel" "uw_opens w = (d, Some io) # rest" "io_faults (oi_io io) = []"
    and "\<And>n. reaction (completion HCI_READ_LOCAL_VERSION_INFORMATION) (oi_arrivals io !! n) = None" "addr_kind target = Public"
  shows "session_open store selector config (Explicit target) bonds w = None"
proof -
  obtain io' where "request HCI_READ_LOCAL_VERSION_INFORMATION [] (just_opened io) = (Inl NeverReturns, io')"
    using request_never [of "just_opened io" HCI_READ_LOCAL_VERSION_INFORMATION "[]"] assms(3,4) by (auto simp: just_opened_def)
  then have init: "identity_initialize (just_opened io) = (Inl NeverReturns, io')"
    by (simp add: identity_initialize_def act_bind_Inl)
  have "prepare_explicit_identity target w = None"
    using assms(2,5)
    by (simp add: prepare_explicit_identity_def prepare_adapter_identity_def usb_identity_backend_def identity_open_def
        act_bind_def usb_open_def ok_or_def on_session_def session_io_def init close_and_fail_def identity_close_def)
  with assms(1) show ?thesis by (simp add: session_open_def)
qed

lemma exchange_answered:
  assumes "io_faults (oi_io io) = []"
    and "\<And>m. m < n \<Longrightarrow> reaction (completion (cmd_opcode c)) (oi_arrivals io !! m) = None"
    and "reaction (completion (cmd_opcode c)) (oi_arrivals io !! n) = Some r"
  shows "send_complete c io = (r, io\<lparr>oi_io := (oi_io io)\<lparr>io_sent := io_sent (oi_io io) @ [Command c]\<rparr>,
    oi_arrivals := sdrop (Suc n) (oi_arrivals io)\<rparr>)"
  using assms(1) await_result [OF assms(2,3)]
  by (simp add: send_complete_def act_then_def act_bind_def send_only_def io_send_def waiting_def await_completion_def)

lemma exchange_never_iff:
  assumes "io_faults (oi_io io) = []"
  shows "fst (send_complete c io) = Inl NeverReturns
    \<longleftrightarrow> (\<forall>n. reaction (completion (cmd_opcode c)) (oi_arrivals io !! n) = None)"
proof -
  have "fst (send_complete c io) \<noteq> Inl NeverReturns" if reacts: "reaction (completion (cmd_opcode c)) (oi_arrivals io !! n) \<noteq> None" for n
  proof -
    obtain k r where k: "\<And>m. m < k \<Longrightarrow> reaction (completion (cmd_opcode c)) (oi_arrivals io !! m) = None"
      "reaction (completion (cmd_opcode c)) (oi_arrivals io !! k) = Some r"
      using first_reaction [OF reacts] by blast
    from exchange_answered [OF assms k] k(2) reaction_returns [of "completion (cmd_opcode c)", OF completion_returns]
    show ?thesis by auto
  qed
  with exchange_never [OF assms, of c] show ?thesis by fastforce
qed

section \<open>Examples\<close>

text \<open>An adapter whose address is the requested one already: on the first transport it answers the two questions of the
  preparation, on the second one the initialization.\<close>

definition active_adapter :: usb_world where
  "active_adapter = \<lparr>uw_opens =
     [(3, Some \<lparr>oi_io = sample_io, oi_arrivals =
         [completed HCI_READ_LOCAL_VERSION_INFORMATION [6, 0, 0, 6, 10, 0, 0, 0], completed HCI_READ_BD_ADDR [1, 2, 3, 4, 5, 6]]
         @- sconst ArrivedTimeout\<rparr>),
      (3, Some \<lparr>oi_io = sample_io, oi_arrivals =
         initialization_answers sample_session_config [6, 0, 0, 6, 10, 0, 0, 0] (replicate 10 0)
           [0xA8, 2, 0, 8, 0, 0, 0] [1, 2, 3, 4, 5, 6] @- sconst ArrivedTimeout\<rparr>)],
     uw_elapsed = 0, uw_sessions = [], uw_waiting = False\<rparr>"

lemma pausing_examples: "pauses (sconst ArrivedTimeout)"
  by (auto simp: pauses_def)

lemma selector_example: "\<exists>sel. selector_parse ''usb:0'' = Inr sel"
  by (simp add: selector_parse_def strip_prefix_def parse_usize_def parse_radix_def hex_digit_def)

lemma active_adapter_prepared:
  assumes "target = address_from_le_bytes [1, 2, 3, 4, 5, 6] Public"
  shows "\<exists>w. prepare_explicit_identity target active_adapter = Some (Inr AlreadyActive, w)
    \<and> uw_opens w = drop 1 (uw_opens active_adapter)"
proof -
  define as where "as = sconst ArrivedTimeout"
  define io where "io = \<lparr>oi_io = sample_io, oi_arrivals = as\<rparr>"
  have faults: "io_faults (oi_io io) = []" by (simp add: io_def sample_io_def)
  have start: "\<lparr>oi_io = sample_io, oi_arrivals = bs\<rparr> = state_at io [] bs" for bs by (simp add: io_def state_at_def)
  note step = answered_steps [OF faults]
  have init: "identity_initialize (state_at io [] (completed HCI_READ_LOCAL_VERSION_INFORMATION [6, 0, 0, 6, 10, 0, 0, 0] ## bs))
      = (Inr 10, state_at io [\<lparr>cmd_opcode = HCI_READ_LOCAL_VERSION_INFORMATION, cmd_parameters = []\<rparr>] bs)" for bs
    by (simp add: identity_initialize_def step parse_version_def require_len_def handle_at_def le16_of_def)
  have read: "identity_read_address (state_at io cs (completed HCI_READ_BD_ADDR [1, 2, 3, 4, 5, 6] ## bs))
      = (Inr [6, 5, 4, 3, 2, 1], state_at io (cs @ [\<lparr>cmd_opcode = HCI_READ_BD_ADDR, cmd_parameters = []\<rparr>]) bs)" for cs bs
    by (simp add: identity_read_address_def step require_len_def)
  have fresh: "just_opened (state_at io [] bs) = state_at io [] bs" for bs
    by (simp add: just_opened_def state_at_def io_def sample_io_def)
  have closes: "io_close (oi_io (state_at io cs bs)) = Inr ()" for cs bs
    by (simp add: io_close_def state_at_def io_def sample_io_def)
  show ?thesis
    by (simp add: assms address_from_le_bytes_def active_adapter_def start fresh prepare_explicit_identity_def prepare_adapter_identity_def
        usb_identity_backend_def identity_open_def act_bind_def usb_open_def ok_or_def on_session_def session_io_def
        init read identity_close_def closes)
qed

lemma active_adapter_opens:
  "\<exists>s w. session_open store_example ''usb:0'' sample_session_config
      (Explicit (address_from_le_bytes [1, 2, 3, 4, 5, 6] Public)) [] active_adapter = Some (Inr s, w)"
proof -
  let ?target = "address_from_le_bytes [1, 2, 3, 4, 5, 6] Public"
  obtain w where w: "prepare_explicit_identity ?target active_adapter = Some (Inr AlreadyActive, w)"
      "uw_opens w = drop 1 (uw_opens active_adapter)"
    using active_adapter_prepared [OF refl] by blast
  obtain s as where s: "session_initialize store_example sample_session_config [] \<lparr>oi_io = sample_io,
      oi_arrivals = initialization_answers sample_session_config [6, 0, 0, 6, 10, 0, 0, 0] (replicate 10 0)
        [0xA8, 2, 0, 8, 0, 0, 0] [1, 2, 3, 4, 5, 6] @- sconst ArrivedTimeout\<rparr> = (Inr s, as)"
      "cap_local_address (se_capabilities s) = ?target"
    using sample_opens [of "sconst ArrivedTimeout"] by blast
  obtain sel where "selector_parse ''usb:0'' = Inr sel" using selector_example by blast
  with w s show ?thesis
    by (simp add: session_open_def open_driver_def usb_open_def active_adapter_def ok_or_def just_opened_def sample_io_def)
qed

lemma active_adapter_pauses: "adapter_pauses active_adapter"
  by (simp add: adapter_pauses_def active_adapter_def source_pauses_def pausing_examples pauses_answers del: shift.simps)

section \<open>Properties\<close>

text \<open>C2: opening with an explicit address is honoured or refused. If it returns a session, then the controller at the end of
  a transport that was opened for it reported exactly the requested address, which is a public one, and was initialized
  from the start. A request for an address of another kind is refused before the adapter is touched. And it
  does return, whatever the adapter answers and however often it has to be opened again after a rewrite, if on every transport
  the adapter pauses again and again: some wait of five seconds is not ended by a packet.\<close>

theorem open_explicit_identity:
  "(\<forall>s w'. session_open store selector config (Explicit target) bonds w = Some (Inr s, w') \<longrightarrow>
      cap_local_address (se_capabilities s) = target \<and> addr_kind target = Public
      \<and> (\<exists>d io as. (d, Some io) \<in> set (uw_opens w) \<and> session_initialize store config bonds (just_opened io) = (Inr s, as)))
   \<and> (addr_kind target \<noteq> Public \<longrightarrow>
      (\<exists>err \<in> {Failed OpenFailed, Failed InvalidConfiguration}.
        session_open store selector config (Explicit target) bonds w = Some (Inl err, w)))
   \<and> (adapter_pauses w \<longrightarrow> (\<exists>r w'. session_open store selector config (Explicit target) bonds w = Some (r, w')))"
proof (intro conjI allI impI)
  show "cap_local_address (se_capabilities s) = target" "addr_kind target = Public"
    "\<exists>d io as. (d, Some io) \<in> set (uw_opens w) \<and> session_initialize store config bonds (just_opened io) = (Inr s, as)"
    if "session_open store selector config (Explicit target) bonds w = Some (Inr s, w')" for s w'
    using session_open_ok [OF that] by auto
  show "\<exists>err \<in> {Failed OpenFailed, Failed InvalidConfiguration}.
      session_open store selector config (Explicit target) bonds w = Some (Inl err, w)" if "addr_kind target \<noteq> Public"
    using that by (simp add: session_open_def prepare_explicit_identity_def split: sum.split)
qed (rule session_open_returns)

theorem open_explicit_identity_witness:
  "adapter_pauses active_adapter
   \<and> (\<exists>s w d io. session_open store_example ''usb:0'' sample_session_config
        (Explicit (address_from_le_bytes [1, 2, 3, 4, 5, 6] Public)) [] active_adapter = Some (Inr s, w)
      \<and> cap_local_address (se_capabilities s) = address_from_le_bytes [1, 2, 3, 4, 5, 6] Public
      \<and> (d, Some io) \<in> set (uw_opens active_adapter))
   \<and> (\<exists>err. session_open store_example ''usb:0'' sample_session_config
        (Explicit (address_from_le_bytes [1, 2, 3, 4, 5, 6] Random)) [] active_adapter = Some (Inl err, active_adapter))"
proof (intro conjI)
  obtain s w where s: "session_open store_example ''usb:0'' sample_session_config
      (Explicit (address_from_le_bytes [1, 2, 3, 4, 5, 6] Public)) [] active_adapter = Some (Inr s, w)"
    using active_adapter_opens by blast
  with open_explicit_identity [of store_example "''usb:0''" sample_session_config
      "address_from_le_bytes [1, 2, 3, 4, 5, 6] Public" "[]" active_adapter]
  show "\<exists>s w d io. session_open store_example ''usb:0'' sample_session_config
        (Explicit (address_from_le_bytes [1, 2, 3, 4, 5, 6] Public)) [] active_adapter = Some (Inr s, w)
      \<and> cap_local_address (se_capabilities s) = address_from_le_bytes [1, 2, 3, 4, 5, 6] Public
      \<and> (d, Some io) \<in> set (uw_opens active_adapter)" by fastforce
  from open_explicit_identity [of store_example "''usb:0''" sample_session_config
      "address_from_le_bytes [1, 2, 3, 4, 5, 6] Random" "[]" active_adapter]
  show "\<exists>err. session_open store_example ''usb:0'' sample_session_config
        (Explicit (address_from_le_bytes [1, 2, 3, 4, 5, 6] Random)) [] active_adapter = Some (Inl err, active_adapter)"
    by (auto simp: address_from_le_bytes_def)
qed (rule active_adapter_pauses)

text \<open>C27: an exchange has no overall deadline, and neither has opening. Once a command is written, what the call returns is decided by
  the first outcome of a wait that concerns it: a timeout, a failure of the transport, a malformed or failed
  completion, or the completion of that command. It never returns exactly when no such outcome ever comes: since every unrelated
  packet restarts the wait, an adapter that keeps sending them keeps the application in \<^verbatim>\<open>Session::open\<close> for ever, with the address
  of the adapter at its first command and with an explicit address at the first one of the preparation.\<close>

theorem opening_without_deadline:
  assumes "io_faults (oi_io io) = []"
  shows "(\<forall>n r. (\<forall>m<n. reaction (completion (cmd_opcode c)) (oi_arrivals io !! m) = None)
        \<and> reaction (completion (cmd_opcode c)) (oi_arrivals io !! n) = Some r \<longrightarrow>
        send_complete c io = (r, io\<lparr>oi_io := (oi_io io)\<lparr>io_sent := io_sent (oi_io io) @ [Command c]\<rparr>,
          oi_arrivals := sdrop (Suc n) (oi_arrivals io)\<rparr>))
    \<and> (fst (send_complete c io) = Inl NeverReturns
        \<longleftrightarrow> (\<forall>n. reaction (completion (cmd_opcode c)) (oi_arrivals io !! n) = None))
    \<and> (selector_parse selector = Inr sel \<and> uw_opens w = (d, Some io) # rest
        \<and> (\<forall>n. reaction (completion HCI_RESET) (oi_arrivals io !! n) = None) \<longrightarrow>
        session_open store selector config AdapterDefault bonds w = None)
    \<and> (selector_parse selector = Inr sel \<and> uw_opens w = (d, Some io) # rest \<and> addr_kind target = Public
        \<and> (\<forall>n. reaction (completion HCI_READ_LOCAL_VERSION_INFORMATION) (oi_arrivals io !! n) = None) \<longrightarrow>
        session_open store selector config (Explicit target) bonds w = None)"
  by (intro conjI exchange_never_iff assms; clarify; (rule exchange_answered [OF assms]
      | erule (1) default_open_never [OF _ _ assms] | erule (1) explicit_open_never [OF _ _ assms]); blast)

text \<open>An adapter that sends a vendor event every few seconds and nothing else.\<close>

theorem opening_without_deadline_witness:
  "session_open store_example ''usb:0'' sample_session_config AdapterDefault []
      \<lparr>uw_opens = [(0, Some \<lparr>oi_io = sample_io,
         oi_arrivals = sconst (ArrivedPacket (Event \<lparr>ev_event_code = EVENT_VENDOR, ev_parameters = []\<rparr>))\<rparr>)],
       uw_elapsed = 0, uw_sessions = [], uw_waiting = False\<rparr> = None"
proof -
  let ?io = "\<lparr>oi_io = sample_io, oi_arrivals = sconst (ArrivedPacket (Event \<lparr>ev_event_code = EVENT_VENDOR, ev_parameters = []\<rparr>))\<rparr>"
  obtain sel where sel: "selector_parse ''usb:0'' = Inr sel" using selector_example by blast
  have "io_faults (oi_io ?io) = []" by (simp add: sample_io_def)
  from opening_without_deadline [OF this, of _ "''usb:0''" sel
      "\<lparr>uw_opens = [(0, Some ?io)], uw_elapsed = 0, uw_sessions = [], uw_waiting = False\<rparr>" 0 "[]" store_example
      sample_session_config "[]"] sel
  show ?thesis by (simp add: completion_def)
qed

end
