(* ===== verification/Public_Api.thy ===== *)
theory Public_Api
  imports Session_Open
begin

text \<open>
  The surface of \<^verbatim>\<open>src/src/api.rs\<close>: the options of an opening, the \<^verbatim>\<open>Session\<close> that forwards to its driver, the errors with
  their texts, and the debug texts, which leave out what is secret. The driver of a session is the only implementation of
  \<^verbatim>\<open>SessionDriver\<close>, \<^verbatim>\<open>BackendSession\<close>.
\<close>

section \<open>Options\<close>

datatype adapter_selector = AdapterSelector (as_str: string)

definition adapter_debug :: "adapter_selector \<Rightarrow> string" where
  "adapter_debug a = ''AdapterSelector('' @ [CHR 0x22] @ ''<redacted>'' @ [CHR 0x22] @ '')''"

text \<open>The notifier is whether its \<open>n\<close>-th call returns, as in the model of the reader thread.\<close>

record open_options =
  oo_adapter :: adapter_selector
  oo_config :: session_config
  oo_local_identity :: local_identity
  oo_activity :: "nat \<Rightarrow> bool"

definition open_options_new :: "adapter_selector \<Rightarrow> session_config \<Rightarrow> (nat \<Rightarrow> bool) \<Rightarrow> open_options" where
  "open_options_new adapter config activity =
     \<lparr>oo_adapter = adapter, oo_config = config, oo_local_identity = AdapterDefault, oo_activity = activity\<rparr>"

definition with_local_identity :: "local_identity \<Rightarrow> open_options \<Rightarrow> open_options" where
  "with_local_identity identity options = options\<lparr>oo_local_identity := identity\<rparr>"

definition into_parts :: "open_options \<Rightarrow> adapter_selector \<times> session_config \<times> local_identity \<times> (nat \<Rightarrow> bool)" where
  "into_parts options = (oo_adapter options, oo_config options, oo_local_identity options, oo_activity options)"

section \<open>Errors\<close>

record 'e api_error =
  er_kind :: error_kind
  er_source :: "'e option"

definition error_new :: "error_kind \<Rightarrow> 'e api_error" where
  "error_new kind = \<lparr>er_kind = kind, er_source = None\<rparr>"

definition error_with_source :: "error_kind \<Rightarrow> 'e \<Rightarrow> 'e api_error" where
  "error_with_source kind source = \<lparr>er_kind = kind, er_source = Some source\<rparr>"

fun kind_message :: "error_kind \<Rightarrow> string" where
  "kind_message InvalidConfiguration = ''backend configuration is invalid''"
| "kind_message OpenFailed = ''Bluetooth adapter could not be opened or initialized''"
| "kind_message InvalidControllerIdentity = ''Bluetooth controller returned an invalid identity''"
| "kind_message IdentityMismatch = ''Bluetooth controller identity does not match the requested identity''"
| "kind_message AdapterIdentityRecoveryRequired = ''Bluetooth adapter identity is uncertain after a write''"
| "kind_message UnsupportedController = ''Bluetooth controller lacks required Classic ACL capability''"
| "kind_message InvalidBondStore = ''Classic bond store could not be accessed''"
| "kind_message NoBond = ''no single reconnectable Classic bond exists''"
| "kind_message SessionClosed = ''backend session is closed''"
| "kind_message SendRejected = ''backend session rejected the interrupt report''"
| "kind_message DrainTimedOut = ''backend interrupt queue did not drain before the deadline''"
| "kind_message EventQueueOverflow = ''backend application event queue overflowed''"
| "kind_message SourceTerminated = ''Bluetooth packet source terminated''"
| "kind_message CloseFailed = ''backend session could not be closed cleanly''"
| "kind_message ProtocolViolation = ''Bluetooth protocol packet is invalid or unsupported''"

definition error_display :: "'e api_error \<Rightarrow> string" where
  "error_display err = kind_message (er_kind err)"

fun bond_store_message :: "bond_store_error \<Rightarrow> string" where
  "bond_store_message LoadFailed = ''Classic bond could not be read''"
| "bond_store_message ListFailed = ''Classic bonds could not be listed''"
| "bond_store_message UpsertFailed = ''Classic bond could not be persisted''"

text \<open>The decimal text of a number and the \<^verbatim>\<open>Debug\<close> text of a bond.\<close>

fun decimal :: "nat \<Rightarrow> string" where
  "decimal n = (if n < 10 then [] else decimal (n div 10)) @ [char_of (48 + n mod 10)]"

definition bond_debug :: "classic_bond \<Rightarrow> string" where
  "bond_debug bond =
     ''ClassicBond { link_key: '' @ [CHR 0x22] @ ''<redacted>'' @ [CHR 0x22]
     @ '', link_key_type: '' @ decimal (unat (bond_link_key_type bond))
     @ '', authenticated: '' @ (if bond_authenticated bond then ''true'' else ''false'') @ '' }''"

section \<open>The session\<close>

text \<open>\<^verbatim>\<open>Box<T>\<close> is a bond store that forwards to the one inside.\<close>

definition boxed_store :: "'s bond_store \<Rightarrow> 's bond_store" where
  "boxed_store inner =
     \<lparr>select_local_address = select_local_address inner, bs_load = bs_load inner, bs_load_all = bs_load_all inner,
      bs_upsert = bs_upsert inner\<rparr>"

record 's session =
  sn_driver :: "'s backend_session"

definition on_driver :: "('s, 'a) session_action \<Rightarrow> ('s session, 'a, session_error) action" where
  "on_driver op s = (let (r, d) = op (sn_driver s) in (r, s\<lparr>sn_driver := d\<rparr>))"

definition api_open ::
  "'s bond_store \<Rightarrow> open_options \<Rightarrow> 's \<Rightarrow> usb_world \<Rightarrow> (('s session, session_error) result \<times> usb_world) option" where
  "api_open store options bonds w =
     (let (adapter, config, identity, activity) = into_parts options in
      map_option (\<lambda>(r, w'). (case r of Inl err \<Rightarrow> Inl err | Inr driver \<Rightarrow> Inr \<lparr>sn_driver = driver\<rparr>, w'))
        (session_open (boxed_store store) (as_str adapter) config identity bonds w))"

definition api_capabilities :: "'s session \<Rightarrow> capabilities" where
  "api_capabilities s = se_capabilities (sn_driver s)"

definition api_start_pairing :: "('s session, unit, session_error) action" where
  "api_start_pairing = on_driver start_pairing"

definition api_start_reconnect :: "'s bond_store \<Rightarrow> ('s session, unit, session_error) action" where
  "api_start_reconnect store = on_driver (start_reconnect store)"

definition api_poll :: "'s bond_store \<Rightarrow> arrival list \<Rightarrow> ('s session, api_event list, session_error) action" where
  "api_poll store as = on_driver (poll store as)"

definition api_capacity_available :: "'s session \<Rightarrow> bool" where
  "api_capacity_available s = send_capacity_available (sn_driver s)"

definition api_send_interrupt :: "bytes \<Rightarrow> ('s session, unit, session_error) action" where
  "api_send_interrupt payload = on_driver (send_interrupt payload)"

definition api_drain_interrupt :: "'s bond_store \<Rightarrow> arrival option list \<Rightarrow> ('s session, unit, session_error) action" where
  "api_drain_interrupt store as = on_driver (drain_interrupt store as)"

definition api_disconnect :: "('s session, unit, session_error) action" where
  "api_disconnect = on_driver session_disconnect"

definition api_close :: "('s session, unit, session_error) action" where
  "api_close = on_driver session_close"

section \<open>Lemmas\<close>

definition api_call :: "'s bond_store \<Rightarrow> session_op \<Rightarrow> ('s session, unit, session_error) action" where
  "api_call store op = on_driver (session_call store op)"

definition api_step :: "'s bond_store \<Rightarrow> 's session \<Rightarrow> session_op \<Rightarrow> 's session" where
  "api_step store s op = snd (api_call store op s)"

lemma boxed_store_same [simp]: "boxed_store store = store"
  by (simp add: boxed_store_def)

lemma on_driver_results:
  "fst (on_driver op s) = fst (op (sn_driver s))" "sn_driver (snd (on_driver op s)) = snd (op (sn_driver s))"
  by (simp_all add: on_driver_def Let_def split: prod.split)

lemma api_steps_driver: "sn_driver (foldl (api_step store) s ops) = foldl (session_step store) (sn_driver s) ops"
  by (induction ops arbitrary: s) (simp_all add: api_step_def api_call_def session_step_def on_driver_results)

section \<open>Properties\<close>

text \<open>The public interface is safe from the opening on. If opening with any options over an accepted configuration returns a session,
  then whatever the application calls and whatever arrives from the adapter, at most 64 events wait, the capabilities stay those
  of the opening, which carry the requested address if one was requested, and no call panics.\<close>

theorem public_session_safe:
  assumes "session_config_new local_name class_of_device hid_service = Inr config"
    and "options = with_local_identity identity (open_options_new adapter config activity)"
    and "api_open store options bonds w = Some (Inr s0, w')"
  shows "let s = foldl (api_step store) s0 ops in
    length (se_pending_events (sn_driver s)) \<le> 64
    \<and> api_capabilities s = api_capabilities s0
    \<and> (\<forall>target. identity = Explicit target \<longrightarrow> cap_local_address (api_capabilities s) = target)
    \<and> fst (api_call store op s) \<noteq> Inl (Panicked msg)"
proof -
  obtain r where "session_open store (as_str adapter) config identity bonds w = Some (r, w')"
    and "(case r of Inl err \<Rightarrow> Inl err | Inr driver \<Rightarrow> Inr \<lparr>sn_driver = driver\<rparr>) = Inr s0"
    using assms(2,3) by (auto simp: api_open_def into_parts_def with_local_identity_def open_options_new_def)
  then have "session_open store (as_str adapter) config identity bonds w = Some (Inr (sn_driver s0), w')"
    by (cases r) auto
  from session_open_ok [OF this] obtain io as where
    "session_initialize store config bonds (just_opened io) = (Inr (sn_driver s0), as)"
    and identity: "case identity of AdapterDefault \<Rightarrow> True | Explicit target \<Rightarrow>
      cap_local_address (se_capabilities (sn_driver s0)) = target \<and> addr_kind target = Public" by blast
  from session_stays_safe [OF assms(1) _ this(1), of ops op msg]
  have "let s = foldl (session_step store) (sn_driver s0) ops in length (se_pending_events s) \<le> 64
      \<and> se_capabilities s = se_capabilities (sn_driver s0) \<and> fst (session_call store op s) \<noteq> Inl (Panicked msg)"
    by (simp add: just_opened_def Let_def)
  with identity show ?thesis
    by (auto simp: Let_def api_steps_driver api_capabilities_def api_call_def on_driver_results)
qed

text \<open>what is secret stays out of the texts. The debug text of a bond is the same whatever the link key, that of a selector the same
  whatever the selector, and the text of an error depends on its kind alone, of which it tells every one apart.\<close>

theorem texts_redacted:
  "bond_debug (bond\<lparr>bond_link_key := key\<rparr>) = bond_debug bond
   \<and> adapter_debug a = adapter_debug b
   \<and> (error_display err = error_display err' \<longleftrightarrow> er_kind err = er_kind err')"
proof -
  have "kind_message k = kind_message k' \<longleftrightarrow> k = k'" for k k'
    by (cases k; cases k'; simp)
  then show ?thesis by (simp add: bond_debug_def adapter_debug_def error_display_def)
qed

end
