(* ===== verification/Spec2Isabelle.thy ===== *)
theory Spec2Isabelle
  imports Hci L2cap_Codec Ertm L2cap_Channel Values Classic_Host Hid_Sdp Identity Usb_Serial Usb_Hci
    Session_Reconnect Session_Sdp Public_Api
begin

text \<open>
  A verification library for the Bluetooth Classic HID device backend of \<^verbatim>\<open>src/src\<close>.

  \<^bold>\<open>The program.\<close> A session owns one USB Bluetooth controller. \<^verbatim>\<open>usb.rs\<close> claims it and frames HCI packets out of USB
  transfers on a reader thread;
  \<^verbatim>\<open>session.rs\<close> initializes the controller and runs the session, one packet at a time; \<^verbatim>\<open>classic_host.rs\<close>
  reacts to the HCI events of one link, spends the ACL buffers of the controller and passes reassembled
  L2CAP frames to the channel manager of \<^verbatim>\<open>l2cap/classic.rs\<close>, which negotiates channels and, in enhanced
  retransmission mode, runs one engine of \<^verbatim>\<open>l2cap/ertm.rs\<close> per channel. SDUs of the SDP channels go to the
  server of \<^verbatim>\<open>sdp/\<close> through \<^verbatim>\<open>hid_service.rs\<close>, those of the two HID channels to the HIDP runtime of
  \<^verbatim>\<open>hidp.rs\<close>. \<^verbatim>\<open>identity.rs\<close> and \<^verbatim>\<open>csr.rs\<close> rewrite the address of a controller before it is opened.
  \<^verbatim>\<open>values.rs\<close> and \<^verbatim>\<open>api.rs\<close> hold the value, configuration and event types, and \<^verbatim>\<open>api.rs\<close> the session that an
  application sees.

  \<^bold>\<open>The theories.\<close>
  \<^item> \<open>Prelude\<close>: bytes, words, results and the actions that pass a state along; \<open>Interfaces\<close>: the
    contracts between components as locales. Codecs, ordered maps and invariant-keeping machines are
    proved once there and interpreted in the theories of their providers.
  \<^item> \<open>Hci\<close> (\<^verbatim>\<open>hci.rs\<close>): packets, fragmentation, the assembler per handle. Strict round trips; any
    fragmentation is reassembled.
  \<^item> \<open>L2cap_Codec\<close> (\<^verbatim>\<open>l2cap/mod.rs\<close>): CRC, PSM fields, PDUs, signaling frames, options. Round trips; the
    CRC detects every corruption of two adjacent bytes.
  \<^item> \<open>Ertm\<close> (\<^verbatim>\<open>l2cap/ertm.rs\<close>): the engine. Invariant of every reachable engine, delivery of an SDU between
    two engines, exact acknowledgement, retransmission on timeout, finality of a failure.
  \<^item> \<open>L2cap_Channel\<close> (\<^verbatim>\<open>l2cap/classic.rs\<close>): the channel manager. Invariant of every reachable manager, the
    allowed transitions of a channel, completion of the connection handshake.
  \<^item> \<open>Classic_Host\<close> (\<^verbatim>\<open>classic_host.rs\<close>): credits, events, ACL data path. No more packets in flight than
    buffers, no panic, transfer of an SDU from host to host, the pairing sequence.
  \<^item> \<open>Values\<close>, \<open>Api\<close> (\<^verbatim>\<open>values.rs\<close>, \<^verbatim>\<open>api.rs\<close>): addresses with exactly the texts that denote them, UUIDs, bonds; configuration,
    events, errors.
  \<^item> \<open>Sdp_Data\<close>, \<open>Sdp_Pdu\<close>, \<open>Sdp_Service\<close> (\<^verbatim>\<open>sdp/\<close>): data elements with their nesting limit of 32, PDUs, the
    server and the client with its watchdog of 64 exchanges. Sound and terminating parsers; the answer a
    client assembles from continuations refines the query on the records.
  \<^item> \<open>Hidp\<close>, \<open>Hid_Service\<close>, \<open>Hid_Sdp\<close> (\<^verbatim>\<open>hidp.rs\<close>, \<^verbatim>\<open>hid_service.rs\<close>): messages, device and host runtimes, the
    bridge, the service record. The bridge refines its contract; a client discovers the whole record.
  \<^item> \<open>Csr\<close>, \<open>Identity\<close> (\<^verbatim>\<open>csr.rs\<close>, \<^verbatim>\<open>identity.rs\<close>): vendor commands and the fail-closed rewrite of the address.
  \<^item> \<open>Usb\<close> (\<^verbatim>\<open>usb.rs\<close>): selectors, choice of the device, framing, polling, writing. A stream cut into
    transfers anywhere gives its packets back; polling loses no byte.
  \<^item> \<open>Usb_Reader\<close>, \<open>Usb_Serial\<close> (\<^verbatim>\<open>usb.rs\<close>): the reader thread and the owner of the transport as a step relation over the
    shared device, flag, channel and notifier. In every interleaving nothing is lost or reordered and no wake-up is
    missing; under a scheduler that does not neglect the reader a close returns; the streams of all interleavings are those of
    a sequential loop.
  \<^item> \<open>Usb_Open\<close>, \<open>Usb_Hci\<close> (\<^verbatim>\<open>usb.rs\<close>, \<^verbatim>\<open>session.rs\<close>): opening and claiming an adapter with exactly the calls it takes, the
    opened adapter, and the transport it is under a session. Closing settles; the end of the reader is final.
  \<^item> \<open>Controller\<close> (\<^verbatim>\<open>session.rs\<close>): transport, command exchange, initialization, decoding of events. What an exchange
    returns, and exactly when it does; the commands of a successful initialization.
  \<^item> \<open>Session\<close>, \<open>Session_Driver\<close>, \<open>Session_Properties\<close>, \<open>Session_Open\<close> (\<^verbatim>\<open>session.rs\<close>): the session state
    (\<^verbatim>\<open>BackendSession\<close> is the record \<open>backend_session\<close>), the loops that empty the host and the open channels,
    the operations of \<^verbatim>\<open>SessionDriver\<close>, and \<^verbatim>\<open>Session::open\<close>. Every reachable session keeps its invariant and
    does not panic; failures and closing are final; strangers are refused; reports reach the controller. Opening with an
    explicit address honours it or refuses it, and returns if the adapter pauses again and again; one that never pauses can
    keep it waiting for ever.
  \<^item> \<open>Session_Flows\<close>, \<open>Session_Pairing\<close>, \<open>Session_Channels\<close>, \<open>Session_Dialling\<close>, \<open>Session_Reconnect\<close>, \<open>Session_Sdp\<close>: what a poll
    does from the packets of the controller to the events and the written packets, across all components: a peer is paired, it opens
    a HID channel, a bonded peer is reconnected and the session opens both HID channels, output reports are delivered, service queries
    are answered.
  \<^item> \<open>Public_Api\<close> (\<^verbatim>\<open>api.rs\<close>): options, errors with their texts, redacted debug texts, the session of the application. Once
    opened no call panics and the capabilities stay those of the opening.

  \<^bold>\<open>Correspondence.\<close> A struct is a record with the fields of the source under a prefix, an enum a datatype, a method
  an action that takes the state and returns a result with the new state; \<^verbatim>\<open>?\<close> is \<open>act_bind\<close>. A
  \<^verbatim>\<open>BTreeMap\<close> is an association list sorted by key, a \<^verbatim>\<open>VecDeque\<close> a list. Integers are words of their width and wrap
  as in a release build; lengths and indices of type \<^verbatim>\<open>usize\<close> are natural numbers. A panic of an
  \<^verbatim>\<open>expect\<close> on the state is a value of the error type of its component, and proved unreachable; indices and
  conversions right behind a check of the length have no panic value.

  \<^bold>\<open>Loops and bounds.\<close> The loops over data and over the state of the session are total functions with a termination
  proof. The loop that empties the output of the
  host ends because only connection events reset the protocol state, none is produced while emptying, and each of
  the two HID channels is opened once in between; the loops over received SDUs end because an answer never
  adds to what was received. Loops whose end is up to the environment are partial functions to options, where \<open>None\<close> means
  that they never return: the wait for an adapter to come back is shown to return for every clock that advances; the wait
  for the answer to a command reads an infinite stream of outcomes and is shown to return exactly when one of them
  concerns it. The call that waits for ever has the result \<open>NeverReturns\<close>, and an opening in which one occurs is
  \<open>None\<close>. A \<^verbatim>\<open>poll\<close> takes the packets it reads as a list, up to the moment when nothing is waiting, so its statements are about
  polls that return. After
  the shutdown flag is stored the reader takes at most five more steps, which is the fuel of \<open>opened_close\<close>.

  \<^bold>\<open>The environment.\<close> What a controller sends, whether a write succeeds and when a deadline passes are explicit sequences
  over which the theorems quantify. The bond store of the application, the HIDP delegate and the USB library are
  records of functions; where a theorem relies on documented behaviour of one of them it says so in a hypothesis.

  \<^bold>\<open>Not modelled.\<close> The texts of \<^verbatim>\<open>Display\<close> and \<^verbatim>\<open>Debug\<close> outside \<^verbatim>\<open>api.rs\<close> and the bond, the sources errors carry, hashing, and
  durations: a wait is an outcome, whenever it comes. The tests inside the source files are not part of the program.
\<close>

end
